(* ===== verification/Prelude.thy ===== *)
theory Prelude
  imports Main "HOL-Library.Word"
begin

text \<open>
  Shared material of the development: the widths of the machine integers the code uses,
  the C++ exceptions as a result type with its sequencing operators, the named collections
  the component proofs draw on, and generic facts on lists and on state machines.

  A C++ function that may throw is modelled by a function into \<open>'a res\<close>: \<open>Inl e\<close> when an
  exception (or undefined behaviour) ends it, \<open>Inr x\<close> when it returns \<open>x\<close>.  None of the
  modelled callers catches an exception, so the state at the throw is not kept.
\<close>

section \<open>Machine integers\<close>

type_synonym u8 = "8 word"
type_synonym u16 = "16 word"
type_synonym u32 = "32 word"
type_synonym u64 = "64 word"
type_synonym i8 = "8 word"
type_synonym i32 = "32 word"
type_synonym i64 = "64 word"

text \<open>\<open>i8\<close>, \<open>i32\<close> and \<open>i64\<close> are the same words read with \<open>sint\<close>.
  The value \<open>std::numeric_limits<std::uint32_t>::max()\<close> marks "no sequence yet" and
  "discard" in several components.\<close>

definition uint32_max :: u32 where
  "uint32_max = 4294967295"

section \<open>Exceptions\<close>

datatype exn =
    Runtime_error string
  | Invalid_argument string
  | Out_of_range
  | Undefined_behaviour

type_synonym 'a res = "exn + 'a"

definition bind_res :: "'a res \<Rightarrow> ('a \<Rightarrow> 'b res) \<Rightarrow> 'b res" where
  "bind_res r f = (case r of Inl e \<Rightarrow> Inl e | Inr x \<Rightarrow> f x)"

definition map_res :: "('a \<Rightarrow> 'b) \<Rightarrow> 'a res \<Rightarrow> 'b res" where
  "map_res f r = bind_res r (\<lambda>x. Inr (f x))"

text \<open>\<open>std::for_each\<close> over a container, with a body that may throw.\<close>

fun traverse :: "('a \<Rightarrow> 'b res) \<Rightarrow> 'a list \<Rightarrow> 'b list res" where
  "traverse f [] = Inr []"
| "traverse f (x # xs) = bind_res (f x) (\<lambda>y. bind_res (traverse f xs) (\<lambda>ys. Inr (y # ys)))"

fun fold_res :: "('a \<Rightarrow> 's \<Rightarrow> 's res) \<Rightarrow> 'a list \<Rightarrow> 's \<Rightarrow> 's res" where
  "fold_res f [] s = Inr s"
| "fold_res f (x # xs) s = bind_res (f x s) (fold_res f xs)"

named_theorems res_simps \<open>evaluation of sequenced fallible computations\<close>

lemma bind_res_simps [simp, res_simps]:
  "bind_res (Inl e) f = Inl e"
  "bind_res (Inr x) f = f x"
  by (simp_all add: bind_res_def)

lemma bind_res_Inr_iff: "bind_res r f = Inr y \<longleftrightarrow> (\<exists>x. r = Inr x \<and> f x = Inr y)"
  by (cases r) auto

lemma bind_res_assoc: "bind_res (bind_res r f) g = bind_res r (\<lambda>x. bind_res (f x) g)"
  by (cases r) auto

lemma bind_res_Inl_iff:
  "bind_res r f = Inl e \<longleftrightarrow> r = Inl e \<or> (\<exists>x. r = Inr x \<and> f x = Inl e)"
  by (cases r) auto

lemma bind_res_cong [fundef_cong]:
  "r = r' \<Longrightarrow> (\<And>x. r' = Inr x \<Longrightarrow> f x = g x) \<Longrightarrow> bind_res r f = bind_res r' g"
  by (cases r') auto

lemma map_res_simps [simp, res_simps]:
  "map_res f (Inl e) = Inl e"
  "map_res f (Inr x) = Inr (f x)"
  by (simp_all add: map_res_def)

lemma map_res_Inr_iff: "map_res f r = Inr y \<longleftrightarrow> (\<exists>x. r = Inr x \<and> y = f x)"
  by (cases r) auto

lemma traverse_Inr_iff:
  "traverse f xs = Inr ys \<longleftrightarrow> list_all2 (\<lambda>x y. f x = Inr y) xs ys"
  by (induction xs arbitrary: ys) (auto simp: bind_res_Inr_iff list_all2_Cons1)

lemma fold_res_append:
  "fold_res f (xs @ ys) s = bind_res (fold_res f xs s) (fold_res f ys)"
proof (induction xs arbitrary: s)
  case (Cons x xs)
  then show ?case by (cases "f x s") auto
qed simp

text \<open>An invariant kept by every step of a loop holds after the loop.\<close>

lemma fold_res_inv:
  assumes "fold_res f xs s = Inr t" and "P s"
    and "\<And>x s t. x \<in> set xs \<Longrightarrow> P s \<Longrightarrow> f x s = Inr t \<Longrightarrow> P t"
  shows "P t"
  using assms by (induction xs arbitrary: s) (auto simp: bind_res_Inr_iff)

lemma fold_res_total:
  assumes "P s" and "\<And>x s. x \<in> set xs \<Longrightarrow> P s \<Longrightarrow> \<exists>t. f x s = Inr t \<and> P t"
  shows "\<exists>t. fold_res f xs s = Inr t \<and> P t"
  using assms
proof (induction xs arbitrary: s)
  case (Cons x xs)
  then obtain t where "f x s = Inr t" "P t" by (meson list.set_intros(1))
  with Cons show ?case by simp
qed simp

section \<open>Lists\<close>

text \<open>\<open>std::deque::insert(begin() + i, x)\<close>, \<open>erase(begin() + i)\<close> and \<open>resize(n, x)\<close>.\<close>

definition insert_at :: "nat \<Rightarrow> 'a \<Rightarrow> 'a list \<Rightarrow> 'a list" where
  "insert_at i x xs = take i xs @ x # drop i xs"

definition erase_at :: "nat \<Rightarrow> 'a list \<Rightarrow> 'a list" where
  "erase_at i xs = take i xs @ drop (Suc i) xs"

definition resize_to :: "nat \<Rightarrow> 'a \<Rightarrow> 'a list \<Rightarrow> 'a list" where
  "resize_to n x xs = take n xs @ replicate (n - length xs) x"

lemma length_insert_at [simp]: "length (insert_at i x xs) = Suc (length xs)"
  by (simp add: insert_at_def)

lemma length_erase_at [simp]: "i < length xs \<Longrightarrow> length (erase_at i xs) = length xs - 1"
  by (simp add: erase_at_def)

lemma length_resize_to [simp]: "length (resize_to n x xs) = n"
  by (simp add: resize_to_def)

lemma nth_insert_at:
  "i \<le> length xs \<Longrightarrow> j \<le> length xs \<Longrightarrow>
   insert_at i x xs ! j = (if j < i then xs ! j else if j = i then x else xs ! (j - 1))"
  by (auto simp: insert_at_def nth_append nth_Cons' min_def)

lemma nth_erase_at:
  "i < length xs \<Longrightarrow> j < length xs - 1 \<Longrightarrow>
   erase_at i xs ! j = (if j < i then xs ! j else xs ! Suc j)"
  by (auto simp: erase_at_def nth_append min_def)

lemma nth_resize_to:
  "j < n \<Longrightarrow> resize_to n x xs ! j = (if j < length xs then xs ! j else x)"
  by (auto simp: resize_to_def nth_append min_def)

text \<open>The optional reading of a position, for specifications by lookup.\<close>

definition nth_opt :: "'a list \<Rightarrow> nat \<Rightarrow> 'a option" where
  "nth_opt xs i = (if i < length xs then Some (xs ! i) else None)"

lemma nth_opt_Nil [simp]: "nth_opt [] i = None"
  by (simp add: nth_opt_def)

lemma nth_opt_take: "nth_opt (take n xs) i = (if i < n then nth_opt xs i else None)"
  by (auto simp: nth_opt_def)

lemma nth_opt_drop: "nth_opt (drop n xs) i = nth_opt xs (n + i)"
  by (auto simp: nth_opt_def)

lemma nth_opt_insert_at:
  "i \<le> length xs \<Longrightarrow>
   nth_opt (insert_at i x xs) j =
     (if j < i then nth_opt xs j else if j = i then Some x else nth_opt xs (j - 1))"
  by (auto simp: nth_opt_def nth_insert_at)

lemma nth_opt_erase_at:
  "i < length xs \<Longrightarrow>
   nth_opt (erase_at i xs) j = (if j < i then nth_opt xs j else nth_opt xs (Suc j))"
  by (auto simp: nth_opt_def nth_erase_at)

lemma nth_opt_list_update:
  "nth_opt (xs[i := x]) j = (if j = i \<and> i < length xs then Some x else nth_opt xs j)"
  by (auto simp: nth_opt_def)

section \<open>State machines\<close>

text \<open>
  The interface between a component's step relation and the facts that hold in all its
  reachable states: whoever provides an initial state and an invariant every step keeps
  gets the invariant of every run, and of every prefix of it.
\<close>

locale invariant_system =
  fixes step :: "'s \<Rightarrow> 'l \<Rightarrow> 's \<Rightarrow> bool"
    and start :: "'s \<Rightarrow> bool"
    and inv :: "'s \<Rightarrow> bool"
  assumes inv_start: "start s \<Longrightarrow> inv s"
    and inv_step: "inv s \<Longrightarrow> step s l t \<Longrightarrow> inv t"
begin

inductive run :: "'s \<Rightarrow> 'l list \<Rightarrow> 's \<Rightarrow> bool" where
  run_Nil: "run s [] s"
| run_snoc: "run s ls t \<Longrightarrow> step t l u \<Longrightarrow> run s (ls @ [l]) u"

lemma run_inv: "run s ls t \<Longrightarrow> inv s \<Longrightarrow> inv t"
  by (induction rule: run.induct) (auto intro: inv_step)

lemma start_run_inv: "start s \<Longrightarrow> run s ls t \<Longrightarrow> inv t"
  by (blast intro: inv_start run_inv)

end

end
