(* ===== verification/Ordered_Map.thy ===== *)
theory Ordered_Map
  imports Prelude
begin

text \<open>
  \<open>std::map\<close> and \<open>std::set\<close> of the C++ library: an association list kept in the order of the
  container's comparator.  \<open>om_find\<close> is \<open>find\<close>, \<open>om_put\<close> is an assignment through
  \<open>operator[]\<close>, \<open>om_insert\<close> is \<open>insert\<close> (which keeps an existing entry) and \<open>om_erase\<close>
  is \<open>erase\<close> by key.  Keys are equivalent when neither is less than the other, as in the
  library.  The laws are proved once from the comparator being a strict total order.
\<close>

fun om_find :: "('k \<Rightarrow> 'k \<Rightarrow> bool) \<Rightarrow> 'k \<Rightarrow> ('k \<times> 'v) list \<Rightarrow> 'v option" where
  "om_find lt k [] = None"
| "om_find lt k ((k', v) # m) =
     (if lt k' k then om_find lt k m else if lt k k' then None else Some v)"

fun om_put :: "('k \<Rightarrow> 'k \<Rightarrow> bool) \<Rightarrow> 'k \<Rightarrow> 'v \<Rightarrow> ('k \<times> 'v) list \<Rightarrow> ('k \<times> 'v) list" where
  "om_put lt k v [] = [(k, v)]"
| "om_put lt k v ((k', v') # m) =
     (if lt k' k then (k', v') # om_put lt k v m
      else if lt k k' then (k, v) # (k', v') # m else (k', v) # m)"

definition om_insert :: "('k \<Rightarrow> 'k \<Rightarrow> bool) \<Rightarrow> 'k \<Rightarrow> 'v \<Rightarrow> ('k \<times> 'v) list \<Rightarrow> ('k \<times> 'v) list" where
  "om_insert lt k v m = (case om_find lt k m of None \<Rightarrow> om_put lt k v m | Some _ \<Rightarrow> m)"

fun om_erase :: "('k \<Rightarrow> 'k \<Rightarrow> bool) \<Rightarrow> 'k \<Rightarrow> ('k \<times> 'v) list \<Rightarrow> ('k \<times> 'v) list" where
  "om_erase lt k [] = []"
| "om_erase lt k ((k', v') # m) =
     (if lt k' k then (k', v') # om_erase lt k m
      else if lt k k' then (k', v') # m else m)"

text \<open>\<open>std::distance(begin(), find(k))\<close> for a key that is present.\<close>

fun om_index :: "('k \<Rightarrow> 'k \<Rightarrow> bool) \<Rightarrow> 'k \<Rightarrow> ('k \<times> 'v) list \<Rightarrow> nat" where
  "om_index lt k [] = 0"
| "om_index lt k ((k', v') # m) =
     (if lt k' k then Suc (om_index lt k m) else 0)"

fun om_wf :: "('k \<Rightarrow> 'k \<Rightarrow> bool) \<Rightarrow> ('k \<times> 'v) list \<Rightarrow> bool" where
  "om_wf lt [] = True"
| "om_wf lt ((k, v) # m) = ((\<forall>k' \<in> fst ` set m. lt k k') \<and> om_wf lt m)"

lemma take_index_put: "n \<le> om_index lt k m \<Longrightarrow> take n (om_put lt k v m) = take n m"
proof (induction lt k v m arbitrary: n rule: om_put.induct)
  case (2 lt k v k' v' m)
  then show ?case by (cases n) (auto split: if_splits)
qed simp

lemma take_index_erase: "n \<le> om_index lt k m \<Longrightarrow> take n (om_erase lt k m) = take n m"
proof (induction lt k m arbitrary: n rule: om_erase.induct)
  case (2 lt k k' v' m)
  then show ?case by (cases n) (auto split: if_splits)
qed simp

named_theorems om_simps \<open>lookup and well-formedness of ordered maps\<close>

text \<open>The interface a comparator provides to the containers ordered by it, on the keys \<open>dom\<close>
  it is meant for.\<close>

locale map_order =
  fixes lt :: "'k \<Rightarrow> 'k \<Rightarrow> bool"
    and valid :: "'k \<Rightarrow> bool"
  assumes lt_irrefl: "valid a \<Longrightarrow> \<not> lt a a"
    and lt_trans: "valid a \<Longrightarrow> valid b \<Longrightarrow> valid c \<Longrightarrow> lt a b \<Longrightarrow> lt b c \<Longrightarrow> lt a c"
    and lt_total: "valid a \<Longrightarrow> valid b \<Longrightarrow> lt a b \<or> a = b \<or> lt b a"
begin

definition keys_ok :: "('k \<times> 'v) list \<Rightarrow> bool" where
  "keys_ok m \<longleftrightarrow> (\<forall>k \<in> fst ` set m. valid k) \<and> om_wf lt m"

lemma keys_ok_Nil: "keys_ok []"
  by (simp add: keys_ok_def)

lemma keys_ok_Cons:
  "keys_ok ((k, v) # m) \<longleftrightarrow> valid k \<and> (\<forall>k' \<in> fst ` set m. lt k k') \<and> keys_ok m"
  by (auto simp: keys_ok_def)

lemma lt_asym: "valid a \<Longrightarrow> valid b \<Longrightarrow> lt a b \<Longrightarrow> \<not> lt b a"
  using lt_irrefl lt_trans by blast

lemma keys_ok_valid: "keys_ok m \<Longrightarrow> (k, v) \<in> set m \<Longrightarrow> valid k"
  by (force simp: keys_ok_def)

lemma lt_neq: "valid a \<Longrightarrow> lt a b \<Longrightarrow> a \<noteq> b"
  using lt_irrefl by blast

lemma order_cases:
  assumes "valid a" "valid b"
  obtains (less) "lt a b" "\<not> lt b a" "a \<noteq> b" | (equal) "a = b" "\<not> lt a b" "\<not> lt b a"
    | (greater) "lt b a" "\<not> lt a b" "a \<noteq> b"
  using lt_total [OF assms] lt_asym [OF assms] lt_asym [OF assms(2,1)] lt_irrefl [OF assms(1)]
    lt_neq assms by metis

lemma absent_below:
  assumes "keys_ok ((k', v) # m)" "valid k" "lt k k'"
  shows "map_of ((k', v) # m) k = None"
proof -
  have "valid k'" "\<forall>j \<in> fst ` set m. lt k' j \<and> valid j"
    using assms(1) by (auto simp: keys_ok_Cons keys_ok_def)
  then have "k \<notin> fst ` set m" "k \<noteq> k'"
    using assms lt_trans [of k k'] lt_irrefl [of k] by blast+
  then show ?thesis by (simp add: map_of_eq_None_iff)
qed

lemma find_eq_map_of: "keys_ok m \<Longrightarrow> valid k \<Longrightarrow> om_find lt k m = map_of m k"
proof (induction m)
  case (Cons p m)
  obtain k' v where p: "p = (k', v)" by (cases p)
  have k': "valid k'" "keys_ok m" using Cons.prems(1) by (auto simp: p keys_ok_Cons)
  from Cons.prems(2) k'(1) show ?case
  proof (cases rule: order_cases)
    case less
    then show ?thesis using absent_below [of k' v m k] Cons.prems by (simp add: p)
  qed (use Cons.IH Cons.prems k' in \<open>simp_all add: p\<close>)
qed simp

lemma map_of_put: "keys_ok m \<Longrightarrow> valid k \<Longrightarrow> map_of (om_put lt k v m) = (map_of m)(k \<mapsto> v)"
proof (induction m)
  case (Cons p m)
  obtain k' v' where p: "p = (k', v')" by (cases p)
  have k': "valid k'" "keys_ok m" using Cons.prems(1) by (auto simp: p keys_ok_Cons)
  from Cons.prems(2) k'(1) show ?case
    by (cases rule: order_cases) (use Cons.IH Cons.prems k' in \<open>auto simp: p fun_eq_iff\<close>)
qed simp

lemma map_of_erase: "keys_ok m \<Longrightarrow> valid k \<Longrightarrow> map_of (om_erase lt k m) = (map_of m)(k := None)"
proof (induction m)
  case (Cons p m)
  obtain k' v' where p: "p = (k', v')" by (cases p)
  have k': "valid k'" "keys_ok m" using Cons.prems(1) by (auto simp: p keys_ok_Cons)
  have hd: "map_of m k' = None"
    using Cons.prems(1) lt_irrefl [of k'] k'(1) by (auto simp: p keys_ok_Cons map_of_eq_None_iff)
  from Cons.prems(2) k'(1) show ?case
  proof (cases rule: order_cases)
    case less
    then have "map_of (p # m) k = None" using absent_below [of k' v' m k] Cons.prems by (simp add: p)
    with less show ?thesis by (auto simp: p fun_eq_iff)
  next
    case equal
    then have "map_of m k = None" using hd by simp
    with equal show ?thesis by (auto simp: p fun_eq_iff)
  next
    case greater
    then show ?thesis using Cons.IH Cons.prems k' by (auto simp: p fun_eq_iff)
  qed
qed simp

lemma keys_put: "fst ` set (om_put lt k v m) \<subseteq> insert k (fst ` set m)"
  by (induction lt k v m rule: om_put.induct) auto

lemma set_erase: "set (om_erase lt k m) \<subseteq> set m"
  by (induction lt k m rule: om_erase.induct) auto

lemma keys_erase: "fst ` set (om_erase lt k m) \<subseteq> fst ` set m"
  by (rule image_mono [OF set_erase])

lemma keys_ok_put: "keys_ok m \<Longrightarrow> valid k \<Longrightarrow> keys_ok (om_put lt k v m)"
proof (induction m)
  case (Cons p m)
  obtain k' v' where p: "p = (k', v')" by (cases p)
  have k': "valid k'" "\<And>j. j \<in> fst ` set m \<Longrightarrow> lt k' j \<and> valid j" "keys_ok m"
    using Cons.prems(1) by (auto simp: p keys_ok_Cons keys_ok_def)
  from Cons.prems(2) k'(1) show ?case
  proof (cases rule: order_cases)
    case less
    have "\<forall>j \<in> fst ` set m. lt k j"
      using less(1) k' Cons.prems(2) lt_trans by blast
    then show ?thesis using less Cons.prems k' by (simp add: p keys_ok_Cons)
  next
    case equal
    then show ?thesis using Cons.prems k' by (simp add: p keys_ok_Cons)
  next
    case greater
    have "\<forall>j \<in> insert k (fst ` set m). lt k' j"
      using greater(1) k'(2) by simp
    then have "\<forall>j \<in> fst ` set (om_put lt k v m). lt k' j"
      using keys_put [of k v m] by (meson subsetD)
    then show ?thesis using greater Cons k' by (simp add: p keys_ok_Cons)
  qed
qed (simp add: keys_ok_def)

lemma keys_ok_erase: "keys_ok m \<Longrightarrow> keys_ok (om_erase lt k m)"
proof (induction m)
  case (Cons p m)
  obtain k' v' where p: "p = (k', v')" by (cases p)
  have k': "valid k'" "\<forall>j \<in> fst ` set m. lt k' j" "keys_ok m"
    using Cons.prems by (auto simp: p keys_ok_Cons)
  have "\<forall>j \<in> fst ` set (om_erase lt k m). lt k' j"
    using k'(2) keys_erase [of k m] by (meson subsetD)
  with k' Cons.IH show ?case by (simp add: p keys_ok_Cons)
qed (simp add: keys_ok_def)

lemma find_put:
  "keys_ok m \<Longrightarrow> valid k \<Longrightarrow> valid j \<Longrightarrow>
   om_find lt j (om_put lt k v m) = (if j = k then Some v else om_find lt j m)"
  by (simp add: find_eq_map_of keys_ok_put map_of_put)

lemma find_erase:
  "keys_ok m \<Longrightarrow> valid k \<Longrightarrow> valid j \<Longrightarrow>
   om_find lt j (om_erase lt k m) = (if j = k then None else om_find lt j m)"
  by (simp add: find_eq_map_of keys_ok_erase map_of_erase)

lemma find_insert:
  assumes "keys_ok m" "valid k" "valid j"
  shows "om_find lt j (om_insert lt k v m) =
    (if j = k \<and> om_find lt k m = None then Some v else om_find lt j m)"
  using find_put [OF assms] by (auto simp: om_insert_def split: option.splits)

lemma keys_ok_insert: "keys_ok m \<Longrightarrow> valid k \<Longrightarrow> keys_ok (om_insert lt k v m)"
  by (auto simp: om_insert_def keys_ok_put split: option.splits)

lemma find_Some_set: "keys_ok m \<Longrightarrow> valid k \<Longrightarrow> om_find lt k m = Some v \<Longrightarrow> (k, v) \<in> set m"
  by (simp add: find_eq_map_of map_of_SomeD)

lemma distinct_keys: "keys_ok m \<Longrightarrow> distinct (map fst m)"
proof (induction m)
  case (Cons p m)
  obtain k' v' where p: "p = (k', v')" by (cases p)
  have "keys_ok m" using Cons.prems p by (simp add: keys_ok_Cons)
  moreover have "k' \<notin> fst ` set m"
    using Cons.prems p lt_irrefl by (auto simp: keys_ok_Cons)
  ultimately show ?case using Cons.IH p by simp
qed simp

lemma index_put: "keys_ok m \<Longrightarrow> valid k \<Longrightarrow> om_index lt k (om_put lt k v m) = om_index lt k m"
  using lt_irrefl [of k] by (induction m) (auto simp: keys_ok_Cons)

lemma set_find: "keys_ok m \<Longrightarrow> (k, v) \<in> set m \<Longrightarrow> om_find lt k m = Some v"
  using find_eq_map_of [of m k] distinct_keys [of m] by (simp add: keys_ok_valid)

end

end
