(* ===== verification/Doubles.thy ===== *)
theory Doubles
  imports Prelude Complex_Main "HOL-Library.Log_Nat"
begin

text \<open>
  The \<open>double\<close> arithmetic of the price conversions.  A finite IEEE-754 binary64 value is the
  rational number it stands for; \<open>rnd\<close> rounds a rational to the nearest such value, ties to
  even, with the exponent clamped at that of the subnormals, so that each C++ operation on
  doubles is the exact operation followed by \<open>rnd\<close>.  Infinities, NaNs and the sign of zero are
  not represented: no modelled operation produces them from the prices the code handles.
  \<open>std::stod\<close> is modelled for decimal notation (optional blanks, sign, digits, fraction and
  exponent, longest prefix); the forms "inf", "nan" and "0x.." are read as having no digits.
  \<open>std::pow\<close> is taken to be correctly rounded.
\<close>

section \<open>Rounding\<close>

type_synonym double = rat

definition round_half_even :: "rat \<Rightarrow> int" where
  "round_half_even x =
     (let f = \<lfloor>x\<rfloor>; d = x - of_int f in
      if d < 1/2 then f else if 1/2 < d then f + 1 else if even f then f else f + 1)"

definition pow2 :: "int \<Rightarrow> rat" where
  "pow2 e = (if 0 \<le> e then 2 ^ nat e else 1 / 2 ^ nat (- e))"

text \<open>\<open>ilog2 x\<close> is the exponent of the leading bit of a positive rational.\<close>

definition ilog2 :: "rat \<Rightarrow> int" where
  "ilog2 x =
     (let (n, d) = quotient_of x;
          k = bitlen n - bitlen d
      in if pow2 k \<le> x then k else k - 1)"

definition ulp_exponent :: "rat \<Rightarrow> int" where
  "ulp_exponent x = max (ilog2 x - 52) (- 1074)"

definition rnd :: "rat \<Rightarrow> double" where
  "rnd x =
     (if x = 0 then 0
      else let u = pow2 (ulp_exponent \<bar>x\<bar>)
           in sgn x * of_int (round_half_even (\<bar>x\<bar> / u)) * u)"

definition double_of_int :: "int \<Rightarrow> double" where
  "double_of_int i = rnd (of_int i)"

definition double_mult :: "double \<Rightarrow> double \<Rightarrow> double" where
  "double_mult a b = rnd (a * b)"

definition double_sub :: "double \<Rightarrow> double \<Rightarrow> double" where
  "double_sub a b = rnd (a - b)"

definition double_div :: "double \<Rightarrow> double \<Rightarrow> double" where
  "double_div a b = rnd (a / b)"

definition pow10 :: "int \<Rightarrow> rat" where
  "pow10 e = (if 0 \<le> e then 10 ^ nat e else 1 / 10 ^ nat (- e))"

text \<open>A conversion to an unsigned 32-bit integer truncates towards zero; outside of the range
  (undefined in C++) the model keeps the low 32 bits, as the x86-64 conversion through a
  64-bit integer does.\<close>

definition trunc_rat :: "rat \<Rightarrow> int" where
  "trunc_rat x = (if 0 \<le> x then \<lfloor>x\<rfloor> else - \<lfloor>- x\<rfloor>)"

definition double_to_u32 :: "double \<Rightarrow> u32" where
  "double_to_u32 x = word_of_int (trunc_rat x)"

section \<open>Decimal strings\<close>

definition digit_value :: "char \<Rightarrow> int option" where
  "digit_value c =
     (let n = (of_char c :: int) in if 48 \<le> n \<and> n \<le> 57 then Some (n - 48) else None)"

fun span_digits :: "string \<Rightarrow> int list \<times> string" where
  "span_digits [] = ([], [])"
| "span_digits (c # s) =
     (case digit_value c of None \<Rightarrow> ([], c # s)
      | Some d \<Rightarrow> (let (ds, r) = span_digits s in (d # ds, r)))"

definition digits_value :: "int list \<Rightarrow> int" where
  "digits_value ds = foldl (\<lambda>n d. 10 * n + d) 0 ds"

definition is_blank :: "char \<Rightarrow> bool" where
  "is_blank c \<longleftrightarrow> (of_char c :: int) \<in> {9, 10, 11, 12, 13, 32}"

definition read_sign :: "string \<Rightarrow> bool \<times> string" where
  "read_sign s =
     (case s of c # r \<Rightarrow> if c = CHR ''-'' then (True, r) else if c = CHR ''+'' then (False, r)
                         else (False, s)
      | [] \<Rightarrow> (False, []))"

definition read_exponent :: "string \<Rightarrow> int" where
  "read_exponent s =
     (case s of
        c # r \<Rightarrow>
          if c = CHR ''e'' \<or> c = CHR ''E'' then
            let (neg, r') = read_sign r; (ds, _) = span_digits r'
            in if neg then - digits_value ds else digits_value ds
          else 0
      | [] \<Rightarrow> 0)"

definition stod :: "string \<Rightarrow> double res" where
  "stod s =
     (let (neg, s1) = read_sign (dropWhile is_blank s);
          (ip, s2) = span_digits s1;
          (fp, s3) = (case s2 of c # r \<Rightarrow> if c = CHR ''.'' then span_digits r else ([], s2)
                      | [] \<Rightarrow> ([], []));
          exact = of_int (digits_value (ip @ fp)) / 10 ^ length fp * pow10 (read_exponent s3);
          v = rnd exact
      in if ip = [] \<and> fp = [] then Inl (Invalid_argument ''stod'')
         else if 1024 \<le> ilog2 v \<or> (v \<noteq> exact \<and> ilog2 exact < - 1022) then Inl Out_of_range
         else Inr (if neg then - v else v))"

text \<open>\<open>std::stol\<close>: optional blanks and sign, the longest run of digits, within a 64-bit \<open>long\<close>.\<close>

definition stol :: "string \<Rightarrow> i64 res" where
  "stol s =
     (let (neg, s1) = read_sign (dropWhile is_blank s); (ds, _) = span_digits s1;
          v = (if neg then - digits_value ds else digits_value ds)
      in if ds = [] then Inl (Invalid_argument ''stol'')
         else if v < - (2 ^ 63) \<or> 2 ^ 63 \<le> v then Inl Out_of_range
         else Inr (word_of_int v))"

function show_digits :: "int \<Rightarrow> string" where
  "show_digits n =
     (if n < 10 then [char_of (48 + n)] else show_digits (n div 10) @ [char_of (48 + n mod 10)])"
  by pat_completeness auto
termination
  by (relation "measure nat") auto

declare show_digits.simps [simp del]

text \<open>\<open>std::to_string\<close> of an unsigned integer and of a double (\<open>%f\<close>: six decimals, the exact
  value rounded half to even).\<close>

definition to_string_word :: "('a :: len) word \<Rightarrow> string" where
  "to_string_word w = show_digits (uint w)"

definition pad_left :: "nat \<Rightarrow> string \<Rightarrow> string" where
  "pad_left n s = replicate (n - length s) CHR ''0'' @ s"

definition to_string_double :: "double \<Rightarrow> string" where
  "to_string_double x =
     (let n = round_half_even (\<bar>x\<bar> * 1000000)
      in (if x < 0 then ''-'' else '''') @ show_digits (n div 1000000) @ ''.'' @
         pad_left 6 (show_digits (n mod 1000000)))"

end
