(* ===== verification/Mktdata.thy ===== *)
theory Mktdata
  imports Doubles
begin

text \<open>
  The market-data vocabulary: the SBE enumerations the handlers branch on (with the generated
  \<open>get\<close> functions, which throw on an unknown wire value), the decoded view of a message that the
  parsers read, and the program's own structs \<open>Book\<close> (message/book.h), \<open>Instrument\<close>
  (message/instrument.h) and \<open>MdpMessage\<close> (message/mdp_message.h).

  The SBE flyweights are generated code: their accessors over the raw bytes are not modelled;
  the values they return are the fields of \<open>sbe_message\<close>, with enumerations still as wire bytes
  because converting them can throw.
\<close>

section \<open>Enumerations\<close>

datatype MDEntryType =
    Bid | Offer | Trade | OpenPrice | SettlementPrice | TradingSessionHighPrice
  | TradingSessionLowPrice | ClearedVolume | OpenInterest | ImpliedBid | ImpliedOffer
  | BookReset | SessionHighBid | SessionLowOffer | FixingPrice | ElectronicVolume
  | ThresholdLimitsandPriceBandVariation | MDEntryType_NULL

definition MDEntryType_codes :: "(u8 \<times> MDEntryType) list" where
  "MDEntryType_codes =
     [(48, Bid), (49, Offer), (50, Trade), (52, OpenPrice), (54, SettlementPrice),
      (55, TradingSessionHighPrice), (56, TradingSessionLowPrice), (66, ClearedVolume),
      (67, OpenInterest), (69, ImpliedBid), (70, ImpliedOffer), (74, BookReset),
      (78, SessionHighBid), (79, SessionLowOffer), (87, FixingPrice), (101, ElectronicVolume),
      (103, ThresholdLimitsandPriceBandVariation), (0, MDEntryType_NULL)]"

datatype MDUpdateAction =
    New | Change | Delete | DeleteThru | DeleteFrom | Overlay | MDUpdateAction_NULL

definition MDUpdateAction_codes :: "(u8 \<times> MDUpdateAction) list" where
  "MDUpdateAction_codes =
     [(0, New), (1, Change), (2, Delete), (3, DeleteThru), (4, DeleteFrom), (5, Overlay),
      (255, MDUpdateAction_NULL)]"

datatype SecurityTradingStatus =
    TradingHalt | Close | NewPriceIndication | ReadyToTrade | NotAvailableForTrading
  | UnknownorInvalid | PreOpen | PreCross | Cross | PostClose | NoChange
  | SecurityTradingStatus_NULL

definition SecurityTradingStatus_codes :: "(u8 \<times> SecurityTradingStatus) list" where
  "SecurityTradingStatus_codes =
     [(2, TradingHalt), (4, Close), (15, NewPriceIndication), (17, ReadyToTrade),
      (18, NotAvailableForTrading), (20, UnknownorInvalid), (21, PreOpen), (24, PreCross),
      (25, Cross), (26, PostClose), (103, NoChange), (255, SecurityTradingStatus_NULL)]"

datatype AggressorSide = NoAggressor | AggressorBuy | AggressorSell | AggressorSide_NULL

definition AggressorSide_codes :: "(u8 \<times> AggressorSide) list" where
  "AggressorSide_codes =
     [(0, NoAggressor), (1, AggressorBuy), (2, AggressorSell), (255, AggressorSide_NULL)]"

datatype OpenCloseSettlFlag = DailyOpenPrice | IndicativeOpeningPrice | OpenCloseSettlFlag_NULL

definition OpenCloseSettlFlag_codes :: "(u8 \<times> OpenCloseSettlFlag) list" where
  "OpenCloseSettlFlag_codes =
     [(0, DailyOpenPrice), (5, IndicativeOpeningPrice), (255, OpenCloseSettlFlag_NULL)]"

text \<open>The generated \<open>get\<close>: a switch over the codes, an exception otherwise.\<close>

definition enum_get :: "string \<Rightarrow> (u8 \<times> 'e) list \<Rightarrow> u8 \<Rightarrow> 'e res" where
  "enum_get name codes v =
     (case map_of codes v of Some e \<Rightarrow> Inr e | None \<Rightarrow> Inl (Runtime_error name))"

definition MDEntryType_get :: "u8 \<Rightarrow> MDEntryType res" where
  "MDEntryType_get = enum_get ''unknown value for enum MDEntryType [E103]'' MDEntryType_codes"

definition MDUpdateAction_get :: "u8 \<Rightarrow> MDUpdateAction res" where
  "MDUpdateAction_get =
     enum_get ''unknown value for enum MDUpdateAction [E103]'' MDUpdateAction_codes"

definition SecurityTradingStatus_get :: "u8 \<Rightarrow> SecurityTradingStatus res" where
  "SecurityTradingStatus_get =
     enum_get ''unknown value for enum SecurityTradingStatus [E103]'' SecurityTradingStatus_codes"

definition AggressorSide_get :: "u8 \<Rightarrow> AggressorSide res" where
  "AggressorSide_get =
     enum_get ''unknown value for enum AggressorSide [E103]'' AggressorSide_codes"

definition OpenCloseSettlFlag_get :: "u8 \<Rightarrow> OpenCloseSettlFlag res" where
  "OpenCloseSettlFlag_get =
     enum_get ''unknown value for enum OpenCloseSettlFlag [E103]'' OpenCloseSettlFlag_codes"

text \<open>The narrower enumerations of the repeating groups: the accessor rejects a byte outside
  of its own list before the parser converts it to \<open>MDEntryType\<close>.\<close>

definition entry_subtype_get :: "string \<Rightarrow> u8 list \<Rightarrow> u8 \<Rightarrow> u8 res" where
  "entry_subtype_get name codes v =
     (if v \<in> set codes then Inr v else Inl (Runtime_error name))"

definition MDEntryTypeBook_get :: "u8 \<Rightarrow> u8 res" where
  "MDEntryTypeBook_get =
     entry_subtype_get ''unknown value for enum MDEntryTypeBook [E103]'' [48, 49, 69, 70, 74, 0]"

definition MDEntryTypeDailyStatistics_get :: "u8 \<Rightarrow> u8 res" where
  "MDEntryTypeDailyStatistics_get =
     entry_subtype_get ''unknown value for enum MDEntryTypeDailyStatistics [E103]''
       [54, 66, 67, 87, 0]"

definition MDEntryTypeStatistics_get :: "u8 \<Rightarrow> u8 res" where
  "MDEntryTypeStatistics_get =
     entry_subtype_get ''unknown value for enum MDEntryTypeStatistics [E103]''
       [52, 55, 56, 78, 79, 0]"

section \<open>Decoded messages\<close>

text \<open>A price is a mantissa with a decimal exponent (\<open>std::pair<std::int64_t, std::int8_t>\<close>).\<close>

type_synonym md_price = "i64 \<times> i8"

record match_event_indicator =
  isLastTradeMsg :: bool
  isLastVolumeMsg :: bool
  isLastQuoteMsg :: bool
  isLastStatsMsg :: bool
  isLastImpliedMsg :: bool
  isRecoveryMsg :: bool
  isReserved :: bool
  isEndOfEvent :: bool

record settl_price_type =
  isFinal :: bool
  isActual :: bool
  isRounded :: bool
  isIntraday :: bool
  isReservedBits :: bool
  isNullValue :: bool

text \<open>What the accessors of a \<open>NoMDEntries\<close> group return for one entry.  Every template has a
  subset of these; a parser reads only those its template has.\<close>

record md_entry =
  e_mDEntryPx :: md_price
  e_mDEntrySize :: i32
  e_securityID :: i32
  e_rptSeq :: u32
  e_numberOfOrders :: i32
  e_mDPriceLevel :: u8
  e_mDUpdateAction :: u8
  e_mDEntryType :: u8
  e_tradingReferenceDate :: u16
  e_settlPriceType :: settl_price_type
  e_openCloseSettlFlag :: u8
  e_highLimitPrice :: md_price
  e_lowLimitPrice :: md_price
  e_maxPriceVariation :: md_price
  e_tradeID :: i32
  e_aggressorSide :: u8
  e_mDTradeEntryID :: u32
  e_orderID :: u64
  e_mDOrderPriority :: u64
  e_mDDisplayQty :: i32
  e_applID :: u16

record snapshot_root =
  s_lastMsgSeqNumProcessed :: u32
  s_securityID :: i32
  s_rptSeq :: u32
  s_highLimitPrice :: md_price
  s_lowLimitPrice :: md_price
  s_maxPriceVariation :: md_price

record instrument_definition =
  d_applID :: u16
  d_securityID :: i32
  d_securityUpdateAction :: char
  d_Symbol :: string
  d_minPriceIncrement :: md_price
  d_highLimitPrice :: md_price
  d_lowLimitPrice :: md_price
  d_noMDFeedTypes :: "(string \<times> u8) list"

datatype sbe_message =
    ChannelReset4 match_event_indicator "md_entry list"
  | AdminHeartbeat12
  | AdminLogin15
  | AdminLogout16
  | MDInstrumentDefinitionFuture27 instrument_definition
  | MDInstrumentDefinitionSpread29 instrument_definition
  | SecurityStatus30 i32 u8
  | MDIncrementalRefreshBook32 match_event_indicator "md_entry list"
  | MDIncrementalRefreshDailyStatistics33 match_event_indicator "md_entry list"
  | MDIncrementalRefreshLimitsBanding34 match_event_indicator "md_entry list"
  | MDIncrementalRefreshSessionStatistics35 match_event_indicator "md_entry list"
  | MDIncrementalRefreshTrade36 match_event_indicator "md_entry list"
  | MDIncrementalRefreshVolume37 match_event_indicator "md_entry list"
  | SnapshotFullRefresh38 snapshot_root "md_entry list"
  | QuoteRequest39
  | MDInstrumentDefinitionOption41 instrument_definition
  | MDIncrementalRefreshTradeSummary42 match_event_indicator "md_entry list"
  | MDIncrementalRefreshOrderBook43 match_event_indicator "md_entry list"
  | SnapshotFullRefreshOrderBook44 snapshot_root "md_entry list"
  | Other_template u16

fun sbe_template_id :: "sbe_message \<Rightarrow> u16" where
  "sbe_template_id (ChannelReset4 _ _) = 4"
| "sbe_template_id AdminHeartbeat12 = 12"
| "sbe_template_id AdminLogin15 = 15"
| "sbe_template_id AdminLogout16 = 16"
| "sbe_template_id (MDInstrumentDefinitionFuture27 _) = 27"
| "sbe_template_id (MDInstrumentDefinitionSpread29 _) = 29"
| "sbe_template_id (SecurityStatus30 _ _) = 30"
| "sbe_template_id (MDIncrementalRefreshBook32 _ _) = 32"
| "sbe_template_id (MDIncrementalRefreshDailyStatistics33 _ _) = 33"
| "sbe_template_id (MDIncrementalRefreshLimitsBanding34 _ _) = 34"
| "sbe_template_id (MDIncrementalRefreshSessionStatistics35 _ _) = 35"
| "sbe_template_id (MDIncrementalRefreshTrade36 _ _) = 36"
| "sbe_template_id (MDIncrementalRefreshVolume37 _ _) = 37"
| "sbe_template_id (SnapshotFullRefresh38 _ _) = 38"
| "sbe_template_id QuoteRequest39 = 39"
| "sbe_template_id (MDInstrumentDefinitionOption41 _) = 41"
| "sbe_template_id (MDIncrementalRefreshTradeSummary42 _ _) = 42"
| "sbe_template_id (MDIncrementalRefreshOrderBook43 _ _) = 43"
| "sbe_template_id (SnapshotFullRefreshOrderBook44 _ _) = 44"
| "sbe_template_id (Other_template t) = t"

section \<open>The program's structs\<close>

record Book =
  packet_seq_num :: u32
  template_id :: u16
  type :: char
  matchEventIndicator :: match_event_indicator
  aggressorSide :: AggressorSide
  applID :: u16
  highLimitPrice :: md_price
  lowLimitPrice :: md_price
  mDDisplayQty :: u32
  mDEntryPx :: md_price
  mDEntrySize :: u32
  mDEntryType :: MDEntryType
  mDOrderPriority :: u64
  mDPriceLevel :: u8
  mDTradeEntryID :: u32
  mDUpdateAction :: MDUpdateAction
  maxPriceVariation :: md_price
  numberOfOrders :: u32
  openCloseSettlFlag :: OpenCloseSettlFlag
  orderID :: u64
  rptSeq :: u32
  securityID :: u32
  settlPriceType :: settl_price_type
  tradeID :: u32
  tradingReferenceDate :: u16

definition no_indicator :: match_event_indicator where
  "no_indicator = \<lparr>isLastTradeMsg = False, isLastVolumeMsg = False, isLastQuoteMsg = False,
     isLastStatsMsg = False, isLastImpliedMsg = False, isRecoveryMsg = False,
     isReserved = False, isEndOfEvent = False\<rparr>"

definition no_settl_price_type :: settl_price_type where
  "no_settl_price_type = \<lparr>isFinal = False, isActual = False, isRounded = False,
     isIntraday = False, isReservedBits = False, isNullValue = False\<rparr>"

text \<open>\<open>Book b = {}\<close>: every member zero-initialised, so the enumerations hold their value 0.\<close>

definition Book_zero :: Book where
  "Book_zero = \<lparr>packet_seq_num = 0, template_id = 0, type = CHR 0x00,
     matchEventIndicator = no_indicator, aggressorSide = NoAggressor, applID = 0,
     highLimitPrice = (0, 0), lowLimitPrice = (0, 0), mDDisplayQty = 0, mDEntryPx = (0, 0),
     mDEntrySize = 0, mDEntryType = MDEntryType_NULL, mDOrderPriority = 0, mDPriceLevel = 0,
     mDTradeEntryID = 0, mDUpdateAction = New, maxPriceVariation = (0, 0), numberOfOrders = 0,
     openCloseSettlFlag = DailyOpenPrice, orderID = 0, rptSeq = 0, securityID = 0,
     settlPriceType = no_settl_price_type, tradeID = 0, tradingReferenceDate = 0\<rparr>"

record Instrument =
  i_packet_seq_num :: u32
  i_template_id :: u16
  appId :: u16
  securityUpdateAction :: char
  i_securityID :: u32
  symbol :: string
  minPriceIncrement :: md_price
  i_highLimitPrice :: md_price
  i_lowLimitPrice :: md_price
  depthGBX :: u8
  depthGBI :: u8

text \<open>A message as the constructor of \<open>MdpMessage\<close> leaves it: the packet's data, the buffer, and
  the decoder's view of it (\<open>m_message_header\<close> and \<open>m_message_body\<close>).\<close>

record MdpMessage =
  m_packet_length :: nat
  m_packet_seq_num :: u32
  m_packet_sending_time :: u64
  m_message_length :: u16
  m_buffer :: "u8 list"
  m_sbe :: sbe_message

definition MdpMessage_template_id :: "MdpMessage \<Rightarrow> u16" where
  "MdpMessage_template_id m = sbe_template_id (m_sbe m)"

definition MDP_MESSAGE_TYPES :: string where
  "MDP_MESSAGE_TYPES = ''----X-------0--A5----------d-df-XXXXXXWR-dXXW''"

text \<open>Indexing the literal by the template id: the terminating NUL is one past its last
  character, anything further is out of bounds.\<close>

definition message_type :: "MdpMessage \<Rightarrow> char res" where
  "message_type m =
     (let t = unat (MdpMessage_template_id m) in
      if t < length MDP_MESSAGE_TYPES then Inr (MDP_MESSAGE_TYPES ! t)
      else if t = length MDP_MESSAGE_TYPES then Inr (CHR 0x00)
      else Inl Undefined_behaviour)"

section \<open>Facts about the vocabulary\<close>

lemma enum_get_Inr_iff: "enum_get name codes v = Inr e \<longleftrightarrow> map_of codes v = Some e"
  by (simp add: enum_get_def split: option.splits)

lemma entry_subtype_get_Inr_iff:
  "entry_subtype_get name codes v = Inr w \<longleftrightarrow> w = v \<and> v \<in> set codes"
  by (auto simp: entry_subtype_get_def)

lemmas sbe_enum_defs =
  MDEntryType_get_def MDUpdateAction_get_def SecurityTradingStatus_get_def
  AggressorSide_get_def OpenCloseSettlFlag_get_def MDEntryTypeBook_get_def
  MDEntryTypeDailyStatistics_get_def MDEntryTypeStatistics_get_def
  MDEntryType_codes_def MDUpdateAction_codes_def SecurityTradingStatus_codes_def
  AggressorSide_codes_def OpenCloseSettlFlag_codes_def enum_get_def entry_subtype_get_def

lemmas sbe_get_Inr_iffs =
  enum_get_Inr_iff entry_subtype_get_Inr_iff

text \<open>A byte the narrow accessors let through is one \<open>MDEntryType::get\<close> knows.\<close>

lemma subtype_get_entry_type:
  assumes "MDEntryTypeBook_get v = Inr w \<or> MDEntryTypeDailyStatistics_get v = Inr w \<or>
    MDEntryTypeStatistics_get v = Inr w"
  shows "\<exists>t. MDEntryType_get w = Inr t"
  using assms
  by (auto simp: MDEntryTypeBook_get_def MDEntryTypeDailyStatistics_get_def
      MDEntryTypeStatistics_get_def entry_subtype_get_Inr_iff MDEntryType_get_def enum_get_def
      MDEntryType_codes_def)

end
