(* ===== verification/Packets.thy ===== *)
theory Packets
  imports Mktdata
begin

text \<open>
  The wire format of market-data packets (cme/market/message/message_utility.cc), the recovery
  stream of the TCP replayer (cme/market/dat_replayer.cc) and the two FIX requests it sends.

  A pointer into received data is the list of bytes the process owns from there on; a read past
  that list is undefined behaviour.  The SBE decoder (generated code) is the parameter \<open>decode\<close>,
  from a message's bytes to its decoded view; it may throw, as the flyweights do on a buffer
  that is too short.  The time a message was received, a clock reading that only the JSON dump
  uses, is left out.
\<close>

section \<open>Little-endian reads\<close>

definition le_value :: "u8 list \<Rightarrow> int" where
  "le_value bs = foldr (\<lambda>b v. uint b + 256 * v) bs 0"

definition read_le :: "nat \<Rightarrow> nat \<Rightarrow> u8 list \<Rightarrow> ('a::len) word res" where
  "read_le n pos mem =
     (if pos + n \<le> length mem then Inr (word_of_int (le_value (take n (drop pos mem))))
      else Inl Undefined_behaviour)"

definition read_u16 :: "nat \<Rightarrow> u8 list \<Rightarrow> u16 res" where "read_u16 = read_le 2"
definition read_u32 :: "nat \<Rightarrow> u8 list \<Rightarrow> u32 res" where "read_u32 = read_le 4"
definition read_u64 :: "nat \<Rightarrow> u8 list \<Rightarrow> u64 res" where "read_u64 = read_le 8"

section \<open>Splitting a packet into messages\<close>

definition MdpMessage_new ::
    "(u8 list \<Rightarrow> sbe_message res) \<Rightarrow> u8 list \<Rightarrow> u16 \<Rightarrow> nat \<Rightarrow> u32 \<Rightarrow> u64 \<Rightarrow> MdpMessage res" where
  "MdpMessage_new decode buffer message_length packet_length seq sending_time =
     (if length buffer < unat message_length then Inl Undefined_behaviour
      else
        let bytes = take (unat message_length) buffer in
        bind_res (decode bytes) (\<lambda>sbe.
          Inr \<lparr>m_packet_length = packet_length, m_packet_seq_num = seq,
               m_packet_sending_time = sending_time, m_message_length = message_length,
               m_buffer = bytes, m_sbe = sbe\<rparr>))"

text \<open>The loop of \<open>Pick_messages_from_packet\<close>: \<open>None\<close> if it does not end.  The size field counts
  itself; \<open>message_length - 2\<close> is passed as a 16-bit value and wraps for the sizes 0 and 1.\<close>

partial_function (option) pick_loop ::
    "(u8 list \<Rightarrow> sbe_message res) \<Rightarrow> u8 list \<Rightarrow> nat \<Rightarrow> u32 \<Rightarrow> u64 \<Rightarrow> nat \<Rightarrow> MdpMessage list
     \<Rightarrow> MdpMessage list res option" where
  "pick_loop decode buffer data_length seq sending_time pos messages =
     (if data_length \<le> pos then Some (Inr messages)
      else case read_u16 pos buffer of
          Inl e \<Rightarrow> Some (Inl e)
        | Inr message_length \<Rightarrow>
            (case MdpMessage_new decode (drop (pos + 2) buffer) (message_length - 2) data_length
                    seq sending_time of
               Inl e \<Rightarrow> Some (Inl e)
             | Inr m \<Rightarrow>
                 pick_loop decode buffer data_length seq sending_time
                   (pos + unat message_length) (messages @ [m])))"

definition Pick_messages_from_packet ::
    "(u8 list \<Rightarrow> sbe_message res) \<Rightarrow> u8 list \<Rightarrow> nat \<Rightarrow> MdpMessage list
     \<Rightarrow> (u32 \<times> MdpMessage list) res option" where
  "Pick_messages_from_packet decode buffer data_length messages =
     (case read_u32 0 buffer of
        Inl e \<Rightarrow> Some (Inl e)
      | Inr seq \<Rightarrow>
          (case read_u64 4 buffer of
             Inl e \<Rightarrow> Some (Inl e)
           | Inr sending_time \<Rightarrow>
               map_option (map_res (\<lambda>ms. (seq, ms)))
                 (pick_loop decode buffer data_length seq sending_time 12 messages)))"

definition Get_sbe_template_id :: "u8 list \<Rightarrow> u16 res" where
  "Get_sbe_template_id packet = map_res ucast (read_u32 (4 + 8 + 2 + 2) packet)"

text \<open>\<open>MdpMessage::last_msg_seq_num_processed\<close>: tag 369, the first field of a snapshot.\<close>

definition last_msg_seq_num_processed :: "MdpMessage \<Rightarrow> u32 res" where
  "last_msg_seq_num_processed m = read_u32 8 (m_buffer m)"

text \<open>The price of a message as a double: mantissa times a power of ten.\<close>

definition Get_price :: "md_price \<Rightarrow> double" where
  "Get_price p = double_mult (double_of_int (sint (fst p))) (rnd (pow10 (sint (snd p))))"

section \<open>The TCP replay stream\<close>

text \<open>What \<open>DatReplayer::On_recovery_data\<close> does, in order, with a received buffer: hand a packet
  to the processor, ask for more data, or stop the receiver at a logout message.\<close>

datatype replay_action =
    Process_packet "u8 list" nat
  | Receive_more
  | Stop_receiver

function On_recovery_data :: "u8 list \<Rightarrow> nat \<Rightarrow> nat \<Rightarrow> replay_action list res" where
  "On_recovery_data buffer len start =
     (if len \<le> start then Inr []
      else
        bind_res (read_u16 start buffer) (\<lambda>packet_length.
        bind_res (Get_sbe_template_id (drop (start + 2) buffer)) (\<lambda>template.
          if template = 16 then Inr [Stop_receiver]
          else
            bind_res (On_recovery_data buffer len (start + unat packet_length + 2)) (\<lambda>rest.
              Inr ((if template \<noteq> 12
                    then [Process_packet (drop (start + 2) buffer) (unat packet_length)] else []) @
                   Receive_more # rest)))))"
  by pat_completeness auto
termination
  by (relation "measure (\<lambda>(buffer, len, start). len - start)") auto

declare On_recovery_data.simps [simp del]

section \<open>FIX requests\<close>

definition char_to_u32 :: "char \<Rightarrow> u32" where
  "char_to_u32 c = (let n = (of_char c :: int) in word_of_int (if n < 128 then n else n - 256))"

definition Calculate_fix_checksum :: "string \<Rightarrow> string" where
  "Calculate_fix_checksum message =
     (let sum = foldl (\<lambda>s c. s + char_to_u32 c) 0 message
      in ''10='' @ pad_left 3 (show_digits (uint (sum mod 256))) @ [CHR 0x01])"

definition fix_message :: "string list \<Rightarrow> string" where
  "fix_message tags =
     (let message = concat (map (\<lambda>s. s @ [CHR 0x01]) tags)
      in message @ Calculate_fix_checksum message)"

definition Make_fix_logon_message :: "string \<Rightarrow> string \<Rightarrow> string" where
  "Make_fix_logon_message username password =
     fix_message [''35=A'', ''553='' @ username, ''554='' @ password]"

definition Make_fix_recovery_request_message :: "string \<Rightarrow> string \<Rightarrow> u32 \<Rightarrow> u32 \<Rightarrow> string" where
  "Make_fix_recovery_request_message channel_id req_id begin_seq end_seq =
     fix_message [''35=V'', ''1180='' @ channel_id, ''262='' @ req_id,
       ''1182='' @ to_string_word begin_seq, ''1183='' @ to_string_word end_seq]"

section \<open>Encoding\<close>

text \<open>The layout the comments of \<open>DatProcessor::Process_data\<close> describe, as an encoder.\<close>

fun le_bytes :: "nat \<Rightarrow> int \<Rightarrow> u8 list" where
  "le_bytes 0 v = []"
| "le_bytes (Suc n) v = word_of_int v # le_bytes n (v div 256)"

definition encode_message :: "u8 list \<Rightarrow> u8 list" where
  "encode_message bytes = le_bytes 2 (int (length bytes) + 2) @ bytes"

definition encode_packet :: "u32 \<Rightarrow> u64 \<Rightarrow> u8 list list \<Rightarrow> u8 list" where
  "encode_packet seq sending_time bodies =
     le_bytes 4 (uint seq) @ le_bytes 8 (uint sending_time) @ concat (map encode_message bodies)"

lemma length_le_bytes [simp]: "length (le_bytes n v) = n"
  by (induction n arbitrary: v) auto

lemma le_value_le_bytes: "le_value (le_bytes n v) = v mod 256 ^ n"
proof (induction n arbitrary: v)
  case (Suc n)
  have "le_value (le_bytes (Suc n) v) = v mod 256 + 256 * ((v div 256) mod 256 ^ n)"
    using Suc by (simp add: le_value_def uint_word_of_int)
  also have "\<dots> = v mod 256 ^ Suc n"
    by (metis add.commute mod_mult2_eq' power_Suc zmod_zmult2_eq zero_le_numeral zero_le_power)
  finally show ?case .
qed (simp add: le_value_def)

lemma read_le_bytes:
  "read_le n (length pre) (pre @ le_bytes n v @ post) = Inr (word_of_int (v mod 256 ^ n))"
  by (simp add: read_le_def le_value_le_bytes)

lemma read_u32_le_bytes:
  assumes "length pre = p"
  shows "read_u32 p (pre @ le_bytes 4 (uint (w::u32)) @ post) = Inr w"
  using read_le_bytes [of 4 pre "uint w" post, where 'a = 32] uint_bounded [of w] assms
  by (simp add: read_u32_def)

lemma read_u64_le_bytes:
  assumes "length pre = p"
  shows "read_u64 p (pre @ le_bytes 8 (uint (w::u64)) @ post) = Inr w"
  using read_le_bytes [of 8 pre "uint w" post, where 'a = 64] uint_bounded [of w] assms
  by (simp add: read_u64_def)

lemma read_u16_le_bytes:
  "length pre = p \<Longrightarrow> 0 \<le> v \<Longrightarrow> v < 65536 \<Longrightarrow>
   read_u16 p (pre @ le_bytes 2 v @ post) = Inr (word_of_int v)"
  using read_le_bytes [of 2 pre v post, where 'a = 16]
  by (simp add: read_u16_def)

text \<open>The message the constructor makes of a body and its decoded view.\<close>

definition message_of :: "nat \<Rightarrow> u32 \<Rightarrow> u64 \<Rightarrow> u8 list \<Rightarrow> sbe_message \<Rightarrow> MdpMessage" where
  "message_of packet_length seq sending_time bytes sbe =
     \<lparr>m_packet_length = packet_length, m_packet_seq_num = seq,
      m_packet_sending_time = sending_time, m_message_length = of_nat (length bytes),
      m_buffer = bytes, m_sbe = sbe\<rparr>"

lemma unat_size_field:
  assumes "length bytes \<le> 65533"
  shows "unat (word_of_int (int (length bytes) + 2) :: u16) = length bytes + 2"
    and "(word_of_int (int (length bytes) + 2) :: u16) - 2 = of_nat (length bytes)"
    and "unat (of_nat (length bytes) :: u16) = length bytes"
proof -
  have eq: "(word_of_int (int (length bytes) + 2) :: u16) = of_nat (length bytes + 2)"
    by (metis of_int_of_nat_eq of_nat_add of_nat_numeral)
  show "unat (word_of_int (int (length bytes) + 2) :: u16) = length bytes + 2"
    unfolding eq unat_of_nat using assms by simp
  show "(word_of_int (int (length bytes) + 2) :: u16) - 2 = of_nat (length bytes)"
    unfolding eq by simp
  show "unat (of_nat (length bytes) :: u16) = length bytes"
    using assms by (simp add: unat_of_nat)
qed

lemma pick_loop_encoded:
  assumes "list_all2 (\<lambda>b s. length b \<le> 65533 \<and> decode b = Inr s) bodies sbes"
    and "data_length = length pre + length (concat (map encode_message bodies))"
  shows "pick_loop decode (pre @ concat (map encode_message bodies) @ post) data_length
      seq sending_time (length pre) acc =
    Some (Inr (acc @ map2 (message_of data_length seq sending_time) bodies sbes))"
  using assms
proof (induction bodies sbes arbitrary: pre acc rule: list_all2_induct)
  case Nil
  then show ?case by (simp add: pick_loop.simps)
next
  case (Cons b bodies s sbes)
  let ?rest = "concat (map encode_message bodies)"
  define mem where "mem = pre @ encode_message b @ ?rest @ post"
  have b: "length b \<le> 65533" "decode b = Inr s" using Cons.hyps by auto
  have sz: "read_u16 (length pre) mem = Inr (word_of_int (int (length b) + 2))"
    using read_u16_le_bytes [of pre "length pre" "int (length b) + 2" "b @ ?rest @ post"] b(1)
    by (simp add: mem_def encode_message_def)
  have new: "MdpMessage_new decode (drop (length pre + 2) mem) (of_nat (length b)) data_length
      seq sending_time = Inr (message_of data_length seq sending_time b s)"
    using b unat_size_field(3) [OF b(1)]
    by (simp add: mem_def encode_message_def MdpMessage_new_def message_of_def)
  have IH: "pick_loop decode ((pre @ encode_message b) @ ?rest @ post) data_length seq
      sending_time (length (pre @ encode_message b)) acc' =
    Some (Inr (acc' @ map2 (message_of data_length seq sending_time) bodies sbes))" for acc'
    by (rule Cons.IH) (use Cons.prems in simp)
  have len: "length (pre @ encode_message b) = length pre + (length b + 2)"
    by (simp add: encode_message_def)
  have "\<not> data_length \<le> length pre"
    using Cons.prems by (simp add: encode_message_def)
  then have "pick_loop decode mem data_length seq sending_time (length pre) acc =
      pick_loop decode mem data_length seq sending_time (length (pre @ encode_message b))
        (acc @ [message_of data_length seq sending_time b s])"
    unfolding len
    by (subst pick_loop.simps) (simp only: sz new unat_size_field [OF b(1)] sum.case if_False)
  then show ?case using IH by (simp add: mem_def)
qed

lemma Pick_encoded:
  assumes "list_all2 (\<lambda>b s. length b \<le> 65533 \<and> decode b = Inr s) bodies sbes"
  shows "Pick_messages_from_packet decode (encode_packet seq sending_time bodies @ rest)
      (length (encode_packet seq sending_time bodies)) ms =
    Some (Inr (seq, ms @ map2 (message_of (length (encode_packet seq sending_time bodies))
      seq sending_time) bodies sbes))"
proof -
  let ?body = "concat (map encode_message bodies)"
  let ?pre = "le_bytes 4 (uint seq) @ le_bytes 8 (uint sending_time)"
  have "read_u32 0 ([] @ le_bytes 4 (uint seq) @ le_bytes 8 (uint sending_time) @ ?body @ rest)
      = Inr seq" by (rule read_u32_le_bytes) simp
  moreover have "read_u64 4 (le_bytes 4 (uint seq) @ le_bytes 8 (uint sending_time) @ ?body @ rest)
      = Inr sending_time" by (rule read_u64_le_bytes) simp
  moreover have "pick_loop decode (?pre @ ?body @ rest) (length ?pre + length ?body)
      seq sending_time (length ?pre) ms =
    Some (Inr (ms @ map2 (message_of (length ?pre + length ?body) seq sending_time) bodies sbes))"
    by (rule pick_loop_encoded [OF assms refl])
  ultimately show ?thesis
    by (simp add: Pick_messages_from_packet_def encode_packet_def)
qed

text \<open>
  Claim C14: a packet laid out as the feed lays it out (sequence number, sending time, then each
  message preceded by a size that counts itself) is split back into exactly its messages, in
  order, each carrying the packet's number and time and its own bytes, whatever bytes follow the
  packet in the receive buffer.
\<close>
theorem pick_messages_roundtrip:
  assumes "list_all2 (\<lambda>b s. length b \<le> 65533 \<and> decode b = Inr s) bodies sbes"
  shows "Pick_messages_from_packet decode (encode_packet seq sending_time bodies @ rest)
      (length (encode_packet seq sending_time bodies)) ms =
    Some (Inr (seq, ms @ map2 (message_of (length (encode_packet seq sending_time bodies))
      seq sending_time) bodies sbes))"
  using assms by (rule Pick_encoded)

theorem pick_messages_roundtrip_witness:
  "Pick_messages_from_packet (\<lambda>_. Inr AdminHeartbeat12)
     (encode_packet 9 1000 [[1, 2, 3], []] @ [255])
     (length (encode_packet 9 1000 [[1, 2, 3], []])) [] =
   Some (Inr (9, [message_of 19 9 1000 [1, 2, 3] AdminHeartbeat12,
     message_of 19 9 1000 [] AdminHeartbeat12]))"
proof -
  have "list_all2 (\<lambda>b s. length b \<le> 65533 \<and> (\<lambda>_. Inr AdminHeartbeat12) b = (Inr s :: sbe_message res))
      [[1, 2, 3 :: u8], []] [AdminHeartbeat12, AdminHeartbeat12]" by simp
  from pick_messages_roundtrip [OF this, of 9 1000 "[255]" "[]"] show ?thesis
    by (simp add: encode_packet_def encode_message_def)
qed



section \<open>The replay stream\<close>

text \<open>The frames of the replay stream: a size that does not count itself, then a packet.\<close>

definition encode_frame :: "u8 list \<Rightarrow> u8 list" where
  "encode_frame packet = le_bytes 2 (int (length packet)) @ packet"

definition handed_over :: "replay_action list \<Rightarrow> u8 list list" where
  "handed_over acts =
     concat (map (\<lambda>a. case a of Process_packet bytes n \<Rightarrow> [take n bytes] | _ \<Rightarrow> []) acts)"

text \<open>What the receiver owes the processor: all packets before the first logout message, except
  for the heartbeats.\<close>

fun packets_due :: "u8 list list \<Rightarrow> u8 list list" where
  "packets_due [] = []"
| "packets_due (p # ps) =
     (if Get_sbe_template_id p = Inr 16 then []
      else if Get_sbe_template_id p = Inr 12 then packets_due ps else p # packets_due ps)"

lemma template_of_prefix:
  assumes "20 \<le> length p"
  shows "\<exists>t. Get_sbe_template_id p = Inr t \<and> Get_sbe_template_id (p @ rest) = Inr t"
  using assms by (auto simp: Get_sbe_template_id_def read_u32_def read_le_def)

lemma On_recovery_data_frames:
  assumes "\<forall>p \<in> set packets. 20 \<le> length p \<and> length p < 65536"
  shows "\<exists>acts. On_recovery_data (pre @ concat (map encode_frame packets) @ rest)
      (length pre + length (concat (map encode_frame packets))) (length pre) = Inr acts \<and>
    handed_over acts = packets_due packets"
  using assms
proof (induction packets arbitrary: pre)
  case Nil
  then show ?case by (simp add: On_recovery_data.simps handed_over_def)
next
  case (Cons p packets)
  define tail where "tail = concat (map encode_frame packets) @ rest"
  define buffer where "buffer = pre @ encode_frame p @ tail"
  define len where "len = length pre + length (concat (map encode_frame (p # packets)))"
  have p: "20 \<le> length p" "length p < 65536" using Cons.prems by auto
  define n :: u16 where "n = of_nat (length p)"
  have n: "unat n = length p" using p(2) by (simp add: n_def unat_of_nat)
  have l: "read_u16 (length pre) buffer = Inr n"
    using read_u16_le_bytes [of pre "length pre" "int (length p)" "p @ tail"] p(2)
    by (simp add: buffer_def encode_frame_def n_def)
  have body: "drop (length pre + 2) buffer = p @ tail"
    by (simp add: buffer_def encode_frame_def)
  obtain t where t: "Get_sbe_template_id p = Inr t" "Get_sbe_template_id (p @ tail) = Inr t"
    using template_of_prefix [OF p(1)] by blast
  have lt: "\<not> len \<le> length pre" by (simp add: len_def encode_frame_def)
  have "\<exists>acts. On_recovery_data ((pre @ encode_frame p) @ tail)
      (length (pre @ encode_frame p) + length (concat (map encode_frame packets)))
      (length (pre @ encode_frame p)) = Inr acts \<and> handed_over acts = packets_due packets"
    unfolding tail_def using Cons.prems by (intro Cons.IH) simp
  then obtain acts where
    acts: "On_recovery_data buffer len (length pre + unat n + 2) = Inr acts"
      "handed_over acts = packets_due packets"
    by (auto simp: buffer_def len_def encode_frame_def n add.assoc)
  have "On_recovery_data buffer len (length pre) =
    (if t = 16 then Inr [Stop_receiver]
     else Inr ((if t \<noteq> 12 then [Process_packet (p @ tail) (unat n)] else []) @ Receive_more # acts))"
    by (subst On_recovery_data.simps) (simp only: lt l body t(2) acts(1) bind_res_simps if_False)
  then have "\<exists>as. On_recovery_data buffer len (length pre) = Inr as \<and>
      handed_over as = packets_due (p # packets)"
    by (auto simp: t(1) acts(2) n handed_over_def acts(2) [unfolded handed_over_def])
  then show ?case by (simp add: buffer_def tail_def len_def)
qed

text \<open>
  When the TCP replay connection delivers a sequence of framed packets, the receiver
  walks over exactly those frames, hands each packet before the first logout message to the
  processor whole and in order, leaves out the heartbeats, and reads no byte beyond the frames'
  headers that was not delivered.
\<close>
theorem on_recovery_data_hands_over:
  assumes "\<forall>p \<in> set packets. 20 \<le> length p \<and> length p < 65536"
  shows "\<exists>acts. On_recovery_data (concat (map encode_frame packets) @ rest)
      (length (concat (map encode_frame packets))) 0 = Inr acts \<and>
    handed_over acts = packets_due packets"
  using On_recovery_data_frames [OF assms, of "[]" rest] by simp

text \<open>Two packets with a heartbeat (template 12) between them, then a logout (template 16).\<close>

definition example_packet :: "u8 \<Rightarrow> u8 list" where
  "example_packet t = replicate 16 0 @ [t, 0, 0, 0]"

theorem on_recovery_data_hands_over_witness:
  "\<exists>acts. On_recovery_data (concat (map encode_frame (map example_packet [32, 12, 36, 16, 32])))
      (length (concat (map encode_frame (map example_packet [32, 12, 36, 16, 32])))) 0 = Inr acts \<and>
    handed_over acts = [example_packet 32, example_packet 36]"
proof -
  have "packets_due (map example_packet [32, 12, 36, 16, 32]) =
      [example_packet 32, example_packet 36]"
    by code_simp
  then show ?thesis
    using on_recovery_data_hands_over [of "map example_packet [32, 12, 36, 16, 32]" "[]"]
    by (simp add: example_packet_def)
qed

end
