(* ===== verification/Recovery.thy ===== *)
theory Recovery
  imports Packets "HOL-Library.Sublist"
begin

text \<open>
  The collection of the definition and snapshot loops (cme/market/recovery_saver.cc).  The exchange
  repeats a loop of packets numbered from 1; the saver waits for a packet 1 and then takes the
  packets of the loop in order until it has as many messages as the first packet announces.
\<close>

record RecoverySaver =
  m_is_definition :: bool
  rs_m_current_sequence :: u32
  m_total_number :: u32
  m_recovery_datas :: "MdpMessage list"

definition RecoverySaver_new :: "bool \<Rightarrow> RecoverySaver" where
  "RecoverySaver_new is_definition = \<lparr>m_is_definition = is_definition, rs_m_current_sequence = 0,
     m_total_number = 0, m_recovery_datas = []\<rparr>"

text \<open>Field 911 (TotNumReports) of the packet's first message.\<close>

definition read_total :: "bool \<Rightarrow> u8 list \<Rightarrow> u32 res" where
  "read_total is_definition buffer =
     read_u32 (4 + 8 + 2 + 8 + (if is_definition then 1 else 4)) buffer"

definition Save_packet ::
    "(u8 list \<Rightarrow> sbe_message res) \<Rightarrow> u8 list \<Rightarrow> nat \<Rightarrow> u32 \<Rightarrow> RecoverySaver
     \<Rightarrow> (RecoverySaver \<times> bool) res option" where
  "Save_packet decode buffer data_length pseq rs =
     (case (if pseq = 1
            then map_res (\<lambda>total. rs\<lparr>m_recovery_datas := [], m_total_number := total\<rparr>)
                   (read_total (m_is_definition rs) buffer)
            else Inr rs) of
        Inl e \<Rightarrow> Some (Inl e)
      | Inr rs1 \<Rightarrow>
          map_option (map_res (\<lambda>(seq, datas).
              (rs1\<lparr>rs_m_current_sequence := seq, m_recovery_datas := datas\<rparr>,
               unat (m_total_number rs1) \<le> length datas)))
            (Pick_messages_from_packet decode buffer data_length (m_recovery_datas rs1)))"

text \<open>The flag tells whether the callback is called, that is, whether the loop is complete.\<close>

definition Process_recovery_packet ::
    "(u8 list \<Rightarrow> sbe_message res) \<Rightarrow> u8 list \<Rightarrow> nat \<Rightarrow> RecoverySaver
     \<Rightarrow> (RecoverySaver \<times> bool) res option" where
  "Process_recovery_packet decode buffer data_length rs =
     (case read_u32 0 buffer of
        Inl e \<Rightarrow> Some (Inl e)
      | Inr pseq \<Rightarrow>
          if pseq \<noteq> rs_m_current_sequence rs + 1 \<and> pseq \<noteq> 1
          then Some (Inr (rs, False))
          else Save_packet decode buffer data_length pseq rs)"

section \<open>Runs of the saver\<close>

text \<open>A received packet by what it holds: its sequence number and messages, and the total its
  first message announces.\<close>

record loop_packet =
  lp_seq :: u32
  lp_total :: u32
  lp_messages :: "MdpMessage list"

definition holds :: "(u8 list \<Rightarrow> sbe_message res) \<Rightarrow> bool \<Rightarrow> u8 list \<Rightarrow> nat \<Rightarrow> loop_packet \<Rightarrow> bool" where
  "holds decode is_definition buffer len p \<longleftrightarrow>
     read_u32 0 buffer = Inr (lp_seq p) \<and> read_total is_definition buffer = Inr (lp_total p) \<and>
     (\<forall>acc. Pick_messages_from_packet decode buffer len acc =
        Some (Inr (lp_seq p, acc @ lp_messages p)))"

text \<open>The saver's packets: the flags of the calls are collected.\<close>

fun receive_packets ::
    "(u8 list \<Rightarrow> sbe_message res) \<Rightarrow> (u8 list \<times> nat) list \<Rightarrow> RecoverySaver
     \<Rightarrow> (RecoverySaver \<times> bool list) res option" where
  "receive_packets decode [] rs = Some (Inr (rs, []))"
| "receive_packets decode ((buffer, len) # bs) rs =
     (case Process_recovery_packet decode buffer len rs of
        None \<Rightarrow> None
      | Some (Inl e) \<Rightarrow> Some (Inl e)
      | Some (Inr (rs', full)) \<Rightarrow>
          map_option (map_res (\<lambda>(rs'', flags). (rs'', full # flags)))
            (receive_packets decode bs rs'))"

text \<open>What the saver has: some of the packets it was given, in order, numbered 1, 2, 3, ... without
  a gap; its messages are theirs and the total is the first one's.\<close>

definition has_loop :: "loop_packet list \<Rightarrow> RecoverySaver \<Rightarrow> bool" where
  "has_loop ps rs \<longleftrightarrow>
     map lp_seq ps = map of_nat [1..<Suc (length ps)] \<and>
     rs_m_current_sequence rs = of_nat (length ps) \<and>
     m_recovery_datas rs = concat (map lp_messages ps) \<and>
     m_total_number rs = (case ps of [] \<Rightarrow> 0 | p # _ \<Rightarrow> lp_total p)"

lemma has_loop_first:
  "lp_seq p = 1 \<Longrightarrow> has_loop [p] (rs\<lparr>m_recovery_datas := lp_messages p, m_total_number := lp_total p,
     rs_m_current_sequence := lp_seq p\<rparr>)"
  by (simp add: has_loop_def)

lemma has_loop_next:
  assumes "has_loop ps rs" "lp_seq p = rs_m_current_sequence rs + 1" "ps \<noteq> []"
  shows "has_loop (ps @ [p]) (rs\<lparr>rs_m_current_sequence := lp_seq p,
    m_recovery_datas := m_recovery_datas rs @ lp_messages p\<rparr>)"
  using assms by (auto simp: has_loop_def add.commute split: list.splits)

text \<open>One packet: the loop goes on, starts anew, or the packet is left out.\<close>

lemma Process_recovery_packet_loop:
  assumes "has_loop ps rs" "holds decode (m_is_definition rs) buffer len p"
  shows "\<exists>rs' ps' full. Process_recovery_packet decode buffer len rs = Some (Inr (rs', full)) \<and>
    has_loop ps' rs' \<and> m_is_definition rs' = m_is_definition rs \<and>
    (ps' = ps \<or> ps' = [p] \<or> ps' = ps @ [p]) \<and>
    (full \<longrightarrow> unat (m_total_number rs') \<le> length (m_recovery_datas rs'))"
proof -
  have p: "read_u32 0 buffer = Inr (lp_seq p)" "read_total (m_is_definition rs) buffer = Inr (lp_total p)"
    "\<And>acc. Pick_messages_from_packet decode buffer len acc = Some (Inr (lp_seq p, acc @ lp_messages p))"
    using assms(2) by (auto simp: holds_def)
  consider "lp_seq p = 1" | "lp_seq p \<noteq> 1" "lp_seq p = rs_m_current_sequence rs + 1"
    | "lp_seq p \<noteq> 1" "lp_seq p \<noteq> rs_m_current_sequence rs + 1" by blast
  then show ?thesis
  proof cases
    case 1
    let ?rs = "rs\<lparr>m_recovery_datas := lp_messages p, m_total_number := lp_total p,
      rs_m_current_sequence := lp_seq p\<rparr>"
    have "Process_recovery_packet decode buffer len rs =
        Some (Inr (?rs, unat (m_total_number ?rs) \<le> length (m_recovery_datas ?rs)))"
      using 1 p by (simp add: Process_recovery_packet_def Save_packet_def)
    then show ?thesis using has_loop_first [OF 1] by fastforce
  next
    case 2
    then have "ps \<noteq> []" using assms(1) by (auto simp: has_loop_def)
    let ?rs = "rs\<lparr>rs_m_current_sequence := lp_seq p,
      m_recovery_datas := m_recovery_datas rs @ lp_messages p\<rparr>"
    have "Process_recovery_packet decode buffer len rs =
        Some (Inr (?rs, unat (m_total_number ?rs) \<le> length (m_recovery_datas ?rs)))"
      using 2 p by (simp add: Process_recovery_packet_def Save_packet_def)
    then show ?thesis using has_loop_next [OF assms(1) 2(2)] \<open>ps \<noteq> []\<close> by fastforce
  next
    case 3
    then show ?thesis using p assms(1) by (auto simp: Process_recovery_packet_def)
  qed
qed

lemma receive_packets_loop:
  assumes "list_all2 (\<lambda>(buffer, len). holds decode def buffer len) bs packets"
    and "has_loop ps rs" "m_is_definition rs = def" "subseq ps given"
  shows "\<exists>rs' flags ps'. receive_packets decode bs rs = Some (Inr (rs', flags)) \<and>
    has_loop ps' rs' \<and> subseq ps' (given @ packets) \<and>
    (flags \<noteq> [] \<longrightarrow> last flags \<longrightarrow> unat (m_total_number rs') \<le> length (m_recovery_datas rs')) \<and>
    length flags = length bs"
  using assms
proof (induction bs packets arbitrary: rs ps given rule: list_all2_induct)
  case Nil
  then show ?case by auto
next
  case (Cons b bs p packets)
  obtain buffer len where b: "b = (buffer, len)" by (cases b)
  have "holds decode (m_is_definition rs) buffer len p" using Cons.hyps Cons.prems(2) b by simp
  from Process_recovery_packet_loop [OF Cons.prems(1) this] obtain rs1 ps1 full where
    step: "Process_recovery_packet decode buffer len rs = Some (Inr (rs1, full))" "has_loop ps1 rs1"
      "m_is_definition rs1 = def" "ps1 = ps \<or> ps1 = [p] \<or> ps1 = ps @ [p]"
      "full \<longrightarrow> unat (m_total_number rs1) \<le> length (m_recovery_datas rs1)"
    using Cons.prems(2) by auto
  have "subseq ps1 (given @ [p])"
    using step(4) Cons.prems(3) by (auto intro: subseq_append_iff [THEN iffD2] list_emb_append2)
  from Cons.IH [OF step(2,3) this] obtain rs2 flags ps2 where
    rest: "receive_packets decode bs rs1 = Some (Inr (rs2, flags))" "has_loop ps2 rs2"
      "subseq ps2 ((given @ [p]) @ packets)" "length flags = length bs"
      "flags \<noteq> [] \<longrightarrow> last flags \<longrightarrow> unat (m_total_number rs2) \<le> length (m_recovery_datas rs2)"
    by blast
  have "rs2 = rs1" if "flags = []" using that rest by auto
  then have "last (full # flags) \<longrightarrow> unat (m_total_number rs2) \<le> length (m_recovery_datas rs2)"
    using rest(5) step(5) by auto
  with rest step(1) show ?case by (auto simp: b intro!: exI [of _ ps2])
qed

text \<open>
  Whatever packets of a definition or snapshot loop arrive, repeated, out of order, or
  with packets missing, the saver always holds the messages of packets 1, 2, ..., n of one pass
  over a loop, each whole, once and in order, taken from what arrived in the order it arrived; and
  it only reports completion when it has at least as many messages as the first of those packets
  announced.
\<close>
theorem recovery_saver_has_gapless_loop:
  assumes "list_all2 (\<lambda>(buffer, len). holds decode def buffer len) bs packets"
  shows "\<exists>rs flags ps. receive_packets decode bs (RecoverySaver_new def) = Some (Inr (rs, flags)) \<and>
    subseq ps packets \<and> map lp_seq ps = map of_nat [1..<Suc (length ps)] \<and>
    m_recovery_datas rs = concat (map lp_messages ps) \<and>
    (flags \<noteq> [] \<longrightarrow> last flags \<longrightarrow>
       ps = [] \<and> m_recovery_datas rs = [] \<or>
       ps \<noteq> [] \<and> unat (lp_total (hd ps)) \<le> length (m_recovery_datas rs))"
proof -
  have "has_loop [] (RecoverySaver_new def)" "m_is_definition (RecoverySaver_new def) = def"
    by (simp_all add: has_loop_def RecoverySaver_new_def)
  from receive_packets_loop [OF assms this, of "[]"] obtain rs flags ps where
    r: "receive_packets decode bs (RecoverySaver_new def) = Some (Inr (rs, flags))"
      "has_loop ps rs" "subseq ps packets"
      "flags \<noteq> [] \<longrightarrow> last flags \<longrightarrow> unat (m_total_number rs) \<le> length (m_recovery_datas rs)"
    by auto
  then have "flags \<noteq> [] \<longrightarrow> last flags \<longrightarrow>
       ps = [] \<and> m_recovery_datas rs = [] \<or>
       ps \<noteq> [] \<and> unat (lp_total (hd ps)) \<le> length (m_recovery_datas rs)"
    by (cases ps) (simp_all add: has_loop_def)
  moreover have "map lp_seq ps = map of_nat [1..<Suc (length ps)]"
    "m_recovery_datas rs = concat (map lp_messages ps)"
    using r(2) by (simp_all add: has_loop_def)
  ultimately show ?thesis using r(1,3) by blast
qed

text \<open>A loop of two packets that announces two messages, entered at its second packet.\<close>

definition loop_bytes :: "u32 \<Rightarrow> u8 list" where
  "loop_bytes seq = encode_packet seq 0 [replicate 12 0 @ le_bytes 4 2]"

definition loop_item :: "u32 \<Rightarrow> loop_packet" where
  "loop_item seq = \<lparr>lp_seq = seq, lp_total = 2, lp_messages =
     [message_of 30 seq 0 (replicate 12 0 @ le_bytes 4 2) AdminHeartbeat12]\<rparr>"

theorem recovery_saver_has_gapless_loop_witness:
  "\<exists>rs flags ps. receive_packets (\<lambda>_. Inr AdminHeartbeat12)
      [(loop_bytes 2, 30), (loop_bytes 1, 30), (loop_bytes 2, 30)] (RecoverySaver_new False) =
      Some (Inr (rs, flags)) \<and> subseq ps [loop_item 2, loop_item 1, loop_item 2] \<and>
    m_recovery_datas rs = concat (map lp_messages ps)"
proof -
  have "holds (\<lambda>_. Inr AdminHeartbeat12) False (loop_bytes seq) 30 (loop_item seq)" for seq
  proof -
    have len: "length (encode_packet seq 0 [replicate 12 0 @ le_bytes 4 2]) = 30"
      by (simp add: encode_packet_def encode_message_def)
    have "Pick_messages_from_packet (\<lambda>_. Inr AdminHeartbeat12) (loop_bytes seq) 30 acc =
        Some (Inr (seq, acc @ lp_messages (loop_item seq)))" for acc
      using Pick_encoded [of "\<lambda>_. Inr AdminHeartbeat12" "[replicate 12 0 @ le_bytes 4 2]"
          "[AdminHeartbeat12]" seq 0 "[]" acc]
      unfolding len by (simp add: loop_bytes_def loop_item_def)
    moreover have "read_u32 0 (loop_bytes seq) = Inr seq"
      using read_u32_le_bytes [of "[]" 0 seq] by (simp add: loop_bytes_def encode_packet_def)
    moreover have "read_total False (loop_bytes seq) = Inr 2"
      using read_u32_le_bytes [of "le_bytes 4 (uint seq) @ le_bytes 8 0 @ le_bytes 2 18 @ replicate 12 0"
          26 2 "[]"]
      by (simp add: read_total_def loop_bytes_def encode_packet_def encode_message_def)
    ultimately show ?thesis by (simp add: holds_def loop_item_def)
  qed
  then have "list_all2 (\<lambda>(buffer, len). holds (\<lambda>_. Inr AdminHeartbeat12) False buffer len)
      [(loop_bytes 2, 30), (loop_bytes 1, 30), (loop_bytes 2, 30)]
      [loop_item 2, loop_item 1, loop_item 2]" by simp
  from recovery_saver_has_gapless_loop [OF this] show ?thesis by blast
qed

end
