(* ===== verification/Arbitration.thy ===== *)
theory Arbitration
  imports Recovery
begin

text \<open>
  The arbitration of the two UDP feeds and the TCP replay (cme/market/dat_arbitrator.cc), the store
  of received increments (cme/market/cme_data.cc) and the processor between them
  (cme/market/dat_processor.cc).

  The feed thread, the replay threads and the saver thread share the two objects under locks; the
  model's steps are the sections between taking and releasing a lock, so that everything that
  can happen between checking a packet and storing it is a sequence of steps.  A \<open>std::set\<close> is a
  set; the multiset of messages is a list ordered by sequence number, in which an insertion goes
  after the equal ones.
\<close>

section \<open>The arbitrator\<close>

record DatArbitrator =
  m_current_sequence :: u32
  m_lost_sequences :: "u32 set"

definition DatArbitrator_new :: DatArbitrator where
  "DatArbitrator_new = \<lparr>m_current_sequence = uint32_max, m_lost_sequences = {}\<rparr>"

definition Check_feed_packet :: "u32 \<Rightarrow> DatArbitrator \<Rightarrow> u32 \<times> DatArbitrator" where
  "Check_feed_packet seq a =
     (if seq = m_current_sequence a + 1 then (0, a\<lparr>m_current_sequence := seq\<rparr>)
      else if seq = m_current_sequence a then (uint32_max, a)
      else if m_current_sequence a = uint32_max then (0, a\<lparr>m_current_sequence := seq\<rparr>)
      else if seq < m_current_sequence a then
        (if seq \<notin> m_lost_sequences a then (uint32_max, a)
         else (0, a\<lparr>m_lost_sequences := m_lost_sequences a - {seq}\<rparr>))
      else
        let old_seq = m_current_sequence a + 1
        in (old_seq, a\<lparr>m_lost_sequences := m_lost_sequences a \<union> {old_seq ..< seq},
                      m_current_sequence := seq\<rparr>))"

definition Check_replay_packet :: "u32 \<Rightarrow> DatArbitrator \<Rightarrow> u32 \<times> DatArbitrator" where
  "Check_replay_packet seq a =
     (if seq \<notin> m_lost_sequences a then (uint32_max, a)
      else (0, a\<lparr>m_lost_sequences := m_lost_sequences a - {seq}\<rparr>))"

section \<open>The store of increments\<close>

fun multiset_insert :: "MdpMessage \<Rightarrow> MdpMessage list \<Rightarrow> MdpMessage list" where
  "multiset_insert m [] = [m]"
| "multiset_insert m (x # xs) =
     (if m_packet_seq_num m < m_packet_seq_num x then m # x # xs else x # multiset_insert m xs)"

record CmeData =
  m_last_seq :: u32
  m_unreceived_seqs :: "u32 set"
  m_increment_datas :: "MdpMessage list"
  m_definition_saver :: RecoverySaver
  m_recovery_saver :: RecoverySaver
  m_is_stopped :: bool

definition CmeData_new :: CmeData where
  "CmeData_new = \<lparr>m_last_seq = uint32_max, m_unreceived_seqs = {}, m_increment_datas = [],
     m_definition_saver = RecoverySaver_new True, m_recovery_saver = RecoverySaver_new False,
     m_is_stopped = False\<rparr>"

text \<open>A packet with the last sequence number would insert the range from the number after it up to
  the number itself, all around the 32 bits; that is taken as undefined.\<close>

definition Insert_increment_data :: "u32 \<Rightarrow> MdpMessage list \<Rightarrow> CmeData \<Rightarrow> CmeData res" where
  "Insert_increment_data seq msgs d =
     (let d1 = d\<lparr>m_increment_datas := fold multiset_insert msgs (m_increment_datas d)\<rparr> in
      if m_last_seq d = uint32_max then Inr (d1\<lparr>m_last_seq := seq\<rparr>)
      else if seq < m_last_seq d then
        Inr (d1\<lparr>m_unreceived_seqs := m_unreceived_seqs d - {seq}\<rparr>)
      else if seq = m_last_seq d then Inl Undefined_behaviour
      else Inr (d1\<lparr>m_unreceived_seqs := m_unreceived_seqs d \<union> {m_last_seq d + 1 ..< seq},
                   m_last_seq := seq\<rparr>))"

text \<open>One pass of the loop in \<open>Pick_next_message\<close>: it ends, waits on the condition variable and
  tries again, or returns an iterator to the first message.\<close>

datatype pick_result = Pick_stopped | Pick_wait | Picked MdpMessage

definition Pick_next_message :: "CmeData \<Rightarrow> pick_result" where
  "Pick_next_message d =
     (if m_is_stopped d then Pick_stopped
      else case m_increment_datas d of
          [] \<Rightarrow> Pick_wait
        | message # _ \<Rightarrow>
            let first_unreceived =
              (if m_unreceived_seqs d = {} then 0 else Min (m_unreceived_seqs d))
            in if first_unreceived \<noteq> 0 \<and> first_unreceived \<le> m_packet_seq_num message
               then Pick_wait else Picked message)"

text \<open>\<open>m_increment_datas.erase(it)\<close> for an iterator to \<open>message\<close>.\<close>

definition Remove_increment_data :: "MdpMessage \<Rightarrow> CmeData \<Rightarrow> CmeData" where
  "Remove_increment_data message d = d\<lparr>m_increment_datas := remove1 message (m_increment_datas d)\<rparr>"

text \<open>One pass of \<open>Get_increment_first_data_seq\<close>: \<open>None\<close> to wait; 0 once stopped.\<close>

definition Get_increment_first_data_seq :: "CmeData \<Rightarrow> u32 option" where
  "Get_increment_first_data_seq d =
     (if m_is_stopped d then Some 0
      else case m_increment_datas d of [] \<Rightarrow> None | m # _ \<Rightarrow> Some (m_packet_seq_num m))"

definition Get_increment_data_count :: "CmeData \<Rightarrow> u32" where
  "Get_increment_data_count d = of_nat (length (m_increment_datas d))"

definition CmeData_Stop :: "CmeData \<Rightarrow> CmeData" where
  "CmeData_Stop d = d\<lparr>m_is_stopped := True\<rparr>"

section \<open>The processor\<close>

text \<open>What the processor starts besides storing messages.\<close>

datatype processor_action = Start_receive u32 u32 | Call_on_error

definition Process_data ::
    "(u8 list \<Rightarrow> sbe_message res) \<Rightarrow> u8 list \<Rightarrow> nat \<Rightarrow> CmeData \<Rightarrow> CmeData res option" where
  "Process_data decode buffer data_length d =
     map_option (\<lambda>r. bind_res r (\<lambda>(seq, mdp_messages).
         bind_res (Insert_increment_data seq mdp_messages d) (\<lambda>d'.
         map_res (\<lambda>_. d') (traverse message_type mdp_messages))))
       (Pick_messages_from_packet decode buffer data_length [])"

definition Start_tcp_replay :: "bool \<Rightarrow> u32 \<Rightarrow> u32 \<Rightarrow> processor_action" where
  "Start_tcp_replay has_replayer begin end_seq =
     (if has_replayer then Start_receive begin end_seq else Call_on_error)"

definition Process_feed_data ::
    "(u8 list \<Rightarrow> sbe_message res) \<Rightarrow> bool \<Rightarrow> u8 list \<Rightarrow> nat \<Rightarrow> DatArbitrator \<times> CmeData
     \<Rightarrow> ((DatArbitrator \<times> CmeData) \<times> processor_action list) res option" where
  "Process_feed_data decode has_replayer buffer data_length = (\<lambda>(a, d).
     case read_u32 0 buffer of
       Inl e \<Rightarrow> Some (Inl e)
     | Inr seq \<Rightarrow>
         let (status, a') = Check_feed_packet seq a in
         if status = uint32_max then Some (Inr ((a', d), []))
         else map_option (map_res (\<lambda>d'. ((a', d'),
                if 0 < status then [Start_tcp_replay has_replayer status seq] else [])))
              (Process_data decode buffer data_length d))"

text \<open>The replayer passes a null pointer when its connection failed.\<close>

definition Process_replay_data ::
    "(u8 list \<Rightarrow> sbe_message res) \<Rightarrow> u8 list option \<Rightarrow> nat \<Rightarrow> DatArbitrator \<times> CmeData
     \<Rightarrow> ((DatArbitrator \<times> CmeData) \<times> processor_action list) res option" where
  "Process_replay_data decode buffer_opt data_length = (\<lambda>(a, d).
     case buffer_opt of
       None \<Rightarrow> Some (Inr ((a, d), [Call_on_error]))
     | Some buffer \<Rightarrow>
         (case read_u32 0 buffer of
            Inl e \<Rightarrow> Some (Inl e)
          | Inr seq \<Rightarrow>
              let (status, a') = Check_replay_packet seq a in
              if status = uint32_max then Some (Inr ((a', d), []))
              else map_option (map_res (\<lambda>d'. ((a', d'), []))) (Process_data decode buffer data_length d)))"

end
