(* ===== verification/Feed_System.thy ===== *)
theory Feed_System
  imports Arbitration
begin

text \<open>
  The threads around the store of increments as a step relation: one feed thread (both UDP feeds
  are handled on it), any number of replay threads, and the saver thread, interleaved at the locks
  of \<open>DatArbitrator\<close> and \<open>CmeData\<close>.  A packet that passed its check and is not stored yet is in
  flight.  \<open>stored\<close> and \<open>delivered\<close> record the history: the packets in the order they were stored,
  and the messages the saver is through with.
\<close>

section \<open>Steps\<close>

type_synonym packet = "u32 \<times> MdpMessage list"

record feed_system =
  arb :: DatArbitrator
  cme :: CmeData
  feed :: "packet option"
  replays :: "packet list"
  picked :: "MdpMessage option"
  delivered :: "MdpMessage list"
  stored :: "packet list"

datatype action =
    Feed_check packet | Feed_store
  | Replay_check packet | Replay_store nat
  | Pick MdpMessage | Remove | Stop

definition packet_ok :: "packet \<Rightarrow> bool" where
  "packet_ok p \<longleftrightarrow> fst p \<noteq> uint32_max \<and> (\<forall>m \<in> set (snd p). m_packet_seq_num m = fst p)"

definition admitted :: "u32 \<Rightarrow> packet \<Rightarrow> packet list" where
  "admitted status p = (if status = uint32_max then [] else [p])"

inductive system_step :: "feed_system \<Rightarrow> action \<Rightarrow> feed_system \<Rightarrow> bool" where
  feed_check: "feed s = None \<Longrightarrow> packet_ok p \<Longrightarrow> Check_feed_packet (fst p) (arb s) = (status, a) \<Longrightarrow>
    system_step s (Feed_check p)
      (s\<lparr>arb := a, feed := if status = uint32_max then None else Some p\<rparr>)"
| feed_store: "feed s = Some p \<Longrightarrow> Insert_increment_data (fst p) (snd p) (cme s) = Inr d \<Longrightarrow>
    system_step s Feed_store (s\<lparr>cme := d, feed := None, stored := stored s @ [p]\<rparr>)"
| replay_check: "packet_ok p \<Longrightarrow> Check_replay_packet (fst p) (arb s) = (status, a) \<Longrightarrow>
    system_step s (Replay_check p) (s\<lparr>arb := a, replays := replays s @ admitted status p\<rparr>)"
| replay_store: "i < length (replays s) \<Longrightarrow> replays s ! i = p \<Longrightarrow>
    Insert_increment_data (fst p) (snd p) (cme s) = Inr d \<Longrightarrow>
    system_step s (Replay_store i)
      (s\<lparr>cme := d, replays := erase_at i (replays s), stored := stored s @ [p]\<rparr>)"
| pick: "picked s = None \<Longrightarrow> Pick_next_message (cme s) = Picked m \<Longrightarrow>
    system_step s (Pick m) (s\<lparr>picked := Some m\<rparr>)"
| remove: "picked s = Some m \<Longrightarrow>
    system_step s Remove (s\<lparr>cme := Remove_increment_data m (cme s), picked := None,
      delivered := delivered s @ [m]\<rparr>)"
| stop: "system_step s Stop (s\<lparr>cme := CmeData_Stop (cme s)\<rparr>)"

definition system_start :: feed_system where
  "system_start = \<lparr>arb = DatArbitrator_new, cme = CmeData_new, feed = None, replays = [],
     picked = None, delivered = [], stored = []\<rparr>"

section \<open>Sequence numbers\<close>

lemma uint32_max_minus_1: "uint32_max = - 1"
  by (simp add: uint32_max_def)

lemma less_succ_iff:
  assumes "c \<noteq> uint32_max"
  shows "x < c + 1 \<longleftrightarrow> (x::u32) \<le> c"
proof -
  have "c + 1 \<noteq> 0" using assms by (metis add.inverse_unique add.commute uint32_max_minus_1)
  then show ?thesis by (simp add: word_less_nat_alt word_le_nat_alt unatSuc [of c, unfolded add.commute [of 1 c]] less_Suc_eq_le)
qed

lemma succ_le_iff: "c \<noteq> uint32_max \<Longrightarrow> c + 1 \<le> x \<longleftrightarrow> (c::u32) < x"
  using less_succ_iff [of c x] by (auto simp: not_less [symmetric])

lemma le_uint32_max: "(x::u32) \<le> uint32_max"
  by (simp add: uint32_max_minus_1)

lemma less_max: "(x::u32) < y \<Longrightarrow> x \<noteq> uint32_max"
  using le_uint32_max [of y] by auto

text \<open>The numbers from \<open>f\<close> to \<open>c\<close> split into three parts, when a larger one is added or one of
  them moves.\<close>

lemma interval_extend:
  fixes R F L :: "'a::linorder set"
  assumes "R \<union> F \<union> L = {f .. c}" "f \<in> R" "c < p" "(R \<union> F) \<inter> L = {}" "R \<inter> F = {}"
  shows "R \<union> insert p F \<union> (L \<union> {c <..< p}) = {f .. p}"
    and "(R \<union> insert p F) \<inter> (L \<union> {c <..< p}) = {}"
    and "R \<inter> insert p F = {}" and "p \<notin> F"
proof -
  have inside: "\<And>x. x \<in> R \<or> x \<in> F \<or> x \<in> L \<Longrightarrow> f \<le> x \<and> x \<le> c"
    using assms(1) by (metis UnCI atLeastAtMost_iff)
  have p: "p \<notin> R" "p \<notin> F" "p \<notin> L" using inside [of p] assms(3) by (auto simp: not_le [symmetric])
  have "f \<le> c" using inside assms(2) by blast
  then have "{f .. c} \<union> {c <..< p} \<union> {p} = {f .. p}" using assms(3) by auto
  then show "R \<union> insert p F \<union> (L \<union> {c <..< p}) = {f .. p}" using assms(1) by blast
  have "x \<notin> {c <..< p}" if "x \<in> R \<or> x \<in> F" for x using inside [of x] that by auto
  then show "(R \<union> insert p F) \<inter> (L \<union> {c <..< p}) = {}" using p assms(4) by auto
  show "R \<inter> insert p F = {}" "p \<notin> F" using p assms(5) by auto
qed

lemma interval_store:
  fixes R :: "'a::linorder set"
  assumes "f \<in> R" "l \<in> R" "\<forall>r \<in> R. r \<le> l" "f \<le> p" "p \<notin> R"
  shows "p < l \<Longrightarrow> {f .. l} - R - {p} = {f .. max p l} - insert p R"
    and "\<not> p < l \<Longrightarrow> ({f .. l} - R) \<union> {l <..< p} = {f .. max p l} - insert p R"
proof -
  show "p < l \<Longrightarrow> {f .. l} - R - {p} = {f .. max p l} - insert p R" by (auto simp: max_def)
  assume "\<not> p < l"
  then have "l < p" using assms(2,5) by (metis linorder_neqE)
  moreover have "f \<le> l" using assms(1,3) by blast
  ultimately show "({f .. l} - R) \<union> {l <..< p} = {f .. max p l} - insert p R"
    using assms(3) by (auto simp: max_def not_le [symmetric])
qed

section \<open>The ordered multiset\<close>

lemma set_multiset_insert [simp]: "set (multiset_insert m xs) = insert m (set xs)"
  by (induction xs) auto

lemma sorted_multiset_insert:
  "sorted (map m_packet_seq_num xs) \<Longrightarrow> sorted (map m_packet_seq_num (multiset_insert m xs))"
  by (induction xs) auto

lemma filter_multiset_insert:
  assumes "sorted (map m_packet_seq_num xs)"
  shows "filter (\<lambda>x. m_packet_seq_num x = q) (multiset_insert m xs) =
    filter (\<lambda>x. m_packet_seq_num x = q) xs @ (if m_packet_seq_num m = q then [m] else [])"
  using assms
proof (induction xs)
  case (Cons x xs)
  show ?case
  proof (cases "m_packet_seq_num m < m_packet_seq_num x")
    case True
    then have "filter (\<lambda>x. m_packet_seq_num x = m_packet_seq_num m) (x # xs) = []"
      using Cons.prems by (auto simp: filter_empty_conv)
    with True show ?thesis by auto
  next
    case False
    then show ?thesis using Cons by auto
  qed
qed simp

lemma fold_multiset_insert:
  assumes "sorted (map m_packet_seq_num xs)" "\<forall>m \<in> set ms. m_packet_seq_num m = p"
  shows "set (fold multiset_insert ms xs) = set ms \<union> set xs"
    and "sorted (map m_packet_seq_num (fold multiset_insert ms xs))"
    and "filter (\<lambda>x. m_packet_seq_num x = q) (fold multiset_insert ms xs) =
      filter (\<lambda>x. m_packet_seq_num x = q) xs @ (if p = q then ms else [])"
  using assms
proof (induction ms arbitrary: xs)
  case (Cons m ms)
  { case 1 then show ?case using Cons.IH(1) by (auto simp: sorted_multiset_insert) }
  { case 2 then show ?case using Cons.IH(2) by (auto simp: sorted_multiset_insert) }
  { case 3 then show ?case using Cons.IH(3) by (auto simp: sorted_multiset_insert filter_multiset_insert) }
qed auto

lemma multiset_insert_front:
  assumes "sorted (map m_packet_seq_num (x # xs))" "m_packet_seq_num x < m_packet_seq_num m"
  shows "\<exists>ys. multiset_insert m (x # xs) = x # ys \<and> sorted (map m_packet_seq_num (x # ys))"
proof -
  have "\<not> m_packet_seq_num m < m_packet_seq_num x" using assms(2) by simp
  then show ?thesis using sorted_multiset_insert [OF assms(1), of m] by simp
qed

lemma fold_multiset_insert_front:
  assumes "sorted (map m_packet_seq_num (x # xs))" "\<forall>m \<in> set ms. m_packet_seq_num x < m_packet_seq_num m"
  shows "\<exists>ys. fold multiset_insert ms (x # xs) = x # ys"
  using assms
proof (induction ms arbitrary: xs)
  case (Cons m ms)
  obtain ys where "multiset_insert m (x # xs) = x # ys" "sorted (map m_packet_seq_num (x # ys))"
    using multiset_insert_front [OF Cons.prems(1), of m] Cons.prems(2) by auto
  then show ?case using Cons.IH [of ys] Cons.prems(2) by simp
qed simp

section \<open>Invariant\<close>

definition in_flight :: "feed_system \<Rightarrow> packet list" where
  "in_flight s = (case feed s of None \<Rightarrow> [] | Some p \<Rightarrow> [p]) @ replays s"

definition messages_of :: "packet list \<Rightarrow> u32 \<Rightarrow> MdpMessage list" where
  "messages_of ps q = (case map_of ps q of None \<Rightarrow> [] | Some ms \<Rightarrow> ms)"

text \<open>Before the first packet is stored.\<close>

definition fresh_inv :: "feed_system \<Rightarrow> bool" where
  "fresh_inv s \<longleftrightarrow> stored s = [] \<and> replays s = [] \<and> picked s = None \<and> delivered s = [] \<and>
     m_increment_datas (cme s) = [] \<and> m_last_seq (cme s) = uint32_max \<and>
     m_unreceived_seqs (cme s) = {} \<and> m_lost_sequences (arb s) = {} \<and>
     (case feed s of None \<Rightarrow> m_current_sequence (arb s) = uint32_max
      | Some p \<Rightarrow> m_current_sequence (arb s) = fst p \<and> packet_ok p)"

text \<open>Afterwards, \<open>f\<close> being the first one: the numbers from \<open>f\<close> to the current sequence are split
  into the stored, the ones in flight and the lost; what the store waits for are the numbers below
  its last one that are not stored.\<close>

definition seq_inv :: "u32 \<Rightarrow> feed_system \<Rightarrow> bool" where
  "seq_inv f s \<longleftrightarrow>
     (let R = fst ` set (stored s); F = fst ` set (in_flight s);
          L = m_lost_sequences (arb s); l = m_last_seq (cme s) in
      f \<in> R \<and> l \<in> R \<and> (\<forall>r \<in> R. r \<le> l) \<and> m_current_sequence (arb s) \<noteq> uint32_max \<and>
      R \<union> F \<union> L = {f .. m_current_sequence (arb s)} \<and>
      distinct (map fst (stored s)) \<and> distinct (map fst (in_flight s)) \<and>
      R \<inter> F = {} \<and> (R \<union> F) \<inter> L = {} \<and>
      m_unreceived_seqs (cme s) = {f .. l} - R \<and> (\<forall>p \<in> set (in_flight s). packet_ok p))"

text \<open>What was delivered and what is still in the store, in order, are exactly the messages of the
  stored packets; everything up to a delivered message is stored.\<close>

definition data_inv :: "u32 \<Rightarrow> feed_system \<Rightarrow> bool" where
  "data_inv f s \<longleftrightarrow>
     (let R = fst ` set (stored s); all = delivered s @ m_increment_datas (cme s) in
      sorted (map m_packet_seq_num all) \<and>
      (\<forall>q. filter (\<lambda>m. m_packet_seq_num m = q) all = messages_of (stored s) q) \<and>
      (\<forall>m \<in> set (delivered s). {f .. m_packet_seq_num m} \<subseteq> R) \<and>
      (\<forall>m. picked s = Some m \<longrightarrow> {f .. m_packet_seq_num m} \<subseteq> R \<and>
         (\<exists>rest. m_increment_datas (cme s) = m # rest)))"

definition system_inv :: "feed_system \<Rightarrow> bool" where
  "system_inv s \<longleftrightarrow> fresh_inv s \<or>
     (stored s \<noteq> [] \<and> seq_inv (fst (hd (stored s))) s \<and> data_inv (fst (hd (stored s))) s)"

section \<open>Checks keep the invariant\<close>

lemma Check_feed_packet_cases:
  assumes "Check_feed_packet seq a = (status, a')" "m_current_sequence a \<noteq> uint32_max"
    "seq \<noteq> uint32_max"
  obtains (drop) "status = uint32_max" "a' = a"
  | (old) "status \<noteq> uint32_max" "status = 0" "seq \<in> m_lost_sequences a"
      "a' = a\<lparr>m_lost_sequences := m_lost_sequences a - {seq}\<rparr>"
  | (new) "status \<noteq> uint32_max" "m_current_sequence a < seq"
      "status = (if seq = m_current_sequence a + 1 then 0 else m_current_sequence a + 1)"
      "a' = a\<lparr>m_lost_sequences := m_lost_sequences a \<union> {m_current_sequence a + 1 ..< seq},
              m_current_sequence := seq\<rparr>"
proof -
  let ?c = "m_current_sequence a"
  have zero: "(0::u32) \<noteq> uint32_max" by (simp add: uint32_max_def)
  consider "seq = ?c + 1" | "seq \<noteq> ?c + 1" "seq = ?c" | "seq < ?c" "seq \<noteq> ?c + 1"
    | "?c + 1 < seq" "\<not> seq < ?c" "seq \<noteq> ?c"
    using less_succ_iff [OF assms(2), of seq] by (metis linorder_less_linear order_le_less)
  then show ?thesis
  proof cases
    case 1
    have "?c < seq" using 1 less_succ_iff [OF assms(2), of ?c] by simp
    then show ?thesis using new assms(1) zero 1 by (auto simp: Check_feed_packet_def)
  next
    case 2
    then show ?thesis using drop assms(1) by (auto simp: Check_feed_packet_def)
  next
    case 3
    moreover have "seq \<noteq> ?c" using 3 by auto
    ultimately show ?thesis using drop old assms zero
      by (cases "seq \<in> m_lost_sequences a") (auto simp: Check_feed_packet_def)
  next
    case 4
    moreover have "seq \<noteq> ?c + 1" "?c < seq" using 4 by auto
    ultimately show ?thesis using new assms less_max [OF 4(1)]
      by (auto simp: Check_feed_packet_def Let_def)
  qed
qed

lemma seq_inv_admit_old:
  assumes "seq_inv f s" "fst p \<in> m_lost_sequences (arb s)" "packet_ok p"
    and "stored s' = stored s" "cme s' = cme s"
    and "arb s' = (arb s)\<lparr>m_lost_sequences := m_lost_sequences (arb s) - {fst p}\<rparr>"
    and "set (in_flight s') = insert p (set (in_flight s))"
    and "fst p \<notin> fst ` set (in_flight s) \<Longrightarrow> distinct (map fst (in_flight s)) \<Longrightarrow>
      distinct (map fst (in_flight s'))"
  shows "seq_inv f s'"
proof -
  have "fst p \<notin> fst ` set (in_flight s)" using assms(1,2) by (auto simp: seq_inv_def Let_def)
  then have "distinct (map fst (in_flight s'))" using assms(1,8) by (simp add: seq_inv_def Let_def)
  moreover have "fst ` set (stored s) \<union> fst ` set (in_flight s') \<union> m_lost_sequences (arb s') =
      {f .. m_current_sequence (arb s)}"
    using assms(1,2,6,7) by (auto simp: seq_inv_def Let_def)
  ultimately show ?thesis
    using assms by (auto simp: seq_inv_def Let_def)
qed

lemma seq_inv_admit_new:
  assumes "seq_inv f s" "m_current_sequence (arb s) < fst p" "packet_ok p"
    and "stored s' = stored s" "cme s' = cme s"
    and "arb s' = (arb s)\<lparr>m_lost_sequences := m_lost_sequences (arb s) \<union>
           {m_current_sequence (arb s) + 1 ..< fst p}, m_current_sequence := fst p\<rparr>"
    and "set (in_flight s') = insert p (set (in_flight s))"
    and "fst p \<notin> fst ` set (in_flight s) \<Longrightarrow> distinct (map fst (in_flight s)) \<Longrightarrow>
      distinct (map fst (in_flight s'))"
  shows "seq_inv f s'"
proof -
  let ?c = "m_current_sequence (arb s)" and ?R = "fst ` set (stored s)"
    and ?F = "fst ` set (in_flight s)" and ?L = "m_lost_sequences (arb s)"
  have c: "?c \<noteq> uint32_max" and old: "?R \<union> ?F \<union> ?L = {f .. ?c}" "f \<in> ?R" "(?R \<union> ?F) \<inter> ?L = {}"
      "?R \<inter> ?F = {}" "distinct (map fst (in_flight s))"
    using assms(1) by (simp_all add: seq_inv_def Let_def)
  note new = interval_extend [OF old(1,2) assms(2) old(3,4)]
  have mid: "{?c + 1 ..< fst p} = {?c <..< fst p}"
    using succ_le_iff [OF c] by (simp add: set_eq_iff)
  have F': "fst ` set (in_flight s') = insert (fst p) ?F" by (simp add: assms(7))
  have "distinct (map fst (in_flight s'))" using assms(8) new(4) old(5) by simp
  then show ?thesis
    using assms(1,3) new unfolding seq_inv_def Let_def F' assms(4-6) mid
    by (simp add: packet_ok_def assms(7))
qed

section \<open>Storing keeps the invariant\<close>

lemma Insert_increment_data_result:
  assumes "seq_inv f s" "fst p \<in> fst ` set (in_flight s)"
  obtains d where "Insert_increment_data (fst p) (snd p) (cme s) = Inr d"
    "m_increment_datas d = fold multiset_insert (snd p) (m_increment_datas (cme s))"
    "m_last_seq d = max (fst p) (m_last_seq (cme s))"
    "m_unreceived_seqs d = {f .. max (fst p) (m_last_seq (cme s))} - insert (fst p) (fst ` set (stored s))"
    "m_is_stopped d = m_is_stopped (cme s)"
proof -
  let ?l = "m_last_seq (cme s)" and ?R = "fst ` set (stored s)" and ?p = "fst p"
    and ?c = "m_current_sequence (arb s)" and ?F = "fst ` set (in_flight s)"
  have l: "f \<in> ?R" "?l \<in> ?R" "\<forall>r \<in> ?R. r \<le> ?l" and c: "?c \<noteq> uint32_max"
    and un: "?R \<union> ?F \<union> m_lost_sequences (arb s) = {f .. ?c}"
    and U: "m_unreceived_seqs (cme s) = {f .. ?l} - ?R" and dis: "?R \<inter> ?F = {}"
    using assms(1) by (simp_all add: seq_inv_def Let_def)
  have "?p \<in> {f .. ?c}" "?l \<in> {f .. ?c}" using un assms(2) l(2) by blast+
  then have p: "f \<le> ?p" "?p \<notin> ?R" "?l \<le> ?c" using dis assms(2) by auto
  have lmax: "?l \<noteq> uint32_max" using p(3) c le_uint32_max [of ?c] by (metis order_antisym)
  note new = interval_store [OF l p(1,2), folded U]
  have pl: "?p \<noteq> ?l" using p(2) l(2) by metis
  have mid: "{?l + 1 ..< ?p} = {?l <..< ?p}"
    using succ_le_iff [OF lmax] by (simp add: set_eq_iff)
  have mx: "max ?p ?l = (if ?p < ?l then ?l else ?p)" by (auto simp: max_def)
  show ?thesis
  proof (cases "?p < ?l")
    case True
    let ?d = "(cme s)\<lparr>m_increment_datas := fold multiset_insert (snd p) (m_increment_datas (cme s)),
      m_unreceived_seqs := m_unreceived_seqs (cme s) - {?p}\<rparr>"
    have "Insert_increment_data ?p (snd p) (cme s) = Inr ?d"
      using True lmax by (simp add: Insert_increment_data_def)
    then show ?thesis using new(1) True by (intro that [of ?d]) (simp_all add: mx)
  next
    case False
    let ?d = "(cme s)\<lparr>m_increment_datas := fold multiset_insert (snd p) (m_increment_datas (cme s)),
      m_unreceived_seqs := m_unreceived_seqs (cme s) \<union> {?l + 1 ..< ?p}, m_last_seq := ?p\<rparr>"
    have "Insert_increment_data ?p (snd p) (cme s) = Inr ?d"
      using False lmax pl by (simp add: Insert_increment_data_def)
    then show ?thesis using new(2) False mid by (intro that [of ?d]) (simp_all add: mx)
  qed
qed

lemma seq_inv_store:
  assumes "seq_inv f s" "p \<in> set (in_flight s)"
    and "Insert_increment_data (fst p) (snd p) (cme s) = Inr d"
    and "stored s' = stored s @ [p]" "cme s' = d" "arb s' = arb s"
    and "set (in_flight s') = set (in_flight s) - {p}" "distinct (map fst (in_flight s'))"
  shows "seq_inv f s'"
proof -
  let ?R = "fst ` set (stored s)" and ?F = "fst ` set (in_flight s)"
  have pin: "fst p \<in> ?F" using assms(2) by simp
  from Insert_increment_data_result [OF assms(1) this] assms(3) have
    d: "m_last_seq d = max (fst p) (m_last_seq (cme s))"
      "m_unreceived_seqs d = {f .. max (fst p) (m_last_seq (cme s))} - insert (fst p) ?R"
    by (metis sum.inject(2))+
  have R': "fst ` set (stored s') = insert (fst p) ?R" by (simp add: assms(4))
  have "distinct (map fst (in_flight s))" using assms(1) by (simp add: seq_inv_def Let_def)
  then have F': "fst ` set (in_flight s') = ?F - {fst p}"
    using assms(2) unfolding assms(7) by (auto simp: distinct_map inj_on_def)
  have old: "f \<in> ?R" "m_last_seq (cme s) \<in> ?R" "\<forall>r \<in> ?R. r \<le> m_last_seq (cme s)"
    "?R \<union> ?F \<union> m_lost_sequences (arb s) = {f .. m_current_sequence (arb s)}"
    "distinct (map fst (stored s))" "?R \<inter> ?F = {}" "(?R \<union> ?F) \<inter> m_lost_sequences (arb s) = {}"
    using assms(1) by (simp_all add: seq_inv_def Let_def)
  have "insert (fst p) ?R \<union> (?F - {fst p}) = ?R \<union> ?F" using pin by auto
  then have un: "insert (fst p) ?R \<union> (?F - {fst p}) \<union> m_lost_sequences (arb s) =
      {f .. m_current_sequence (arb s)}" using old(4) by simp
  have "distinct (map fst (stored s'))" using old(5,6) pin by (auto simp: assms(4))
  moreover have "(insert (fst p) ?R \<union> (?F - {fst p})) \<inter> m_lost_sequences (arb s) = {}"
    using old(7) pin by auto
  moreover have "\<forall>r \<in> insert (fst p) ?R. r \<le> max (fst p) (m_last_seq (cme s))"
    using old(3) by (auto simp: max_def)
  moreover have "max (fst p) (m_last_seq (cme s)) \<in> insert (fst p) ?R"
    using old(2) by (auto simp: max_def)
  ultimately show ?thesis
    using assms(1,8) un old(1,6) unfolding seq_inv_def Let_def R' F' assms(5,6) d
    by (auto simp: assms(7))
qed

lemma messages_of_snoc:
  "fst p \<notin> fst ` set ps \<Longrightarrow>
   messages_of (ps @ [p]) q = messages_of ps q @ (if fst p = q then snd p else [])"
  using map_of_eq_None_iff [of ps "fst p"]
  by (cases p) (auto simp: messages_of_def map_add_def split: option.splits)

lemma data_inv_store:
  assumes "seq_inv f s" "data_inv f s" "p \<in> set (in_flight s)"
    and "Insert_increment_data (fst p) (snd p) (cme s) = Inr d"
    and "stored s' = stored s @ [p]" "cme s' = d" "delivered s' = delivered s" "picked s' = picked s"
  shows "data_inv f s'"
proof -
  let ?R = "fst ` set (stored s)" and ?D = "delivered s" and ?M = "m_increment_datas (cme s)"
  have pin: "fst p \<in> fst ` set (in_flight s)" using assms(3) by simp
  from Insert_increment_data_result [OF assms(1) this] assms(4) have
    d: "m_increment_datas d = fold multiset_insert (snd p) ?M" by (metis sum.inject(2))
  have ok: "\<forall>m \<in> set (snd p). m_packet_seq_num m = fst p"
    using assms(1,3) by (simp add: seq_inv_def packet_ok_def Let_def)
  have "?R \<inter> fst ` set (in_flight s) = {}"
    "?R \<union> fst ` set (in_flight s) \<union> m_lost_sequences (arb s) = {f .. m_current_sequence (arb s)}"
    using assms(1) by (simp_all add: seq_inv_def Let_def)
  then have p: "fst p \<notin> ?R" "f \<le> fst p" using pin by (blast, metis UnCI atLeastAtMost_iff)
  have old: "sorted (map m_packet_seq_num (?D @ ?M))"
    "\<And>q. filter (\<lambda>m. m_packet_seq_num m = q) (?D @ ?M) = messages_of (stored s) q"
    "\<And>m. m \<in> set ?D \<Longrightarrow> {f .. m_packet_seq_num m} \<subseteq> ?R"
    "\<And>m. picked s = Some m \<Longrightarrow> {f .. m_packet_seq_num m} \<subseteq> ?R"
    "\<And>m. picked s = Some m \<Longrightarrow> \<exists>rest. ?M = m # rest"
    using assms(2) by (simp_all add: data_inv_def Let_def)
  have later: "m_packet_seq_num m < fst p" if "{f .. m_packet_seq_num m} \<subseteq> ?R" for m
    using that p by (meson atLeastAtMost_iff not_le subsetD)
  have sM: "sorted (map m_packet_seq_num ?M)" using old(1) by (simp add: sorted_append)
  note ins = fold_multiset_insert [OF sM ok]
  have c1: "sorted (map m_packet_seq_num (?D @ fold multiset_insert (snd p) ?M))"
    using old(1) ins(1,2) later [OF old(3)] ok by (fastforce simp: sorted_append)
  have c2: "filter (\<lambda>m. m_packet_seq_num m = q) (?D @ fold multiset_insert (snd p) ?M) =
      messages_of (stored s @ [p]) q" for q
    using old(2) [of q] ins(3) [of q] messages_of_snoc [OF p(1), of q] by simp
  have sub: "?R \<subseteq> fst ` set (stored s @ [p])" by auto
  have c3: "\<forall>m \<in> set ?D. {f .. m_packet_seq_num m} \<subseteq> fst ` set (stored s @ [p])"
    using old(3) sub by (meson order_trans)
  have c4: "picked s = Some m \<longrightarrow> {f .. m_packet_seq_num m} \<subseteq> fst ` set (stored s @ [p]) \<and>
      (\<exists>rest. fold multiset_insert (snd p) ?M = m # rest)" for m
  proof
    assume pk: "picked s = Some m"
    obtain rest where rest: "?M = m # rest" using old(5) [OF pk] by blast
    have "\<forall>x \<in> set (snd p). m_packet_seq_num m < m_packet_seq_num x"
      using later [OF old(4) [OF pk]] ok by simp
    then have "\<exists>rest. fold multiset_insert (snd p) ?M = m # rest"
      using fold_multiset_insert_front [of m rest "snd p"] sM rest by simp
    then show "{f .. m_packet_seq_num m} \<subseteq> fst ` set (stored s @ [p]) \<and>
        (\<exists>rest. fold multiset_insert (snd p) ?M = m # rest)"
      using old(4) [OF pk] sub by blast
  qed
  show ?thesis
    unfolding data_inv_def Let_def assms(5-8) d by (intro conjI allI) (rule c1 c2 c3 c4)+
qed

lemma Picked_iff:
  "Pick_next_message d = Picked m \<longleftrightarrow> \<not> m_is_stopped d \<and> (\<exists>rest. m_increment_datas d = m # rest) \<and>
     (m_unreceived_seqs d = {} \<or> Min (m_unreceived_seqs d) = 0 \<or>
      m_packet_seq_num m < Min (m_unreceived_seqs d))"
  by (cases "m_increment_datas d")
    (auto simp: Pick_next_message_def Let_def simp del: Min_gr_iff Min_less_iff Min_ge_iff Min_le_iff)

lemma pick_complete:
  assumes "seq_inv f s" "data_inv f s" "Pick_next_message (cme s) = Picked m"
  shows "{f .. m_packet_seq_num m} \<subseteq> fst ` set (stored s)"
    and "\<exists>rest. m_increment_datas (cme s) = m # rest"
proof -
  let ?R = "fst ` set (stored s)" and ?U = "m_unreceived_seqs (cme s)" and ?q = "m_packet_seq_num m"
  obtain rest where rest: "m_increment_datas (cme s) = m # rest"
    and ready: "?U = {} \<or> Min ?U = 0 \<or> ?q < Min ?U"
    using assms(3) by (auto simp: Picked_iff)
  then show "\<exists>rest. m_increment_datas (cme s) = m # rest" by blast
  have "messages_of (stored s) ?q \<noteq> []"
  proof -
    have eq: "filter (\<lambda>x. m_packet_seq_num x = ?q) (delivered s @ m_increment_datas (cme s)) =
        messages_of (stored s) ?q" using assms(2) by (simp add: data_inv_def Let_def)
    have "m \<in> set (filter (\<lambda>x. m_packet_seq_num x = ?q) (delivered s @ m_increment_datas (cme s)))"
      by (simp add: rest)
    then show ?thesis unfolding eq by auto
  qed
  then have q: "?q \<in> ?R"
    by (metis (no_types, lifting) map_of_eq_None_iff messages_of_def option.case(1))
  have l: "\<forall>r \<in> ?R. r \<le> m_last_seq (cme s)" "f \<in> ?R" and U: "?U = {f .. m_last_seq (cme s)} - ?R"
    using assms(1) by (simp_all add: seq_inv_def Let_def)
  show "{f .. ?q} \<subseteq> ?R"
  proof
    fix x assume x: "x \<in> {f .. ?q}"
    show "x \<in> ?R"
    proof (rule ccontr)
      assume "x \<notin> ?R"
      then have "x \<in> ?U" using x q l(1) unfolding U by fastforce
      then have ne: "?U \<noteq> {}" and "Min ?U \<le> x" by auto
      then have "Min ?U \<le> ?q" using x by (meson atLeastAtMost_iff order_trans)
      then have "Min ?U = 0" using ready ne by (meson leD)
      moreover have "Min ?U \<in> ?U" using ne by (intro Min_in) auto
      ultimately have "0 \<in> ?U" by simp
      then have "f = 0 \<and> 0 \<notin> ?R" unfolding U by auto
      then show False using l(2) by blast
    qed
  qed
qed

section \<open>Every step\<close>

lemma in_flight_simps:
  "feed s = None \<Longrightarrow> in_flight s = replays s"
  "feed s = Some p \<Longrightarrow> in_flight s = p # replays s"
  by (simp_all add: in_flight_def)

lemma set_erase_at:
  assumes "distinct xs" "i < length xs"
  shows "set (erase_at i xs) = set xs - {xs ! i}" and "distinct (erase_at i xs)"
proof -
  have "xs = take i xs @ xs ! i # drop (Suc i) xs" using assms(2) by (rule id_take_nth_drop)
  then have d: "distinct (take i xs @ xs ! i # drop (Suc i) xs)" and
    s: "set xs = set (take i xs @ xs ! i # drop (Suc i) xs)" using assms(1) by metis+
  show "set (erase_at i xs) = set xs - {xs ! i}" "distinct (erase_at i xs)"
    unfolding s using d by (auto simp: erase_at_def)
qed

lemma fresh_step:
  assumes "fresh_inv s" "system_step s act t"
  shows "system_inv t"
  using assms(2)
proof cases
  case (feed_check p status a)
  then have "m_current_sequence (arb s) = uint32_max" "fst p \<noteq> uint32_max"
    using assms(1) by (auto simp: fresh_inv_def packet_ok_def)
  then have "status = 0" "a = (arb s)\<lparr>m_current_sequence := fst p\<rparr>"
    using feed_check(5) by (auto simp: Check_feed_packet_def split: if_splits)
  then show ?thesis using feed_check assms(1)
    by (simp add: system_inv_def fresh_inv_def uint32_max_def)
next
  case (feed_store p d)
  then have p: "m_current_sequence (arb s) = fst p" "packet_ok p" and
    z: "m_last_seq (cme s) = uint32_max" "m_increment_datas (cme s) = []"
      "m_unreceived_seqs (cme s) = {}" "m_lost_sequences (arb s) = {}" "replays s = []"
      "stored s = []" "delivered s = []" "picked s = None"
    using assms(1) by (auto simp: fresh_inv_def)
  have d: "d = (cme s)\<lparr>m_increment_datas := fold multiset_insert (snd p) [], m_last_seq := fst p\<rparr>"
    using feed_store(4) z by (simp add: Insert_increment_data_def)
  have ok: "\<forall>m \<in> set (snd p). m_packet_seq_num m = fst p" using p(2) by (simp add: packet_ok_def)
  note ins = fold_multiset_insert [of "[]", OF _ ok, simplified]
  have "messages_of [p] q = (if fst p = q then snd p else [])" for q
    by (cases p) (simp add: messages_of_def)
  then have "data_inv (fst p) t"
    using ins z feed_store(2) by (auto simp: data_inv_def d)
  moreover have "seq_inv (fst p) t"
    using p z feed_store(2) by (simp add: seq_inv_def d in_flight_def packet_ok_def)
  ultimately show ?thesis using feed_store(2) z by (simp add: system_inv_def)
next
  case (replay_check p status a)
  then have "status = uint32_max" "a = arb s"
    using assms(1) by (auto simp: fresh_inv_def Check_replay_packet_def split: if_splits)
  then show ?thesis using replay_check assms(1) by (simp add: system_inv_def fresh_inv_def admitted_def)
next
  case (pick m)
  then show ?thesis using assms(1)
    by (simp add: fresh_inv_def Pick_next_message_def split: if_splits)
next
  case stop
  then show ?thesis using assms(1) by (auto simp: system_inv_def fresh_inv_def CmeData_Stop_def split: option.splits)
qed (use assms(1) in \<open>simp_all add: fresh_inv_def\<close>)

lemma seq_inv_frame:
  "seq_inv f s \<Longrightarrow> stored t = stored s \<Longrightarrow> arb t = arb s \<Longrightarrow> in_flight t = in_flight s \<Longrightarrow>
   m_last_seq (cme t) = m_last_seq (cme s) \<Longrightarrow>
   m_unreceived_seqs (cme t) = m_unreceived_seqs (cme s) \<Longrightarrow> seq_inv f t"
  by (simp add: seq_inv_def)

lemma data_inv_frame:
  "data_inv f s \<Longrightarrow> stored t = stored s \<Longrightarrow> delivered t = delivered s \<Longrightarrow> picked t = picked s \<Longrightarrow>
   m_increment_datas (cme t) = m_increment_datas (cme s) \<Longrightarrow> data_inv f t"
  by (simp add: data_inv_def)

lemma running_step:
  assumes "seq_inv f s" "data_inv f s" "system_step s act t"
  shows "seq_inv f t \<and> data_inv f t"
  using assms(3)
proof cases
  case (feed_check p status a)
  have cur: "m_current_sequence (arb s) \<noteq> uint32_max" and seq: "fst p \<noteq> uint32_max"
    using assms(1) feed_check by (simp_all add: seq_inv_def packet_ok_def Let_def)
  have data: "data_inv f t" using assms(2) feed_check(2) by (auto intro: data_inv_frame)
  from feed_check(5) cur seq show ?thesis
  proof (cases rule: Check_feed_packet_cases)
    case drop
    then have "seq_inv f t"
      using assms(1) feed_check by (intro seq_inv_frame [of f s t]) (simp_all add: in_flight_simps)
    with data show ?thesis by simp
  next
    case old
    then have "seq_inv f t"
      using feed_check by (intro seq_inv_admit_old [OF assms(1)]) (simp_all add: in_flight_simps)
    with data show ?thesis by simp
  next
    case new
    then have "seq_inv f t"
      using feed_check by (intro seq_inv_admit_new [OF assms(1)]) (simp_all add: in_flight_simps)
    with data show ?thesis by simp
  qed
next
  case (feed_store p d)
  have fl: "in_flight s = p # replays s" "in_flight t = replays s"
    using feed_store by (simp_all add: in_flight_simps)
  then have "p \<notin> set (replays s)" "distinct (map fst (replays s))"
    using assms(1) by (auto simp: seq_inv_def Let_def)
  then have "seq_inv f t"
    using fl feed_store by (intro seq_inv_store [OF assms(1) _ feed_store(4)]) auto
  moreover have "data_inv f t"
    using fl feed_store by (intro data_inv_store [OF assms(1,2) _ feed_store(4)]) auto
  ultimately show ?thesis by simp
next
  case (replay_check p status a)
  have data: "data_inv f t" using assms(2) replay_check(2) by (auto intro: data_inv_frame)
  show ?thesis
  proof (cases "fst p \<in> m_lost_sequences (arb s)")
    case True
    then have a: "status = 0" "a = (arb s)\<lparr>m_lost_sequences := m_lost_sequences (arb s) - {fst p}\<rparr>"
      using replay_check(4) by (auto simp: Check_replay_packet_def)
    then have "in_flight t = in_flight s @ [p]"
      using replay_check(2) by (simp add: in_flight_def admitted_def uint32_max_def)
    then have "seq_inv f t"
      using a replay_check True by (intro seq_inv_admit_old [OF assms(1)]) auto
    with data show ?thesis by simp
  next
    case False
    then have "status = uint32_max" "a = arb s"
      using replay_check(4) by (auto simp: Check_replay_packet_def)
    then have "seq_inv f t"
      using assms(1) replay_check
      by (intro seq_inv_frame [of f s t]) (simp_all add: in_flight_def admitted_def)
    with data show ?thesis by simp
  qed
next
  case (replay_store i p d)
  have dist: "distinct (map fst (in_flight s))" using assms(1) by (simp add: seq_inv_def Let_def)
  let ?fl = "case feed s of None \<Rightarrow> [] | Some p \<Rightarrow> [p]"
  have fl: "in_flight s = ?fl @ replays s" "in_flight t = ?fl @ erase_at i (replays s)"
    using replay_store by (simp_all add: in_flight_def)
  have r: "distinct (map fst (replays s))" using dist by (simp add: fl)
  have e: "map fst (erase_at i (replays s)) = erase_at i (map fst (replays s))"
    by (simp add: erase_at_def take_map drop_map)
  have se: "set (erase_at i (replays s)) = set (replays s) - {p}"
    using set_erase_at(1) [of "replays s" i] r replay_store by (simp add: distinct_map)
  have "set (erase_at i (map fst (replays s))) \<subseteq> set (map fst (replays s))"
    "distinct (erase_at i (map fst (replays s)))"
    using set_erase_at [of "map fst (replays s)" i] r replay_store(3) by auto
  then have "distinct (map fst (in_flight t))"
    using dist unfolding fl map_append e distinct_append by blast
  moreover have pin: "p \<in> set (in_flight s)" using replay_store by (auto simp: fl)
  moreover have "set (in_flight t) = set (in_flight s) - {p}"
  proof -
    have "p \<in> set (replays s)" using replay_store by auto
    then have "p \<notin> set ?fl" using dist unfolding fl by (auto split: option.splits)
    then show ?thesis by (auto simp: fl se)
  qed
  ultimately have "seq_inv f t"
    using replay_store by (intro seq_inv_store [OF assms(1) pin replay_store(5)]) auto
  moreover have "data_inv f t"
    using replay_store by (intro data_inv_store [OF assms(1,2) pin replay_store(5)]) auto
  ultimately show ?thesis by simp
next
  case (pick m)
  then have "seq_inv f t" using assms(1) by (intro seq_inv_frame [of f s t]) (simp_all add: in_flight_def)
  moreover have "data_inv f t"
    using assms(2) pick_complete [OF assms(1,2) pick(4)] pick(2) by (simp add: data_inv_def)
  ultimately show ?thesis by simp
next
  case (remove m)
  have "seq_inv f t"
    using assms(1) remove
    by (intro seq_inv_frame [of f s t]) (simp_all add: in_flight_def Remove_increment_data_def)
  moreover obtain rest where "m_increment_datas (cme s) = m # rest"
    "{f .. m_packet_seq_num m} \<subseteq> fst ` set (stored s)"
    using assms(2) remove(3) by (auto simp: data_inv_def Let_def)
  then have "data_inv f t"
    using assms(2) remove by (simp add: data_inv_def Remove_increment_data_def)
  ultimately show ?thesis by simp
next
  case stop
  then have "seq_inv f t" "data_inv f t"
    using seq_inv_frame [OF assms(1), of t] data_inv_frame [OF assms(2), of t]
    by (simp_all add: in_flight_def CmeData_Stop_def)
  then show ?thesis by simp
qed

lemma stored_first:
  "system_step s act t \<Longrightarrow> stored s \<noteq> [] \<Longrightarrow> stored t \<noteq> [] \<and> hd (stored t) = hd (stored s)"
  by (induction rule: system_step.induct) auto

interpretation feeds: invariant_system system_step "\<lambda>s. s = system_start" system_inv
proof
  fix s act t
  show "s = system_start \<Longrightarrow> system_inv s"
    by (simp add: system_inv_def fresh_inv_def system_start_def CmeData_new_def DatArbitrator_new_def)
  assume inv: "system_inv s" and st: "system_step s act t"
  show "system_inv t"
  proof (cases "fresh_inv s")
    case True
    then show ?thesis using st by (rule fresh_step)
  next
    case False
    then have "stored s \<noteq> []" "seq_inv (fst (hd (stored s))) s" "data_inv (fst (hd (stored s))) s"
      using inv by (auto simp: system_inv_def)
    then show ?thesis
      using running_step [OF _ _ st] stored_first [OF st] by (auto simp: system_inv_def)
  qed
qed

section \<open>What the saver gets\<close>

text \<open>
  Claim C1: under every interleaving of the feed thread, the replay threads and the saver, what the
  saver has processed, continued by what is still stored, is in the order of the sequence numbers
  and consists of exactly the messages of the packets stored so far, each packet's messages once,
  whole and in their order; and no message was processed before every packet from the first one up
  to its own was there: there are no gaps, no duplicates and no reorderings.
\<close>
theorem delivery_in_order_without_gaps:
  assumes "feeds.run system_start acts s"
  shows "sorted (map m_packet_seq_num (delivered s @ m_increment_datas (cme s))) \<and>
    (\<forall>q. filter (\<lambda>m. m_packet_seq_num m = q) (delivered s @ m_increment_datas (cme s)) =
       messages_of (stored s) q) \<and>
    distinct (map fst (stored s)) \<and>
    (\<forall>m \<in> set (delivered s). {fst (hd (stored s)) .. m_packet_seq_num m} \<subseteq> fst ` set (stored s))"
proof -
  have "system_inv s" using feeds.start_run_inv [OF refl assms] .
  then show ?thesis
    by (auto simp: system_inv_def fresh_inv_def data_inv_def seq_inv_def Let_def messages_of_def)
qed

text \<open>
  a packet that passed the arbitrator's check can always be stored: however the threads
  are interleaved, the store is never given its own last sequence number again, which would make it
  run through all 32-bit numbers.
\<close>
theorem admitted_packets_can_be_stored:
  assumes "feeds.run system_start acts s" and "p \<in> set (in_flight s)"
  shows "\<exists>d. Insert_increment_data (fst p) (snd p) (cme s) = Inr d"
proof -
  have "system_inv s" using feeds.start_run_inv [OF refl assms(1)] .
  then consider "fresh_inv s" | "seq_inv (fst (hd (stored s))) s" by (auto simp: system_inv_def)
  then show ?thesis
  proof cases
    case 1
    then show ?thesis by (simp add: fresh_inv_def Insert_increment_data_def)
  next
    case 2
    then show ?thesis using assms(2) Insert_increment_data_result [OF 2, of p] by blast
  qed
qed

text \<open>
  Claim C9: once every lost packet has been recovered and stored, nothing waits: the store gives
  its first message to the saver as long as it has one and is not stopped.
\<close>
theorem recovered_messages_do_not_wait:
  assumes "feeds.run system_start acts s"
    and "m_lost_sequences (arb s) = {}" and "in_flight s = []"
    and "m_increment_datas (cme s) = m # ms" and "\<not> m_is_stopped (cme s)"
  shows "Pick_next_message (cme s) = Picked m"
proof -
  have "system_inv s" using feeds.start_run_inv [OF refl assms(1)] .
  then have inv: "seq_inv (fst (hd (stored s))) s"
    using assms(4) by (auto simp: system_inv_def fresh_inv_def)
  then have "m_last_seq (cme s) \<in> fst ` set (stored s)"
    "m_unreceived_seqs (cme s) = {fst (hd (stored s)) .. m_last_seq (cme s)} - fst ` set (stored s)"
    by (simp_all add: seq_inv_def Let_def)
  moreover have "fst ` set (stored s) = {fst (hd (stored s)) .. m_current_sequence (arb s)}"
    using inv assms(2,3) by (simp add: seq_inv_def Let_def)
  ultimately have "m_unreceived_seqs (cme s) = {}" by fastforce
  then show ?thesis using assms(4,5) by (simp add: Picked_iff)
qed

section \<open>An example run\<close>

text \<open>Packets 5 and 7 come in over UDP, the first message is processed, and the lost packet 6 comes
  in over TCP.\<close>

inductive_simps feed_check_iff: "system_step s (Feed_check p) t"
inductive_simps feed_store_iff: "system_step s Feed_store t"
inductive_simps replay_check_iff: "system_step s (Replay_check p) t"
inductive_simps replay_store_iff: "system_step s (Replay_store i) t"
inductive_simps pick_iff: "system_step s (Pick m) t"
inductive_simps remove_iff: "system_step s Remove t"

definition example_message :: "u32 \<Rightarrow> MdpMessage" where
  "example_message seq = \<lparr>m_packet_length = 0, m_packet_seq_num = seq, m_packet_sending_time = 0,
     m_message_length = 0, m_buffer = [], m_sbe = AdminHeartbeat12\<rparr>"

definition example_packet_of :: "u32 \<Rightarrow> packet" where
  "example_packet_of seq = (seq, [example_message seq])"

definition example_system ::
    "DatArbitrator \<Rightarrow> u32 \<Rightarrow> u32 set \<Rightarrow> u32 list \<Rightarrow> packet option \<Rightarrow> packet list \<Rightarrow> MdpMessage option
     \<Rightarrow> u32 list \<Rightarrow> u32 list \<Rightarrow> feed_system" where
  "example_system a lst unreceived datas fd reps pk del sto =
     \<lparr>arb = a, cme = CmeData_new\<lparr>m_last_seq := lst, m_unreceived_seqs := unreceived,
        m_increment_datas := map example_message datas\<rparr>,
      feed = fd, replays = reps, picked = pk, delivered = map example_message del,
      stored = map example_packet_of sto\<rparr>"

lemma range_6_7: "{6 ..< 7} = {6 :: u32}"
proof -
  have "x < 7 \<longleftrightarrow> x \<le> 6" for x :: u32 using less_succ_iff [of 6 x] by (simp add: uint32_max_def)
  then show ?thesis
    by (intro set_eqI) (metis atLeastLessThan_iff singletonD singletonI order_antisym order_refl)
qed

lemmas example_run_defs = example_system_def example_packet_of_def example_message_def packet_ok_def
  Check_feed_packet_def Check_replay_packet_def Insert_increment_data_def Picked_iff uint32_max_def
  Remove_increment_data_def admitted_def erase_at_def CmeData_new_def

lemma example_run_6:
  "\<exists>acts. feeds.run system_start acts
     (example_system \<lparr>m_current_sequence = 7, m_lost_sequences = {}\<rparr> 7 {6} [7] None
        [example_packet_of 6] None [5] [5, 7])"
proof -
  let ?a = "\<lambda>c L. \<lparr>m_current_sequence = c, m_lost_sequences = L\<rparr>"
  have s: "system_start = example_system (?a uint32_max {}) uint32_max {} [] None [] None [] []"
    by (simp add: system_start_def example_system_def DatArbitrator_new_def CmeData_new_def)
  have 1: "system_step (example_system (?a uint32_max {}) uint32_max {} [] None [] None [] [])
      (Feed_check (example_packet_of 5))
      (example_system (?a 5 {}) uint32_max {} [] (Some (example_packet_of 5)) [] None [] [])"
    by (simp add: feed_check_iff example_run_defs)
  have 2: "system_step (example_system (?a 5 {}) uint32_max {} [] (Some (example_packet_of 5)) [] None [] [])
      Feed_store (example_system (?a 5 {}) 5 {} [5] None [] None [] [5])"
    by (simp add: feed_store_iff example_run_defs)
  have 3: "system_step (example_system (?a 5 {}) 5 {} [5] None [] None [] [5])
      (Feed_check (example_packet_of 7))
      (example_system (?a 7 {6}) 5 {} [5] (Some (example_packet_of 7)) [] None [] [5])"
    by (simp add: feed_check_iff example_run_defs range_6_7)
  have 4: "system_step (example_system (?a 7 {6}) 5 {} [5] (Some (example_packet_of 7)) [] None [] [5])
      Feed_store (example_system (?a 7 {6}) 7 {6} [5, 7] None [] None [] [5, 7])"
    by (simp add: feed_store_iff example_run_defs range_6_7)
  have 5: "system_step (example_system (?a 7 {6}) 7 {6} [5, 7] None [] None [] [5, 7])
      (Pick (example_message 5))
      (example_system (?a 7 {6}) 7 {6} [5, 7] None [] (Some (example_message 5)) [] [5, 7])"
    by (simp add: pick_iff example_run_defs)
  have 6: "system_step (example_system (?a 7 {6}) 7 {6} [5, 7] None [] (Some (example_message 5)) [] [5, 7])
      Remove (example_system (?a 7 {6}) 7 {6} [7] None [] None [5] [5, 7])"
    by (simp add: remove_iff example_run_defs)
  have 7: "system_step (example_system (?a 7 {6}) 7 {6} [7] None [] None [5] [5, 7])
      (Replay_check (example_packet_of 6))
      (example_system (?a 7 {}) 7 {6} [7] None [example_packet_of 6] None [5] [5, 7])"
    by (simp add: replay_check_iff example_run_defs)
  show ?thesis
    unfolding s using 1 2 3 4 5 6 7 by (meson feeds.run_Nil feeds.run_snoc)
qed

definition example_system_end :: feed_system where
  "example_system_end = example_system \<lparr>m_current_sequence = 7, m_lost_sequences = {}\<rparr> 7 {} [6, 7]
     None [] None [5] [5, 7, 6]"

lemma example_run_end: "\<exists>acts. feeds.run system_start acts example_system_end"
proof -
  have "system_step (example_system \<lparr>m_current_sequence = 7, m_lost_sequences = {}\<rparr> 7 {6} [7] None
      [example_packet_of 6] None [5] [5, 7]) (Replay_store 0) example_system_end"
    by (simp add: replay_store_iff example_system_end_def example_run_defs)
  with example_run_6 show ?thesis by (meson feeds.run_snoc)
qed

theorem delivery_in_order_without_gaps_witness:
  "sorted (map m_packet_seq_num (delivered example_system_end @
     m_increment_datas (cme example_system_end))) \<and>
   {5 .. m_packet_seq_num (example_message 5)} \<subseteq> fst ` set (stored example_system_end)"
proof -
  obtain acts where "feeds.run system_start acts example_system_end" using example_run_end by blast
  from delivery_in_order_without_gaps [OF this] show ?thesis
    by (simp add: example_system_end_def example_run_defs)
qed

theorem admitted_packets_can_be_stored_witness:
  "\<exists>d. Insert_increment_data 6 [example_message 6] (cme (example_system
     \<lparr>m_current_sequence = 7, m_lost_sequences = {}\<rparr> 7 {6} [7] None
     [example_packet_of 6] None [5] [5, 7])) = Inr d"
proof -
  let ?s = "example_system \<lparr>m_current_sequence = 7, m_lost_sequences = {}\<rparr> 7 {6} [7] None
     [example_packet_of 6] None [5] [5, 7]"
  obtain acts where "feeds.run system_start acts ?s" using example_run_6 by blast
  moreover have "example_packet_of 6 \<in> set (in_flight ?s)"
    by (simp add: in_flight_def example_system_def)
  ultimately show ?thesis
    using admitted_packets_can_be_stored [of acts ?s "example_packet_of 6"]
    by (simp add: example_packet_of_def)
qed

theorem recovered_messages_do_not_wait_witness:
  "Pick_next_message (cme example_system_end) = Picked (example_message 6)"
proof -
  obtain acts where "feeds.run system_start acts example_system_end" using example_run_end by blast
  moreover have "m_lost_sequences (arb example_system_end) = {}" "in_flight example_system_end = []"
    "m_increment_datas (cme example_system_end) = example_message 6 # [example_message 7]"
    "\<not> m_is_stopped (cme example_system_end)"
    by (simp_all add: example_system_end_def in_flight_def example_run_defs)
  ultimately show ?thesis by (rule recovered_messages_do_not_wait)
qed

section \<open>The processor's calls\<close>

text \<open>
  Handling a received UDP packet is nothing but a check step and, unless the packet is
  discarded, a store step of the system above; and a replay is requested exactly when numbers were
  skipped, from the first of them to the received packet, so that the request covers every number
  newly marked as lost.
\<close>
theorem process_feed_data_steps:
  assumes "feed s = None" and "read_u32 0 buffer = Inr seq"
    and "Pick_messages_from_packet decode buffer len [] = Some (Inr (seq, msgs))"
    and "packet_ok (seq, msgs)"
    and "Process_feed_data decode True buffer len (arb s, cme s) = Some (Inr ((a, d), acts))"
  shows "\<exists>ls t. feeds.run s ls t \<and> arb t = a \<and> cme t = d \<and> feed t = None \<and>
    (acts = [] \<and> m_lost_sequences a \<subseteq> m_lost_sequences (arb s) \<or>
     (\<exists>b. acts = [Start_receive b seq] \<and>
        m_lost_sequences a = m_lost_sequences (arb s) \<union> {b ..< seq}))"
proof -
  obtain status a1 where chk: "Check_feed_packet seq (arb s) = (status, a1)"
    by (cases "Check_feed_packet seq (arb s)")
  have lost: "status = 0 \<and> m_lost_sequences a1 \<subseteq> m_lost_sequences (arb s) \<or>
      status = uint32_max \<and> a1 = arb s \<or>
      0 < status \<and> status \<noteq> uint32_max \<and> m_lost_sequences a1 = m_lost_sequences (arb s) \<union> {status ..< seq}"
  proof (cases "m_current_sequence (arb s) = uint32_max")
    case True
    then show ?thesis using chk by (auto simp: Check_feed_packet_def split: if_splits)
  next
    case False
    have seq: "seq \<noteq> uint32_max" using assms(4) by (simp add: packet_ok_def)
    from chk False seq show ?thesis
    proof (cases rule: Check_feed_packet_cases)
      case drop
      then show ?thesis by simp
    next
      case old
      then show ?thesis by auto
    next
      case new
      then show ?thesis using less_succ_iff [OF False, of 0]
        by (cases "seq = m_current_sequence (arb s) + 1") simp_all
    qed
  qed
  let ?s1 = "s\<lparr>arb := a1, feed := if status = uint32_max then None else Some (seq, msgs)\<rparr>"
  have 1: "system_step s (Feed_check (seq, msgs)) ?s1"
    by (rule system_step.feed_check) (use assms(1,4) chk in simp_all)
  then have run1: "feeds.run s [Feed_check (seq, msgs)] ?s1"
    using feeds.run_snoc [OF feeds.run_Nil] by fastforce
  show ?thesis
  proof (cases "status = uint32_max")
    case True
    then have "a = a1" "d = cme s" "acts = []"
      using assms(2,5) chk by (auto simp: Process_feed_data_def)
    then show ?thesis using run1 True lost
      by (intro exI [of _ "[Feed_check (seq, msgs)]"] exI [of _ ?s1]) (auto simp: uint32_max_def)
  next
    case False
    then obtain d1 where d1: "Insert_increment_data seq msgs (cme s) = Inr d1"
      "a = a1" "d = d1" "acts = (if 0 < status then [Start_receive status seq] else [])"
      using assms(2,3,5) chk
      by (auto simp: Process_feed_data_def Process_data_def bind_res_Inr_iff map_res_Inr_iff
          Start_tcp_replay_def split: if_splits)
    let ?t = "?s1\<lparr>cme := d1, feed := None, stored := stored ?s1 @ [(seq, msgs)]\<rparr>"
    have "system_step ?s1 Feed_store ?t"
      by (rule system_step.feed_store) (use d1 False in simp_all)
    from feeds.run_snoc [OF run1 this] have
      "feeds.run s ([Feed_check (seq, msgs)] @ [Feed_store]) ?t" .
    moreover have "acts = [] \<and> m_lost_sequences a \<subseteq> m_lost_sequences (arb s) \<or>
      (\<exists>b. acts = [Start_receive b seq] \<and> m_lost_sequences a = m_lost_sequences (arb s) \<union> {b ..< seq})"
      using d1(2,4) lost False by auto
    moreover have "arb ?t = a" "cme ?t = d" "feed ?t = None" using d1 by simp_all
    ultimately show ?thesis by blast
  qed
qed

theorem process_feed_data_steps_witness:
  "\<exists>ls t a d acts. Process_feed_data (\<lambda>_. Inr AdminHeartbeat12) True (encode_packet 5 0 []) 12
      (arb system_start, cme system_start) = Some (Inr ((a, d), acts)) \<and>
    feeds.run system_start ls t \<and> arb t = a \<and> cme t = d"
proof -
  let ?dec = "\<lambda>_. Inr AdminHeartbeat12"
  have len: "length (encode_packet 5 0 []) = 12" by (simp add: encode_packet_def)
  have r: "read_u32 0 (encode_packet 5 0 []) = Inr 5"
    using read_u32_le_bytes [of "[]" 0 5] by (simp add: encode_packet_def)
  have p: "Pick_messages_from_packet ?dec (encode_packet 5 0 []) 12 [] = Some (Inr (5, []))"
    using Pick_encoded [of ?dec "[]" "[]" 5 0 "[]" "[]"] by (simp add: len)
  have f: "feed system_start = None" "packet_ok (5, [])"
    by (simp_all add: system_start_def packet_ok_def uint32_max_def)
  obtain a d acts where run: "Process_feed_data ?dec True (encode_packet 5 0 []) 12
      (arb system_start, cme system_start) = Some (Inr ((a, d), acts))"
    by (simp add: Process_feed_data_def r p Process_data_def system_start_def DatArbitrator_new_def
        CmeData_new_def Check_feed_packet_def Insert_increment_data_def uint32_max_def)
  from process_feed_data_steps [OF f(1) r p f(2) run] run show ?thesis by blast
qed

end
