(* ===== verification/Parsers.thy ===== *)
theory Parsers
  imports Mktdata
begin

text \<open>
  The message parsers (cme/market/message/message_parser_x.cc, _w.cc, _d.cc, _f.cc, _r.cc): from
  the decoder's view of a message to the program's \<open>Book\<close> and \<open>Instrument\<close> values.  One function
  per template, in the order the parser reads the fields, because reading an enumeration throws on
  an unknown value.  The group \<open>noMDEntries\<close> is the list of its entries; \<open>books\<close> is the vector the
  caller passes by reference.

  A template id picks the branch and the cast of the body; the decoder keeps the two consistent,
  so a branch is a constructor of \<open>sbe_message\<close>.
\<close>

section \<open>Increments (35=X)\<close>

definition set_indicator :: "match_event_indicator \<Rightarrow> Book \<Rightarrow> Book" where
  "set_indicator mei b = b\<lparr>matchEventIndicator := mei\<rparr>"

definition Set_match_event_indicator :: "match_event_indicator \<Rightarrow> Book list \<Rightarrow> Book list" where
  "Set_match_event_indicator mei books =
     map (set_indicator mei) (if books = [] then [Book_zero] else books)"

text \<open>The loop over a group followed by \<open>Set_match_event_indicator\<close>, as every \<open>Parse_n\<close> of the
  increment parser has it around its own reading of an entry.\<close>

definition parse_entries ::
    "(md_entry \<Rightarrow> Book res) \<Rightarrow> match_event_indicator \<Rightarrow> md_entry list \<Rightarrow> Book list \<Rightarrow> Book list res" where
  "parse_entries read mei entries books =
     map_res (\<lambda>bs. Set_match_event_indicator mei (books @ bs)) (traverse read entries)"

definition Parse_4 :: "md_entry \<Rightarrow> Book res" where
  "Parse_4 e =
     bind_res (MDUpdateAction_get 0) (\<lambda>action.
     bind_res (MDEntryType_get 74) (\<lambda>ty.
       Inr (Book_zero\<lparr>mDUpdateAction := action, mDEntryType := ty, applID := e_applID e\<rparr>)))"

definition Parse_32 :: "md_entry \<Rightarrow> Book res" where
  "Parse_32 e =
     bind_res (MDUpdateAction_get (e_mDUpdateAction e)) (\<lambda>action.
     bind_res (MDEntryTypeBook_get (e_mDEntryType e)) (\<lambda>c.
     bind_res (MDEntryType_get c) (\<lambda>ty.
       Inr (Book_zero\<lparr>mDEntryPx := e_mDEntryPx e, mDEntrySize := e_mDEntrySize e,
         securityID := e_securityID e, rptSeq := e_rptSeq e,
         numberOfOrders := e_numberOfOrders e, mDPriceLevel := e_mDPriceLevel e,
         mDUpdateAction := action, mDEntryType := ty\<rparr>))))"

definition Parse_33 :: "md_entry \<Rightarrow> Book res" where
  "Parse_33 e =
     bind_res (MDUpdateAction_get (e_mDUpdateAction e)) (\<lambda>action.
     bind_res (MDEntryTypeDailyStatistics_get (e_mDEntryType e)) (\<lambda>c.
     bind_res (MDEntryType_get c) (\<lambda>ty.
       Inr (Book_zero\<lparr>mDEntryPx := e_mDEntryPx e, mDEntrySize := e_mDEntrySize e,
         securityID := e_securityID e, rptSeq := e_rptSeq e,
         tradingReferenceDate := e_tradingReferenceDate e,
         mDUpdateAction := action, mDEntryType := ty,
         settlPriceType := e_settlPriceType e\<rparr>))))"

definition Parse_34 :: "md_entry \<Rightarrow> Book res" where
  "Parse_34 e =
     bind_res (MDUpdateAction_get 0) (\<lambda>action.
     bind_res (MDEntryType_get 103) (\<lambda>ty.
       Inr (Book_zero\<lparr>highLimitPrice := e_highLimitPrice e, lowLimitPrice := e_lowLimitPrice e,
         maxPriceVariation := e_maxPriceVariation e, securityID := e_securityID e,
         rptSeq := e_rptSeq e, mDUpdateAction := action, mDEntryType := ty\<rparr>)))"

definition Parse_35 :: "md_entry \<Rightarrow> Book res" where
  "Parse_35 e =
     bind_res (OpenCloseSettlFlag_get (e_openCloseSettlFlag e)) (\<lambda>flag.
     bind_res (MDUpdateAction_get (e_mDUpdateAction e)) (\<lambda>action.
     bind_res (MDEntryTypeStatistics_get (e_mDEntryType e)) (\<lambda>c.
     bind_res (MDEntryType_get c) (\<lambda>ty.
       Inr (Book_zero\<lparr>mDEntryPx := e_mDEntryPx e, securityID := e_securityID e,
         rptSeq := e_rptSeq e, openCloseSettlFlag := flag, mDUpdateAction := action,
         mDEntryType := ty, mDEntrySize := e_mDEntrySize e\<rparr>)))))"

definition Parse_36 :: "md_entry \<Rightarrow> Book res" where
  "Parse_36 e =
     bind_res (AggressorSide_get (e_aggressorSide e)) (\<lambda>side.
     bind_res (MDUpdateAction_get (e_mDUpdateAction e)) (\<lambda>action.
     bind_res (MDEntryType_get 50) (\<lambda>ty.
       Inr (Book_zero\<lparr>mDEntryPx := e_mDEntryPx e, mDEntrySize := e_mDEntrySize e,
         securityID := e_securityID e, rptSeq := e_rptSeq e,
         numberOfOrders := e_numberOfOrders e, tradeID := e_tradeID e, aggressorSide := side,
         mDUpdateAction := action, mDEntryType := ty\<rparr>))))"

definition Parse_37 :: "md_entry \<Rightarrow> Book res" where
  "Parse_37 e =
     bind_res (MDUpdateAction_get (e_mDUpdateAction e)) (\<lambda>action.
     bind_res (MDEntryType_get 101) (\<lambda>ty.
       Inr (Book_zero\<lparr>mDEntrySize := e_mDEntrySize e, securityID := e_securityID e,
         rptSeq := e_rptSeq e, mDUpdateAction := action, mDEntryType := ty\<rparr>)))"

definition Parse_42 :: "md_entry \<Rightarrow> Book res" where
  "Parse_42 e =
     bind_res (AggressorSide_get (e_aggressorSide e)) (\<lambda>side.
     bind_res (MDUpdateAction_get (e_mDUpdateAction e)) (\<lambda>action.
     bind_res (MDEntryType_get 50) (\<lambda>ty.
       Inr (Book_zero\<lparr>mDEntryPx := e_mDEntryPx e, mDEntrySize := e_mDEntrySize e,
         securityID := e_securityID e, rptSeq := e_rptSeq e,
         numberOfOrders := e_numberOfOrders e, aggressorSide := side,
         mDUpdateAction := action, mDEntryType := ty,
         mDTradeEntryID := e_mDTradeEntryID e\<rparr>))))"

text \<open>The switch over the template id: template 43 is ignored, as is any template without a case,
  and neither touches \<open>books\<close>.\<close>

fun parse_increment_body :: "sbe_message \<Rightarrow> Book list \<Rightarrow> Book list res" where
  "parse_increment_body (ChannelReset4 mei es) books = parse_entries Parse_4 mei es books"
| "parse_increment_body (MDIncrementalRefreshBook32 mei es) books =
     parse_entries Parse_32 mei es books"
| "parse_increment_body (MDIncrementalRefreshDailyStatistics33 mei es) books =
     parse_entries Parse_33 mei es books"
| "parse_increment_body (MDIncrementalRefreshLimitsBanding34 mei es) books =
     parse_entries Parse_34 mei es books"
| "parse_increment_body (MDIncrementalRefreshSessionStatistics35 mei es) books =
     parse_entries Parse_35 mei es books"
| "parse_increment_body (MDIncrementalRefreshTrade36 mei es) books =
     parse_entries Parse_36 mei es books"
| "parse_increment_body (MDIncrementalRefreshVolume37 mei es) books =
     parse_entries Parse_37 mei es books"
| "parse_increment_body (MDIncrementalRefreshTradeSummary42 mei es) books =
     parse_entries Parse_42 mei es books"
| "parse_increment_body _ books = Inr books"

definition MessageParserX_Parse :: "MdpMessage \<Rightarrow> Book list \<Rightarrow> Book list res" where
  "MessageParserX_Parse msg books =
     map_res (map (\<lambda>b. b\<lparr>packet_seq_num := m_packet_seq_num msg,
         template_id := MdpMessage_template_id msg, type := CHR ''X''\<rparr>))
       (parse_increment_body (m_sbe msg) books)"

section \<open>Snapshots (35=W)\<close>

definition read_entry_38 :: "md_entry \<Rightarrow> Book res" where
  "read_entry_38 e =
     bind_res (OpenCloseSettlFlag_get (e_openCloseSettlFlag e)) (\<lambda>flag.
     bind_res (MDEntryType_get (e_mDEntryType e)) (\<lambda>ty.
       Inr (Book_zero\<lparr>mDEntryPx := e_mDEntryPx e, mDEntrySize := e_mDEntrySize e,
         numberOfOrders := e_numberOfOrders e, mDPriceLevel := e_mDPriceLevel e,
         tradingReferenceDate := e_tradingReferenceDate e, openCloseSettlFlag := flag,
         settlPriceType := e_settlPriceType e, mDEntryType := ty\<rparr>)))"

definition Parse_38 :: "snapshot_root \<Rightarrow> md_entry list \<Rightarrow> Book list \<Rightarrow> Book list res" where
  "Parse_38 sr entries books =
     map_res (\<lambda>bs. map (\<lambda>b. b\<lparr>packet_seq_num := s_lastMsgSeqNumProcessed sr,
         securityID := s_securityID sr, rptSeq := s_rptSeq sr,
         highLimitPrice := s_highLimitPrice sr, lowLimitPrice := s_lowLimitPrice sr,
         maxPriceVariation := s_maxPriceVariation sr\<rparr>) (books @ bs))
       (traverse read_entry_38 entries)"

definition read_entry_44 :: "md_entry \<Rightarrow> Book res" where
  "read_entry_44 e =
     bind_res (MDEntryTypeBook_get (e_mDEntryType e)) (\<lambda>c.
     bind_res (MDEntryType_get c) (\<lambda>ty.
       Inr (Book_zero\<lparr>orderID := e_orderID e, mDOrderPriority := e_mDOrderPriority e,
         mDEntryPx := e_mDEntryPx e, mDDisplayQty := e_mDDisplayQty e, mDEntryType := ty\<rparr>)))"

definition Parse_44 :: "snapshot_root \<Rightarrow> md_entry list \<Rightarrow> Book list \<Rightarrow> Book list res" where
  "Parse_44 sr entries books =
     map_res (\<lambda>bs. map (\<lambda>b. b\<lparr>packet_seq_num := s_lastMsgSeqNumProcessed sr,
         securityID := s_securityID sr\<rparr>) (books @ bs))
       (traverse read_entry_44 entries)"

definition MessageParserW_Parse :: "MdpMessage \<Rightarrow> Book list \<Rightarrow> Book list res" where
  "MessageParserW_Parse msg books =
     map_res (map (\<lambda>b. b\<lparr>template_id := MdpMessage_template_id msg, type := CHR ''W''\<rparr>))
       (case m_sbe msg of
          SnapshotFullRefresh38 sr es \<Rightarrow> Parse_38 sr es books
        | SnapshotFullRefreshOrderBook44 sr es \<Rightarrow> Parse_44 sr es books
        | _ \<Rightarrow> Inr books)"

section \<open>Definitions (35=d), status (35=f) and quote requests (35=R)\<close>

definition Trim_null :: "string \<Rightarrow> string" where
  "Trim_null s = takeWhile (\<lambda>c. c \<noteq> CHR 0x00) s"

definition feed_type_depth :: "string \<times> u8 \<Rightarrow> Instrument \<Rightarrow> Instrument" where
  "feed_type_depth = (\<lambda>(mdFeedType, market_depth) i.
     if mdFeedType = ''GBI'' then i\<lparr>depthGBI := market_depth\<rparr>
     else if mdFeedType = ''GBX'' then i\<lparr>depthGBX := market_depth\<rparr>
     else i)"

text \<open>\<open>packet_seq_num\<close> and \<open>template_id\<close> of the local \<open>Instrument i\<close> are indeterminate until
  \<open>Parse\<close> sets them; the model starts them at 0.\<close>

definition MessageParserD_Parse_X :: "instrument_definition \<Rightarrow> Instrument" where
  "MessageParserD_Parse_X d =
     fold feed_type_depth (d_noMDFeedTypes d)
       \<lparr>i_packet_seq_num = 0, i_template_id = 0, appId = d_applID d,
        securityUpdateAction = d_securityUpdateAction d, i_securityID = d_securityID d,
        symbol = Trim_null (d_Symbol d), minPriceIncrement = d_minPriceIncrement d,
        i_highLimitPrice = d_highLimitPrice d, i_lowLimitPrice = d_lowLimitPrice d,
        depthGBX = 0, depthGBI = 0\<rparr>"

definition MessageParserD_Parse :: "MdpMessage \<Rightarrow> Instrument list \<Rightarrow> Instrument list" where
  "MessageParserD_Parse msg instruments =
     map (\<lambda>i. i\<lparr>i_packet_seq_num := m_packet_seq_num msg,
         i_template_id := MdpMessage_template_id msg\<rparr>)
       (case m_sbe msg of
          MDInstrumentDefinitionFuture27 d \<Rightarrow> instruments @ [MessageParserD_Parse_X d]
        | MDInstrumentDefinitionSpread29 d \<Rightarrow> instruments @ [MessageParserD_Parse_X d]
        | MDInstrumentDefinitionOption41 d \<Rightarrow> instruments @ [MessageParserD_Parse_X d]
        | _ \<Rightarrow> instruments)"

text \<open>\<open>Parse_30\<close> casts the body without looking at the template; only a status message has that
  layout, anything else would be read as one (a cast to the wrong type).\<close>

definition MessageParserF_Parse :: "MdpMessage \<Rightarrow> (u32 \<times> SecurityTradingStatus) res" where
  "MessageParserF_Parse msg =
     (case m_sbe msg of
        SecurityStatus30 sid status \<Rightarrow>
          bind_res (SecurityTradingStatus_get status) (\<lambda>s. Inr (sid, s))
      | _ \<Rightarrow> Inl Undefined_behaviour)"

definition MessageParserR_Parse :: "MdpMessage \<Rightarrow> Book list \<Rightarrow> Book list" where
  "MessageParserR_Parse msg books = books"

section \<open>Specification\<close>

text \<open>What the exchange's templates guarantee about the bytes of an entry: each enumeration the
  parser converts holds one of the listed values.  The entries of templates 4 and 34 have none.\<close>

fun increment_entries :: "sbe_message \<Rightarrow> (match_event_indicator \<times> md_entry list) option" where
  "increment_entries (ChannelReset4 mei es) = Some (mei, es)"
| "increment_entries (MDIncrementalRefreshBook32 mei es) = Some (mei, es)"
| "increment_entries (MDIncrementalRefreshDailyStatistics33 mei es) = Some (mei, es)"
| "increment_entries (MDIncrementalRefreshLimitsBanding34 mei es) = Some (mei, es)"
| "increment_entries (MDIncrementalRefreshSessionStatistics35 mei es) = Some (mei, es)"
| "increment_entries (MDIncrementalRefreshTrade36 mei es) = Some (mei, es)"
| "increment_entries (MDIncrementalRefreshVolume37 mei es) = Some (mei, es)"
| "increment_entries (MDIncrementalRefreshTradeSummary42 mei es) = Some (mei, es)"
| "increment_entries _ = None"

definition action_known :: "md_entry \<Rightarrow> bool" where
  "action_known e \<longleftrightarrow> e_mDUpdateAction e \<in> {0, 1, 2, 3, 4, 5, 255}"

fun entry_wellformed :: "sbe_message \<Rightarrow> md_entry \<Rightarrow> bool" where
  "entry_wellformed (MDIncrementalRefreshBook32 _ _) e \<longleftrightarrow>
     action_known e \<and> e_mDEntryType e \<in> {48, 49, 69, 70, 74, 0}"
| "entry_wellformed (MDIncrementalRefreshDailyStatistics33 _ _) e \<longleftrightarrow>
     action_known e \<and> e_mDEntryType e \<in> {54, 66, 67, 87, 0}"
| "entry_wellformed (MDIncrementalRefreshSessionStatistics35 _ _) e \<longleftrightarrow>
     action_known e \<and> e_mDEntryType e \<in> {52, 55, 56, 78, 79, 0} \<and>
     e_openCloseSettlFlag e \<in> {0, 5, 255}"
| "entry_wellformed (MDIncrementalRefreshTrade36 _ _) e \<longleftrightarrow>
     action_known e \<and> e_aggressorSide e \<in> {0, 1, 2, 255}"
| "entry_wellformed (MDIncrementalRefreshVolume37 _ _) e \<longleftrightarrow> action_known e"
| "entry_wellformed (MDIncrementalRefreshTradeSummary42 _ _) e \<longleftrightarrow>
     action_known e \<and> e_aggressorSide e \<in> {0, 1, 2, 255}"
| "entry_wellformed _ e \<longleftrightarrow> True"

text \<open>What an entry says about its instrument, size and price: the fields the templates have in
  common, zero where a template has none.\<close>

fun entry_view :: "sbe_message \<Rightarrow> md_entry \<Rightarrow> u32 \<times> u32 \<times> md_price" where
  "entry_view (ChannelReset4 _ _) e = (0, 0, (0, 0))"
| "entry_view (MDIncrementalRefreshLimitsBanding34 _ _) e = (e_securityID e, 0, (0, 0))"
| "entry_view (MDIncrementalRefreshVolume37 _ _) e = (e_securityID e, e_mDEntrySize e, (0, 0))"
| "entry_view _ e = (e_securityID e, e_mDEntrySize e, e_mDEntryPx e)"

definition book_view :: "Book \<Rightarrow> u32 \<times> u32 \<times> md_price" where
  "book_view b = (securityID b, mDEntrySize b, mDEntryPx b)"

definition stamped :: "MdpMessage \<Rightarrow> match_event_indicator \<Rightarrow> Book \<Rightarrow> bool" where
  "stamped msg mei b \<longleftrightarrow> packet_seq_num b = m_packet_seq_num msg \<and>
     template_id b = MdpMessage_template_id msg \<and> type b = CHR ''X'' \<and>
     matchEventIndicator b = mei"

section \<open>Reading one entry\<close>

named_theorems parse_defs \<open>the readers of single entries\<close>

declare Parse_4_def [parse_defs] Parse_32_def [parse_defs] Parse_33_def [parse_defs]
  Parse_34_def [parse_defs] Parse_35_def [parse_defs] Parse_36_def [parse_defs]
  Parse_37_def [parse_defs] Parse_42_def [parse_defs]

text \<open>A reader meets its template when it returns a book with the entry's instrument, size and
  price for every well-formed entry, and throws for every other.\<close>

definition reads_at :: "(md_entry \<Rightarrow> Book res) \<Rightarrow> sbe_message \<Rightarrow> md_entry \<Rightarrow> bool" where
  "reads_at rd msg e \<longleftrightarrow> (if entry_wellformed msg e
     then \<exists>b. rd e = Inr b \<and> book_view b = entry_view msg e else \<exists>x. rd e = Inl x)"

lemma action_cases:
  "if action_known e then \<exists>a. MDUpdateAction_get (e_mDUpdateAction e) = Inr a
   else \<exists>x. MDUpdateAction_get (e_mDUpdateAction e) = Inl x"
  by (auto simp: action_known_def MDUpdateAction_get_def MDUpdateAction_codes_def enum_get_def)

lemma aggressor_cases:
  "if e_aggressorSide e \<in> {0, 1, 2, 255} then \<exists>a. AggressorSide_get (e_aggressorSide e) = Inr a
   else \<exists>x. AggressorSide_get (e_aggressorSide e) = Inl x"
  by (auto simp: AggressorSide_get_def AggressorSide_codes_def enum_get_def)

lemma flag_cases:
  "if e_openCloseSettlFlag e \<in> {0, 5, 255}
   then \<exists>a. OpenCloseSettlFlag_get (e_openCloseSettlFlag e) = Inr a
   else \<exists>x. OpenCloseSettlFlag_get (e_openCloseSettlFlag e) = Inl x"
  by (auto simp: OpenCloseSettlFlag_get_def OpenCloseSettlFlag_codes_def enum_get_def)

lemma const_gets:
  "MDUpdateAction_get 0 = Inr New"
  "MDEntryType_get 74 = Inr BookReset" "MDEntryType_get 103 = Inr ThresholdLimitsandPriceBandVariation"
  "MDEntryType_get 50 = Inr Trade" "MDEntryType_get 101 = Inr ElectronicVolume"
  by (simp_all add: sbe_enum_defs)

lemma entry_type_cases:
  "if c \<in> {48, 49, 69, 70, 74, 0} then \<exists>t. MDEntryTypeBook_get c = Inr c \<and> MDEntryType_get c = Inr t
   else \<exists>x. MDEntryTypeBook_get c = Inl x"
  "if c \<in> {54, 66, 67, 87, 0}
   then \<exists>t. MDEntryTypeDailyStatistics_get c = Inr c \<and> MDEntryType_get c = Inr t
   else \<exists>x. MDEntryTypeDailyStatistics_get c = Inl x"
  "if c \<in> {52, 55, 56, 78, 79, 0}
   then \<exists>t. MDEntryTypeStatistics_get c = Inr c \<and> MDEntryType_get c = Inr t
   else \<exists>x. MDEntryTypeStatistics_get c = Inl x"
  by (auto simp: MDEntryTypeBook_get_def MDEntryTypeDailyStatistics_get_def
      MDEntryTypeStatistics_get_def entry_subtype_get_def MDEntryType_get_def enum_get_def
      MDEntryType_codes_def)

lemma book_view_zero: "book_view Book_zero = (0, 0, (0, 0))"
  by (simp add: book_view_def Book_zero_def)


lemma reads_entry:
  "reads_at Parse_4 (ChannelReset4 mei es) e"
  "reads_at Parse_32 (MDIncrementalRefreshBook32 mei es) e"
  "reads_at Parse_33 (MDIncrementalRefreshDailyStatistics33 mei es) e"
  "reads_at Parse_34 (MDIncrementalRefreshLimitsBanding34 mei es) e"
  "reads_at Parse_35 (MDIncrementalRefreshSessionStatistics35 mei es) e"
  "reads_at Parse_36 (MDIncrementalRefreshTrade36 mei es) e"
  "reads_at Parse_37 (MDIncrementalRefreshVolume37 mei es) e"
  "reads_at Parse_42 (MDIncrementalRefreshTradeSummary42 mei es) e"
proof -
  show "reads_at Parse_4 (ChannelReset4 mei es) e"
    unfolding reads_at_def
    by (auto simp: Parse_4_def const_gets book_view_def Book_zero_def split: if_splits)
  show "reads_at Parse_32 (MDIncrementalRefreshBook32 mei es) e"
    unfolding reads_at_def using action_cases [of e] entry_type_cases(1) [of "e_mDEntryType e"]
    by (auto simp: Parse_32_def const_gets book_view_def Book_zero_def split: if_splits)
  show "reads_at Parse_33 (MDIncrementalRefreshDailyStatistics33 mei es) e"
    unfolding reads_at_def using action_cases [of e] entry_type_cases(2) [of "e_mDEntryType e"]
    by (auto simp: Parse_33_def const_gets book_view_def Book_zero_def split: if_splits)
  show "reads_at Parse_34 (MDIncrementalRefreshLimitsBanding34 mei es) e"
    unfolding reads_at_def
    by (auto simp: Parse_34_def const_gets book_view_def Book_zero_def split: if_splits)
  show "reads_at Parse_35 (MDIncrementalRefreshSessionStatistics35 mei es) e"
    unfolding reads_at_def using action_cases [of e] flag_cases [of e]
      entry_type_cases(3) [of "e_mDEntryType e"]
    by (auto simp: Parse_35_def const_gets book_view_def Book_zero_def split: if_splits)
  show "reads_at Parse_36 (MDIncrementalRefreshTrade36 mei es) e"
    unfolding reads_at_def using action_cases [of e] aggressor_cases [of e]
    by (auto simp: Parse_36_def const_gets book_view_def Book_zero_def split: if_splits)
  show "reads_at Parse_37 (MDIncrementalRefreshVolume37 mei es) e"
    unfolding reads_at_def using action_cases [of e]
    by (auto simp: Parse_37_def const_gets book_view_def Book_zero_def split: if_splits)
  show "reads_at Parse_42 (MDIncrementalRefreshTradeSummary42 mei es) e"
    unfolding reads_at_def using action_cases [of e] aggressor_cases [of e]
    by (auto simp: Parse_42_def const_gets book_view_def Book_zero_def split: if_splits)
qed

text \<open>The group: all entries are read or the whole message is rejected.\<close>

lemma traverse_reads:
  assumes "\<And>e. reads_at rd msg e"
  shows "if \<forall>e \<in> set es. entry_wellformed msg e
     then \<exists>bs. traverse rd es = Inr bs \<and> map book_view bs = map (entry_view msg) es
     else \<exists>x. traverse rd es = Inl x"
proof (induction es)
  case (Cons e es)
  then show ?case using assms [of e]
    by (cases "entry_wellformed msg e") (auto simp: reads_at_def split: if_splits)
qed simp

lemma book_view_stamp:
  "book_view (b\<lparr>packet_seq_num := n, template_id := t, type := c\<rparr>) = book_view b"
  "book_view (b\<lparr>matchEventIndicator := mei\<rparr>) = book_view b"
  by (simp_all add: book_view_def)

lemma parse_increment_entries:
  assumes "increment_entries msg = Some (mei, es)"
  obtains rd where "\<And>books. parse_increment_body msg books = parse_entries rd mei es books"
    "\<And>e. reads_at rd msg e"
  using assms reads_entry by (cases msg) auto

text \<open>
  Claim C13: an increment message is parsed whole or not at all: if every entry's update action,
  entry type, aggressor side and settlement flag (as far as its template has them) is one the
  exchange defines, the parser returns one book per entry, in order, with that entry's instrument,
  size and price, each stamped with the packet's sequence number, the template, type 'X' and the
  message's event indicator; a message without entries gives a single empty book that carries the
  indicator; and an unknown value in any entry ends in an exception.
\<close>
theorem increment_parsed_whole_or_rejected:
  assumes "increment_entries (m_sbe msg) = Some (mei, es)"
  shows "if \<forall>e \<in> set es. entry_wellformed (m_sbe msg) e
    then \<exists>books. MessageParserX_Parse msg [] = Inr books \<and>
      map book_view books =
        (if es = [] then [(0, 0, (0, 0))] else map (entry_view (m_sbe msg)) es) \<and>
      (\<forall>b \<in> set books. stamped msg mei b)
    else \<exists>x. MessageParserX_Parse msg [] = Inl x"
proof -
  obtain rd where body: "parse_increment_body (m_sbe msg) [] = parse_entries rd mei es []"
    and rd: "\<And>e. reads_at rd (m_sbe msg) e"
    using parse_increment_entries [OF assms] by metis
  note r = traverse_reads [of rd "m_sbe msg" es, OF rd]
  show ?thesis
  proof (cases "\<forall>e \<in> set es. entry_wellformed (m_sbe msg) e")
    case True
    with r obtain bs where bs: "traverse rd es = Inr bs"
      "map book_view bs = map (entry_view (m_sbe msg)) es" by auto
    then have "bs = [] \<longleftrightarrow> es = []" by (metis map_is_Nil_conv)
    with bs True show ?thesis
      by (auto simp: MessageParserX_Parse_def body parse_entries_def Set_match_event_indicator_def
          book_view_stamp book_view_zero stamped_def set_indicator_def comp_def)
  next
    case False
    with r show ?thesis by (auto simp: MessageParserX_Parse_def body parse_entries_def)
  qed
qed

definition example_entry :: md_entry where
  "example_entry = \<lparr>e_mDEntryPx = (1001, 255), e_mDEntrySize = 5, e_securityID = 7, e_rptSeq = 1,
     e_numberOfOrders = 2, e_mDPriceLevel = 1, e_mDUpdateAction = 0, e_mDEntryType = 48,
     e_tradingReferenceDate = 0, e_settlPriceType = no_settl_price_type,
     e_openCloseSettlFlag = 255, e_highLimitPrice = (0, 0), e_lowLimitPrice = (0, 0),
     e_maxPriceVariation = (0, 0), e_tradeID = 0, e_aggressorSide = 255, e_mDTradeEntryID = 0,
     e_orderID = 0, e_mDOrderPriority = 0, e_mDDisplayQty = 0, e_applID = 0\<rparr>"

definition example_increment :: "md_entry list \<Rightarrow> MdpMessage" where
  "example_increment es = \<lparr>m_packet_length = 0, m_packet_seq_num = 9, m_packet_sending_time = 0,
     m_message_length = 0, m_buffer = [], m_sbe = MDIncrementalRefreshBook32 no_indicator es\<rparr>"

theorem increment_parsed_whole_or_rejected_witness:
  "(\<exists>books. MessageParserX_Parse (example_increment [example_entry]) [] = Inr books \<and>
      map book_view books = [(7, 5, (1001, 255))]) \<and>
   (\<exists>x. MessageParserX_Parse (example_increment [example_entry, example_entry\<lparr>e_mDEntryType := 1\<rparr>]) []
      = Inl x)"
proof
  have sbe: "increment_entries (m_sbe (example_increment es)) = Some (no_indicator, es)" for es
    by (simp add: example_increment_def)
  have wf: "entry_wellformed (m_sbe (example_increment es)) e \<longleftrightarrow>
      action_known e \<and> e_mDEntryType e \<in> {48, 49, 69, 70, 74, 0}" for es e
    by (simp add: example_increment_def)
  have view: "entry_view (m_sbe (example_increment es)) example_entry = (7, 5, (1001, 255))" for es
    by (simp add: example_increment_def example_entry_def)
  have e: "action_known example_entry" "e_mDEntryType example_entry = 48"
    by (simp_all add: action_known_def example_entry_def)
  show "\<exists>books. MessageParserX_Parse (example_increment [example_entry]) [] = Inr books \<and>
      map book_view books = [(7, 5, (1001, 255))]"
    using increment_parsed_whole_or_rejected [OF sbe, of "[example_entry]"]
    by (auto simp: wf view e)
  show "\<exists>x. MessageParserX_Parse
      (example_increment [example_entry, example_entry\<lparr>e_mDEntryType := 1\<rparr>]) [] = Inl x"
    using increment_parsed_whole_or_rejected
      [OF sbe, of "[example_entry, example_entry\<lparr>e_mDEntryType := 1\<rparr>]"]
    by (simp add: wf)
qed

section \<open>Snapshots and definitions\<close>

definition entry_wellformed_38 :: "md_entry \<Rightarrow> bool" where
  "entry_wellformed_38 e \<longleftrightarrow> e_openCloseSettlFlag e \<in> {0, 5, 255} \<and>
     e_mDEntryType e \<in> fst ` set MDEntryType_codes"

lemma entry_type_known:
  "if c \<in> fst ` set MDEntryType_codes then \<exists>t. MDEntryType_get c = Inr t
   else \<exists>x. MDEntryType_get c = Inl x"
  using map_of_eq_None_iff [of MDEntryType_codes c]
  by (cases "map_of MDEntryType_codes c") (simp_all add: MDEntryType_get_def enum_get_def)

lemma read_entry_38_cases:
  "if entry_wellformed_38 e
   then \<exists>b. read_entry_38 e = Inr b \<and> mDPriceLevel b = e_mDPriceLevel e \<and>
     mDEntrySize b = e_mDEntrySize e \<and> mDEntryPx b = e_mDEntryPx e \<and>
     numberOfOrders b = e_numberOfOrders e \<and> MDEntryType_get (e_mDEntryType e) = Inr (mDEntryType b)
   else \<exists>x. read_entry_38 e = Inl x"
  using flag_cases [of e] entry_type_known [of "e_mDEntryType e"]
  by (auto simp: read_entry_38_def entry_wellformed_38_def split: if_splits)

lemma traverse_38:
  "if \<forall>e \<in> set es. entry_wellformed_38 e
   then \<exists>bs. traverse read_entry_38 es = Inr bs \<and>
     list_all2 (\<lambda>e b. mDPriceLevel b = e_mDPriceLevel e \<and> mDEntrySize b = e_mDEntrySize e \<and>
       mDEntryPx b = e_mDEntryPx e \<and> numberOfOrders b = e_numberOfOrders e \<and>
       MDEntryType_get (e_mDEntryType e) = Inr (mDEntryType b)) es bs
   else \<exists>x. traverse read_entry_38 es = Inl x"
proof (induction es)
  case (Cons e es)
  then show ?case using read_entry_38_cases [of e]
    by (cases "entry_wellformed_38 e") (auto split: if_splits)
qed simp

text \<open>
  A snapshot (template 38) becomes one book per entry, in order, with the entry's level,
  size, price, order count and type; all of them carry type 'W', the snapshot's instrument and, in
  place of the packet's sequence number, the last sequence number the snapshot includes.  An
  undefined entry type or settlement flag in any entry ends in an exception.
\<close>
theorem snapshot_parsed:
  assumes "m_sbe msg = SnapshotFullRefresh38 sr es"
  shows "if \<forall>e \<in> set es. entry_wellformed_38 e
    then \<exists>books. MessageParserW_Parse msg [] = Inr books \<and>
      list_all2 (\<lambda>e b. mDPriceLevel b = e_mDPriceLevel e \<and> mDEntrySize b = e_mDEntrySize e \<and>
        mDEntryPx b = e_mDEntryPx e \<and> numberOfOrders b = e_numberOfOrders e \<and>
        MDEntryType_get (e_mDEntryType e) = Inr (mDEntryType b)) es books \<and>
      (\<forall>b \<in> set books. packet_seq_num b = s_lastMsgSeqNumProcessed sr \<and>
        securityID b = s_securityID sr \<and> template_id b = 38 \<and> type b = CHR ''W'')
    else \<exists>x. MessageParserW_Parse msg [] = Inl x"
  using traverse_38 [of es]
  by (auto simp: MessageParserW_Parse_def assms Parse_38_def MdpMessage_template_id_def
      list.rel_map split: if_splits)

definition example_snapshot :: "md_entry list \<Rightarrow> MdpMessage" where
  "example_snapshot es = \<lparr>m_packet_length = 0, m_packet_seq_num = 9, m_packet_sending_time = 0,
     m_message_length = 0, m_buffer = [],
     m_sbe = SnapshotFullRefresh38 \<lparr>s_lastMsgSeqNumProcessed = 4, s_securityID = 7, s_rptSeq = 1,
       s_highLimitPrice = (0, 0), s_lowLimitPrice = (0, 0), s_maxPriceVariation = (0, 0)\<rparr> es\<rparr>"

theorem snapshot_parsed_witness:
  "\<exists>b. MessageParserW_Parse (example_snapshot [example_entry]) [] = Inr [b] \<and>
     packet_seq_num b = 4 \<and> securityID b = 7 \<and> mDEntryType b = Bid"
proof -
  have wf: "\<forall>e \<in> set [example_entry]. entry_wellformed_38 e"
    by (simp add: entry_wellformed_38_def example_entry_def MDEntryType_codes_def)
  have ty: "MDEntryType_get (e_mDEntryType example_entry) = Inr Bid"
    by (simp add: example_entry_def sbe_enum_defs)
  have sbe: "m_sbe (example_snapshot [example_entry]) = SnapshotFullRefresh38
      \<lparr>s_lastMsgSeqNumProcessed = 4, s_securityID = 7, s_rptSeq = 1,
       s_highLimitPrice = (0, 0), s_lowLimitPrice = (0, 0), s_maxPriceVariation = (0, 0)\<rparr>
      [example_entry]"
    by (simp add: example_snapshot_def)
  show ?thesis
    using snapshot_parsed [OF sbe] unfolding if_P [OF wf]
    by (auto simp: list_all2_Cons1 ty)
qed

text \<open>The depth an instrument gets for a feed type: that of the last group entry of the type, and
  0 when there is none.\<close>

definition last_depth :: "string \<Rightarrow> (string \<times> u8) list \<Rightarrow> u8" where
  "last_depth feed feeds =
     (case rev (filter (\<lambda>p. fst p = feed) feeds) of [] \<Rightarrow> 0 | p # _ \<Rightarrow> snd p)"

lemma last_depth_snoc:
  "last_depth feed (feeds @ [(ty, d)]) = (if ty = feed then d else last_depth feed feeds)"
  by (simp add: last_depth_def)

lemma fold_feed_types:
  "depthGBX i = 0 \<Longrightarrow> depthGBI i = 0 \<Longrightarrow> fold feed_type_depth feeds i =
     i\<lparr>depthGBX := last_depth ''GBX'' feeds, depthGBI := last_depth ''GBI'' feeds\<rparr>"
proof (induction feeds rule: rev_induct)
  case (snoc p feeds)
  then show ?case by (cases p) (simp add: feed_type_depth_def last_depth_snoc)
qed (simp add: last_depth_def)

text \<open>
  a definition message (future, spread or option) yields exactly one instrument, whose
  book depths are those of the last GBX and GBI entries of its feed-type group (0 without one, so
  that no price level of the instrument is ever accepted), whose symbol is cut at the first NUL and
  which carries the packet's sequence number.
\<close>
theorem definition_parsed:
  assumes "m_sbe msg \<in> {MDInstrumentDefinitionFuture27 d, MDInstrumentDefinitionSpread29 d,
    MDInstrumentDefinitionOption41 d}"
  shows "\<exists>i. MessageParserD_Parse msg [] = [i] \<and>
    i_securityID i = d_securityID d \<and> securityUpdateAction i = d_securityUpdateAction d \<and>
    depthGBX i = last_depth ''GBX'' (d_noMDFeedTypes d) \<and>
    depthGBI i = last_depth ''GBI'' (d_noMDFeedTypes d) \<and>
    CHR 0x00 \<notin> set (symbol i) \<and> (\<exists>rest. d_Symbol d = symbol i @ rest \<and>
      (rest = [] \<or> hd rest = CHR 0x00)) \<and>
    i_packet_seq_num i = m_packet_seq_num msg \<and> i_template_id i = MdpMessage_template_id msg"
proof -
  have trim: "CHR 0x00 \<notin> set (Trim_null s)" "\<exists>rest. s = Trim_null s @ rest \<and>
      (rest = [] \<or> hd rest = CHR 0x00)" for s
  proof -
    show "CHR 0x00 \<notin> set (Trim_null s)" by (auto simp: Trim_null_def dest: set_takeWhileD)
    show "\<exists>rest. s = Trim_null s @ rest \<and> (rest = [] \<or> hd rest = CHR 0x00)"
      unfolding Trim_null_def
      by (intro exI [of _ "dropWhile (\<lambda>c. c \<noteq> CHR 0x00) s"])
        (use hd_dropWhile [of "\<lambda>c. c \<noteq> CHR 0x00" s] in auto)
  qed
  have "MessageParserD_Parse msg [] = [(MessageParserD_Parse_X d)\<lparr>
      i_packet_seq_num := m_packet_seq_num msg, i_template_id := MdpMessage_template_id msg\<rparr>]"
    using assms by (auto simp: MessageParserD_Parse_def)
  then show ?thesis
    using trim by (simp add: MessageParserD_Parse_X_def fold_feed_types)
qed

definition example_definition :: MdpMessage where
  "example_definition = \<lparr>m_packet_length = 0, m_packet_seq_num = 3, m_packet_sending_time = 0,
     m_message_length = 0, m_buffer = [],
     m_sbe = MDInstrumentDefinitionFuture27 \<lparr>d_applID = 1, d_securityID = 7,
       d_securityUpdateAction = CHR ''A'', d_Symbol = ''ESM6'', d_minPriceIncrement = (25, 254),
       d_highLimitPrice = (0, 0), d_lowLimitPrice = (0, 0),
       d_noMDFeedTypes = [(''GBX'', 10), (''GBI'', 2)]\<rparr>\<rparr>"

theorem definition_parsed_witness:
  "\<exists>i. MessageParserD_Parse example_definition [] = [i] \<and> depthGBX i = 10 \<and> depthGBI i = 2"
proof -
  let ?d = "\<lparr>d_applID = 1, d_securityID = 7,
       d_securityUpdateAction = CHR ''A'', d_Symbol = ''ESM6'', d_minPriceIncrement = (25, 254),
       d_highLimitPrice = (0, 0), d_lowLimitPrice = (0, 0),
       d_noMDFeedTypes = [(''GBX'', 10), (''GBI'', 2)]\<rparr>"
  have "m_sbe example_definition \<in> {MDInstrumentDefinitionFuture27 ?d,
      MDInstrumentDefinitionSpread29 ?d, MDInstrumentDefinitionOption41 ?d}"
    by (simp add: example_definition_def)
  from definition_parsed [OF this] show ?thesis
    by (auto simp: last_depth_def)
qed

end
