(* ===== verification/Book_State.thy ===== *)
theory Book_State
  imports Mktdata
begin

text \<open>
  The order book of each instrument: \<open>BookPrice\<close> and \<open>BookState\<close> (cme/market/book_state.h) and
  the operations of \<open>BookStateController\<close> (cme/market/book_state_controller.cc).  A deque is a
  list, the \<open>unordered_map\<close> from security id to state a partial function, and a pointer into
  that map the security id it is stored under.  Erasing or inserting outside of a deque is
  undefined behaviour and \<open>deque::at\<close> throws; both are results of the private operations here,
  and the theorems show that the level check keeps them from happening.
\<close>

record BookPrice =
  bp_numberOfOrders :: u32
  bp_mDEntrySize :: u32
  bp_mDEntryPx :: md_price

record BookState =
  bookType :: u8
  bs_securityID :: u32
  bs_symbol :: string
  marketDepth :: u8
  bid :: "BookPrice list"
  ask :: "BookPrice list"

type_synonym book_states = "u32 \<rightharpoonup> BookState"

text \<open>The pair (flag, pointer) that \<open>Modify_state\<close> returns: flags 0, 1, 2 and 3.\<close>

datatype modify_result =
    Nothing_changed
  | All_reset
  | State_changed "u32 option"
  | Trade_info Book

section \<open>Price levels of one side\<close>

definition empty_price :: BookPrice where
  "empty_price = \<lparr>bp_numberOfOrders = 0, bp_mDEntrySize = 0, bp_mDEntryPx = (0, 0)\<rparr>"

definition book_price :: "Book \<Rightarrow> BookPrice" where
  "book_price b = \<lparr>bp_numberOfOrders = numberOfOrders b, bp_mDEntrySize = mDEntrySize b,
     bp_mDEntryPx = mDEntryPx b\<rparr>"

text \<open>\<open>std::deque<BookPrice> &target\<close>: the side an entry is about, and its update.\<close>

definition target :: "Book \<Rightarrow> BookState \<Rightarrow> BookPrice list" where
  "target b bs = (if mDEntryType b = Bid then bid bs else ask bs)"

definition set_target :: "Book \<Rightarrow> BookPrice list \<Rightarrow> BookState \<Rightarrow> BookState" where
  "set_target b ps bs = (if mDEntryType b = Bid then bs\<lparr>bid := ps\<rparr> else bs\<lparr>ask := ps\<rparr>)"

definition Check_price_level :: "Book \<Rightarrow> BookState \<Rightarrow> MDUpdateAction \<Rightarrow> bool" where
  "Check_price_level b bs action =
     (let level_ok = (mDPriceLevel b \<noteq> 0 \<and> mDPriceLevel b \<le> marketDepth bs) in
      if action = New \<or> action = DeleteFrom then level_ok
      else if action = Change \<or> action = Delete then
        level_ok \<and> unat (mDPriceLevel b) \<le> length (target b bs)
      else True)"

definition New_price :: "Book \<Rightarrow> BookState \<Rightarrow> (BookState \<times> bool) res" where
  "New_price b bs =
     (let depth = unat (marketDepth bs); level = unat (mDPriceLevel b);
          ps = target b bs; current_size = length ps in
      if level = 0 then Inl Undefined_behaviour
      else
        let (ps', new_size) =
          (if level \<le> current_size + 1
           then (insert_at (level - 1) (book_price b) ps, current_size + 1)
           else (resize_to (level - 1) empty_price ps @ [book_price b], level));
            ps'' = (if new_size > depth then take depth ps' else ps')
        in Inr (set_target b ps'' bs, True))"

definition Change_price :: "Book \<Rightarrow> BookState \<Rightarrow> (BookState \<times> bool) res" where
  "Change_price b bs =
     (let level = unat (mDPriceLevel b); ps = target b bs in
      if level = 0 \<or> length ps < level then Inl Out_of_range
      else Inr (set_target b (ps[level - 1 := book_price b]) bs, True))"

definition Delete_price :: "Book \<Rightarrow> BookState \<Rightarrow> (BookState \<times> bool) res" where
  "Delete_price b bs =
     (let level = unat (mDPriceLevel b); ps = target b bs in
      if level = 0 \<or> length ps < level then Inl Undefined_behaviour
      else Inr (set_target b (erase_at (level - 1) ps) bs, True))"

definition Delete_all_price :: "Book \<Rightarrow> BookState \<Rightarrow> (BookState \<times> bool) res" where
  "Delete_all_price b bs = Inr (set_target b [] bs, True)"

definition Delete_top_price :: "Book \<Rightarrow> BookState \<Rightarrow> (BookState \<times> bool) res" where
  "Delete_top_price b bs =
     (let ps = target b bs
      in Inr (set_target b (drop (min (unat (mDPriceLevel b)) (length ps)) ps) bs, True))"

definition Update_price :: "Book \<Rightarrow> BookState \<Rightarrow> (BookState \<times> bool) res" where
  "Update_price b bs =
     (if type b = CHR ''W'' then
        if \<not> Check_price_level b bs New then Inr (bs, False) else New_price b bs
      else if type b = CHR ''X'' then
        if \<not> Check_price_level b bs (mDUpdateAction b) then Inr (bs, False)
        else case mDUpdateAction b of
            New \<Rightarrow> New_price b bs
          | Change \<Rightarrow> Change_price b bs
          | Delete \<Rightarrow> Delete_price b bs
          | DeleteThru \<Rightarrow> Delete_all_price b bs
          | DeleteFrom \<Rightarrow> Delete_top_price b bs
          | _ \<Rightarrow> Inr (bs, False)
      else Inr (bs, False))"

section \<open>The controller\<close>

definition BookState_create :: "u8 \<Rightarrow> u32 \<Rightarrow> string \<Rightarrow> u8 \<Rightarrow> BookState" where
  "BookState_create book_type security_id sname market_depth =
     \<lparr>bookType = book_type, bs_securityID = security_id, bs_symbol = sname,
      marketDepth = market_depth, bid = [], ask = []\<rparr>"

definition Shrink :: "BookState \<Rightarrow> u8 \<Rightarrow> BookState" where
  "Shrink bs new_depth =
     bs\<lparr>marketDepth := new_depth,
        bid := (if length (bid bs) > unat new_depth then take (unat new_depth) (bid bs) else bid bs),
        ask := (if length (ask bs) > unat new_depth then take (unat new_depth) (ask bs) else ask bs)\<rparr>"

definition Create_or_shrink :: "Instrument \<Rightarrow> book_states \<Rightarrow> book_states" where
  "Create_or_shrink ins st =
     (let depth = depthGBX ins; sid = i_securityID ins in
      if securityUpdateAction ins = CHR ''D'' then st(sid := None)
      else case st sid of
          None \<Rightarrow> st(sid \<mapsto> BookState_create 1 sid (symbol ins) depth)
        | Some bs \<Rightarrow> st(sid \<mapsto> Shrink (bs\<lparr>bs_symbol := symbol ins\<rparr>) depth))"

definition Reset_state :: "book_states \<Rightarrow> book_states" where
  "Reset_state st = (\<lambda>sid. map_option (\<lambda>bs. bs\<lparr>bid := [], ask := []\<rparr>) (st sid))"

definition Modify_state :: "Book \<Rightarrow> book_states \<Rightarrow> (book_states \<times> modify_result) res" where
  "Modify_state b st =
     (if mDEntryType b = BookReset then Inr (Reset_state st, All_reset)
      else case st (securityID b) of
          None \<Rightarrow> Inr (st, Nothing_changed)
        | Some bs \<Rightarrow>
            if mDEntryType b = Bid \<or> mDEntryType b = Offer then
              bind_res (Update_price b bs) (\<lambda>(bs', changed).
                Inr (st(securityID b \<mapsto> bs'),
                     State_changed (if changed then Some (securityID b) else None)))
            else if mDEntryType b = Trade then Inr (st, Trade_info b)
            else Inr (st, Nothing_changed))"

section \<open>Specification by levels\<close>

text \<open>
  The exchange's view of a side: a partial function from price levels, counted from 1, to prices.
  Each action has a meaning on it that does not mention lists or lengths.
\<close>

type_synonym level_map = "nat \<Rightarrow> BookPrice option"

definition levels :: "BookPrice list \<Rightarrow> level_map" where
  "levels ps = (\<lambda>i. if i = 0 then None else nth_opt ps (i - 1))"

definition spec_new :: "nat \<Rightarrow> nat \<Rightarrow> BookPrice \<Rightarrow> level_map \<Rightarrow> level_map" where
  "spec_new depth l p side = (\<lambda>i.
     if i = 0 \<or> depth < i then None
     else if i < l then (case side i of None \<Rightarrow> Some empty_price | Some q \<Rightarrow> Some q)
     else if i = l then Some p
     else side (i - 1))"

definition spec_action :: "nat \<Rightarrow> Book \<Rightarrow> level_map \<Rightarrow> level_map" where
  "spec_action depth b side =
     (let l = unat (mDPriceLevel b) in
      if type b = CHR ''W'' then spec_new depth l (book_price b) side
      else case mDUpdateAction b of
          New \<Rightarrow> spec_new depth l (book_price b) side
        | Change \<Rightarrow> side(l \<mapsto> book_price b)
        | Delete \<Rightarrow> (\<lambda>i. if i < l then side i else side (i + 1))
        | DeleteThru \<Rightarrow> (\<lambda>_. None)
        | DeleteFrom \<Rightarrow> (\<lambda>i. if i = 0 then None else side (i + l))
        | _ \<Rightarrow> side)"

text \<open>When an entry is applied at all: its level lies within the instrument's depth, and for a
  change or a delete the level is filled.\<close>

definition spec_applies :: "Book \<Rightarrow> BookState \<Rightarrow> bool" where
  "spec_applies b bs =
     (let l = unat (mDPriceLevel b);
          inside = (1 \<le> l \<and> l \<le> unat (marketDepth bs));
          filled = (levels (target b bs) l \<noteq> None)
      in if type b = CHR ''W'' then inside
         else type b = CHR ''X'' \<and>
           (case mDUpdateAction b of
               New \<Rightarrow> inside
             | Change \<Rightarrow> inside \<and> filled
             | Delete \<Rightarrow> inside \<and> filled
             | DeleteThru \<Rightarrow> True
             | DeleteFrom \<Rightarrow> inside
             | _ \<Rightarrow> False))"

definition depth_ok :: "BookState \<Rightarrow> bool" where
  "depth_ok bs \<longleftrightarrow> length (bid bs) \<le> unat (marketDepth bs) \<and>
     length (ask bs) \<le> unat (marketDepth bs)"

definition states_ok :: "book_states \<Rightarrow> bool" where
  "states_ok st \<longleftrightarrow> (\<forall>sid bs. st sid = Some bs \<longrightarrow> bs_securityID bs = sid \<and> depth_ok bs)"

section \<open>Facts about one side\<close>

named_theorems side_simps \<open>reading and writing the side an entry is about\<close>

lemma target_set_target [side_simps]: "target b (set_target b ps bs) = ps"
  by (simp add: target_def set_target_def)

lemma set_target_frame [side_simps]:
  "bs_securityID (set_target b ps bs) = bs_securityID bs"
  "marketDepth (set_target b ps bs) = marketDepth bs"
  "bs_symbol (set_target b ps bs) = bs_symbol bs"
  "bookType (set_target b ps bs) = bookType bs"
  "mDEntryType b = Bid \<Longrightarrow> ask (set_target b ps bs) = ask bs"
  "mDEntryType b \<noteq> Bid \<Longrightarrow> bid (set_target b ps bs) = bid bs"
  by (simp_all add: set_target_def)

lemma depth_ok_set_target [side_simps]:
  "depth_ok bs \<Longrightarrow> depth_ok (set_target b ps bs) \<longleftrightarrow> length ps \<le> unat (marketDepth bs)"
  by (auto simp: depth_ok_def set_target_def)

lemma target_length: "depth_ok bs \<Longrightarrow> length (target b bs) \<le> unat (marketDepth bs)"
  by (simp add: depth_ok_def target_def)

lemma levels_None_iff: "levels ps i = None \<longleftrightarrow> i = 0 \<or> length ps < i"
  by (auto simp: levels_def nth_opt_def)

lemma levels_beyond: "length ps < i \<Longrightarrow> levels ps i = None"
  by (simp add: levels_None_iff)

lemma levels_take: "levels (take n ps) = (\<lambda>i. if i \<le> n then levels ps i else None)"
  by (rule ext) (auto simp: levels_def nth_opt_take)

lemma levels_insert_at:
  "l \<le> length ps \<Longrightarrow> levels (insert_at l p ps) =
     (\<lambda>i. if i < Suc l then levels ps i else if i = Suc l then Some p else levels ps (i - 1))"
  by (rule ext) (auto simp: levels_def nth_opt_insert_at)

lemma levels_pad:
  "length ps \<le> l \<Longrightarrow> levels (resize_to l e ps @ [p]) =
     (\<lambda>i. if i = 0 then None else if i \<le> l then (case levels ps i of None \<Rightarrow> Some e | q \<Rightarrow> q)
          else if i = Suc l then Some p else None)"
  by (rule ext) (auto simp: levels_def nth_opt_def nth_append nth_resize_to)

lemma levels_update: "1 \<le> l \<Longrightarrow> l \<le> length ps \<Longrightarrow> levels (ps[l - 1 := p]) = (levels ps)(l \<mapsto> p)"
  by (rule ext) (auto simp: levels_def nth_opt_list_update)

lemma levels_erase_at:
  "l < length ps \<Longrightarrow>
     levels (erase_at l ps) = (\<lambda>i. if i < Suc l then levels ps i else levels ps (i + 1))"
  by (rule ext) (auto simp: levels_def nth_opt_erase_at)

lemma levels_drop: "levels (drop n ps) = (\<lambda>i. if i = 0 then None else levels ps (i + n))"
  by (rule ext) (auto simp: levels_def nth_opt_drop add.commute)

section \<open>The operations meet the specification\<close>

lemma word8_le_nat: "(w::u8) \<le> v \<longleftrightarrow> unat w \<le> unat v"
  by (rule word_le_nat_alt)

lemma unat_pos_iff: "(1::nat) \<le> unat (w::u8) \<longleftrightarrow> w \<noteq> 0"
  by (simp add: Suc_le_eq unat_gt_0)

lemma Check_New:
  "Check_price_level b bs New \<longleftrightarrow>
     1 \<le> unat (mDPriceLevel b) \<and> unat (mDPriceLevel b) \<le> unat (marketDepth bs)"
  using unat_pos_iff [of "mDPriceLevel b"] by (auto simp: Check_price_level_def word8_le_nat)

lemma New_price_levels:
  assumes "depth_ok bs" "Check_price_level b bs New"
  obtains ps where "New_price b bs = Inr (set_target b ps bs, True)"
    "length ps \<le> unat (marketDepth bs)"
    "levels ps = spec_new (unat (marketDepth bs)) (unat (mDPriceLevel b)) (book_price b)
       (levels (target b bs))"
proof -
  define l d ps0 p where "l = unat (mDPriceLevel b)" and "d = unat (marketDepth bs)"
    and "ps0 = target b bs" and "p = book_price b"
  have l: "1 \<le> l" "l \<le> d" using assms(2) by (simp_all add: Check_New l_def d_def)
  have len: "length ps0 \<le> d" using target_length [OF assms(1)] by (simp add: ps0_def d_def)
  define ps1 where "ps1 = (if l \<le> length ps0 + 1 then insert_at (l - 1) p ps0
    else resize_to (l - 1) empty_price ps0 @ [p])"
  have len1: "length ps1 = (if l \<le> length ps0 + 1 then length ps0 + 1 else l)"
    using l by (simp add: ps1_def)
  have take1: "(if length ps1 > d then take d ps1 else ps1) = take d ps1" by simp
  have "New_price b bs = Inr (set_target b (take d ps1) bs, True)"
    using l take1 len1 unfolding New_price_def Let_def l_def [symmetric] d_def [symmetric]
      ps0_def [symmetric] p_def [symmetric] ps1_def
    by (auto split: if_splits)
  moreover have "levels (take d ps1) = spec_new d l p (levels ps0)"
  proof (cases "l \<le> length ps0 + 1")
    case True
    then have "levels ps1 = (\<lambda>i. if i < l then levels ps0 i else if i = l then Some p
        else levels ps0 (i - 1))"
      using l by (simp add: ps1_def levels_insert_at fun_eq_iff)
    then show ?thesis using True l
      by (auto simp: levels_take spec_new_def fun_eq_iff levels_None_iff split: option.splits)
  next
    case False
    then have "levels ps1 = (\<lambda>i. if i = 0 then None else if i < l
        then (case levels ps0 i of None \<Rightarrow> Some empty_price | q \<Rightarrow> q)
        else if i = l then Some p else None)"
      using l by (auto simp: ps1_def levels_pad fun_eq_iff)
    then show ?thesis using False l
      by (auto simp: levels_take spec_new_def fun_eq_iff levels_beyond split: option.splits)
  qed
  ultimately show ?thesis using that by (simp add: l_def d_def ps0_def p_def)
qed

lemma Change_price_levels:
  assumes "depth_ok bs" "Check_price_level b bs Change"
  obtains ps where "Change_price b bs = Inr (set_target b ps bs, True)"
    "length ps \<le> unat (marketDepth bs)"
    "levels ps = (levels (target b bs))(unat (mDPriceLevel b) \<mapsto> book_price b)"
proof -
  have "1 \<le> unat (mDPriceLevel b)" "unat (mDPriceLevel b) \<le> length (target b bs)"
    using assms(2) unat_pos_iff [of "mDPriceLevel b"]
    by (simp_all add: Check_price_level_def split: if_splits)
  then show ?thesis
    using that [of "(target b bs)[unat (mDPriceLevel b) - 1 := book_price b]"]
      target_length [OF assms(1), of b] levels_update [of "unat (mDPriceLevel b)" "target b bs"]
    by (simp add: Change_price_def)
qed

lemma Delete_price_levels:
  assumes "depth_ok bs" "Check_price_level b bs Delete"
  obtains ps where "Delete_price b bs = Inr (set_target b ps bs, True)"
    "length ps \<le> unat (marketDepth bs)"
    "levels ps = (\<lambda>i. if i < unat (mDPriceLevel b) then levels (target b bs) i
       else levels (target b bs) (i + 1))"
proof -
  have "1 \<le> unat (mDPriceLevel b)" "unat (mDPriceLevel b) \<le> length (target b bs)"
    using assms(2) unat_pos_iff [of "mDPriceLevel b"]
    by (simp_all add: Check_price_level_def split: if_splits)
  then show ?thesis
    using that [of "erase_at (unat (mDPriceLevel b) - 1) (target b bs)"]
      target_length [OF assms(1), of b]
    by (simp add: Delete_price_def levels_erase_at)
qed

lemma Delete_top_price_levels:
  assumes "depth_ok bs"
  obtains ps where "Delete_top_price b bs = Inr (set_target b ps bs, True)"
    "length ps \<le> unat (marketDepth bs)"
    "levels ps = (\<lambda>i. if i = 0 then None else levels (target b bs) (i + unat (mDPriceLevel b)))"
proof -
  let ?ps = "target b bs" and ?l = "unat (mDPriceLevel b)"
  have "levels (drop (min ?l (length ?ps)) ?ps) =
      (\<lambda>i. if i = 0 then None else levels ?ps (i + ?l))"
    by (auto simp: levels_drop fun_eq_iff levels_None_iff min_def levels_beyond)
  then show ?thesis
    using that [of "drop (min ?l (length ?ps)) ?ps"] target_length [OF assms, of b]
    by (simp add: Delete_top_price_def Let_def)
qed

lemma Check_filled:
  assumes "action = Change \<or> action = Delete"
  shows "Check_price_level b bs action \<longleftrightarrow>
    1 \<le> unat (mDPriceLevel b) \<and> unat (mDPriceLevel b) \<le> unat (marketDepth bs) \<and>
    levels (target b bs) (unat (mDPriceLevel b)) \<noteq> None"
  using assms unat_pos_iff [of "mDPriceLevel b"]
  by (auto simp: Check_price_level_def word8_le_nat levels_None_iff simp del: not_None_eq)

lemma Check_DeleteFrom:
  "Check_price_level b bs DeleteFrom \<longleftrightarrow>
     1 \<le> unat (mDPriceLevel b) \<and> unat (mDPriceLevel b) \<le> unat (marketDepth bs)"
  using unat_pos_iff [of "mDPriceLevel b"] by (auto simp: Check_price_level_def word8_le_nat)

lemma Check_other:
  "action \<notin> {New, DeleteFrom, Change, Delete} \<Longrightarrow> Check_price_level b bs action"
  by (simp add: Check_price_level_def)

lemmas Check_simps = Check_New Check_DeleteFrom Check_filled

text \<open>One statement for all actions: the entry is applied exactly when the specification says so,
  and then the side it is about changes as specified and nothing else does.\<close>

definition meets_spec :: "Book \<Rightarrow> BookState \<Rightarrow> BookState \<Rightarrow> bool" where
  "meets_spec b bs bs' \<longleftrightarrow>
     (\<exists>ps. bs' = set_target b ps bs \<and> length ps \<le> unat (marketDepth bs) \<and>
        levels ps = spec_action (unat (marketDepth bs)) b (levels (target b bs)))"

lemma Update_price_applied:
  assumes "depth_ok bs" "spec_applies b bs"
  shows "\<exists>bs'. Update_price b bs = Inr (bs', True) \<and> meets_spec b bs bs'"
proof (cases "type b = CHR ''W''")
  case True
  then have "Check_price_level b bs New"
    using assms(2) by (simp add: spec_applies_def Let_def Check_New)
  then show ?thesis
    using assms(1) True
    by (elim New_price_levels) (auto simp: Update_price_def meets_spec_def spec_action_def)
next
  case W: False
  with assms(2) have X: "type b = CHR ''X''"
    by (auto simp: spec_applies_def Let_def split: if_splits)
  show ?thesis
  proof (cases "mDUpdateAction b")
    case New
    then have "Check_price_level b bs New"
      using assms(2) W by (simp add: spec_applies_def Let_def Check_simps)
    then show ?thesis using assms(1) W X New
      by (elim New_price_levels) (auto simp: Update_price_def meets_spec_def spec_action_def)
  next
    case Change
    then have "Check_price_level b bs Change"
      using assms(2) W by (simp add: spec_applies_def Let_def Check_simps)
    then show ?thesis using assms(1) W X Change
      by (elim Change_price_levels) (auto simp: Update_price_def meets_spec_def spec_action_def)
  next
    case Delete
    then have "Check_price_level b bs Delete"
      using assms(2) W by (simp add: spec_applies_def Let_def Check_simps)
    then show ?thesis using assms(1) W X Delete
      by (elim Delete_price_levels) (auto simp: Update_price_def meets_spec_def spec_action_def)
  next
    case DeleteFrom
    then have "Check_price_level b bs DeleteFrom"
      using assms(2) W by (simp add: spec_applies_def Let_def Check_simps)
    moreover obtain ps where "Delete_top_price b bs = Inr (set_target b ps bs, True)"
      "length ps \<le> unat (marketDepth bs)"
      "levels ps = (\<lambda>i. if i = 0 then None else levels (target b bs) (i + unat (mDPriceLevel b)))"
      by (rule Delete_top_price_levels [OF assms(1)])
    ultimately show ?thesis using W X DeleteFrom
      by (auto simp: Update_price_def meets_spec_def spec_action_def)
  next
    case DeleteThru
    then have "Update_price b bs = Inr (set_target b [] bs, True)"
      using W X by (simp add: Update_price_def Check_other Delete_all_price_def)
    moreover have "meets_spec b bs (set_target b [] bs)"
      unfolding meets_spec_def using W DeleteThru
      by (intro exI [of _ "[]"]) (simp add: spec_action_def levels_def fun_eq_iff)
    ultimately show ?thesis by blast
  qed (use assms(2) W in \<open>simp_all add: spec_applies_def\<close>)
qed

lemma Update_price_ignored:
  assumes "\<not> spec_applies b bs"
  shows "Update_price b bs = Inr (bs, False)"
  using assms
  by (cases "mDUpdateAction b")
    (auto simp: Update_price_def spec_applies_def Check_simps simp del: not_None_eq)

lemma Update_price_total:
  assumes "depth_ok bs"
  shows "\<exists>bs' c. Update_price b bs = Inr (bs', c) \<and> depth_ok bs' \<and>
    bs_securityID bs' = bs_securityID bs"
proof (cases "spec_applies b bs")
  case True
  then show ?thesis using Update_price_applied [OF assms] assms
    by (force simp: meets_spec_def side_simps)
next
  case False
  then show ?thesis using Update_price_ignored [OF False] assms by blast
qed

lemma Modify_state_total:
  assumes "states_ok st"
  shows "\<exists>st' r. Modify_state b st = Inr (st', r) \<and> states_ok st'"
proof (cases "mDEntryType b = BookReset")
  case True
  then show ?thesis using assms
    by (auto simp: Modify_state_def Reset_state_def states_ok_def depth_ok_def)
next
  case nreset: False
  show ?thesis
  proof (cases "st (securityID b)")
    case (Some bs)
    then obtain bs' c where "Update_price b bs = Inr (bs', c)" "depth_ok bs'"
      "bs_securityID bs' = bs_securityID bs"
      using assms Update_price_total by (metis states_ok_def)
    with Some nreset assms show ?thesis
      by (auto simp: Modify_state_def states_ok_def)
  qed (use nreset assms in \<open>simp add: Modify_state_def\<close>)
qed

lemma Create_or_shrink_ok: "states_ok st \<Longrightarrow> states_ok (Create_or_shrink ins st)"
  by (auto simp: Create_or_shrink_def states_ok_def depth_ok_def BookState_create_def Shrink_def
      Let_def split: option.splits)

lemma Reset_state_ok: "states_ok st \<Longrightarrow> states_ok (Reset_state st)"
  by (auto simp: Reset_state_def states_ok_def depth_ok_def)

lemma states_ok_empty: "states_ok Map.empty"
  by (simp add: states_ok_def)

section \<open>Sequences of operations\<close>

text \<open>The calls the rest of the program makes to the controller, in any order.\<close>

datatype book_op = Define_instrument Instrument | Apply_book Book | Reset_books

fun apply_book_op :: "book_op \<Rightarrow> book_states \<Rightarrow> book_states res" where
  "apply_book_op (Define_instrument ins) st = Inr (Create_or_shrink ins st)"
| "apply_book_op (Apply_book b) st = map_res fst (Modify_state b st)"
| "apply_book_op Reset_books st = Inr (Reset_state st)"

lemma apply_book_op_total:
  assumes "states_ok st"
  shows "\<exists>st'. apply_book_op op st = Inr st' \<and> states_ok st'"
proof (cases op)
  case (Apply_book b)
  then show ?thesis using Modify_state_total [OF assms, of b] by auto
qed (use assms in \<open>auto simp: Create_or_shrink_ok Reset_state_ok\<close>)

text \<open>
  Claim C21: whatever instrument definitions, book entries and resets the controller is given, in
  whatever order and with whatever levels, types and actions, no operation leaves a deque's bounds
  or throws, and afterwards every state is stored under its own security id with at most
  \<open>marketDepth\<close> prices on each side.
\<close>
theorem book_ops_never_fail:
  "\<exists>st. fold_res apply_book_op ops Map.empty = Inr st \<and> states_ok st"
  by (rule fold_res_total) (simp_all add: states_ok_empty apply_book_op_total)

text \<open>
  Claim C7: applying a bid or offer entry to an instrument that has a state implements the
  exchange's level operations: the entry is applied exactly when its level lies within the depth
  (and is filled, for a change or a delete), the side it names then holds, level by level, what
  the action prescribes (a new price shifts the worse ones down, drops what falls out of the depth
  and pads missing better levels with empty prices), an inapplicable entry changes nothing and
  reports no state, and the other side, the depth and every other instrument stay as they were.
\<close>
theorem modify_state_refines_levels:
  assumes "states_ok st" and "st (securityID b) = Some bs"
    and "mDEntryType b = Bid \<or> mDEntryType b = Offer"
  shows "\<exists>bs'. Modify_state b st =
      Inr (st(securityID b \<mapsto> bs'),
           State_changed (if spec_applies b bs then Some (securityID b) else None)) \<and>
    levels (target b bs') =
      (if spec_applies b bs
       then spec_action (unat (marketDepth bs)) b (levels (target b bs))
       else levels (target b bs)) \<and>
    (mDEntryType b = Bid \<longrightarrow> ask bs' = ask bs) \<and> (mDEntryType b = Offer \<longrightarrow> bid bs' = bid bs) \<and>
    marketDepth bs' = marketDepth bs \<and> bs_symbol bs' = bs_symbol bs"
proof -
  have "depth_ok bs" using assms(1,2) by (simp add: states_ok_def)
  moreover have "mDEntryType b \<noteq> BookReset" using assms(3) by auto
  ultimately show ?thesis
    using assms(2,3) Update_price_applied [of bs b] Update_price_ignored [of b bs]
    by (cases "spec_applies b bs") (auto simp: Modify_state_def meets_spec_def side_simps)
qed

text \<open>An instrument two levels deep whose bid side holds one price, and a new best bid for it.\<close>

definition example_state :: BookState where
  "example_state = (BookState_create 1 7 ''ESM6'' 2)\<lparr>bid := [\<lparr>bp_numberOfOrders = 3,
     bp_mDEntrySize = 20, bp_mDEntryPx = (1000, 0)\<rparr>]\<rparr>"

definition example_new_bid :: Book where
  "example_new_bid = Book_zero\<lparr>type := CHR ''X'', mDEntryType := Bid, mDPriceLevel := 1,
     securityID := 7, mDEntrySize := 5, mDEntryPx := (1001, 0), numberOfOrders := 1\<rparr>"

lemmas example_book_defs = example_state_def example_new_bid_def Book_zero_def BookState_create_def

theorem modify_state_refines_levels_witness:
  "\<exists>bs'. Modify_state example_new_bid [7 \<mapsto> example_state] =
      Inr ([7 \<mapsto> bs'], State_changed (Some 7)) \<and>
    levels (bid bs') 1 = Some (book_price example_new_bid) \<and>
    levels (bid bs') 2 = levels (bid example_state) 1"
proof -
  have ok: "states_ok [7 \<mapsto> example_state]"
    by (simp add: states_ok_def example_book_defs depth_ok_def)
  have st: "[7 \<mapsto> example_state] (securityID example_new_bid) = Some example_state"
    by (simp add: example_book_defs)
  have ty: "mDEntryType example_new_bid = Bid \<or> mDEntryType example_new_bid = Offer"
    by (simp add: example_book_defs)
  have ap: "spec_applies example_new_bid example_state"
    by (simp add: example_book_defs spec_applies_def)
  obtain bs' where
    bs': "Modify_state example_new_bid [7 \<mapsto> example_state] =
      Inr ([7 \<mapsto> example_state](securityID example_new_bid \<mapsto> bs'),
        State_changed (Some (securityID example_new_bid)))" and
    lv: "levels (target example_new_bid bs') = spec_action (unat (marketDepth example_state))
      example_new_bid (levels (target example_new_bid example_state))"
    using modify_state_refines_levels [OF ok st ty] unfolding if_P [OF ap] by blast
  have facts: "securityID example_new_bid = 7" "target example_new_bid = bid"
    "unat (marketDepth example_state) = 2" "spec_action 2 example_new_bid side =
      spec_new 2 1 (book_price example_new_bid) side" for side
    by (simp_all add: example_book_defs spec_action_def target_def fun_eq_iff)
  have "levels (bid bs') = spec_new 2 1 (book_price example_new_bid) (levels (bid example_state))"
    using lv by (simp only: facts)
  then have "levels (bid bs') 1 = Some (book_price example_new_bid)"
    "levels (bid bs') 2 = levels (bid example_state) 1"
    by (simp_all add: spec_new_def)
  with bs' show ?thesis unfolding facts by (intro exI [of _ bs']) simp
qed

text \<open>
  an instrument definition for a known instrument keeps exactly the prices of the levels
  that still lie within the new depth, on both sides, takes over the new symbol and depth, and
  leaves every other instrument alone; a definition for an unknown instrument starts an empty
  book; a deletion removes the state.
\<close>
theorem create_or_shrink_keeps_best_levels:
  "Create_or_shrink ins st sid =
     (if sid \<noteq> i_securityID ins then st sid
      else if securityUpdateAction ins = CHR ''D'' then None
      else case st sid of
          None \<Rightarrow> Some (BookState_create 1 sid (symbol ins) (depthGBX ins))
        | Some bs \<Rightarrow> Some (bs\<lparr>bs_symbol := symbol ins, marketDepth := depthGBX ins,
            bid := take (unat (depthGBX ins)) (bid bs),
            ask := take (unat (depthGBX ins)) (ask bs)\<rparr>))"
  by (simp add: Create_or_shrink_def Shrink_def Let_def split: option.split)

end
