(* ===== verification/Listener.thy ===== *)
theory Listener
  imports Doubles
begin

text \<open>
  The listener every market component sends to (core/market/marketlisteneri.h) and its
  implementation that publishes to the strategies (core/book/book_sender.cc).  A call of the
  listener is an event; the protobuf messages it carries (pb/dms/dms.proto) are records of the
  fields the program sets.  Serialising a protobuf message is the parameter \<open>serialize\<close>.
\<close>

record data_point =
  price :: double
  dp_size :: u64

record contract_definition =
  c_name :: string
  c_tick_size :: string
  c_tick_value :: string
  c_yesterday_close_price :: string
  c_upper_limit :: string
  c_lower_limit :: string

datatype market_event =
    OnContractDefinition contract_definition
  | OnL2 string "data_point list" "data_point list"
  | OnBBO string data_point data_point
  | OnBid string data_point
  | OnOffer string data_point
  | OnTrade string data_point
  | OnContractAuctioning string
  | OnContractNoTrading string
  | OnContractTrading string
  | OnOrginalMessage string
  | OnTurnover string u64 double

text \<open>What \<open>BookSender\<close> puts on its two ZeroMQ sockets for an event; changes of the trading status
  are only logged.\<close>

datatype sent = Book_socket string | Org_socket string

fun BookSender :: "(market_event \<Rightarrow> string) \<Rightarrow> market_event \<Rightarrow> sent list" where
  "BookSender serialize (OnContractDefinition c) =
     [Book_socket (CHR ''C'' # serialize (OnContractDefinition c))]"
| "BookSender serialize (OnBBO c bid ask) =
     [Book_socket (CHR ''B'' # serialize (OnBBO c bid ask))]"
| "BookSender serialize (OnBid c bid) = [Book_socket (CHR ''D'' # serialize (OnBid c bid))]"
| "BookSender serialize (OnOffer c ask) = [Book_socket (CHR ''O'' # serialize (OnOffer c ask))]"
| "BookSender serialize (OnL2 c bid ask) =
     [Book_socket (CHR ''L'' # serialize (OnL2 c bid ask))]"
| "BookSender serialize (OnTrade c t) = [Book_socket (CHR ''T'' # serialize (OnTrade c t))]"
| "BookSender serialize (OnContractAuctioning c) = []"
| "BookSender serialize (OnContractNoTrading c) = []"
| "BookSender serialize (OnContractTrading c) = []"
| "BookSender serialize (OnOrginalMessage m) = [Org_socket m]"
| "BookSender serialize (OnTurnover c v t) =
     [Book_socket (CHR ''U'' # serialize (OnTurnover c v t))]"

text \<open>What a strategy can see of an event, given a parser for each kind of message.\<close>

datatype event_kind = K_contract | K_bbo | K_bid | K_offer | K_l2 | K_trade | K_turnover

fun kind_of :: "market_event \<Rightarrow> event_kind option" where
  "kind_of (OnContractDefinition _) = Some K_contract"
| "kind_of (OnBBO _ _ _) = Some K_bbo"
| "kind_of (OnBid _ _) = Some K_bid"
| "kind_of (OnOffer _ _) = Some K_offer"
| "kind_of (OnL2 _ _ _) = Some K_l2"
| "kind_of (OnTrade _ _) = Some K_trade"
| "kind_of (OnTurnover _ _ _) = Some K_turnover"
| "kind_of _ = None"

definition kind_of_prefix :: "char \<Rightarrow> event_kind option" where
  "kind_of_prefix = map_of [(CHR ''C'', K_contract), (CHR ''B'', K_bbo), (CHR ''D'', K_bid),
     (CHR ''O'', K_offer), (CHR ''L'', K_l2), (CHR ''T'', K_trade), (CHR ''U'', K_turnover)]"

fun receive :: "(event_kind \<Rightarrow> string \<Rightarrow> market_event) \<Rightarrow> sent \<Rightarrow> market_event option" where
  "receive deserialize (Book_socket (c # m)) =
     map_option (\<lambda>k. deserialize k m) (kind_of_prefix c)"
| "receive deserialize _ = None"

text \<open>
  a strategy that knows how to parse each kind of protobuf message recovers from the
  prefixed byte strings exactly the market events that were sent, in order: the one-letter
  prefixes tell the kinds apart, and only status changes and original messages are missing.
\<close>
theorem book_sender_prefixes_decode:
  assumes "\<forall>e \<in> set evs. \<forall>k. kind_of e = Some k \<longrightarrow> deserialize k (serialize e) = e"
  shows "List.map_filter (receive deserialize) (concat (map (BookSender serialize) evs)) =
    filter (\<lambda>e. kind_of e \<noteq> None) evs"
  using assms
proof (induction evs)
  case (Cons e evs)
  then show ?case
    by (cases e) (simp_all add: kind_of_prefix_def List.map_filter_def)
qed (simp add: List.map_filter_def)

text \<open>A bid and a trade at price 0 for two contracts: the name is all there is to serialise.\<close>

definition example_point :: data_point where
  "example_point = \<lparr>price = 0, dp_size = 1\<rparr>"

definition example_serialize :: "market_event \<Rightarrow> string" where
  "example_serialize e = (case e of OnTrade c _ \<Rightarrow> c | OnBid c _ \<Rightarrow> c | _ \<Rightarrow> '''')"

definition example_deserialize :: "event_kind \<Rightarrow> string \<Rightarrow> market_event" where
  "example_deserialize k m =
     (if k = K_trade then OnTrade m example_point else OnBid m example_point)"

theorem book_sender_prefixes_decode_witness:
  "List.map_filter (receive example_deserialize) (concat (map (BookSender example_serialize)
      [OnBid ''A'' example_point, OnContractTrading ''A'', OnTrade ''B'' example_point])) =
    [OnBid ''A'' example_point, OnTrade ''B'' example_point]"
  using book_sender_prefixes_decode
    [of "[OnBid ''A'' example_point, OnContractTrading ''A'', OnTrade ''B'' example_point]"
      example_deserialize example_serialize]
  by (simp add: example_serialize_def example_deserialize_def)

end
