(* ===== verification/Managers.thy ===== *)
theory Managers
  imports Packets Parsers Book_State Listener
begin

text \<open>
  The managers around the order books: definitions (cme/market/definition_manager.cc), trading
  status (cme/market/status_manager.cc) and the merge of snapshots with increments
  (cme/market/recovery_manager.cc).

  A callback is a function on the caller's state.  The listener's calls are collected in the order
  they are made.  The \<open>unordered_map\<close> of instruments is a partial function; the iterator into the
  vector of recovery books is an index.
\<close>

section \<open>Definitions\<close>

type_synonym instruments = "u32 \<rightharpoonup> Instrument"

definition DefinitionManager_Send :: "Instrument \<Rightarrow> market_event" where
  "DefinitionManager_Send i = OnContractDefinition
     \<lparr>c_name = symbol i,
      c_tick_size = to_string_double (Get_price (minPriceIncrement i)),
      c_tick_value = '''', c_yesterday_close_price = '''',
      c_upper_limit = to_string_double (Get_price (i_highLimitPrice i)),
      c_lower_limit = to_string_double (Get_price (i_lowLimitPrice i))\<rparr>"

definition Get_symbol :: "u32 \<Rightarrow> instruments \<Rightarrow> string" where
  "Get_symbol security_id ins = (case ins security_id of None \<Rightarrow> '''' | Some i \<Rightarrow> symbol i)"

definition Update_definition ::
    "(Instrument \<Rightarrow> 's \<Rightarrow> 's) \<Rightarrow> Instrument \<Rightarrow> instruments \<times> 's \<times> market_event list
     \<Rightarrow> instruments \<times> 's \<times> market_event list" where
  "Update_definition callback i = (\<lambda>(ins, s, evs).
     if securityUpdateAction i = CHR ''D'' then (ins(i_securityID i := None), s, evs)
     else (ins(i_securityID i \<mapsto> i), callback i s, evs @ [DefinitionManager_Send i]))"

definition On_new_definition ::
    "(Instrument \<Rightarrow> 's \<Rightarrow> 's) \<Rightarrow> MdpMessage \<Rightarrow> instruments \<times> 's \<times> market_event list
     \<Rightarrow> instruments \<times> 's \<times> market_event list" where
  "On_new_definition callback msg = fold (Update_definition callback) (MessageParserD_Parse msg [])"

section \<open>Trading status\<close>

datatype trading_phase = Auctioning | Trading | NoTrading | Other_phase

fun Convert_status :: "SecurityTradingStatus \<Rightarrow> trading_phase" where
  "Convert_status PreOpen = Auctioning"
| "Convert_status ReadyToTrade = Trading"
| "Convert_status TradingHalt = NoTrading"
| "Convert_status NotAvailableForTrading = NoTrading"
| "Convert_status Close = NoTrading"
| "Convert_status _ = Other_phase"

definition StatusManager_Send :: "string \<Rightarrow> SecurityTradingStatus \<Rightarrow> market_event list" where
  "StatusManager_Send contract status =
     (case Convert_status status of
        Auctioning \<Rightarrow> [OnContractAuctioning contract]
      | Trading \<Rightarrow> [OnContractTrading contract]
      | NoTrading \<Rightarrow> [OnContractNoTrading contract]
      | Other_phase \<Rightarrow> [])"

definition securityIDNullValue :: u32 where
  "securityIDNullValue = 2147483647"

definition On_new_status :: "MdpMessage \<Rightarrow> instruments \<Rightarrow> market_event list res" where
  "On_new_status msg ins =
     bind_res (MessageParserF_Parse msg) (\<lambda>(sid, status).
       let contract =
         (if sid = securityIDNullValue then ''''
          else let n = Get_symbol sid ins in if n = '''' then to_string_word sid else n)
       in Inr (StatusManager_Send contract status))"

section \<open>Snapshots\<close>

record RecoveryManager =
  m_recovery_books :: "Book list"
  m_recovery_wait_merge :: nat

definition RecoveryManager_new :: RecoveryManager where
  "RecoveryManager_new = \<lparr>m_recovery_books = [], m_recovery_wait_merge = 0\<rparr>"

definition parse_recovery :: "MdpMessage \<Rightarrow> Book list \<Rightarrow> Book list res" where
  "parse_recovery msg recovery_books =
     map_res (\<lambda>books. recovery_books @ books) (MessageParserW_Parse msg [])"

definition note_change :: "modify_result \<Rightarrow> u32 list \<Rightarrow> u32 list" where
  "note_change r changed =
     (case r of State_changed (Some sid) \<Rightarrow> List.insert sid changed | _ \<Rightarrow> changed)"

definition apply_recovery_book ::
    "Book \<Rightarrow> book_states \<times> u32 list \<Rightarrow> (book_states \<times> u32 list) res" where
  "apply_recovery_book b = (\<lambda>(st, changed).
     map_res (\<lambda>(st', r). (st', note_change r changed)) (Modify_state b st))"

text \<open>\<open>state_will_sent\<close> is a set of pointers, iterated in the order of the addresses; \<open>by_address\<close>
  stands for that order, which the program does not determine.\<close>

definition On_new_recovery ::
    "(u32 list \<Rightarrow> u32 list) \<Rightarrow> MdpMessage list \<Rightarrow> RecoveryManager \<Rightarrow> book_states
     \<Rightarrow> (RecoveryManager \<times> book_states \<times> u32 list) res" where
  "On_new_recovery by_address datas rm st =
     bind_res (fold_res parse_recovery datas (m_recovery_books rm)) (\<lambda>books.
     bind_res (fold_res apply_recovery_book books (st, [])) (\<lambda>(st', changed).
       Inr (\<lparr>m_recovery_books = books, m_recovery_wait_merge = 0\<rparr>, st', by_address changed)))"

definition Remove_past_books ::
    "u32 \<Rightarrow> Book list \<Rightarrow> RecoveryManager \<Rightarrow> Book list \<times> RecoveryManager" where
  "Remove_past_books message_seq increment_books rm =
     (if m_recovery_wait_merge rm = length (m_recovery_books rm) \<or> increment_books = []
      then (increment_books, rm)
      else
        let rest = drop (m_recovery_wait_merge rm) (m_recovery_books rm);
            past = length (takeWhile (\<lambda>r. packet_seq_num r < message_seq) rest)
        in (fold (\<lambda>r. filter (\<lambda>ib. securityID ib \<noteq> securityID r)) (drop past rest) increment_books,
            rm\<lparr>m_recovery_wait_merge := m_recovery_wait_merge rm + past\<rparr>))"

section \<open>Merging snapshots with increments\<close>

text \<open>An entry of an increment is stale when some snapshot of its instrument already includes the
  increment's packet.\<close>

definition stale :: "Book list \<Rightarrow> u32 \<Rightarrow> Book \<Rightarrow> bool" where
  "stale recovery_books seq ib \<longleftrightarrow>
     (\<exists>r \<in> set recovery_books. seq \<le> packet_seq_num r \<and> securityID r = securityID ib)"

text \<open>The state of the merge: everything before the iterator is older than the next packet.\<close>

definition merge_ok :: "u32 \<Rightarrow> RecoveryManager \<Rightarrow> bool" where
  "merge_ok seq rm \<longleftrightarrow> m_recovery_wait_merge rm \<le> length (m_recovery_books rm) \<and>
     sorted (map packet_seq_num (m_recovery_books rm)) \<and>
     (\<forall>r \<in> set (take (m_recovery_wait_merge rm) (m_recovery_books rm)). packet_seq_num r < seq)"

lemma fold_filter: "fold (\<lambda>r. filter (P r)) rs xs = filter (\<lambda>x. \<forall>r \<in> set rs. P r x) xs"
  by (induction rs arbitrary: xs) (simp_all add: conj_commute)

lemma sorted_suffix:
  assumes "sorted (map f xs)" "x \<in> set (dropWhile (\<lambda>x. f x < k) xs)"
  shows "(k::'a::linorder) \<le> f x"
  using assms by (induction xs) (auto split: if_splits)

lemma merge_ok_mono: "merge_ok seq rm \<Longrightarrow> seq \<le> seq' \<Longrightarrow> merge_ok seq' rm"
  by (force simp: merge_ok_def)

lemma Remove_past_books_spec:
  assumes "merge_ok seq rm"
  shows "\<exists>rm'. Remove_past_books seq books rm =
      (filter (\<lambda>ib. \<not> stale (m_recovery_books rm) seq ib) books, rm') \<and>
    merge_ok seq rm' \<and> m_recovery_books rm' = m_recovery_books rm"
proof -
  let ?w = "m_recovery_wait_merge rm" and ?rs = "m_recovery_books rm"
  define rest where "rest = drop ?w ?rs"
  define past where "past = length (takeWhile (\<lambda>r. packet_seq_num r < seq) rest)"
  have ok: "?w \<le> length ?rs" "sorted (map packet_seq_num ?rs)"
    "\<forall>r \<in> set (take ?w ?rs). packet_seq_num r < seq"
    using assms by (auto simp: merge_ok_def)
  have sorted_rest: "sorted (map packet_seq_num rest)"
    using ok(2) by (simp add: rest_def sorted_wrt_drop flip: drop_map)
  have after: "drop past rest = dropWhile (\<lambda>r. packet_seq_num r < seq) rest"
    unfolding past_def by (rule dropWhile_eq_drop [symmetric])
  have before: "take past rest = takeWhile (\<lambda>r. packet_seq_num r < seq) rest"
    unfolding past_def by (rule takeWhile_eq_take [symmetric])
  have split: "?rs = take ?w ?rs @ take past rest @ drop past rest"
    unfolding rest_def by (simp only: append_take_drop_id)
  have old: "\<forall>r \<in> set (take ?w ?rs @ take past rest). packet_seq_num r < seq"
    using ok(3) by (auto simp: before dest: set_takeWhileD)
  have new: "\<forall>r \<in> set (drop past rest). seq \<le> packet_seq_num r"
    using sorted_suffix [OF sorted_rest] by (simp add: after)
  define A N where "A = set (take ?w ?rs @ take past rest)" and "N = set (drop past rest)"
  have sets: "set ?rs = A \<union> N"
    unfolding A_def N_def by (subst split) (simp only: set_append Un_assoc)
  have "\<forall>r \<in> A. \<not> seq \<le> packet_seq_num r" "\<forall>r \<in> N. seq \<le> packet_seq_num r"
    using old new by (simp_all add: A_def N_def not_le)
  then have stale_iff:
    "stale ?rs seq ib \<longleftrightarrow> (\<exists>r \<in> set (drop past rest). securityID ib = securityID r)" for ib
    unfolding stale_def sets N_def [symmetric] by (metis Un_iff)
  show ?thesis
  proof (cases "?w = length ?rs \<or> books = []")
    case True
    then have "\<forall>ib \<in> set books. \<not> stale ?rs seq ib" by (auto simp: stale_iff rest_def)
    then have "filter (\<lambda>ib. \<not> stale ?rs seq ib) books = books" by simp
    with True assms show ?thesis by (simp add: Remove_past_books_def)
  next
    case False
    have eq: "Remove_past_books seq books rm =
        (filter (\<lambda>ib. \<not> stale ?rs seq ib) books, rm\<lparr>m_recovery_wait_merge := ?w + past\<rparr>)"
      using False
      by (simp add: Remove_past_books_def fold_filter stale_iff flip: rest_def past_def)
    have "past \<le> length rest" by (simp add: past_def length_takeWhile_le)
    then have "?w + past \<le> length ?rs" using ok(1) by (simp add: rest_def)
    moreover have "take (?w + past) ?rs = take ?w ?rs @ take past rest"
      by (simp add: take_add rest_def)
    ultimately show ?thesis using eq ok(2) old by (simp add: merge_ok_def)
  qed
qed

text \<open>The calls of a run: packets in the order of their sequence numbers, each with its books.\<close>

fun merge_run :: "(u32 \<times> Book list) list \<Rightarrow> RecoveryManager \<Rightarrow> Book list list" where
  "merge_run [] rm = []"
| "merge_run ((seq, books) # calls) rm =
     (let (kept, rm') = Remove_past_books seq books rm in kept # merge_run calls rm')"

text \<open>
  Claim C10: when the recovery books are in the order of their last processed sequence numbers (the
  order the snapshot loop sends them in), and increments come in the order of their packets, then
  over the whole run each increment loses exactly the entries whose instrument has a snapshot that
  already includes that packet, although the code only ever looks from its moving position on.
\<close>
theorem merge_drops_exactly_stale_entries:
  assumes "sorted (map packet_seq_num rbooks)" and "sorted (map fst calls)"
  shows "merge_run calls \<lparr>m_recovery_books = rbooks, m_recovery_wait_merge = 0\<rparr> =
    map (\<lambda>(seq, books). filter (\<lambda>ib. \<not> stale rbooks seq ib) books) calls"
proof -
  have "merge_run calls rm = map (\<lambda>(seq, books). filter (\<lambda>ib. \<not> stale rbooks seq ib) books) calls"
    if "m_recovery_books rm = rbooks" "\<forall>(seq, books) \<in> set calls. merge_ok seq rm"
      "sorted (map fst calls)" for rm
    using that
  proof (induction calls arbitrary: rm)
    case (Cons c calls)
    obtain seq books where c: "c = (seq, books)" by (cases c)
    have "merge_ok seq rm" using Cons.prems(2) by (simp add: c)
    from Remove_past_books_spec [OF this, of books] obtain rm' where
      rm': "Remove_past_books seq books rm = (filter (\<lambda>ib. \<not> stale rbooks seq ib) books, rm')"
        "merge_ok seq rm'" "m_recovery_books rm' = rbooks"
      using Cons.prems(1) by auto
    have "\<forall>(seq, books) \<in> set calls. merge_ok seq rm'"
      using Cons.prems(3) rm'(2) merge_ok_mono by (fastforce simp: c)
    then have "merge_run calls rm' =
        map (\<lambda>(seq, books). filter (\<lambda>ib. \<not> stale rbooks seq ib) books) calls"
      using Cons.IH rm'(3) Cons.prems(3) by simp
    then show ?case by (simp add: c rm'(1))
  qed simp
  then show ?thesis using assms by (auto simp: merge_ok_def)
qed

definition example_book :: "u32 \<Rightarrow> u32 \<Rightarrow> Book" where
  "example_book seq sid = Book_zero\<lparr>packet_seq_num := seq, securityID := sid\<rparr>"

theorem merge_drops_exactly_stale_entries_witness:
  "merge_run [(5, [example_book 5 1, example_book 5 2]), (7, [example_book 7 1, example_book 7 2])]
     \<lparr>m_recovery_books = [example_book 4 1, example_book 6 2], m_recovery_wait_merge = 0\<rparr> =
   [[example_book 5 1], [example_book 7 1, example_book 7 2]]"
  using merge_drops_exactly_stale_entries [of "[example_book 4 1, example_book 6 2]"
      "[(5, [example_book 5 1, example_book 5 2]), (7, [example_book 7 1, example_book 7 2])]"]
  by (simp add: stale_def example_book_def)

end
