(* ===== verification/Book_Manager.thy ===== *)
theory Book_Manager
  imports Managers
begin

text \<open>
  \<open>BookManager\<close> (cme/market/book_manager.cc): from market-data messages to the listener's events,
  through the parsers, the merge with the snapshots and the order books.  Each operation takes the
  manager's state and returns it with the events it sends.  A pointer to a book state is the
  security id it is stored under, and following one that is gone is undefined behaviour.
\<close>

record BookManager =
  m_book_state_controller :: book_states
  m_definition_manager :: instruments
  m_recovery_manager :: RecoveryManager

definition BookManager_new :: BookManager where
  "BookManager_new = \<lparr>m_book_state_controller = Map.empty, m_definition_manager = Map.empty,
     m_recovery_manager = RecoveryManager_new\<rparr>"

section \<open>Events\<close>

definition data_point_of :: "BookPrice \<Rightarrow> data_point" where
  "data_point_of p = \<lparr>price = Get_price (bp_mDEntryPx p), dp_size = ucast (bp_mDEntrySize p)\<rparr>"

definition Send_l2 :: "BookState \<Rightarrow> market_event list" where
  "Send_l2 bs = [OnL2 (bs_symbol bs) (map data_point_of (bid bs)) (map data_point_of (ask bs))]"

definition Send_bbo :: "BookState \<Rightarrow> market_event list" where
  "Send_bbo bs =
     (let is_bid_empty = (bid bs = []); is_ask_empty = (ask bs = []) in
      if is_bid_empty \<and> is_ask_empty then []
      else if \<not> is_bid_empty \<and> \<not> is_ask_empty
      then [OnBBO (bs_symbol bs) (data_point_of (hd (bid bs))) (data_point_of (hd (ask bs)))]
      else if is_bid_empty then [OnOffer (bs_symbol bs) (data_point_of (hd (ask bs)))]
      else [OnBid (bs_symbol bs) (data_point_of (hd (bid bs)))])"

definition Send_trade :: "Book \<Rightarrow> string \<Rightarrow> market_event list" where
  "Send_trade b contract =
     (if mDUpdateAction b = Delete \<or> mDUpdateAction b = DeleteThru \<or> mDUpdateAction b = DeleteFrom
      then []
      else [OnTrade contract
              \<lparr>price = Get_price (mDEntryPx b), dp_size = ucast (mDEntrySize b)\<rparr>])"

definition Is_BBO_changed :: "Book \<Rightarrow> bool" where
  "Is_BBO_changed b =
     (if type b = CHR ''W'' then mDPriceLevel b = 1
      else if type b = CHR ''X'' then
        (case mDUpdateAction b of
           New \<Rightarrow> mDPriceLevel b = 1
         | Change \<Rightarrow> mDPriceLevel b = 1
         | Delete \<Rightarrow> mDPriceLevel b = 1
         | DeleteThru \<Rightarrow> True
         | DeleteFrom \<Rightarrow> True
         | _ \<Rightarrow> False)
      else False)"

definition BookManager_Send ::
    "book_states \<Rightarrow> Book \<Rightarrow> modify_result \<Rightarrow> string \<Rightarrow> market_event list res" where
  "BookManager_Send st org_book r contract =
     (case r of
        State_changed (Some sid) \<Rightarrow>
          (case st sid of
             None \<Rightarrow> Inl Undefined_behaviour
           | Some bs \<Rightarrow> Inr (Send_l2 bs @ (if Is_BBO_changed org_book then Send_bbo bs else [])))
      | Trade_info trade \<Rightarrow> Inr (Send_trade trade contract)
      | _ \<Rightarrow> Inr [])"

section \<open>Increments\<close>

definition On_definition_changed :: "Instrument \<Rightarrow> book_states \<Rightarrow> book_states" where
  "On_definition_changed = Create_or_shrink"

definition on_definition :: "MdpMessage \<Rightarrow> BookManager \<Rightarrow> BookManager \<times> market_event list" where
  "on_definition msg bm =
     (let (ins, st, evs) = On_new_definition On_definition_changed msg
            (m_definition_manager bm, m_book_state_controller bm, [])
      in (bm\<lparr>m_definition_manager := ins, m_book_state_controller := st\<rparr>, evs))"

definition Parse_increment ::
    "MdpMessage \<Rightarrow> BookManager \<Rightarrow> (Book list \<times> BookManager \<times> market_event list) res" where
  "Parse_increment msg bm =
     bind_res (message_type msg) (\<lambda>ty.
       if ty = CHR ''f'' then
         map_res (\<lambda>evs. ([], bm, evs)) (On_new_status msg (m_definition_manager bm))
       else if ty = CHR ''d'' then Inr ([], on_definition msg bm)
       else if ty = CHR ''R'' then Inr (MessageParserR_Parse msg [], bm, [])
       else if ty = CHR ''X'' then
         map_res (\<lambda>books. (books, bm, [])) (MessageParserX_Parse msg [])
       else Inr ([], bm, []))"

definition apply_increment_book ::
    "Book \<Rightarrow> BookManager \<times> market_event list \<Rightarrow> (BookManager \<times> market_event list) res" where
  "apply_increment_book b = (\<lambda>(bm, evs).
     bind_res (Modify_state b (m_book_state_controller bm)) (\<lambda>(st, r).
     bind_res (BookManager_Send st b r (Get_symbol (securityID b) (m_definition_manager bm)))
       (\<lambda>new. Inr (bm\<lparr>m_book_state_controller := st\<rparr>, evs @ new))))"

definition Parse_to_send :: "MdpMessage \<Rightarrow> BookManager \<Rightarrow> (BookManager \<times> market_event list) res" where
  "Parse_to_send msg bm =
     bind_res (Parse_increment msg bm) (\<lambda>(increment_books, bm', evs).
       if increment_books = [] then Inr (bm', evs)
       else
         let (kept, rm) = Remove_past_books (m_packet_seq_num msg) increment_books
                            (m_recovery_manager bm')
         in fold_res apply_increment_book kept (bm'\<lparr>m_recovery_manager := rm\<rparr>, evs))"

section \<open>Definition and snapshot data\<close>

definition Set_definition_data ::
    "MdpMessage list \<Rightarrow> BookManager \<Rightarrow> BookManager \<times> market_event list" where
  "Set_definition_data datas bm =
     fold (\<lambda>msg (bm, evs). let (bm', new) = on_definition msg bm in (bm', evs @ new))
       datas (bm, [])"

fun send_states :: "book_states \<Rightarrow> u32 list \<Rightarrow> market_event list res" where
  "send_states st [] = Inr []"
| "send_states st (sid # sids) =
     (case st sid of
        None \<Rightarrow> Inl Undefined_behaviour
      | Some bs \<Rightarrow> map_res (\<lambda>evs. Send_l2 bs @ Send_bbo bs @ evs) (send_states st sids))"

definition Set_recovery_data ::
    "(u32 list \<Rightarrow> u32 list) \<Rightarrow> MdpMessage list \<Rightarrow> BookManager \<Rightarrow> (BookManager \<times> market_event list) res" where
  "Set_recovery_data by_address datas bm =
     bind_res (On_new_recovery by_address datas (m_recovery_manager bm) (m_book_state_controller bm))
       (\<lambda>(rm, st, sids). map_res (\<lambda>evs. (bm\<lparr>m_recovery_manager := rm, m_book_state_controller := st\<rparr>, evs))
          (send_states st sids))"

section \<open>The order books behind the events\<close>

abbreviation bm_ok :: "BookManager \<Rightarrow> bool" where
  "bm_ok bm \<equiv> states_ok (m_book_state_controller bm)"

text \<open>What changes when an entry is applied: at most the state it names, and it is still there.\<close>

lemma Modify_state_cases:
  assumes "states_ok st"
  obtains (reset) "mDEntryType b = BookReset" "Modify_state b st = Inr (Reset_state st, All_reset)"
  | (changed) bs bs' where "st (securityID b) = Some bs"
      "Update_price b bs = Inr (bs', True)" "bs_symbol bs' = bs_symbol bs"
      "Modify_state b st = Inr (st(securityID b \<mapsto> bs'), State_changed (Some (securityID b)))"
      "mDEntryType b = Bid \<or> mDEntryType b = Offer" "spec_applies b bs"
  | (other) r where "Modify_state b st = Inr (st, r)" "r = Nothing_changed \<or> r = State_changed None \<or>
      r = Trade_info b"
proof (cases "mDEntryType b = BookReset")
  case True
  then show ?thesis using reset by (simp add: Modify_state_def)
next
  case nreset: False
  show ?thesis
  proof (cases "st (securityID b)")
    case None
    then show ?thesis using nreset other by (simp add: Modify_state_def)
  next
    case (Some bs)
    have ok: "depth_ok bs" using assms Some by (simp add: states_ok_def)
    show ?thesis
    proof (cases "mDEntryType b = Bid \<or> mDEntryType b = Offer")
      case side: True
      show ?thesis
      proof (cases "spec_applies b bs")
        case True
        then obtain bs' where "Update_price b bs = Inr (bs', True)" "meets_spec b bs bs'"
          using Update_price_applied [OF ok] by blast
        then show ?thesis using changed [OF Some] side nreset Some True
          by (auto simp: Modify_state_def meets_spec_def side_simps)
      next
        case False
        then have "Modify_state b st = Inr (st(securityID b \<mapsto> bs), State_changed None)"
          using Update_price_ignored [OF False] nreset side Some by (simp add: Modify_state_def)
        moreover have "st(securityID b \<mapsto> bs) = st" using Some by (rule map_upd_triv)
        ultimately show ?thesis using other by simp
      qed
    next
      case False
      then show ?thesis using nreset Some other
        by (cases "mDEntryType b = Trade") (simp_all add: Modify_state_def)
    qed
  qed
qed

lemma apply_increment_book_total:
  assumes "bm_ok bm"
  shows "\<exists>bm' evs'. apply_increment_book b (bm, evs) = Inr (bm', evs') \<and> bm_ok bm'"
proof -
  obtain st r where m: "Modify_state b (m_book_state_controller bm) = Inr (st, r)" "states_ok st"
    using Modify_state_total [OF assms] by blast
  from assms show ?thesis
    by (cases rule: Modify_state_cases [where b = b])
      (use m in \<open>auto simp: apply_increment_book_def BookManager_Send_def\<close>)
qed

lemma on_definition_ok: "bm_ok bm \<Longrightarrow> bm_ok (fst (on_definition msg bm))"
proof -
  have "states_ok (fst (snd (fold (Update_definition On_definition_changed) is (ins, st, evs))))"
    if "states_ok st" for "is" ins st evs
    using that
  proof (induction "is" arbitrary: ins st evs)
    case (Cons i "is")
    then show ?case
      by (cases "securityUpdateAction i = CHR ''D''")
        (simp_all add: Update_definition_def On_definition_changed_def Create_or_shrink_ok)
  qed simp
  then show "bm_ok bm \<Longrightarrow> bm_ok (fst (on_definition msg bm))"
    by (simp add: on_definition_def On_new_definition_def split_beta)
qed

lemma Parse_increment_ok:
  "bm_ok bm \<Longrightarrow> Parse_increment msg bm = Inr (books, bm', evs) \<Longrightarrow> bm_ok bm'"
  using on_definition_ok [of bm msg]
  by (auto simp: Parse_increment_def bind_res_Inr_iff map_res_Inr_iff split: if_splits)

section \<open>No failure after parsing\<close>

lemma Parse_to_send_total:
  assumes "bm_ok bm" and "Parse_increment msg bm = Inr parsed"
  shows "\<exists>bm' evs. Parse_to_send msg bm = Inr (bm', evs) \<and> bm_ok bm'"
proof -
  obtain books bm1 evs where parsed: "parsed = (books, bm1, evs)" by (cases parsed)
  have ok: "bm_ok bm1" using Parse_increment_ok assms by (simp add: parsed)
  obtain kept rm where rp: "Remove_past_books (m_packet_seq_num msg) books (m_recovery_manager bm1)
      = (kept, rm)" by fastforce
  have "\<exists>s. fold_res apply_increment_book kept (bm1\<lparr>m_recovery_manager := rm\<rparr>, evs) = Inr s \<and>
      bm_ok (fst s)"
    using ok apply_increment_book_total by (intro fold_res_total) fastforce+
  then show ?thesis
    using assms(2) ok rp by (auto simp: Parse_to_send_def parsed)
qed

text \<open>
  Once a market-data message is parsed, the book manager cannot fail on it, whatever the
  message holds: no deque is left, no pointer dangles and no exception is thrown; and the order
  books stay within their depths.
\<close>
theorem parse_to_send_never_fails:
  assumes "states_ok (m_book_state_controller bm)" and "Parse_increment msg bm = Inr parsed"
  shows "\<exists>bm' evs. Parse_to_send msg bm = Inr (bm', evs) \<and>
    states_ok (m_book_state_controller bm')"
  using assms by (rule Parse_to_send_total)

text \<open>The book of instrument 7 with one bid, and an increment with a new best bid for it.\<close>

definition example_bm :: BookManager where
  "example_bm = BookManager_new\<lparr>m_book_state_controller := [7 \<mapsto> example_state]\<rparr>"

lemma example_message_type: "message_type (example_increment es) = Inr (CHR ''X'')"
  by (simp add: message_type_def MdpMessage_template_id_def example_increment_def
      MDP_MESSAGE_TYPES_def Let_def)

lemma example_bm_ok: "bm_ok example_bm"
  by (simp add: example_bm_def states_ok_def example_book_defs depth_ok_def)

lemma example_parsed:
  "\<exists>b. MessageParserX_Parse (example_increment [example_entry]) [] = Inr [b] \<and> mDEntryType b = Bid"
  by (simp add: MessageParserX_Parse_def example_increment_def parse_entries_def Parse_32_def
      example_entry_def sbe_enum_defs Set_match_event_indicator_def set_indicator_def)

lemma example_increment_parsed:
  "\<exists>parsed. Parse_increment (example_increment [example_entry]) example_bm = Inr parsed"
  using example_parsed by (auto simp: Parse_increment_def example_message_type)

theorem parse_to_send_never_fails_witness:
  "\<exists>bm' evs. Parse_to_send (example_increment [example_entry]) example_bm = Inr (bm', evs) \<and>
    states_ok (m_book_state_controller bm')"
  using parse_to_send_never_fails [OF example_bm_ok] example_increment_parsed by blast

section \<open>What subscribers know\<close>

text \<open>A subscriber keeps the last second-level quote of each contract name.\<close>

type_synonym l2_view = "string \<rightharpoonup> data_point list \<times> data_point list"

fun see_l2 :: "market_event \<Rightarrow> l2_view \<Rightarrow> l2_view" where
  "see_l2 (OnL2 c bids asks) view = view(c \<mapsto> (bids, asks))"
| "see_l2 _ view = view"

definition view_current :: "l2_view \<Rightarrow> book_states \<Rightarrow> bool" where
  "view_current view st \<longleftrightarrow> (\<forall>sid bs. st sid = Some bs \<longrightarrow>
     view (bs_symbol bs) = Some (map data_point_of (bid bs), map data_point_of (ask bs)))"

definition symbols_distinct :: "book_states \<Rightarrow> bool" where
  "symbols_distinct st \<longleftrightarrow> (\<forall>sid bs sid' bs'. st sid = Some bs \<longrightarrow> st sid' = Some bs' \<longrightarrow>
     bs_symbol bs = bs_symbol bs' \<longrightarrow> sid = sid')"

lemma see_bbo [simp]: "fold see_l2 (Send_bbo bs) view = view"
  by (simp add: Send_bbo_def Let_def)

lemma see_trade [simp]: "fold see_l2 (Send_trade b c) view = view"
  by (simp add: Send_trade_def)

lemma see_changed:
  assumes "view_current view st" "symbols_distinct st" "st sid = Some bs"
    "bs_symbol bs' = bs_symbol bs"
  shows "view_current (fold see_l2 (Send_l2 bs') view) (st(sid \<mapsto> bs'))"
    and "symbols_distinct (st(sid \<mapsto> bs'))"
  using assms by (fastforce simp: view_current_def symbols_distinct_def Send_l2_def)+

definition synced :: "l2_view \<Rightarrow> BookManager \<times> market_event list \<Rightarrow> bool" where
  "synced view s \<longleftrightarrow> states_ok (m_book_state_controller (fst s)) \<and>
     symbols_distinct (m_book_state_controller (fst s)) \<and>
     view_current (fold see_l2 (snd s) view) (m_book_state_controller (fst s))"

lemma apply_increment_book_synced:
  assumes "synced view (bm, evs)" "mDEntryType b \<noteq> BookReset"
    "apply_increment_book b (bm, evs) = Inr s"
  shows "synced view s"
proof -
  let ?st = "m_book_state_controller bm"
  have pre: "states_ok ?st" "symbols_distinct ?st" "view_current (fold see_l2 evs view) ?st"
    using assms(1) by (simp_all add: synced_def)
  have ok: "bm_ok (fst s)"
    using apply_increment_book_total [OF pre(1), of b evs] assms(3) by auto
  from pre(1) show ?thesis
  proof (cases rule: Modify_state_cases [where b = b])
    case reset
    with assms(2) show ?thesis by simp
  next
    case (changed bs bs')
    then show ?thesis
      using assms(3) ok see_changed [OF pre(3,2) changed(1,3)]
      by (auto simp: synced_def apply_increment_book_def BookManager_Send_def)
  next
    case (other r)
    then show ?thesis
      using assms(3) ok pre
      by (auto simp: synced_def apply_increment_book_def BookManager_Send_def)
  qed
qed



section \<open>Best prices\<close>

text \<open>
  No change of a best price goes unreported: when an applied entry is not one the book
  manager takes for a change of the best bid or offer, then the first price of each side is what it
  was, except that an entry for a deeper level of an empty side pads the side with empty prices.
\<close>
theorem bbo_change_detected:
  assumes "states_ok st" and "st (securityID b) = Some bs"
    and "Modify_state b st = Inr (st', State_changed (Some (securityID b)))"
    and "\<not> Is_BBO_changed b"
  shows "\<exists>bs'. st' (securityID b) = Some bs' \<and>
    (levels (bid bs') 1 = levels (bid bs) 1 \<or> bid bs = [] \<and> levels (bid bs') 1 = Some empty_price) \<and>
    (levels (ask bs') 1 = levels (ask bs) 1 \<or> ask bs = [] \<and> levels (ask bs') 1 = Some empty_price)"
proof -
  have dok: "depth_ok bs" using assms(1,2) by (simp add: states_ok_def)
  from assms(1) obtain bs' where bs': "Update_price b bs = Inr (bs', True)"
    "st' = st(securityID b \<mapsto> bs')" "spec_applies b bs" "mDEntryType b = Bid \<or> mDEntryType b = Offer"
    by (cases rule: Modify_state_cases [where b = b]) (use assms in auto)
  then obtain ps where ps: "bs' = set_target b ps bs"
    "levels ps = spec_action (unat (marketDepth bs)) b (levels (target b bs))"
    using Update_price_applied [OF dok bs'(3)] by (auto simp: meets_spec_def)
  let ?l = "unat (mDPriceLevel b)"
  have one: "?l = 1 \<longleftrightarrow> mDPriceLevel b = 1"
    by (metis unat_1 word_unat_eq_iff)
  have new: "spec_new (unat (marketDepth bs)) ?l (book_price b) (levels qs) 1 = levels qs 1 \<or>
      qs = [] \<and> spec_new (unat (marketDepth bs)) ?l (book_price b) (levels qs) 1 = Some empty_price"
    if "1 < ?l" "?l \<le> unat (marketDepth bs)" for qs
    using that by (auto simp: spec_new_def levels_None_iff Suc_le_eq split: option.splits)
  have "levels ps 1 = levels (target b bs) 1 \<or>
      target b bs = [] \<and> levels ps 1 = Some empty_price"
  proof (cases "type b = CHR ''W''")
    case True
    then show ?thesis
      using ps(2) bs'(3) assms(4) one new [of "target b bs"]
      by (auto simp: spec_action_def spec_applies_def Is_BBO_changed_def Let_def)
  next
    case False
    then have X: "type b = CHR ''X''" using bs'(3) by (auto simp: spec_applies_def Let_def)
    show ?thesis
      using ps(2) bs'(3) assms(4) one new [of "target b bs"] False X
      by (cases "mDUpdateAction b")
        (auto simp: spec_action_def spec_applies_def Is_BBO_changed_def Let_def)
  qed
  then show ?thesis
    using bs' ps(1) by (auto simp: target_def set_target_def)
qed

text \<open>A second bid below the first one of the example's book.\<close>

theorem bbo_change_detected_witness:
  "\<exists>st' bs'. Modify_state (example_new_bid\<lparr>mDPriceLevel := 2\<rparr>) [7 \<mapsto> example_state] =
      Inr (st', State_changed (Some 7)) \<and> st' 7 = Some bs' \<and>
    levels (bid bs') 1 = levels (bid example_state) 1"
proof -
  let ?b = "example_new_bid\<lparr>mDPriceLevel := 2\<rparr>"
  have ok: "states_ok [7 \<mapsto> example_state]"
    by (simp add: states_ok_def example_book_defs depth_ok_def)
  have fields: "securityID ?b = 7" "mDEntryType ?b = Bid" "type ?b = CHR ''X''"
    "mDUpdateAction ?b = New" "mDPriceLevel ?b = 2"
    by (simp_all add: example_new_bid_def Book_zero_def)
  have st: "[7 \<mapsto> example_state] (securityID ?b) = Some example_state" by (simp add: fields)
  have nb: "\<not> Is_BBO_changed ?b" by (simp add: Is_BBO_changed_def fields)
  have "spec_applies ?b example_state"
    by (simp add: spec_applies_def fields example_state_def BookState_create_def)
  then obtain bs' where "Update_price ?b example_state = Inr (bs', True)"
    using Update_price_applied [of example_state ?b] ok by (auto simp: states_ok_def)
  then have m: "Modify_state ?b [7 \<mapsto> example_state] =
      Inr ([7 \<mapsto> example_state](7 \<mapsto> bs'), State_changed (Some (securityID ?b)))"
    by (simp add: Modify_state_def fields)
  have "bid example_state \<noteq> []" by (simp add: example_state_def)
  then show ?thesis using bbo_change_detected [OF ok st m nb] m by (auto simp: fields)
qed

section \<open>Loading a snapshot\<close>

definition is_bid :: "Book \<Rightarrow> bool" where
  "is_bid b \<longleftrightarrow> mDEntryType b = Bid"

text \<open>The entries of one snapshot: for one instrument, the bid entries and the offer entries each
  numbered from level 1 on, within the depth, the two sides interleaved in any way.\<close>

definition snapshot_of :: "u32 \<Rightarrow> nat \<Rightarrow> Book list \<Rightarrow> bool" where
  "snapshot_of sid depth books \<longleftrightarrow>
     (\<forall>b \<in> set books. type b = CHR ''W'' \<and> securityID b = sid \<and>
        (mDEntryType b = Bid \<or> mDEntryType b = Offer)) \<and>
     (let bids = filter is_bid books; asks = filter (\<lambda>b. \<not> is_bid b) books in
      map (unat \<circ> mDPriceLevel) bids = [1..<Suc (length bids)] \<and> length bids \<le> depth \<and>
      map (unat \<circ> mDPriceLevel) asks = [1..<Suc (length asks)] \<and> length asks \<le> depth)"

lemma New_price_append:
  assumes "unat (mDPriceLevel b) = Suc (length (target b bs))"
    and "Suc (length (target b bs)) \<le> unat (marketDepth bs)"
  shows "New_price b bs = Inr (set_target b (target b bs @ [book_price b]) bs, True)"
  using assms by (simp add: New_price_def Let_def insert_at_def)

lemma apply_snapshot_entry:
  assumes "st sid = Some bs" "type b = CHR ''W''" "securityID b = sid"
    "mDEntryType b = Bid \<or> mDEntryType b = Offer"
    "unat (mDPriceLevel b) = Suc (length (target b bs))"
    "Suc (length (target b bs)) \<le> unat (marketDepth bs)"
  shows "apply_recovery_book b (st, changed) =
    Inr (st(sid \<mapsto> set_target b (target b bs @ [book_price b]) bs), List.insert sid changed)"
proof -
  have "Check_price_level b bs New" using assms(5,6) by (simp add: Check_New)
  then have "Update_price b bs = Inr (set_target b (target b bs @ [book_price b]) bs, True)"
    using assms(2) New_price_append [OF assms(5,6)] by (simp add: Update_price_def)
  then show ?thesis using assms(1,3,4)
    by (auto simp: apply_recovery_book_def Modify_state_def note_change_def)
qed

lemma snapshot_of_snoc:
  assumes "snapshot_of sid depth (books @ [b])"
  shows "snapshot_of sid depth books"
    and "unat (mDPriceLevel b) = Suc (length (filter (\<lambda>x. is_bid x = is_bid b) books))"
    and "Suc (length (filter (\<lambda>x. is_bid x = is_bid b) books)) \<le> depth"
  using assms by (auto simp: snapshot_of_def Let_def split: if_splits)

text \<open>
  Claim C22: loading a snapshot into an empty book rebuilds the book: the sides are the snapshot's
  bid and offer prices in level order, whatever the interleaving of the two sides in the message;
  nothing else changes, and the instrument is reported exactly once.
\<close>
theorem snapshot_loads_book:
  assumes "st sid = Some bs" and "bid bs = []" and "ask bs = []"
    and "snapshot_of sid (unat (marketDepth bs)) books"
  shows "fold_res apply_recovery_book books (st, []) =
    Inr (st(sid \<mapsto> bs\<lparr>bid := map book_price (filter is_bid books),
                     ask := map book_price (filter (\<lambda>b. \<not> is_bid b) books)\<rparr>),
         if books = [] then [] else [sid])"
  using assms(4)
proof (induction books rule: rev_induct)
  case Nil
  have "bs\<lparr>bid := [], ask := []\<rparr> = bs" using assms(2,3) by simp
  then show ?case using assms(1) by (simp add: fun_upd_idem)
next
  case (snoc b books)
  define bs1 where "bs1 = bs\<lparr>bid := map book_price (filter is_bid books),
      ask := map book_price (filter (\<lambda>b. \<not> is_bid b) books)\<rparr>"
  define changed where "changed = (if books = [] then [] else [sid])"
  have b: "type b = CHR ''W''" "securityID b = sid" "mDEntryType b = Bid \<or> mDEntryType b = Offer"
    using snoc.prems by (auto simp: snapshot_of_def)
  have len: "length (target b bs1) = length (filter (\<lambda>x. is_bid x = is_bid b) books)"
    by (auto simp: target_def bs1_def is_bid_def intro!: arg_cong [where f = length] filter_cong)
  have e1: "apply_recovery_book b (st(sid \<mapsto> bs1), changed) =
      Inr ((st(sid \<mapsto> bs1))(sid \<mapsto> set_target b (target b bs1 @ [book_price b]) bs1),
        List.insert sid changed)"
    by (rule apply_snapshot_entry)
      (use b snapshot_of_snoc(2,3) [OF snoc.prems] len in \<open>simp_all add: bs1_def\<close>)
  have e2: "set_target b (target b bs1 @ [book_price b]) bs1 =
      bs\<lparr>bid := map book_price (filter is_bid (books @ [b])),
         ask := map book_price (filter (\<lambda>b. \<not> is_bid b) (books @ [b]))\<rparr>"
    by (simp add: set_target_def target_def bs1_def is_bid_def)
  have e3: "fold_res apply_recovery_book books (st, []) = Inr (st(sid \<mapsto> bs1), changed)"
    using snoc.IH [OF snapshot_of_snoc(1) [OF snoc.prems]] by (simp only: bs1_def changed_def)
  have e4: "List.insert sid changed = [sid]" by (simp add: changed_def)
  have "fold_res apply_recovery_book (books @ [b]) (st, []) = Inr (st(sid \<mapsto>
      bs\<lparr>bid := map book_price (filter is_bid (books @ [b])),
         ask := map book_price (filter (\<lambda>b. \<not> is_bid b) (books @ [b]))\<rparr>), [sid])"
    unfolding fold_res_append e3 bind_res_simps fold_res.simps e1 e2 e4 fun_upd_upd ..
  moreover have "books @ [b] \<noteq> []" by simp
  ultimately show ?case by (simp only: if_False)
qed

definition example_snapshot_book :: "MDEntryType \<Rightarrow> u8 \<Rightarrow> i64 \<Rightarrow> Book" where
  "example_snapshot_book side level px = Book_zero\<lparr>type := CHR ''W'', mDEntryType := side,
     mDPriceLevel := level, securityID := 7, mDEntrySize := 1, mDEntryPx := (px, 0)\<rparr>"

theorem snapshot_loads_book_witness:
  "\<exists>bs'. fold_res apply_recovery_book
      [example_snapshot_book Bid 1 10, example_snapshot_book Offer 1 12, example_snapshot_book Bid 2 9]
      ([7 \<mapsto> BookState_create 1 7 ''ESM6'' 2], []) = Inr ([7 \<mapsto> bs'], [7]) \<and>
    map bp_mDEntryPx (bid bs') = [(10, 0), (9, 0)] \<and> map bp_mDEntryPx (ask bs') = [(12, 0)]"
proof -
  define bs where "bs = BookState_create 1 7 ''ESM6'' 2"
  define books where "books = [example_snapshot_book Bid 1 10, example_snapshot_book Offer 1 12,
      example_snapshot_book Bid 2 9]"
  have sides: "filter is_bid books = [example_snapshot_book Bid 1 10, example_snapshot_book Bid 2 9]"
    "filter (\<lambda>b. \<not> is_bid b) books = [example_snapshot_book Offer 1 12]"
    by (simp_all add: books_def is_bid_def example_snapshot_book_def)
  have bs: "bid bs = []" "ask bs = []" "marketDepth bs = 2"
    by (simp_all add: bs_def BookState_create_def)
  have "snapshot_of 7 (unat (marketDepth bs)) books"
    unfolding snapshot_of_def sides Let_def bs(3)
    by (simp add: books_def example_snapshot_book_def)
  from snapshot_loads_book [of "[7 \<mapsto> bs]", OF _ bs(1,2) this]
  have "fold_res apply_recovery_book books ([7 \<mapsto> bs], []) = Inr ([7 \<mapsto> bs]
      (7 \<mapsto> bs\<lparr>bid := map book_price (filter is_bid books),
        ask := map book_price (filter (\<lambda>b. \<not> is_bid b) books)\<rparr>), [7])"
    by (simp add: books_def)
  then show ?thesis
    unfolding books_def [symmetric] bs_def [symmetric] sides
    by (auto simp: book_price_def example_snapshot_book_def simp del: fold_res.simps)
qed

section \<open>Deleted instruments\<close>

text \<open>
  An instrument deletion removes the definition but, because the definition manager
  returns before it calls back, leaves the instrument's order book in place and sends nothing,
  although the book controller would erase it.
\<close>
theorem deleted_instrument_keeps_book:
  assumes "securityUpdateAction i = CHR ''D''"
  shows "Update_definition On_definition_changed i (ins, st, evs) =
      (ins(i_securityID i := None), st, evs) \<and>
    On_definition_changed i st (i_securityID i) = None"
  using assms
  by (simp add: Update_definition_def On_definition_changed_def Create_or_shrink_def)

definition example_deletion :: Instrument where
  "example_deletion = \<lparr>i_packet_seq_num = 5, i_template_id = 27, appId = 1,
     securityUpdateAction = CHR ''D'', i_securityID = 7, symbol = ''ESM6'',
     minPriceIncrement = (25, 254), i_highLimitPrice = (0, 0), i_lowLimitPrice = (0, 0),
     depthGBX = 2, depthGBI = 0\<rparr>"

theorem deleted_instrument_keeps_book_witness:
  "fst (snd (Update_definition On_definition_changed example_deletion
      ([7 \<mapsto> example_deletion], [7 \<mapsto> example_state], []))) = [7 \<mapsto> example_state]"
proof -
  have "securityUpdateAction example_deletion = CHR ''D''" by (simp add: example_deletion_def)
  from deleted_instrument_keeps_book [OF this] show ?thesis by simp
qed

end
