(* ===== verification/Dat_Saver.thy ===== *)
theory Dat_Saver
  imports Arbitration Book_Manager
begin

text \<open>
  The saver thread (cme/market/dat_saver.cc): it waits for the first increment, loads definitions
  and snapshots if it did not start with packet 1, and then processes the stored messages one by
  one.  The JSON text of a message (cme/market/message/sbe_to_json.cc) is the parameter \<open>to_json\<close>;
  it is empty for the messages that are not saved.  Waiting is a pass that returns \<open>None\<close>.
\<close>

record DatSaver =
  m_book_manager :: BookManager
  m_recovery_first_seq :: u32
  ds_is_stopped :: bool

definition DatSaver_new :: DatSaver where
  "DatSaver_new = \<lparr>m_book_manager = BookManager_new, m_recovery_first_seq = 0,
     ds_is_stopped = False\<rparr>"

definition Send_message :: "(MdpMessage \<Rightarrow> string) \<Rightarrow> MdpMessage \<Rightarrow> market_event list" where
  "Send_message to_json msg =
     (if to_json msg = '''' then [] else [OnOrginalMessage (to_json msg)])"

definition Send_definition_messages ::
    "(MdpMessage \<Rightarrow> string) \<Rightarrow> CmeData \<Rightarrow> market_event list" where
  "Send_definition_messages to_json d =
     concat (map (Send_message to_json) (m_recovery_datas (m_definition_saver d)))"

definition Send_recovery_messages ::
    "(MdpMessage \<Rightarrow> string) \<Rightarrow> CmeData \<Rightarrow> market_event list" where
  "Send_recovery_messages to_json d =
     concat (map (Send_message to_json) (m_recovery_datas (m_recovery_saver d)))"

definition Process_recovery_data ::
    "(u32 list \<Rightarrow> u32 list) \<Rightarrow> (MdpMessage \<Rightarrow> string) \<Rightarrow> CmeData \<Rightarrow> DatSaver
     \<Rightarrow> (DatSaver \<times> market_event list) res option" where
  "Process_recovery_data by_address to_json d ds =
     (if ds_is_stopped ds then Some (Inr (ds, []))
      else case m_recovery_datas (m_recovery_saver d) of
          [] \<Rightarrow> None
        | first # _ \<Rightarrow>
            Some
             (let (bm, evs1) = Set_definition_data (m_recovery_datas (m_definition_saver d))
                                 (m_book_manager ds) in
              bind_res (Set_recovery_data by_address (m_recovery_datas (m_recovery_saver d)) bm)
                (\<lambda>(bm', evs2).
              bind_res (last_msg_seq_num_processed first) (\<lambda>seq.
                Inr (ds\<lparr>m_book_manager := bm', m_recovery_first_seq := seq\<rparr>,
                     evs1 @ evs2 @ Send_definition_messages to_json d @
                     Send_recovery_messages to_json d)))))"

definition Convert_message ::
    "MdpMessage \<Rightarrow> DatSaver \<Rightarrow> (DatSaver \<times> market_event list \<times> bool) res" where
  "Convert_message msg ds =
     (if m_packet_seq_num msg \<le> m_recovery_first_seq ds then Inr (ds, [], False)
      else map_res (\<lambda>(bm, evs). (ds\<lparr>m_book_manager := bm\<rparr>, evs, True))
             (Parse_to_send msg (m_book_manager ds)))"

text \<open>The body of the loop in \<open>Start_save\<close> for a picked message, without its removal.\<close>

definition process_message ::
    "(MdpMessage \<Rightarrow> string) \<Rightarrow> MdpMessage \<Rightarrow> DatSaver \<times> market_event list
     \<Rightarrow> (DatSaver \<times> market_event list) res" where
  "process_message to_json msg = (\<lambda>(ds, evs).
     map_res (\<lambda>(ds', new, should_send_now).
         (ds', evs @ new @ (if should_send_now then Send_message to_json msg else [])))
       (Convert_message msg ds))"

text \<open>The loop of \<open>Start_save\<close> until it has to wait or is stopped.\<close>

function save_loop ::
    "(MdpMessage \<Rightarrow> string) \<Rightarrow> CmeData \<Rightarrow> DatSaver \<times> market_event list
     \<Rightarrow> (CmeData \<times> DatSaver \<times> market_event list) res" where
  "save_loop to_json d s =
     (if ds_is_stopped (fst s) then Inr (d, s)
      else case Pick_next_message d of
          Picked msg \<Rightarrow>
            bind_res (process_message to_json msg s) (\<lambda>s'.
              save_loop to_json (Remove_increment_data msg d) s')
        | _ \<Rightarrow> Inr (d, s))"
  by pat_completeness auto
termination
proof (relation "measure (\<lambda>(to_json, d, s). length (m_increment_datas d))")
  fix to_json d s msg s'
  assume "Pick_next_message d = Picked msg"
  then obtain rest where "m_increment_datas d = msg # rest"
    by (cases "m_increment_datas d") (auto simp: Pick_next_message_def Let_def split: if_splits)
  then show "((to_json, Remove_increment_data msg d, s'), to_json, d, s)
      \<in> measure (\<lambda>(to_json, d, s). length (m_increment_datas d))"
    by (simp add: Remove_increment_data_def)
qed simp

declare save_loop.simps [simp del]

definition Start_save ::
    "(u32 list \<Rightarrow> u32 list) \<Rightarrow> (MdpMessage \<Rightarrow> string) \<Rightarrow> CmeData \<Rightarrow> DatSaver
     \<Rightarrow> (CmeData \<times> DatSaver \<times> market_event list) res option" where
  "Start_save by_address to_json d ds =
     (case Get_increment_first_data_seq d of
        None \<Rightarrow> None
      | Some first_seq \<Rightarrow>
          if first_seq = 1 then Some (save_loop to_json d (ds, []))
          else if first_seq = 0 then Some (Inr (d, ds, []))
          else map_option (\<lambda>r. bind_res r (save_loop to_json d))
                 (Process_recovery_data by_address to_json d ds))"

definition DatSaver_Stop :: "CmeData \<times> DatSaver \<Rightarrow> CmeData \<times> DatSaver" where
  "DatSaver_Stop = (\<lambda>(d, ds). (CmeData_Stop d, ds\<lparr>ds_is_stopped := True\<rparr>))"

section \<open>How far the saver gets\<close>

definition ready :: "CmeData \<Rightarrow> MdpMessage \<Rightarrow> bool" where
  "ready d msg \<longleftrightarrow> (\<forall>u \<in> m_unreceived_seqs d. m_packet_seq_num msg < u)"

lemma process_message_running:
  "process_message to_json msg s = Inr s' \<Longrightarrow> ds_is_stopped (fst s') = ds_is_stopped (fst s)"
  by (cases s) (auto simp: process_message_def Convert_message_def map_res_Inr_iff split: if_splits)

lemma Pick_ready:
  assumes "0 \<notin> m_unreceived_seqs d" "\<not> m_is_stopped d" "m_increment_datas d = msg # rest"
  shows "Pick_next_message d = (if ready d msg then Picked msg else Pick_wait)"
proof -
  have "Min (m_unreceived_seqs d) \<noteq> 0" if "m_unreceived_seqs d \<noteq> {}"
    using assms(1) Min_in [of "m_unreceived_seqs d"] that by (metis finite)
  moreover have "ready d msg \<longleftrightarrow> m_unreceived_seqs d = {} \<or>
      m_packet_seq_num msg < Min (m_unreceived_seqs d)"
    by (cases "m_unreceived_seqs d = {}") (simp_all add: ready_def Min_gr_iff [OF finite])
  ultimately show ?thesis
    using assms(2,3) by (auto simp: Pick_next_message_def Let_def not_less
        simp del: Min_gr_iff Min_less_iff Min_ge_iff Min_le_iff)
qed

lemma ready_remove [simp]: "ready (Remove_increment_data msg d) = ready d"
  by (simp add: ready_def Remove_increment_data_def fun_eq_iff)

text \<open>
  Claim C12: the saver's loop always ends, and it processes exactly the stored messages before the
  first sequence number that is still missing, in order, each once: its effect is the handling of
  those messages one after the other, and the rest stays in the store.
\<close>
theorem saver_stops_at_first_gap:
  assumes "0 \<notin> m_unreceived_seqs d" and "\<not> m_is_stopped d" and "\<not> ds_is_stopped ds"
  shows "save_loop to_json d (ds, evs) =
    map_res (\<lambda>s. (d\<lparr>m_increment_datas := dropWhile (ready d) (m_increment_datas d)\<rparr>, s))
      (fold_res (process_message to_json) (takeWhile (ready d) (m_increment_datas d)) (ds, evs))"
proof -
  have "save_loop to_json d s =
      map_res (\<lambda>s. (d\<lparr>m_increment_datas := dropWhile (ready d) ms\<rparr>, s))
        (fold_res (process_message to_json) (takeWhile (ready d) ms) s)"
    if "m_increment_datas d = ms" "\<not> ds_is_stopped (fst s)" "0 \<notin> m_unreceived_seqs d"
      "\<not> m_is_stopped d" for ms s
    using that
  proof (induction ms arbitrary: d s)
    case Nil
    then show ?case
      by (subst save_loop.simps) (simp add: Pick_next_message_def)
  next
    case (Cons msg ms)
    show ?case
    proof (cases "ready d msg")
      case False
      then show ?thesis using Cons.prems Pick_ready [OF Cons.prems(3,4,1)]
        by (subst save_loop.simps) simp
    next
      case True
      let ?d = "Remove_increment_data msg d"
      have d: "m_increment_datas ?d = ms" "0 \<notin> m_unreceived_seqs ?d" "\<not> m_is_stopped ?d"
        "?d\<lparr>m_increment_datas := xs\<rparr> = d\<lparr>m_increment_datas := xs\<rparr>" for xs
        using Cons.prems by (simp_all add: Remove_increment_data_def)
      show ?thesis
      proof (cases "process_message to_json msg s")
        case (Inl e)
        then show ?thesis using True Cons.prems Pick_ready [OF Cons.prems(3,4,1)]
          by (subst save_loop.simps) simp
      next
        case (Inr s')
        then have "\<not> ds_is_stopped (fst s')" using process_message_running Cons.prems(2) by metis
        from Cons.IH [OF d(1) this d(2,3)] show ?thesis
          using True Inr Cons.prems Pick_ready [OF Cons.prems(3,4,1)]
          by (subst save_loop.simps) (simp add: d(4))
      qed
    qed
  qed
  from this [OF refl] assms show ?thesis by simp
qed

definition heartbeat :: "u32 \<Rightarrow> MdpMessage" where
  "heartbeat seq = \<lparr>m_packet_length = 0, m_packet_seq_num = seq, m_packet_sending_time = 0,
     m_message_length = 0, m_buffer = [], m_sbe = AdminHeartbeat12\<rparr>"

definition gap_example :: CmeData where
  "gap_example = CmeData_new\<lparr>m_last_seq := 7, m_unreceived_seqs := {6},
     m_increment_datas := [heartbeat 5, heartbeat 7]\<rparr>"

theorem saver_stops_at_first_gap_witness:
  "map_res (\<lambda>(d, _). m_increment_datas d) (save_loop (\<lambda>_. '''') gap_example (DatSaver_new, [])) =
   map_res (\<lambda>_. [heartbeat 7])
     (fold_res (process_message (\<lambda>_. '''')) [heartbeat 5] (DatSaver_new, []))"
proof -
  have tw: "takeWhile (ready gap_example) (m_increment_datas gap_example) = [heartbeat 5]"
    "dropWhile (ready gap_example) (m_increment_datas gap_example) = [heartbeat 7]"
    by (simp_all add: gap_example_def ready_def heartbeat_def)
  have "save_loop (\<lambda>_. '''') gap_example (DatSaver_new, []) =
      map_res (\<lambda>s. (gap_example\<lparr>m_increment_datas := [heartbeat 7]\<rparr>, s))
        (fold_res (process_message (\<lambda>_. '''')) [heartbeat 5] (DatSaver_new, []))"
    unfolding tw [symmetric]
    by (rule saver_stops_at_first_gap) (simp_all add: gap_example_def CmeData_new_def DatSaver_new_def)
  then show ?thesis
    by (cases "fold_res (process_message (\<lambda>_. '''')) [heartbeat 5] (DatSaver_new, [])") simp_all
qed

text \<open>
  after starting in mid-week, a message whose packet the snapshots already include (its
  sequence number is at most the first snapshot's last processed one) changes nothing and is not
  saved; every later message is handed to the book manager and saved after it.
\<close>
theorem convert_drops_included_messages:
  "process_message to_json msg (ds, evs) =
     (if m_packet_seq_num msg \<le> m_recovery_first_seq ds then Inr (ds, evs)
      else map_res (\<lambda>(bm, new). (ds\<lparr>m_book_manager := bm\<rparr>, evs @ new @ Send_message to_json msg))
        (Parse_to_send msg (m_book_manager ds)))"
  by (cases "Parse_to_send msg (m_book_manager ds)")
    (auto simp: process_message_def Convert_message_def)

end
