(* ===== verification/Trade_Types.thy ===== *)
theory Trade_Types
  imports Listener Ordered_Map "HOL-Library.List_Lexorder" "HOL-Library.Char_ord"
begin

text \<open>
  The vocabulary of the trade simulator (tmalpha/trade): the protobuf orders and fills
  (pb/ems/ems.proto) with the fields the simulator reads or writes, prices in cents
  (trade_types.h) and their comparison (comparable_price.h).  Time stamps are left out: they are
  clock readings that are passed on.  An absent optional field is its default.
\<close>

datatype BuySell = BS_None | BS_Buy | BS_Sell
datatype OrderStatus = OS_None | OS_Cancelled | OS_Filled | OS_Rejected | OS_Working | OS_Pending
datatype TimeInForce = TIF_None | TIF_FAK | TIF_FOK | TIF_GFD | TIF_GTC
datatype OrderType = OT_None | OT_Limit | OT_Market

type_synonym OrderPrice = u32
type_synonym OrderSize = u64

record Order =
  client_order_id :: string
  account :: string
  contract :: string
  buy_sell :: BuySell
  o_price :: string
  quantity :: OrderSize
  tif :: TimeInForce
  order_type :: OrderType
  exchange_order_id :: string
  status :: OrderStatus
  working_price :: string
  working_quantity :: u64
  filled_quantity :: u64
  message :: string

record Fill =
  fill_id :: string
  fill_price :: string
  fill_quantity :: u64
  f_account :: string
  f_client_order_id :: string
  f_exchange_order_id :: string
  f_contract :: string
  f_buy_sell :: BuySell

text \<open>\<open>pb::ems::Order result;\<close>: every field has its default.\<close>

definition Order_default :: Order where
  "Order_default = \<lparr>client_order_id = '''', account = '''', contract = '''', buy_sell = BS_None,
     o_price = '''', quantity = 0, tif = TIF_None, order_type = OT_None, exchange_order_id = '''',
     status = OS_None, working_price = '''', working_quantity = 0, filled_quantity = 0,
     message = ''''\<rparr>"

definition TO_ORDER_PRICE :: "double \<Rightarrow> OrderPrice" where
  "TO_ORDER_PRICE p = double_to_u32 (double_mult p 100)"

definition TO_REAL_PRICE :: "OrderPrice \<Rightarrow> double" where
  "TO_REAL_PRICE p = double_div (double_of_int (uint p)) 100"

section \<open>Comparable prices\<close>

record ComparablePrice =
  Is_buy :: bool
  Price :: OrderPrice

definition Is_market :: "ComparablePrice \<Rightarrow> bool" where
  "Is_market p \<longleftrightarrow> Price p = 0"

definition ComparablePrice_of :: "Order \<Rightarrow> ComparablePrice res" where
  "ComparablePrice_of ord =
     map_res (\<lambda>p. \<lparr>Is_buy = (buy_sell ord = BS_Buy), Price = TO_ORDER_PRICE p\<rparr>) (stod (o_price ord))"

definition Is_match :: "ComparablePrice \<Rightarrow> ComparablePrice \<Rightarrow> bool res" where
  "Is_match p q =
     (if Is_buy p = Is_buy q then Inl (Invalid_argument ''cannot match same side'')
      else if Is_market p \<and> Is_market q then Inr False
      else if Is_market p \<or> Is_market q then Inr True
      else if Price p = Price q then Inr True
      else if Is_buy p then Inr (Price q < Price p)
      else Inr (Price p < Price q))"

definition price_less :: "ComparablePrice \<Rightarrow> ComparablePrice \<Rightarrow> bool res" where
  "price_less a p =
     (if Is_buy a \<noteq> Is_buy p then Inl (Invalid_argument ''cannot compare buy to sell'')
      else if Is_market a then Inr (\<not> Is_market p)
      else if Is_market p then Inr False
      else Inr (if Is_buy a then Price p < Price a else Price a < Price p))"

text \<open>The comparator as the maps use it.  A map holds the prices of one side, so that it does not
  throw there.\<close>

definition price_before :: "ComparablePrice \<Rightarrow> ComparablePrice \<Rightarrow> bool" where
  "price_before a b \<longleftrightarrow> price_less a b = Inr True"

lemma price_before_simps:
  "Is_buy a \<Longrightarrow> Is_buy b \<Longrightarrow> price_before a b \<longleftrightarrow>
     (if Is_market a then \<not> Is_market b else \<not> Is_market b \<and> Price b < Price a)"
  "\<not> Is_buy a \<Longrightarrow> \<not> Is_buy b \<Longrightarrow> price_before a b \<longleftrightarrow>
     (if Is_market a then \<not> Is_market b else \<not> Is_market b \<and> Price a < Price b)"
  by (auto simp: price_before_def price_less_def)

lemma price_eqI: "Is_buy a = Is_buy b \<Longrightarrow> Price a = Price b \<Longrightarrow> a = (b :: ComparablePrice)"
  by (cases a, cases b) simp

text \<open>The orders of the three containers: prices of a side, and strings.\<close>

interpretation bids: map_order price_before "\<lambda>p. Is_buy p"
proof
  fix a b c :: ComparablePrice
  show "\<not> price_before a a" if "Is_buy a" using that by (simp add: price_before_simps)
  show "price_before a c" if "Is_buy a" "Is_buy b" "Is_buy c" "price_before a b" "price_before b c"
    using that by (auto simp: price_before_simps split: if_splits)
  show "price_before a b \<or> a = b \<or> price_before b a" if "Is_buy a" "Is_buy b"
    using that price_eqI [of a b] by (auto simp: price_before_simps Is_market_def)
qed

interpretation asks: map_order price_before "\<lambda>p. \<not> Is_buy p"
proof
  fix a b c :: ComparablePrice
  show "\<not> price_before a a" if "\<not> Is_buy a" using that by (simp add: price_before_simps)
  show "price_before a c" if "\<not> Is_buy a" "\<not> Is_buy b" "\<not> Is_buy c" "price_before a b" "price_before b c"
    using that by (auto simp: price_before_simps split: if_splits)
  show "price_before a b \<or> a = b \<or> price_before b a" if "\<not> Is_buy a" "\<not> Is_buy b"
    using that price_eqI [of a b] by (auto simp: price_before_simps Is_market_def)
qed

interpretation ids: map_order "(<) :: string \<Rightarrow> string \<Rightarrow> bool" "\<lambda>_. True"
  by unfold_locales auto

end
