(* ===== verification/Trade_Order_Box.thy ===== *)
theory Trade_Order_Box
  imports Trade_Types
begin

text \<open>
  The orders of one contract (tmalpha/trade/trade_order_box.cc).  Orders live on a heap; the price
  levels, the map of working orders and the callers hold addresses.  Reading or freeing an address
  that is not allocated is undefined behaviour.  \<open>std::map\<close> is an ordered map, \<open>std::multimap\<close> a
  list in which equal keys stay in the order of insertion.
\<close>

section \<open>State\<close>

type_synonym addr = nat
type_synonym price_levels = "(ComparablePrice \<times> addr list) list"

record TradeOrderBox =
  m_contract_name :: string
  m_bid :: price_levels
  m_ask :: price_levels
  m_working_orders :: "(string \<times> addr) list"
  m_canceled_orders :: "(string \<times> addr) list"
  m_filled_orders :: "(string \<times> Fill) list"
  heap :: "addr \<rightharpoonup> Order"
  next_addr :: addr

definition TradeOrderBox_new :: "string \<Rightarrow> TradeOrderBox" where
  "TradeOrderBox_new name = \<lparr>m_contract_name = name, m_bid = [], m_ask = [], m_working_orders = [],
     m_canceled_orders = [], m_filled_orders = [], heap = Map.empty, next_addr = 0\<rparr>"

definition deref :: "addr \<Rightarrow> TradeOrderBox \<Rightarrow> Order res" where
  "deref a b = (case heap b a of None \<Rightarrow> Inl Undefined_behaviour | Some ord \<Rightarrow> Inr ord)"

definition new_order :: "Order \<Rightarrow> TradeOrderBox \<Rightarrow> addr \<times> TradeOrderBox" where
  "new_order ord b =
     (next_addr b, b\<lparr>heap := (heap b)(next_addr b \<mapsto> ord), next_addr := Suc (next_addr b)\<rparr>)"

definition set_order :: "addr \<Rightarrow> Order \<Rightarrow> TradeOrderBox \<Rightarrow> TradeOrderBox" where
  "set_order a ord b = b\<lparr>heap := (heap b)(a \<mapsto> ord)\<rparr>"

definition free_order :: "addr \<Rightarrow> TradeOrderBox \<Rightarrow> TradeOrderBox" where
  "free_order a b = b\<lparr>heap := (heap b)(a := None)\<rparr>"

section \<open>Operations\<close>

definition Opposite_working_orders :: "BuySell \<Rightarrow> TradeOrderBox \<Rightarrow> price_levels" where
  "Opposite_working_orders buy_or_sell b = (if buy_or_sell = BS_Buy then m_ask b else m_bid b)"

definition current :: "Order \<Rightarrow> TradeOrderBox \<Rightarrow> price_levels" where
  "current ord b = (if buy_sell ord = BS_Buy then m_bid b else m_ask b)"

definition set_current :: "Order \<Rightarrow> price_levels \<Rightarrow> TradeOrderBox \<Rightarrow> TradeOrderBox" where
  "set_current ord levels b =
     (if buy_sell ord = BS_Buy then b\<lparr>m_bid := levels\<rparr> else b\<lparr>m_ask := levels\<rparr>)"

text \<open>\<open>current[cp]\<close>, which creates an empty level if there is none.\<close>

definition level_at :: "ComparablePrice \<Rightarrow> price_levels \<Rightarrow> addr list" where
  "level_at cp levels = (case om_find price_before cp levels of None \<Rightarrow> [] | Some as \<Rightarrow> as)"

definition remove_from_level :: "ComparablePrice \<Rightarrow> addr \<Rightarrow> price_levels \<Rightarrow> price_levels" where
  "remove_from_level cp a levels =
     (let as = filter (\<lambda>x. x \<noteq> a) (level_at cp levels) in
      if as = [] then om_erase price_before cp levels else om_put price_before cp as levels)"

definition Remove_working_order :: "string \<Rightarrow> TradeOrderBox \<Rightarrow> (addr \<times> TradeOrderBox) res" where
  "Remove_working_order cid b =
     (case om_find (<) cid (m_working_orders b) of
        None \<Rightarrow> Inl Undefined_behaviour
      | Some a \<Rightarrow>
          bind_res (deref a b) (\<lambda>ord.
          bind_res (ComparablePrice_of ord) (\<lambda>cp.
            Inr (a, (set_current ord (remove_from_level cp a (current ord b)) b)
                      \<lparr>m_working_orders := om_erase (<) cid (m_working_orders b)\<rparr>))))"

definition Add_working_order :: "addr \<Rightarrow> TradeOrderBox \<Rightarrow> TradeOrderBox res" where
  "Add_working_order a b =
     bind_res (deref a b) (\<lambda>ord.
     bind_res (ComparablePrice_of ord) (\<lambda>cp.
       let b1 = set_order a (ord\<lparr>status := OS_Working\<rparr>) b;
           b2 = set_current ord
                  (om_put price_before cp (level_at cp (current ord b1) @ [a]) (current ord b1)) b1
       in Inr (b2\<lparr>m_working_orders := om_insert (<) (client_order_id ord) a (m_working_orders b2)\<rparr>)))"

definition Add_order :: "Order \<Rightarrow> TradeOrderBox \<Rightarrow> (addr \<times> TradeOrderBox) res" where
  "Add_order ord b =
     (let (a, b1) = new_order ord b in map_res (\<lambda>b2. (a, b2)) (Add_working_order a b1))"

definition Add_deleted_order :: "Order \<Rightarrow> TradeOrderBox \<Rightarrow> addr \<times> TradeOrderBox" where
  "Add_deleted_order ord b =
     (let (a, b1) = new_order (ord\<lparr>status := OS_Cancelled\<rparr>) b
      in (a, b1\<lparr>m_canceled_orders := om_insert (<) (client_order_id ord) a (m_canceled_orders b1)\<rparr>))"

definition Delete_order :: "Order \<Rightarrow> bool \<Rightarrow> TradeOrderBox \<Rightarrow> (Order \<times> TradeOrderBox) res" where
  "Delete_order ord is_add_to_cancelled b =
     bind_res (Remove_working_order (client_order_id ord) b) (\<lambda>(a, b1).
     bind_res (deref a b1) (\<lambda>target.
       let result = target\<lparr>status := OS_Cancelled\<rparr>; b2 = set_order a result b1 in
       Inr (result,
            if is_add_to_cancelled
            then b2\<lparr>m_canceled_orders := om_insert (<) (client_order_id ord) a (m_canceled_orders b2)\<rparr>
            else free_order a b2)))"

text \<open>\<open>multimap::insert\<close> goes after the equal keys; \<open>equal_range\<close> are the entries of a key.\<close>

fun multimap_insert :: "string \<Rightarrow> Fill \<Rightarrow> (string \<times> Fill) list \<Rightarrow> (string \<times> Fill) list" where
  "multimap_insert k v [] = [(k, v)]"
| "multimap_insert k v ((k', v') # m) =
     (if k < k' then (k, v) # (k', v') # m else (k', v') # multimap_insert k v m)"

definition equal_range :: "string \<Rightarrow> (string \<times> Fill) list \<Rightarrow> Fill list" where
  "equal_range k m = map snd (filter (\<lambda>p. fst p = k) m)"

definition Add_filled_order ::
    "Order \<Rightarrow> string \<Rightarrow> OrderSize \<Rightarrow> OrderPrice \<Rightarrow> TradeOrderBox \<Rightarrow> Fill \<times> TradeOrderBox" where
  "Add_filled_order org_order fid filled_qty px b =
     (let fill = \<lparr>fill_id = fid, fill_price = to_string_double (TO_REAL_PRICE px),
            fill_quantity = filled_qty, f_account = account org_order,
            f_client_order_id = client_order_id org_order,
            f_exchange_order_id = exchange_order_id org_order,
            f_contract = contract org_order, f_buy_sell = buy_sell org_order\<rparr>
      in (fill, b\<lparr>m_filled_orders :=
            multimap_insert (client_order_id org_order) fill (m_filled_orders b)\<rparr>))"

definition Working_order_filled :: "addr \<Rightarrow> OrderSize \<Rightarrow> TradeOrderBox \<Rightarrow> TradeOrderBox res" where
  "Working_order_filled a fill_qty b =
     bind_res (deref a b) (\<lambda>ord.
       if quantity ord = fill_qty then
         bind_res (Remove_working_order (client_order_id ord) b) (\<lambda>(target, b1).
           Inr (free_order target b1))
       else
         Inr (set_order a (ord\<lparr>quantity := quantity ord - fill_qty,
                filled_quantity := filled_quantity ord + fill_qty\<rparr>) b))"

definition Fill_order ::
    "Order \<Rightarrow> string \<Rightarrow> OrderSize \<Rightarrow> OrderPrice \<Rightarrow> TradeOrderBox \<Rightarrow> Fill \<times> TradeOrderBox" where
  "Fill_order = Add_filled_order"

definition Fill_working_order ::
    "addr \<Rightarrow> string \<Rightarrow> OrderSize \<Rightarrow> OrderPrice \<Rightarrow> TradeOrderBox \<Rightarrow> (Fill \<times> TradeOrderBox) res" where
  "Fill_working_order a fid filled_qty px b =
     bind_res (deref a b) (\<lambda>ord.
       let (fill, b1) = Add_filled_order ord fid filled_qty px b
       in map_res (\<lambda>b2. (fill, b2)) (Working_order_filled a filled_qty b1))"

definition Query_order :: "Order \<Rightarrow> TradeOrderBox \<Rightarrow> Order res" where
  "Query_order ord b =
     (let cid = client_order_id ord in
      case om_find (<) cid (m_canceled_orders b) of
        Some a \<Rightarrow> deref a b
      | None \<Rightarrow>
          (case om_find (<) cid (m_working_orders b) of
             Some a \<Rightarrow> map_res (\<lambda>w. w\<lparr>working_price := o_price w, working_quantity := quantity w\<rparr>)
                         (deref a b)
           | None \<Rightarrow>
               (let fills = equal_range cid (m_filled_orders b);
                    filled = foldl (\<lambda>n f. n + fill_quantity f) 0 fills in
                if filled \<noteq> 0 then
                  (case fills of
                     fill # _ \<Rightarrow> Inr (Order_default\<lparr>client_order_id := f_client_order_id fill,
                       account := f_account fill, contract := f_contract fill,
                       buy_sell := f_buy_sell fill, exchange_order_id := f_exchange_order_id fill,
                       filled_quantity := filled, status := OS_Filled\<rparr>)
                   | [] \<Rightarrow> Inl Undefined_behaviour)
                else Inr (ord\<lparr>status := OS_Rejected\<rparr>))))"

datatype order_state = Deleted | Working | All_filled | Not_found

definition Order_status :: "string \<Rightarrow> TradeOrderBox \<Rightarrow> order_state" where
  "Order_status cid b =
     (if om_find (<) cid (m_canceled_orders b) \<noteq> None then Deleted
      else if om_find (<) cid (m_working_orders b) \<noteq> None then Working
      else if equal_range cid (m_filled_orders b) \<noteq> [] then All_filled
      else Not_found)"

definition Working_order :: "string \<Rightarrow> TradeOrderBox \<Rightarrow> addr option" where
  "Working_order cid b = om_find (<) cid (m_working_orders b)"

text \<open>\<open>Is_expired\<close> calls \<open>gmtime\<close> on the address of a local \<open>time_t\<close> that was never set.\<close>

definition Is_expired :: "Order \<Rightarrow> bool res" where
  "Is_expired ord = (if tif ord \<noteq> TIF_GFD then Inr False else Inl Undefined_behaviour)"

fun expired_orders :: "(string \<times> addr) list \<Rightarrow> TradeOrderBox \<Rightarrow> addr list res" where
  "expired_orders [] b = Inr []"
| "expired_orders ((_, a) # ws) b =
     bind_res (deref a b) (\<lambda>ord.
     bind_res (Is_expired ord) (\<lambda>e.
       map_res (\<lambda>as. if e then a # as else as) (expired_orders ws b)))"

definition delete_expired :: "addr \<Rightarrow> addr list \<times> TradeOrderBox \<Rightarrow> (addr list \<times> TradeOrderBox) res" where
  "delete_expired e = (\<lambda>(deleted, b).
     bind_res (deref e b) (\<lambda>ord.
     bind_res (Remove_working_order (client_order_id ord) b) (\<lambda>(a, b1).
     bind_res (deref a b1) (\<lambda>target.
       let b2 = set_order a (target\<lparr>status := OS_Cancelled\<rparr>) b1
       in Inr (deleted @ [a], b2\<lparr>m_canceled_orders :=
            om_insert (<) (client_order_id ord) a (m_canceled_orders b2)\<rparr>)))))"

definition Delete_expired_order :: "TradeOrderBox \<Rightarrow> (addr list \<times> TradeOrderBox) res" where
  "Delete_expired_order b =
     bind_res (expired_orders (m_working_orders b) b) (\<lambda>expired.
       fold_res delete_expired expired ([], b))"

section \<open>The box as functions\<close>

text \<open>The orders waiting at a price, oldest first; the working order of a client order id; the
  deleted one.\<close>

definition side :: "TradeOrderBox \<Rightarrow> ComparablePrice \<Rightarrow> price_levels" where
  "side b cp = (if Is_buy cp then m_bid b else m_ask b)"

definition queue :: "TradeOrderBox \<Rightarrow> ComparablePrice \<Rightarrow> addr list" where
  "queue b cp = level_at cp (side b cp)"

definition working :: "TradeOrderBox \<Rightarrow> string \<Rightarrow> addr option" where
  "working b cid = om_find (<) cid (m_working_orders b)"

definition cancelled :: "TradeOrderBox \<Rightarrow> string \<Rightarrow> addr option" where
  "cancelled b cid = om_find (<) cid (m_canceled_orders b)"

text \<open>What an order must be to rest in the box.\<close>

definition order_ok :: "string \<Rightarrow> Order \<Rightarrow> ComparablePrice \<Rightarrow> bool" where
  "order_ok name ord cp \<longleftrightarrow> ComparablePrice_of ord = Inr cp \<and> contract ord = name \<and>
     quantity ord \<noteq> 0 \<and> buy_sell ord \<noteq> BS_None \<and>
     (if Is_market cp then order_type ord = OT_Market else order_type ord = OT_Limit)"

definition levels_ok :: "TradeOrderBox \<Rightarrow> bool" where
  "levels_ok b \<longleftrightarrow> bids.keys_ok (m_bid b) \<and> asks.keys_ok (m_ask b) \<and>
     ids.keys_ok (m_working_orders b) \<and> ids.keys_ok (m_canceled_orders b) \<and>
     (\<forall>(cp, as) \<in> set (m_bid b) \<union> set (m_ask b). as \<noteq> [])"

text \<open>Each working order is allocated, rests in exactly the queue of its price, and no queue holds
  anything else; deleted orders are allocated apart from them and never work again.\<close>

definition view_ok :: "string \<Rightarrow> (ComparablePrice \<Rightarrow> addr list) \<Rightarrow> (string \<rightharpoonup> addr) \<Rightarrow>
    (string \<rightharpoonup> addr) \<Rightarrow> (addr \<rightharpoonup> Order) \<Rightarrow> addr \<Rightarrow> bool" where
  "view_ok name q w c h n \<longleftrightarrow>
     (\<forall>cp. distinct (q cp)) \<and>
     (\<forall>cp a. a \<in> set (q cp) \<longleftrightarrow>
        (\<exists>ord. h a = Some ord \<and> w (client_order_id ord) = Some a \<and> ComparablePrice_of ord = Inr cp)) \<and>
     (\<forall>cid a. w cid = Some a \<longrightarrow>
        (\<exists>ord cp. h a = Some ord \<and> client_order_id ord = cid \<and> order_ok name ord cp)) \<and>
     (\<forall>a. h a \<noteq> None \<longrightarrow> a < n) \<and>
     (\<forall>cid a. c cid = Some a \<longrightarrow> w cid = None \<and>
        (\<exists>ord. h a = Some ord \<and> client_order_id ord = cid \<and> status ord = OS_Cancelled))"

definition fills_ok :: "(string \<times> Fill) list \<Rightarrow> bool" where
  "fills_ok m \<longleftrightarrow> sorted (map fst m) \<and> (\<forall>(k, f) \<in> set m. f_client_order_id f = k)"

definition box_inv :: "TradeOrderBox \<Rightarrow> bool" where
  "box_inv b \<longleftrightarrow> levels_ok b \<and> fills_ok (m_filled_orders b) \<and>
     view_ok (m_contract_name b) (queue b) (working b) (cancelled b) (heap b) (next_addr b)"

lemma ComparablePrice_side: "ComparablePrice_of ord = Inr cp \<Longrightarrow> Is_buy cp \<longleftrightarrow> buy_sell ord = BS_Buy"
  by (auto simp: ComparablePrice_of_def map_res_Inr_iff)

lemma current_side: "ComparablePrice_of ord = Inr cp \<Longrightarrow> current ord b = side b cp"
  using ComparablePrice_side [of ord cp] by (simp add: current_def side_def)

lemma ComparablePrice_frame [simp]:
  "ComparablePrice_of (ord\<lparr>status := s\<rparr>) = ComparablePrice_of ord"
  "ComparablePrice_of (ord\<lparr>quantity := q, filled_quantity := f\<rparr>) = ComparablePrice_of ord"
  "ComparablePrice_of (ord\<lparr>quantity := q\<rparr>) = ComparablePrice_of ord"
  "ComparablePrice_of (ord\<lparr>exchange_order_id := x\<rparr>) = ComparablePrice_of ord"
  by (simp_all add: ComparablePrice_of_def)

lemma find_side:
  assumes "bids.keys_ok (m_bid b)" "asks.keys_ok (m_ask b)" "Is_buy cp = Is_buy cq"
  shows "om_find price_before cq (om_put price_before cp as (side b cp)) =
      (if cq = cp then Some as else om_find price_before cq (side b cp))"
    and "om_find price_before cq (om_erase price_before cp (side b cp)) =
      (if cq = cp then None else om_find price_before cq (side b cp))"
proof -
  have b: "Is_buy cq" if "Is_buy cp" using that assms(3) by simp
  have a: "\<not> Is_buy cq" if "\<not> Is_buy cp" using that assms(3) by simp
  show "om_find price_before cq (om_put price_before cp as (side b cp)) =
      (if cq = cp then Some as else om_find price_before cq (side b cp))"
    using bids.find_put [OF assms(1) _ b] asks.find_put [OF assms(2) _ a] unfolding side_def
    by (cases "Is_buy cp") (simp_all only: if_True if_False simp_thms)
  show "om_find price_before cq (om_erase price_before cp (side b cp)) =
      (if cq = cp then None else om_find price_before cq (side b cp))"
    using bids.find_erase [OF assms(1) _ b] asks.find_erase [OF assms(2) _ a] unfolding side_def
    by (cases "Is_buy cp") (simp_all only: if_True if_False simp_thms)
qed

lemma level_at_put:
  assumes "bids.keys_ok (m_bid b)" "asks.keys_ok (m_ask b)" "Is_buy cp = Is_buy cq"
  shows "level_at cq (om_put price_before cp as (side b cp)) =
    (if cq = cp then as else level_at cq (side b cp))"
  unfolding level_at_def find_side(1) [OF assms] by simp

lemma level_at_erase:
  assumes "bids.keys_ok (m_bid b)" "asks.keys_ok (m_ask b)" "Is_buy cp = Is_buy cq"
  shows "level_at cq (om_erase price_before cp (side b cp)) =
    (if cq = cp then [] else level_at cq (side b cp))"
  unfolding level_at_def find_side(2) [OF assms] by simp

lemma level_at_remove:
  assumes "bids.keys_ok (m_bid b)" "asks.keys_ok (m_ask b)" "Is_buy cp = Is_buy cq"
  shows "level_at cq (remove_from_level cp a (side b cp)) =
    (if cq = cp then filter (\<lambda>x. x \<noteq> a) (queue b cp) else level_at cq (side b cp))"
  using level_at_put [OF assms] level_at_erase [OF assms]
  by (auto simp: remove_from_level_def Let_def queue_def)

lemma queue_set_current:
  assumes "ComparablePrice_of ord = Inr cp"
  shows "queue (set_current ord levels b) cq =
    (if Is_buy cq = Is_buy cp then level_at cq levels else queue b cq)"
  using ComparablePrice_side [OF assms] by (auto simp: queue_def side_def set_current_def)

lemma set_current_simps [simp]:
  "heap (set_current ord levels b) = heap b"
  "m_working_orders (set_current ord levels b) = m_working_orders b"
  "m_canceled_orders (set_current ord levels b) = m_canceled_orders b"
  "m_filled_orders (set_current ord levels b) = m_filled_orders b"
  "m_contract_name (set_current ord levels b) = m_contract_name b"
  "next_addr (set_current ord levels b) = next_addr b"
  by (simp_all add: set_current_def)

lemma box_field_simps [simp]:
  "queue (b\<lparr>m_working_orders := w\<rparr>) = queue b" "queue (b\<lparr>m_canceled_orders := c\<rparr>) = queue b"
  "queue (b\<lparr>m_filled_orders := f\<rparr>) = queue b" "queue (b\<lparr>heap := h\<rparr>) = queue b"
  "queue (b\<lparr>heap := h, next_addr := n\<rparr>) = queue b"
  "working (b\<lparr>m_canceled_orders := c\<rparr>) = working b" "working (b\<lparr>m_filled_orders := f\<rparr>) = working b"
  "working (b\<lparr>heap := h\<rparr>) = working b" "working (b\<lparr>heap := h, next_addr := n\<rparr>) = working b"
  "cancelled (b\<lparr>m_working_orders := w\<rparr>) = cancelled b"
  "cancelled (b\<lparr>m_filled_orders := f\<rparr>) = cancelled b"
  "cancelled (b\<lparr>heap := h\<rparr>) = cancelled b" "cancelled (b\<lparr>heap := h, next_addr := n\<rparr>) = cancelled b"
  "working (set_current ord levels b) = working b"
  "cancelled (set_current ord levels b) = cancelled b"
  by (simp_all add: queue_def side_def working_def cancelled_def fun_eq_iff)

lemma levels_ok_fields [simp]:
  "levels_ok (b\<lparr>m_filled_orders := f\<rparr>) = levels_ok b" "levels_ok (b\<lparr>heap := h\<rparr>) = levels_ok b"
  "levels_ok (b\<lparr>heap := h, next_addr := n\<rparr>) = levels_ok b"
  by (simp_all add: levels_ok_def)

lemma levels_ok_put:
  assumes "levels_ok b" "ComparablePrice_of ord = Inr cp" "as \<noteq> []"
  shows "levels_ok (set_current ord (om_put price_before cp as (side b cp)) b)"
proof -
  have keep: "\<forall>x \<in> set (om_put price_before cp as ls). snd x \<noteq> []"
    if "\<forall>x \<in> set ls. snd x \<noteq> []" for ls :: price_levels
    using that assms(3) by (induction ls) (fastforce split: if_splits)+
  note side = ComparablePrice_side [OF assms(2)]
  note ok = assms(1) [unfolded levels_ok_def ball_Un split_def]
  show ?thesis
  proof (cases "Is_buy cp")
    case True
    then show ?thesis
      using side ok keep [of "m_bid b"] bids.keys_ok_put [of "m_bid b" cp as]
      by (simp add: levels_ok_def set_current_def side_def ball_Un split_def)
  next
    case False
    then show ?thesis
      using side ok keep [of "m_ask b"] asks.keys_ok_put [of "m_ask b" cp as]
      by (simp add: levels_ok_def set_current_def side_def ball_Un split_def)
  qed
qed

lemma levels_ok_erase:
  assumes "levels_ok b" "ComparablePrice_of ord = Inr cp"
  shows "levels_ok (set_current ord (om_erase price_before cp (side b cp)) b)"
  using assms ComparablePrice_side [OF assms(2)] bids.keys_ok_erase [of "m_bid b" cp]
    asks.keys_ok_erase [of "m_ask b" cp] bids.set_erase [of cp "m_bid b"] asks.set_erase [of cp "m_ask b"]
  by (auto simp: levels_ok_def set_current_def side_def)

lemma levels_ok_remove:
  assumes "levels_ok b" "ComparablePrice_of ord = Inr cp"
  shows "levels_ok (set_current ord (remove_from_level cp a (side b cp)) b)"
  using levels_ok_put [OF assms] levels_ok_erase [OF assms]
  by (simp add: remove_from_level_def Let_def)

lemma working_update:
  assumes "ids.keys_ok (m_working_orders b)"
  shows "working (b\<lparr>m_working_orders := om_erase (<) cid (m_working_orders b)\<rparr>) = (working b)(cid := None)"
    and "working b cid = None \<Longrightarrow>
      working (b\<lparr>m_working_orders := om_insert (<) cid a (m_working_orders b)\<rparr>) = (working b)(cid \<mapsto> a)"
  using ids.find_erase [OF assms] ids.find_insert [OF assms]
  by (auto simp: working_def fun_eq_iff)

lemma cancelled_insert:
  assumes "ids.keys_ok (m_canceled_orders b)"
  shows "cancelled (b\<lparr>m_canceled_orders := om_insert (<) cid a (m_canceled_orders b)\<rparr>) =
    (if cancelled b cid = None then (cancelled b)(cid \<mapsto> a) else cancelled b)"
  using ids.find_insert [OF assms] by (auto simp: cancelled_def fun_eq_iff)

subsection \<open>The view under the effects of the operations\<close>

lemma view_okD:
  assumes "view_ok name q w c h n"
  shows view_distinct: "distinct (q cp)"
    and view_queue: "a \<in> set (q cp) \<longleftrightarrow>
      (\<exists>ord. h a = Some ord \<and> w (client_order_id ord) = Some a \<and> ComparablePrice_of ord = Inr cp)"
    and view_working: "w cid = Some a \<Longrightarrow>
      \<exists>ord cp. h a = Some ord \<and> client_order_id ord = cid \<and> order_ok name ord cp"
    and view_fresh: "h n = None"
    and view_below: "h a = Some x \<Longrightarrow> a < n"
    and view_cancelled: "c cid = Some a \<Longrightarrow> w cid = None \<and>
      (\<exists>ord. h a = Some ord \<and> client_order_id ord = cid \<and> status ord = OS_Cancelled)"
  using assms by (auto simp: view_ok_def)

lemma order_okD: "order_ok name ord cp \<Longrightarrow> ComparablePrice_of ord = Inr cp"
  by (simp add: order_ok_def)

lemma view_add:
  assumes "view_ok name q w c h n" "order_ok name ord cp" "w (client_order_id ord) = None"
    "c (client_order_id ord) = None"
  shows "view_ok name (q(cp := q cp @ [n])) (w(client_order_id ord \<mapsto> n)) c (h(n \<mapsto> ord)) (Suc n)"
proof -
  note V = view_okD [OF assms(1)]
  have n: "n \<notin> set (q cq)" for cq using V(2) [of n cq] V(4) by auto
  show ?thesis
    unfolding view_ok_def
  proof (intro conjI allI impI)
    fix cq
    show "distinct ((q(cp := q cp @ [n])) cq)" using V(1) [of cq] V(1) [of cp] n [of cp] by simp
  next
    fix cq a
    have "client_order_id x \<noteq> client_order_id ord" if "w (client_order_id x) = Some a" for x
      using that assms(3) by auto
    then show "a \<in> set ((q(cp := q cp @ [n])) cq) \<longleftrightarrow>
      (\<exists>x. (h(n \<mapsto> ord)) a = Some x \<and> (w(client_order_id ord \<mapsto> n)) (client_order_id x) = Some a \<and>
         ComparablePrice_of x = Inr cq)"
      using V(2) [of a cq] n [of cq] order_okD [OF assms(2)] by (cases "a = n") auto
  next
    fix cid a assume "(w(client_order_id ord \<mapsto> n)) cid = Some a"
    then show "\<exists>x cq. (h(n \<mapsto> ord)) a = Some x \<and> client_order_id x = cid \<and> order_ok name x cq"
      using V(3) [of cid a] V(4) assms(2) by (auto split: if_splits)
  next
    fix a assume "(h(n \<mapsto> ord)) a \<noteq> None"
    then show "a < Suc n" using V(5) [of a] by (auto split: if_splits)
  next
    fix cid a assume c: "c cid = Some a"
    then show "(w(client_order_id ord \<mapsto> n)) cid = None" using V(6) assms(4) by auto
    show "\<exists>x. (h(n \<mapsto> ord)) a = Some x \<and> client_order_id x = cid \<and> status x = OS_Cancelled"
      using V(6) [OF c] V(4) by auto
  qed
qed

lemma view_inj:
  assumes "view_ok name q w c h n" "w cid = Some a" "w cid' = Some a" shows "cid' = cid"
  using view_working [OF assms(1,2)] view_working [OF assms(1,3)] by auto

lemma view_remove:
  assumes "view_ok name q w c h n" "w cid = Some a" "h a = Some ord" "ComparablePrice_of ord = Inr cp"
  shows "view_ok name (q(cp := filter (\<lambda>x. x \<noteq> a) (q cp))) (w(cid := None)) c (h(a := None)) n"
proof -
  note V = view_okD [OF assms(1)]
  have cid: "client_order_id ord = cid" using V(3) [OF assms(2)] assms(3) by auto
  show ?thesis
    unfolding view_ok_def
  proof (intro conjI allI impI)
    fix cq
    show "distinct ((q(cp := filter (\<lambda>x. x \<noteq> a) (q cp))) cq)" using V(1) [of cq] V(1) [of cp] by simp
  next
    fix cq a'
    have "a' \<noteq> a" if "a' \<in> set (q cq)" "cq \<noteq> cp" using that V(2) [of a' cq] assms(3,4) by auto
    moreover have "client_order_id x \<noteq> cid"
      if "a' \<noteq> a" "w (client_order_id x) = Some a'" for x using that assms(2) by auto
    ultimately show "a' \<in> set ((q(cp := filter (\<lambda>x. x \<noteq> a) (q cp))) cq) \<longleftrightarrow>
      (\<exists>x. (h(a := None)) a' = Some x \<and> (w(cid := None)) (client_order_id x) = Some a' \<and>
         ComparablePrice_of x = Inr cq)"
      using V(2) [of a' cq] by auto
  next
    fix cid' a' assume "(w(cid := None)) cid' = Some a'"
    then show "\<exists>x cq. (h(a := None)) a' = Some x \<and> client_order_id x = cid' \<and> order_ok name x cq"
      using V(3) [of cid' a'] view_inj [OF assms(1,2)] by (auto split: if_splits)
  next
    fix a' assume "(h(a := None)) a' \<noteq> None"
    then show "a' < n" using V(5) [of a'] by (auto split: if_splits)
  next
    fix cid' a' assume c: "c cid' = Some a'"
    show "(w(cid := None)) cid' = None" using V(6) [OF c] by auto
    show "\<exists>x. (h(a := None)) a' = Some x \<and> client_order_id x = cid' \<and> status x = OS_Cancelled"
      using V(6) [OF c] assms(2,3) cid by auto
  qed
qed

lemma view_add_deleted:
  assumes "view_ok name q w c h n" "w (client_order_id ord) = None" "status ord = OS_Cancelled"
    "h a = None" "a < m" "n \<le> m"
  shows "view_ok name q w (c(client_order_id ord \<mapsto> a)) (h(a \<mapsto> ord)) m"
proof -
  note V = view_okD [OF assms(1)]
  show ?thesis
    unfolding view_ok_def
  proof (intro conjI allI impI)
    fix cq show "distinct (q cq)" by (rule V(1))
  next
    fix cq a'
    show "a' \<in> set (q cq) \<longleftrightarrow> (\<exists>x. (h(a \<mapsto> ord)) a' = Some x \<and> w (client_order_id x) = Some a' \<and>
        ComparablePrice_of x = Inr cq)"
      using V(2) [of a' cq] assms(2,4) by auto
  next
    fix cid a' assume "w cid = Some a'"
    then show "\<exists>x cq. (h(a \<mapsto> ord)) a' = Some x \<and> client_order_id x = cid \<and> order_ok name x cq"
      using V(3) [of cid a'] assms(4) by auto
  next
    fix a' assume "(h(a \<mapsto> ord)) a' \<noteq> None"
    then show "a' < m" using V(5) [of a'] assms(5,6) by (auto split: if_splits intro: less_le_trans)
  next
    fix cid a' assume c: "(c(client_order_id ord \<mapsto> a)) cid = Some a'"
    then show "w cid = None" using V(6) [of cid a'] assms(2) by (auto split: if_splits)
    show "\<exists>x. (h(a \<mapsto> ord)) a' = Some x \<and> client_order_id x = cid \<and> status x = OS_Cancelled"
      using c V(6) [of cid a'] assms(3,4) by (auto split: if_splits)
  qed
qed

lemma view_update:
  assumes "view_ok name q w c h n" "w cid = Some a" "client_order_id ord = cid" "order_ok name ord cp"
    "h a = Some old" "ComparablePrice_of old = Inr cp"
  shows "view_ok name q w c (h(a \<mapsto> ord)) n"
proof -
  note V = view_okD [OF assms(1)]
  have cid: "client_order_id old = cid" using V(3) [OF assms(2)] assms(5) by auto
  show ?thesis
    unfolding view_ok_def
  proof (intro conjI allI impI)
    fix cq show "distinct (q cq)" by (rule V(1))
  next
    fix cq a'
    show "a' \<in> set (q cq) \<longleftrightarrow> (\<exists>x. (h(a \<mapsto> ord)) a' = Some x \<and> w (client_order_id x) = Some a' \<and>
        ComparablePrice_of x = Inr cq)"
      using V(2) [of a' cq] assms(3,5,6) cid order_okD [OF assms(4)] by auto
  next
    fix cid' a' assume "w cid' = Some a'"
    then show "\<exists>x cq. (h(a \<mapsto> ord)) a' = Some x \<and> client_order_id x = cid' \<and> order_ok name x cq"
      using V(3) [of cid' a'] assms(3,4) view_inj [OF assms(1,2)] by auto
  next
    fix a' assume "(h(a \<mapsto> ord)) a' \<noteq> None"
    then show "a' < n" using V(5) [of a'] V(5) [OF assms(5)] by (auto split: if_splits)
  next
    fix cid' a' assume c: "c cid' = Some a'"
    then show "w cid' = None" using V(6) by auto
    show "\<exists>x. (h(a \<mapsto> ord)) a' = Some x \<and> client_order_id x = cid' \<and> status x = OS_Cancelled"
      using V(6) [OF c] assms(2,5) cid by auto
  qed
qed

subsection \<open>The effects of the operations\<close>

lemma order_ok_frame [simp]:
  "order_ok name (ord\<lparr>status := s\<rparr>) cp = order_ok name ord cp"
  by (simp add: order_ok_def)

lemma box_invD:
  assumes "box_inv b"
  shows box_levels: "levels_ok b"
    and box_fills: "fills_ok (m_filled_orders b)"
    and box_view: "view_ok (m_contract_name b) (queue b) (working b) (cancelled b) (heap b) (next_addr b)"
  using assms by (auto simp: box_inv_def)

lemma levels_keys:
  "levels_ok b \<Longrightarrow> bids.keys_ok (m_bid b)" "levels_ok b \<Longrightarrow> asks.keys_ok (m_ask b)"
  "levels_ok b \<Longrightarrow> ids.keys_ok (m_working_orders b)"
  "levels_ok b \<Longrightarrow> ids.keys_ok (m_canceled_orders b)"
  by (simp_all add: levels_ok_def)

lemma queue_update:
  assumes "levels_ok b" "ComparablePrice_of ord = Inr cp"
  shows "queue (set_current ord (om_put price_before cp as (side b cp)) b) = (queue b)(cp := as)"
    and "queue (set_current ord (remove_from_level cp a (side b cp)) b) =
      (queue b)(cp := filter (\<lambda>x. x \<noteq> a) (queue b cp))"
proof -
  note k = levels_keys(1,2) [OF assms(1)]
  have same: "queue b cq = level_at cq (side b cp)" if "Is_buy cq = Is_buy cp" for cq
    using that by (simp add: queue_def side_def)
  show "queue (set_current ord (om_put price_before cp as (side b cp)) b) = (queue b)(cp := as)"
  proof
    fix cq
    show "queue (set_current ord (om_put price_before cp as (side b cp)) b) cq = ((queue b)(cp := as)) cq"
      using queue_set_current [OF assms(2), of "om_put price_before cp as (side b cp)" b cq]
        level_at_put [OF k, of cp cq as] same [of cq] by (cases "Is_buy cq = Is_buy cp") auto
  qed
  show "queue (set_current ord (remove_from_level cp a (side b cp)) b) =
      (queue b)(cp := filter (\<lambda>x. x \<noteq> a) (queue b cp))"
  proof
    fix cq
    show "queue (set_current ord (remove_from_level cp a (side b cp)) b) cq =
        ((queue b)(cp := filter (\<lambda>x. x \<noteq> a) (queue b cp))) cq"
      using queue_set_current [OF assms(2), of "remove_from_level cp a (side b cp)" b cq]
        level_at_remove [OF k, of cp cq a] same [of cq] by (cases "Is_buy cq = Is_buy cp") auto
  qed
qed

lemma levels_ok_ids:
  "levels_ok b \<Longrightarrow> levels_ok (b\<lparr>m_working_orders := om_insert (<) cid a (m_working_orders b)\<rparr>)"
  "levels_ok b \<Longrightarrow> levels_ok (b\<lparr>m_working_orders := om_erase (<) cid (m_working_orders b)\<rparr>)"
  "levels_ok b \<Longrightarrow> levels_ok (b\<lparr>m_canceled_orders := om_insert (<) cid a (m_canceled_orders b)\<rparr>)"
  by (simp_all add: levels_ok_def ids.keys_ok_insert ids.keys_ok_erase)

text \<open>A new order goes to the end of the queue of its price.\<close>

lemma Add_order_effect:
  assumes inv: "box_inv b" and ok: "order_ok (m_contract_name b) ord cp"
    and new: "working b (client_order_id ord) = None" "cancelled b (client_order_id ord) = None"
  obtains b' where "Add_order ord b = Inr (next_addr b, b')" "box_inv b'"
    "queue b' = (queue b)(cp := queue b cp @ [next_addr b])"
    "working b' = (working b)(client_order_id ord \<mapsto> next_addr b)" "cancelled b' = cancelled b"
    "heap b' = (heap b)(next_addr b \<mapsto> ord\<lparr>status := OS_Working\<rparr>)"
    "m_filled_orders b' = m_filled_orders b" "m_contract_name b' = m_contract_name b"
proof -
  let ?n = "next_addr b" and ?o = "ord\<lparr>status := OS_Working\<rparr>" and ?cid = "client_order_id ord"
  have cp: "ComparablePrice_of ord = Inr cp" by (rule order_okD [OF ok])
  define b1 where "b1 = b\<lparr>heap := (heap b)(?n \<mapsto> ?o), next_addr := Suc ?n\<rparr>"
  define b2 where "b2 = set_current ord (om_put price_before cp (queue b cp @ [?n]) (side b cp)) b1"
  define b3 where "b3 = b2\<lparr>m_working_orders := om_insert (<) ?cid ?n (m_working_orders b2)\<rparr>"
  have side: "side b1 cp = side b cp" and cur: "current ord b1 = side b cp"
    using current_side [OF cp, of b1] by (simp_all add: b1_def side_def)
  have l1: "levels_ok b1" using box_levels [OF inv] by (simp add: b1_def)
  have l2: "levels_ok b2" unfolding b2_def side [symmetric] by (rule levels_ok_put [OF l1 cp]) simp
  have l3: "levels_ok b3" unfolding b3_def by (rule levels_ok_ids(1) [OF l2])
  have q: "queue b3 = (queue b)(cp := queue b cp @ [?n])"
    using queue_update(1) [OF l1 cp, of "queue b cp @ [?n]"] by (simp add: b3_def b2_def side) (simp add: b1_def)
  have w2: "working b2 = working b" by (simp add: b2_def b1_def)
  have w: "working b3 = (working b)(?cid \<mapsto> ?n)"
    using working_update(2) [OF levels_keys(3) [OF l2], of ?cid ?n] new(1) by (simp add: b3_def w2)
  have c: "cancelled b3 = cancelled b" by (simp add: b3_def b2_def b1_def)
  have h: "heap b3 = (heap b)(?n \<mapsto> ?o)" and n: "next_addr b3 = Suc ?n"
    and f: "m_filled_orders b3 = m_filled_orders b" and nm: "m_contract_name b3 = m_contract_name b"
    by (simp_all add: b3_def b2_def b1_def)
  have "view_ok (m_contract_name b) ((queue b)(cp := queue b cp @ [?n]))
      ((working b)(client_order_id ?o \<mapsto> ?n)) (cancelled b) ((heap b)(?n \<mapsto> ?o)) (Suc ?n)"
    by (rule view_add [OF box_view [OF inv]]) (use ok new in simp_all)
  then have inv': "box_inv b3" using l3 q w c h n f nm box_fills [OF inv] by (simp add: box_inv_def)
  have lv: "level_at cp (side b cp) = queue b cp" by (simp add: queue_def)
  have b1: "set_order ?n ?o (snd (new_order ord b)) = b1"
    by (simp add: set_order_def new_order_def b1_def)
  have "deref ?n (snd (new_order ord b)) = Inr ord" by (simp add: deref_def new_order_def)
  then have "Add_order ord b = Inr (?n, b3)"
    using cp cur b1 by (simp add: Add_order_def Add_working_order_def new_order_def
        b2_def b3_def Let_def lv)
  then show thesis using that inv' q w c h f nm by blast
qed

text \<open>Taking a working order out of the box leaves the others in their places.\<close>

lemma Remove_working_order_effect:
  assumes inv: "box_inv b" and w: "working b cid = Some a" and o: "heap b a = Some ord"
    and cp: "ComparablePrice_of ord = Inr cp"
  obtains b' where "Remove_working_order cid b = Inr (a, b')" "levels_ok b'"
    "queue b' = (queue b)(cp := filter (\<lambda>x. x \<noteq> a) (queue b cp))"
    "working b' = (working b)(cid := None)" "cancelled b' = cancelled b" "heap b' = heap b"
    "m_filled_orders b' = m_filled_orders b" "m_contract_name b' = m_contract_name b"
    "next_addr b' = next_addr b"
proof -
  define b1 where "b1 = set_current ord (remove_from_level cp a (side b cp)) b"
  define b2 where "b2 = b1\<lparr>m_working_orders := om_erase (<) cid (m_working_orders b1)\<rparr>"
  have l1: "levels_ok b1" unfolding b1_def by (rule levels_ok_remove [OF box_levels [OF inv] cp])
  have "levels_ok b2" unfolding b2_def by (rule levels_ok_ids(2) [OF l1])
  moreover have "queue b2 = (queue b)(cp := filter (\<lambda>x. x \<noteq> a) (queue b cp))"
    using queue_update(2) [OF box_levels [OF inv] cp, of a] by (simp add: b2_def b1_def)
  moreover have "working b2 = (working b)(cid := None)"
    using working_update(1) [OF levels_keys(3) [OF l1], of cid] by (simp add: b2_def b1_def)
  moreover have "Remove_working_order cid b = Inr (a, b2)"
    using w o cp current_side [OF cp, of b]
    by (simp add: Remove_working_order_def working_def deref_def b2_def b1_def)
  ultimately show thesis using that [of b2] by (simp add: b2_def b1_def)
qed

lemma Delete_order_effect:
  assumes inv: "box_inv b" and w: "working b (client_order_id r) = Some a" and o: "heap b a = Some ord"
    and cp: "ComparablePrice_of ord = Inr cp"
  obtains b' where "Delete_order r keep b = Inr (ord\<lparr>status := OS_Cancelled\<rparr>, b')" "box_inv b'"
    "queue b' = (queue b)(cp := filter (\<lambda>x. x \<noteq> a) (queue b cp))"
    "working b' = (working b)(client_order_id r := None)"
    "cancelled b' = (if keep then (cancelled b)(client_order_id r \<mapsto> a) else cancelled b)"
    "heap b' = (heap b)(a := (if keep then Some (ord\<lparr>status := OS_Cancelled\<rparr>) else None))"
    "m_filled_orders b' = m_filled_orders b" "m_contract_name b' = m_contract_name b"
    "next_addr b' = next_addr b"
proof -
  let ?cid = "client_order_id r" and ?o = "ord\<lparr>status := OS_Cancelled\<rparr>"
  obtain b1 where b1: "Remove_working_order ?cid b = Inr (a, b1)" "levels_ok b1"
    "queue b1 = (queue b)(cp := filter (\<lambda>x. x \<noteq> a) (queue b cp))"
    "working b1 = (working b)(?cid := None)" "cancelled b1 = cancelled b" "heap b1 = heap b"
    "m_filled_orders b1 = m_filled_orders b" "m_contract_name b1 = m_contract_name b"
    "next_addr b1 = next_addr b"
    by (rule Remove_working_order_effect [OF inv w o cp])
  define b2 where "b2 = set_order a ?o b1"
  define b3 where "b3 = (if keep
      then b2\<lparr>m_canceled_orders := om_insert (<) ?cid a (m_canceled_orders b2)\<rparr> else free_order a b2)"
  note V = view_okD [OF box_view [OF inv]]
  have cid: "client_order_id ord = ?cid" using V(3) [OF w] o by auto
  have c: "cancelled b ?cid = None" using V(6) [of ?cid] w by (cases "cancelled b ?cid") auto
  have l2: "levels_ok b2" using b1(2) by (simp add: b2_def set_order_def)
  have l3: "levels_ok b3"
    using l2 levels_ok_ids(3) [OF l2] by (simp add: b3_def free_order_def)
  have c2: "cancelled b2 = cancelled b" using b1(5) by (simp add: b2_def set_order_def)
  have q3: "queue b3 = (queue b)(cp := filter (\<lambda>x. x \<noteq> a) (queue b cp))"
    and w3: "working b3 = (working b)(?cid := None)"
    and n3: "next_addr b3 = next_addr b" "m_contract_name b3 = m_contract_name b"
      "m_filled_orders b3 = m_filled_orders b"
    and h3: "heap b3 = (heap b)(a := (if keep then Some ?o else None))"
    using b1 by (simp_all add: b3_def b2_def set_order_def free_order_def)
  have c3: "cancelled b3 = (if keep then (cancelled b)(?cid \<mapsto> a) else cancelled b)"
    using cancelled_insert [OF levels_keys(4) [OF l2], of ?cid a] c c2
    by (simp add: b3_def free_order_def)
  note rm = view_remove [OF box_view [OF inv] w o cp]
  have "view_ok (m_contract_name b3) (queue b3) (working b3) (cancelled b3) (heap b3) (next_addr b3)"
  proof (cases keep)
    case True
    have "view_ok (m_contract_name b) ((queue b)(cp := filter (\<lambda>x. x \<noteq> a) (queue b cp)))
        ((working b)(?cid := None)) ((cancelled b)(client_order_id ?o \<mapsto> a))
        ((heap b)(a := None, a \<mapsto> ?o)) (next_addr b)"
      by (rule view_add_deleted [OF rm]) (use cid V(5) [OF o] in simp_all)
    then show ?thesis using True q3 w3 n3 h3 c3 cid by simp
  next
    case False
    then show ?thesis using rm q3 w3 n3 h3 c3 by simp
  qed
  then have inv3: "box_inv b3" using l3 n3 box_fills [OF inv] by (simp add: box_inv_def)
  have "Delete_order r keep b = Inr (?o, b3)"
    using b1(1,6) o by (simp add: Delete_order_def deref_def b2_def b3_def Let_def)
  then show thesis using that [OF _ inv3 q3 w3 c3 h3] n3 by simp
qed

text \<open>Fills: the multimap keeps each order's fills in the order they were made.\<close>

lemma multimap_insert_set: "set (multimap_insert k v m) = insert (k, v) (set m)"
  by (induction k v m rule: multimap_insert.induct) auto

lemma fills_ok_insert:
  assumes "fills_ok m" "f_client_order_id v = k" shows "fills_ok (multimap_insert k v m)"
proof -
  have "sorted (map fst m) \<Longrightarrow> sorted (map fst (multimap_insert k v m))"
  proof (induction k v m rule: multimap_insert.induct)
    case (2 k v k' v' m)
    then show ?case
      by (cases "k < k'") (auto simp: multimap_insert_set intro: less_imp_le order.trans)
  qed simp
  then show ?thesis using assms by (auto simp: fills_ok_def multimap_insert_set)
qed

lemma equal_range_insert:
  assumes "fills_ok m"
  shows "equal_range cid (multimap_insert k v m) = equal_range cid m @ (if cid = k then [v] else [])"
proof -
  have none: "equal_range j m = []" if "sorted (map fst ((k', v') # m))" "j < k'"
    for j k' v' and m :: "(string \<times> Fill) list"
    using that by (auto simp: equal_range_def filter_empty_conv)
  have "sorted (map fst m) \<Longrightarrow> ?thesis"
  proof (induction k v m rule: multimap_insert.induct)
    case (2 k v k' v' m)
    show ?case
    proof (cases "k < k'")
      case True
      then show ?thesis using none [OF 2(2) True] by (auto simp: equal_range_def)
    next
      case False
      then show ?thesis using 2 by (auto simp: equal_range_def)
    qed
  qed (simp add: equal_range_def)
  then show ?thesis using assms by (simp add: fills_ok_def)
qed

definition fills_of :: "TradeOrderBox \<Rightarrow> string \<Rightarrow> Fill list" where
  "fills_of b cid = equal_range cid (m_filled_orders b)"

lemma Add_filled_order_effect:
  assumes inv: "box_inv b"
  obtains fill b' where "Add_filled_order ord fid q px b = (fill, b')" "box_inv b'"
    "queue b' = queue b" "working b' = working b" "cancelled b' = cancelled b" "heap b' = heap b"
    "fills_of b' = (fills_of b)(client_order_id ord := fills_of b (client_order_id ord) @ [fill])"
    "m_contract_name b' = m_contract_name b" "next_addr b' = next_addr b"
    "fill_id fill = fid" "fill_quantity fill = q" "f_client_order_id fill = client_order_id ord"
    "f_exchange_order_id fill = exchange_order_id ord"
    "f_contract fill = contract ord" "f_buy_sell fill = buy_sell ord"
    "fill_price fill = to_string_double (TO_REAL_PRICE px)"
proof -
  let ?k = "client_order_id ord"
  obtain fill b' where e: "Add_filled_order ord fid q px b = (fill, b')" by (rule prod.exhaust)
  have f: "fill_id fill = fid" "fill_quantity fill = q" "f_client_order_id fill = ?k"
    "f_exchange_order_id fill = exchange_order_id ord"
    "f_contract fill = contract ord" "f_buy_sell fill = buy_sell ord"
    "fill_price fill = to_string_double (TO_REAL_PRICE px)"
    and b': "b' = b\<lparr>m_filled_orders := multimap_insert ?k fill (m_filled_orders b)\<rparr>"
    using e by (auto simp: Add_filled_order_def Let_def)
  have "fills_of b' = (fills_of b)(?k := fills_of b ?k @ [fill])"
    using equal_range_insert [OF box_fills [OF inv]] by (auto simp: fills_of_def b' fun_eq_iff)
  moreover have "box_inv b'"
    using inv fills_ok_insert [OF box_fills [OF inv] f(3)] by (simp add: box_inv_def b')
  ultimately show thesis using that [OF e] f by (simp add: b')
qed

lemma fills_of_cong: "m_filled_orders b' = m_filled_orders b \<Longrightarrow> fills_of b' = fills_of b"
  by (simp add: fills_of_def fun_eq_iff)

lemma box_inv_frame:
  assumes "box_inv b" "levels_ok b'" "m_filled_orders b' = m_filled_orders b"
    "view_ok (m_contract_name b') (queue b') (working b') (cancelled b') (heap b') (next_addr b')"
  shows "box_inv b'"
  using assms by (simp add: box_inv_def)

text \<open>A working order that is filled loses the quantity, and the box forgets it when none is left.\<close>

lemma Working_order_filled_effect:
  assumes inv: "box_inv b" and w: "working b (client_order_id ord) = Some a" and o: "heap b a = Some ord"
    and cp: "ComparablePrice_of ord = Inr cp"
  obtains b' where "Working_order_filled a q b = Inr b'" "box_inv b'"
    "queue b' = (if quantity ord = q then (queue b)(cp := filter (\<lambda>x. x \<noteq> a) (queue b cp)) else queue b)"
    "working b' = (if quantity ord = q then (working b)(client_order_id ord := None) else working b)"
    "cancelled b' = cancelled b"
    "heap b' = (heap b)(a := (if quantity ord = q then None
       else Some (ord\<lparr>quantity := quantity ord - q, filled_quantity := filled_quantity ord + q\<rparr>)))"
    "m_filled_orders b' = m_filled_orders b" "m_contract_name b' = m_contract_name b"
    "next_addr b' = next_addr b"
proof (cases "quantity ord = q")
  case True
  obtain b1 where b1: "Remove_working_order (client_order_id ord) b = Inr (a, b1)" "levels_ok b1"
    "queue b1 = (queue b)(cp := filter (\<lambda>x. x \<noteq> a) (queue b cp))"
    "working b1 = (working b)(client_order_id ord := None)" "cancelled b1 = cancelled b"
    "heap b1 = heap b" "m_filled_orders b1 = m_filled_orders b"
    "m_contract_name b1 = m_contract_name b" "next_addr b1 = next_addr b"
    by (rule Remove_working_order_effect [OF inv w o cp])
  have "box_inv (free_order a b1)"
    by (rule box_inv_frame [OF inv])
      (use b1 view_remove [OF box_view [OF inv] w o cp] in \<open>simp_all add: free_order_def\<close>)
  moreover have "Working_order_filled a q b = Inr (free_order a b1)"
    using o b1(1) True by (simp add: Working_order_filled_def deref_def)
  ultimately show thesis using that [of "free_order a b1"] b1 True by (simp add: free_order_def)
next
  case False
  let ?o = "ord\<lparr>quantity := quantity ord - q, filled_quantity := filled_quantity ord + q\<rparr>"
  note V = view_okD [OF box_view [OF inv]]
  have "order_ok (m_contract_name b) ord cp"
    using V(3) [OF w] o cp by (auto simp: order_ok_def)
  then have ok: "order_ok (m_contract_name b) ?o cp" using False by (simp add: order_ok_def)
  have "view_ok (m_contract_name b) (queue b) (working b) (cancelled b) ((heap b)(a \<mapsto> ?o)) (next_addr b)"
    by (rule view_update [OF box_view [OF inv] w _ ok o cp]) simp
  then have "box_inv (set_order a ?o b)"
    using box_inv_frame [OF inv, of "set_order a ?o b"] box_levels [OF inv] by (simp add: set_order_def)
  moreover have "Working_order_filled a q b = Inr (set_order a ?o b)"
    using o False by (simp add: Working_order_filled_def deref_def)
  ultimately show thesis using that [of "set_order a ?o b"] False by (simp add: set_order_def)
qed

lemma Fill_working_order_effect:
  assumes inv: "box_inv b" and w: "working b (client_order_id ord) = Some a" and o: "heap b a = Some ord"
    and cp: "ComparablePrice_of ord = Inr cp"
  obtains fill b' where "Fill_working_order a fid q px b = Inr (fill, b')" "box_inv b'"
    "queue b' = (if quantity ord = q then (queue b)(cp := filter (\<lambda>x. x \<noteq> a) (queue b cp)) else queue b)"
    "working b' = (if quantity ord = q then (working b)(client_order_id ord := None) else working b)"
    "cancelled b' = cancelled b"
    "heap b' = (heap b)(a := (if quantity ord = q then None
       else Some (ord\<lparr>quantity := quantity ord - q, filled_quantity := filled_quantity ord + q\<rparr>)))"
    "fills_of b' = (fills_of b)(client_order_id ord := fills_of b (client_order_id ord) @ [fill])"
    "m_contract_name b' = m_contract_name b" "next_addr b' = next_addr b"
    "fill_id fill = fid" "fill_quantity fill = q" "f_client_order_id fill = client_order_id ord"
    "f_exchange_order_id fill = exchange_order_id ord"
    "f_contract fill = contract ord" "f_buy_sell fill = buy_sell ord"
    "fill_price fill = to_string_double (TO_REAL_PRICE px)"
proof -
  obtain fill b1 where b1: "Add_filled_order ord fid q px b = (fill, b1)" "box_inv b1"
    "queue b1 = queue b" "working b1 = working b" "cancelled b1 = cancelled b" "heap b1 = heap b"
    "fills_of b1 = (fills_of b)(client_order_id ord := fills_of b (client_order_id ord) @ [fill])"
    "m_contract_name b1 = m_contract_name b" "next_addr b1 = next_addr b"
    "fill_id fill = fid" "fill_quantity fill = q" "f_client_order_id fill = client_order_id ord"
    "f_exchange_order_id fill = exchange_order_id ord"
    "f_contract fill = contract ord" "f_buy_sell fill = buy_sell ord"
    "fill_price fill = to_string_double (TO_REAL_PRICE px)"
    by (rule Add_filled_order_effect [OF inv])
  have w1: "working b1 (client_order_id ord) = Some a" and o1: "heap b1 a = Some ord"
    using w o b1 by simp_all
  obtain b2 where b2: "Working_order_filled a q b1 = Inr b2" "box_inv b2"
    "queue b2 = (if quantity ord = q then (queue b1)(cp := filter (\<lambda>x. x \<noteq> a) (queue b1 cp)) else queue b1)"
    "working b2 = (if quantity ord = q then (working b1)(client_order_id ord := None) else working b1)"
    "cancelled b2 = cancelled b1"
    "heap b2 = (heap b1)(a := (if quantity ord = q then None
       else Some (ord\<lparr>quantity := quantity ord - q, filled_quantity := filled_quantity ord + q\<rparr>)))"
    "m_filled_orders b2 = m_filled_orders b1" "m_contract_name b2 = m_contract_name b1"
    "next_addr b2 = next_addr b1"
    by (rule Working_order_filled_effect [OF b1(2) w1 o1 cp])
  have "Fill_working_order a fid q px b = Inr (fill, b2)"
    using o b1(1) b2(1) by (simp add: Fill_working_order_def deref_def)
  then show thesis
    using that [of fill b2] b1 b2 fills_of_cong [OF b2(7)] by simp
qed

lemma Add_deleted_order_effect:
  assumes inv: "box_inv b"
    and new: "working b (client_order_id ord) = None" "cancelled b (client_order_id ord) = None"
  obtains b' where "Add_deleted_order ord b = (next_addr b, b')" "box_inv b'"
    "queue b' = queue b" "working b' = working b"
    "cancelled b' = (cancelled b)(client_order_id ord \<mapsto> next_addr b)"
    "heap b' = (heap b)(next_addr b \<mapsto> ord\<lparr>status := OS_Cancelled\<rparr>)"
    "m_filled_orders b' = m_filled_orders b" "m_contract_name b' = m_contract_name b"
proof -
  let ?n = "next_addr b" and ?o = "ord\<lparr>status := OS_Cancelled\<rparr>" and ?cid = "client_order_id ord"
  define b1 where "b1 = b\<lparr>heap := (heap b)(?n \<mapsto> ?o), next_addr := Suc ?n\<rparr>"
  define b2 where "b2 = b1\<lparr>m_canceled_orders := om_insert (<) ?cid ?n (m_canceled_orders b1)\<rparr>"
  have l1: "levels_ok b1" using box_levels [OF inv] by (simp add: b1_def)
  have c1: "cancelled b1 = cancelled b" by (simp add: b1_def)
  have c2: "cancelled b2 = (cancelled b)(?cid \<mapsto> ?n)"
    using cancelled_insert [OF levels_keys(4) [OF l1], of ?cid ?n] new(2) by (simp add: b2_def c1)
  note V = view_okD [OF box_view [OF inv]]
  have "view_ok (m_contract_name b) (queue b) (working b) ((cancelled b)(client_order_id ?o \<mapsto> ?n))
      ((heap b)(?n \<mapsto> ?o)) (Suc ?n)"
    by (rule view_add_deleted [OF box_view [OF inv]]) (use new V(4) in simp_all)
  then have "box_inv b2"
    using box_inv_frame [OF inv, of b2] levels_ok_ids(3) [OF l1, of ?cid ?n] c2
    by (simp add: b2_def) (simp add: b1_def)
  moreover have "Add_deleted_order ord b = (?n, b2)"
    by (simp add: Add_deleted_order_def new_order_def b1_def b2_def)
  ultimately show thesis using that [of b2] c2 by (simp add: b2_def b1_def)
qed

lemma TradeOrderBox_new_inv: "box_inv (TradeOrderBox_new name)"
  by (simp add: box_inv_def levels_ok_def fills_ok_def view_ok_def TradeOrderBox_new_def queue_def
      side_def level_at_def working_def cancelled_def bids.keys_ok_Nil asks.keys_ok_Nil ids.keys_ok_Nil)

section \<open>Expiry\<close>

lemma working_entry:
  assumes inv: "box_inv b" and m: "(cid, a) \<in> set (m_working_orders b)"
  obtains ord where "heap b a = Some ord" "working b cid = Some a"
proof -
  have w: "working b cid = Some a"
    using ids.set_find [OF levels_keys(3) [OF box_levels [OF inv]] m] by (simp add: working_def)
  then show thesis using view_working [OF box_view [OF inv] w] that by blast
qed

definition is_gfd :: "TradeOrderBox \<Rightarrow> addr \<Rightarrow> bool" where
  "is_gfd b a \<longleftrightarrow> (case heap b a of None \<Rightarrow> False | Some ord \<Rightarrow> tif ord = TIF_GFD)"

lemma expired_orders_result:
  assumes "\<forall>(cid, a) \<in> set ws. heap b a \<noteq> None"
  shows "expired_orders ws b =
    (if \<exists>(cid, a) \<in> set ws. is_gfd b a then Inl Undefined_behaviour else Inr [])"
  using assms
proof (induction ws)
  case (Cons w ws)
  obtain cid a where w: "w = (cid, a)" by (rule prod.exhaust)
  then obtain ord where "heap b a = Some ord" using Cons.prems by auto
  then show ?case
    using Cons.IH Cons.prems by (cases "tif ord = TIF_GFD") (auto simp: w deref_def Is_expired_def is_gfd_def)
qed simp

text \<open>
  The expiry of orders that are good for the day does not work: on a well-formed box
  the pass has undefined behaviour as soon as one such order is working, because the current
  time it compares with is read from a variable that was never set; without one it changes
  nothing.
\<close>
theorem expiry_reads_an_unset_time:
  assumes "box_inv b"
  shows "Delete_expired_order b =
    (if \<exists>cid a. working b cid = Some a \<and> is_gfd b a then Inl Undefined_behaviour else Inr ([], b))"
proof -
  have all: "\<forall>(cid, a) \<in> set (m_working_orders b). heap b a \<noteq> None"
  proof -
    have "heap b a \<noteq> None" if "(cid, a) \<in> set (m_working_orders b)" for cid a
      by (rule working_entry [OF assms that]) simp
    then show ?thesis by blast
  qed
  note k = levels_keys(3) [OF box_levels [OF assms]]
  have "(cid, a) \<in> set (m_working_orders b) \<longleftrightarrow> working b cid = Some a" for cid a
    using ids.set_find [OF k, of cid a] ids.find_Some_set [OF k, of cid a] unfolding working_def by blast
  then have "(\<exists>(cid, a) \<in> set (m_working_orders b). is_gfd b a) \<longleftrightarrow>
      (\<exists>cid a. working b cid = Some a \<and> is_gfd b a)"
    by blast
  then show ?thesis using expired_orders_result [OF all] by (simp add: Delete_expired_order_def)
qed

definition example_gfd :: Order where
  "example_gfd = Order_default\<lparr>client_order_id := ''D'', contract := ''ES'', buy_sell := BS_Buy,
     o_price := ''2'', quantity := 1, tif := TIF_GFD, order_type := OT_Limit\<rparr>"

theorem expiry_reads_an_unset_time_witness:
  "\<exists>b. Delete_expired_order b = Inl Undefined_behaviour \<and>
     Delete_expired_order (TradeOrderBox_new ''ES'') = Inr ([], TradeOrderBox_new ''ES'')"
proof -
  have ok: "order_ok (m_contract_name (TradeOrderBox_new ''ES'')) example_gfd \<lparr>Is_buy = True, Price = 200\<rparr>"
    by code_simp
  have none: "working (TradeOrderBox_new ''ES'') cid = None" "cancelled (TradeOrderBox_new ''ES'') cid = None" for cid
    by (simp_all add: working_def cancelled_def TradeOrderBox_new_def)
  obtain b where b: "box_inv b"
    "working b = (working (TradeOrderBox_new ''ES''))(client_order_id example_gfd \<mapsto> next_addr (TradeOrderBox_new ''ES''))"
    "heap b = (heap (TradeOrderBox_new ''ES''))(next_addr (TradeOrderBox_new ''ES'') \<mapsto> example_gfd\<lparr>status := OS_Working\<rparr>)"
    by (rule Add_order_effect [OF TradeOrderBox_new_inv ok none])
  then have "\<exists>cid a. working b cid = Some a \<and> is_gfd b a"
    by (intro exI [of _ "client_order_id example_gfd"]) (simp add: is_gfd_def example_gfd_def)
  then have "Delete_expired_order b = Inl Undefined_behaviour"
    using expiry_reads_an_unset_time [OF b(1)] by simp
  moreover have "Delete_expired_order (TradeOrderBox_new ''ES'') = Inr ([], TradeOrderBox_new ''ES'')"
    using expiry_reads_an_unset_time [OF TradeOrderBox_new_inv [of "''ES''"]] none by simp
  ultimately show ?thesis by blast
qed

end
