(* ===== verification/Trade_Match.thy ===== *)
theory Trade_Match
  imports Trade_Order_Box
begin

text \<open>
  The matching algorithm of the trade simulator (tmalpha/trade/trade_algorithm_simple.h): walk
  the opposite levels from the best price, each level from the oldest order, until the order is
  used up or the price does not match.  It is proved equal to a reference that collects the
  resting orders whose price crosses and hands out the quantity from the front.
\<close>

section \<open>The algorithm\<close>

record MatchedOrder =
  match_order :: addr
  match_price :: OrderPrice
  match_quantity :: OrderSize

text \<open>The inner loop; the flag is the jump to \<open>END\<close>.\<close>

fun match_level :: "TradeOrderBox \<Rightarrow> OrderPrice \<Rightarrow> addr list \<Rightarrow> OrderSize \<Rightarrow>
    (MatchedOrder list \<times> OrderSize \<times> bool) res" where
  "match_level b px [] n = Inr ([], n, False)"
| "match_level b px (w # ws) n =
     bind_res (deref w b) (\<lambda>wo.
       let matched_size = min n (quantity wo); n' = n - matched_size;
           mo = \<lparr>match_order = w, match_price = px, match_quantity = matched_size\<rparr>
       in if n' = 0 then Inr ([mo], n', True)
          else map_res (\<lambda>(ms, r, e). (mo # ms, r, e)) (match_level b px ws n'))"

text \<open>The outer loop over the levels.\<close>

fun match_levels :: "TradeOrderBox \<Rightarrow> ComparablePrice \<Rightarrow> price_levels \<Rightarrow> OrderSize \<Rightarrow>
    (MatchedOrder list \<times> OrderSize) res" where
  "match_levels b op [] n = Inr ([], n)"
| "match_levels b op ((wp, ws) # ls) n =
     (if Is_market op \<and> Is_market wp then match_levels b op ls n
      else bind_res (Is_match op wp) (\<lambda>m.
        if \<not> m then Inr ([], n)
        else bind_res (match_level b (if Is_market wp then Price op else Price wp) ws n) (\<lambda>(ms, n', e).
          if e then Inr (ms, n')
          else map_res (\<lambda>(ms', r). (ms @ ms', r)) (match_levels b op ls n'))))"

definition Matches :: "Order \<Rightarrow> price_levels \<Rightarrow> TradeOrderBox \<Rightarrow>
    (MatchedOrder list \<times> OrderSize \<times> bool) res" where
  "Matches ord opposite_working_orders b =
     bind_res (ComparablePrice_of ord) (\<lambda>op.
     bind_res (match_levels b op opposite_working_orders (quantity ord)) (\<lambda>(ms, n).
       Inr (if n = 0 then (ms, 0, False)
            else if tif ord = TIF_FAK then (ms, n, True)
            else if tif ord = TIF_FOK then ([], quantity ord, True)
            else (ms, n, False))))"

section \<open>The reference\<close>

text \<open>A resting order that the new one trades with: where it is, at which price, how much.\<close>

definition crosses :: "ComparablePrice \<Rightarrow> ComparablePrice \<Rightarrow> bool" where
  "crosses op wp \<longleftrightarrow> (if Is_market op then \<not> Is_market wp
     else Is_market wp \<or> (if Is_buy op then Price wp \<le> Price op else Price op \<le> Price wp))"

definition trade_price :: "ComparablePrice \<Rightarrow> ComparablePrice \<Rightarrow> OrderPrice" where
  "trade_price op wp = (if Is_market wp then Price op else Price wp)"

definition resting :: "TradeOrderBox \<Rightarrow> addr \<Rightarrow> OrderSize" where
  "resting b a = (case heap b a of Some ord \<Rightarrow> quantity ord | None \<Rightarrow> 0)"

definition eligible :: "TradeOrderBox \<Rightarrow> ComparablePrice \<Rightarrow> price_levels \<Rightarrow>
    (addr \<times> OrderPrice \<times> OrderSize) list" where
  "eligible b op ls = concat (map (\<lambda>(wp, ws). map (\<lambda>w. (w, trade_price op wp, resting b w)) ws)
     (filter (\<lambda>(wp, _). crosses op wp) ls))"

text \<open>Hand out \<open>n\<close> from the front.\<close>

fun allocate :: "OrderSize \<Rightarrow> (addr \<times> OrderPrice \<times> OrderSize) list \<Rightarrow> MatchedOrder list \<times> OrderSize" where
  "allocate n [] = ([], n)"
| "allocate n ((a, px, q) # es) =
     (if n \<le> q then ([\<lparr>match_order = a, match_price = px, match_quantity = n\<rparr>], 0)
      else let (ms, r) = allocate (n - q) es
           in (\<lparr>match_order = a, match_price = px, match_quantity = q\<rparr> # ms, r))"

lemma allocate_append:
  "allocate n (es @ es') =
     (let (ms, r) = allocate n es in
      if r = 0 \<and> es \<noteq> [] then (ms, r)
      else let (ms', r') = allocate r es' in (ms @ ms', r'))"
  by (induction n es rule: allocate.induct) (auto simp: Let_def split: prod.splits)

section \<open>The algorithm is the reference\<close>

definition entries :: "TradeOrderBox \<Rightarrow> OrderPrice \<Rightarrow> addr list \<Rightarrow> (addr \<times> OrderPrice \<times> OrderSize) list" where
  "entries b px ws = map (\<lambda>w. (w, px, resting b w)) ws"

lemma eligible_simps:
  "eligible b op [] = []"
  "eligible b op ((wp, ws) # ls) =
     (if crosses op wp then entries b (trade_price op wp) ws @ eligible b op ls else eligible b op ls)"
  by (simp_all add: eligible_def entries_def)

lemma match_level_allocate:
  assumes "\<forall>w \<in> set ws. heap b w \<noteq> None" "n \<noteq> 0"
  shows "match_level b px ws n =
    Inr (fst (allocate n (entries b px ws)), snd (allocate n (entries b px ws)),
         snd (allocate n (entries b px ws)) = 0)"
  using assms
proof (induction b px ws n rule: match_level.induct)
  case (2 b px w ws n)
  obtain wo where wo: "heap b w = Some wo" using 2(2) by auto
  show ?case
  proof (cases "n \<le> quantity wo")
    case True
    then show ?thesis using wo by (simp add: deref_def entries_def resting_def min_def)
  next
    case False
    then have "n - quantity wo \<noteq> 0" "min n (quantity wo) = quantity wo" by (auto simp: min_def)
    then show ?thesis
      using 2(1) [of wo "quantity wo" "n - quantity wo"] 2(2) wo False
      by (simp add: deref_def entries_def resting_def Let_def split_def)
  qed
qed (simp add: entries_def)

lemma Is_match_crosses:
  assumes "Is_buy wp = (\<not> Is_buy op)" "\<not> (Is_market op \<and> Is_market wp)"
  shows "Is_match op wp = Inr (crosses op wp)"
  using assms by (auto simp: Is_match_def crosses_def)

text \<open>The levels are sorted from the best price, so the first that does not cross ends the search.\<close>

definition side_ok :: "bool \<Rightarrow> price_levels \<Rightarrow> bool" where
  "side_ok buy ls \<longleftrightarrow> (\<forall>wp \<in> fst ` set ls. Is_buy wp = buy) \<and> om_wf price_before ls"

lemma crosses_mono:
  assumes "price_before wp wq" "Is_buy wp = (\<not> Is_buy op)" "Is_buy wq = (\<not> Is_buy op)"
    "\<not> (Is_market op \<and> Is_market wp)" "crosses op wq"
  shows "crosses op wp"
proof (cases "Is_buy wp")
  case True
  then show ?thesis
    using assms by (auto simp: price_before_simps crosses_def split: if_splits)
next
  case False
  then show ?thesis
    using assms by (auto simp: price_before_simps crosses_def split: if_splits)
qed

lemma no_crossing_behind:
  assumes "side_ok (\<not> Is_buy op) ((wp, ws) # ls)" "\<not> (Is_market op \<and> Is_market wp)" "\<not> crosses op wp"
  shows "eligible b op ls = []"
proof -
  have "\<not> crosses op (fst l)" if "l \<in> set ls" for l
    using assms that crosses_mono [of wp "fst l" op] by (auto simp: side_ok_def)
  then show ?thesis by (induction ls) (auto simp: eligible_simps split_def eligible_def)
qed

lemma match_levels_allocate:
  assumes "side_ok (\<not> Is_buy op) ls" "\<forall>(wp, ws) \<in> set ls. \<forall>w \<in> set ws. heap b w \<noteq> None" "n \<noteq> 0"
  shows "match_levels b op ls n = Inr (allocate n (eligible b op ls))"
  using assms
proof (induction b op ls n rule: match_levels.induct)
  case (2 b op wp ws ls n)
  have ok: "side_ok (\<not> Is_buy op) ls" and ws: "\<forall>w \<in> set ws. heap b w \<noteq> None"
    and ls: "\<forall>(wp, ws) \<in> set ls. \<forall>w \<in> set ws. heap b w \<noteq> None" and side: "Is_buy wp = (\<not> Is_buy op)"
    using 2(3,4) by (auto simp: side_ok_def)
  show ?case
  proof (cases "Is_market op \<and> Is_market wp")
    case True
    then show ?thesis using 2(1) [OF True ok ls 2(5)] by (simp add: eligible_simps crosses_def)
  next
    case both: False
    note m = Is_match_crosses [OF side both]
    show ?thesis
    proof (cases "crosses op wp")
      case False
      then show ?thesis
        using m both no_crossing_behind [OF 2(3) both False, of b] by (auto simp: eligible_simps)
    next
      case True
      define px where "px = (if Is_market wp then Price op else Price wp)"
      obtain ms r where al: "allocate n (entries b px ws) = (ms, r)" by (rule prod.exhaust)
      have tp: "trade_price op wp = px" by (simp add: trade_price_def px_def)
      note ml = match_level_allocate [OF ws 2(5), of px]
      show ?thesis
      proof (cases "r = 0")
        case used: True
        then have "entries b px ws \<noteq> []" using al 2(5) by auto
        then show ?thesis
          using both m True ml al used by (auto simp: eligible_simps tp allocate_append simp flip: px_def)
      next
        case False
        then show ?thesis
          using both m True ml al 2(2) [OF both, of True "(ms, r, False)" ms "(r, False)" r False] ok ls
          by (auto simp: eligible_simps tp allocate_append split_def Let_def simp flip: px_def)
      qed
    qed
  qed
qed (simp add: eligible_simps)

section \<open>The opposite side of a box\<close>

lemma side_level:
  assumes "levels_ok b" "(cp, as) \<in> set (m_bid b) \<or> (cp, as) \<in> set (m_ask b)"
  shows "queue b cp = as"
  using assms(2)
proof
  note k = levels_keys(1,2) [OF assms(1)]
  assume m: "(cp, as) \<in> set (m_bid b)"
  then show ?thesis
    using bids.set_find [OF k(1) m] bids.keys_ok_valid [OF k(1) m]
    by (simp add: queue_def side_def level_at_def)
next
  note k = levels_keys(1,2) [OF assms(1)]
  assume m: "(cp, as) \<in> set (m_ask b)"
  then show ?thesis
    using asks.set_find [OF k(2) m] asks.keys_ok_valid [OF k(2) m]
    by (simp add: queue_def side_def level_at_def)
qed

lemma level_orders:
  assumes inv: "box_inv b" and l: "(cp, as) \<in> set (m_bid b) \<or> (cp, as) \<in> set (m_ask b)" "a \<in> set as"
  shows "\<exists>ord. heap b a = Some ord \<and> working b (client_order_id ord) = Some a \<and>
    order_ok (m_contract_name b) ord cp"
proof -
  note V = view_okD [OF box_view [OF inv]]
  have "a \<in> set (queue b cp)" using side_level [OF box_levels [OF inv] l(1)] l(2) by simp
  then obtain ord where o: "heap b a = Some ord" "working b (client_order_id ord) = Some a"
    "ComparablePrice_of ord = Inr cp" using V(2) by blast
  then show ?thesis using V(3) [OF o(2)] by (auto simp: order_ok_def)
qed

lemma opposite_ok:
  assumes inv: "box_inv b" and cp: "ComparablePrice_of ord = Inr op"
  defines "ls \<equiv> Opposite_working_orders (buy_sell ord) b"
  shows "side_ok (\<not> Is_buy op) ls" and "\<forall>(wp, ws) \<in> set ls. \<forall>w \<in> set ws. heap b w \<noteq> None"
proof -
  have ls: "ls = (if Is_buy op then m_ask b else m_bid b)"
    using ComparablePrice_side [OF cp] by (simp add: ls_def Opposite_working_orders_def)
  show "side_ok (\<not> Is_buy op) ls"
    using levels_keys(1,2) [OF box_levels [OF inv]]
    by (auto simp: side_ok_def ls bids.keys_ok_def asks.keys_ok_def)
  show "\<forall>(wp, ws) \<in> set ls. \<forall>w \<in> set ws. heap b w \<noteq> None"
    using level_orders [OF inv] by (fastforce simp: ls split: if_splits)
qed

text \<open>What the reference takes for an order, and what becomes of it under the fill conditions.\<close>

definition reference_matches :: "Order \<Rightarrow> ComparablePrice \<Rightarrow> TradeOrderBox \<Rightarrow> MatchedOrder list \<times> OrderSize \<times> bool" where
  "reference_matches ord op b =
     (let (ms, r) = allocate (quantity ord) (eligible b op (Opposite_working_orders (buy_sell ord) b)) in
      if r = 0 then (ms, 0, False)
      else if tif ord = TIF_FOK then ([], quantity ord, True)
      else (ms, r, tif ord = TIF_FAK))"

lemma Matches_reference:
  assumes "box_inv b" "ComparablePrice_of ord = Inr op" "quantity ord \<noteq> 0"
  shows "Matches ord (Opposite_working_orders (buy_sell ord) b) b = Inr (reference_matches ord op b)"
  using match_levels_allocate [OF opposite_ok [OF assms(1,2)] assms(3)] assms(2)
  by (auto simp: Matches_def reference_matches_def Let_def split: prod.splits)

text \<open>
  Claim C5: on a box that satisfies its invariant, the matching loop, which stops at the first
  price that does not match and jumps out when the quantity is used up, gives exactly what the
  reference gives: collect every resting order of the opposite side whose price crosses, best
  price first and oldest first within a price, and hand out the quantity from the front.
\<close>
theorem matches_equal_reference:
  assumes "box_inv b" and "ComparablePrice_of ord = Inr op" and "quantity ord \<noteq> 0"
  shows "Matches ord (Opposite_working_orders (buy_sell ord) b) b = Inr (reference_matches ord op b)"
  by (rule Matches_reference [OF assms])

section \<open>What the reference hands out\<close>

lemma allocate_sum:
  "(\<Sum>m\<leftarrow>fst (allocate n es). unat (match_quantity m)) + unat (snd (allocate n es)) = unat n"
proof (induction n es rule: allocate.induct)
  case (2 n a px q es)
  show ?case
  proof (cases "n \<le> q")
    case False
    then have "unat (n - q) + unat q = unat n"
      by (simp add: unat_sub_if_size word_le_nat_alt)
    with 2 False show ?thesis by (simp add: Let_def split_def)
  qed simp
qed simp

lemma allocate_positive:
  assumes "n \<noteq> 0" "\<forall>e \<in> set es. snd (snd e) \<noteq> 0" "m \<in> set (fst (allocate n es))"
  shows "match_quantity m \<noteq> 0"
  using assms
proof (induction n es rule: allocate.induct)
  case (2 n a px q es)
  then have "n - q \<noteq> 0" if "\<not> n \<le> q" using that by auto
  with 2 show ?case by (auto simp: Let_def split_def split: if_splits)
qed simp

lemma allocate_entry:
  assumes "m \<in> set (fst (allocate n es))"
  shows "\<exists>q. (match_order m, match_price m, q) \<in> set es \<and> match_quantity m \<le> q"
  using assms
proof (induction n es rule: allocate.induct)
  case (2 n a px q es)
  show ?case
  proof (cases "n \<le> q")
    case True
    then show ?thesis using 2(2) by auto
  next
    case False
    then show ?thesis using 2 by (auto simp: Let_def split_def)
  qed
qed simp

lemma allocate_prefix:
  "map match_order (fst (allocate n es)) = take (length (fst (allocate n es))) (map fst es)"
  by (induction n es rule: allocate.induct) (auto simp: Let_def split_def)

lemma allocate_rest:
  "n \<noteq> 0 \<Longrightarrow> snd (allocate n es) \<noteq> 0 \<Longrightarrow>
   fst (allocate n es) = map (\<lambda>(a, px, q). \<lparr>match_order = a, match_price = px, match_quantity = q\<rparr>) es"
proof (induction n es rule: allocate.induct)
  case (2 n a px q es)
  then have "\<not> n \<le> q" by auto
  then show ?case using 2 by (auto simp: Let_def split_def)
qed simp

lemma eligible_entry:
  assumes inv: "box_inv b" and cp: "ComparablePrice_of ord = Inr op"
    and e: "(a, px, q) \<in> set (eligible b op (Opposite_working_orders (buy_sell ord) b))"
  obtains wo wp where "heap b a = Some wo" "working b (client_order_id wo) = Some a"
    "order_ok (m_contract_name b) wo wp" "q = quantity wo" "crosses op wp" "px = trade_price op wp"
proof -
  obtain wp ws where w: "(wp, ws) \<in> set (Opposite_working_orders (buy_sell ord) b)" "a \<in> set ws"
    "crosses op wp" "px = trade_price op wp" "q = resting b a"
    using e by (auto simp: eligible_def)
  then have "(wp, ws) \<in> set (m_bid b) \<or> (wp, ws) \<in> set (m_ask b)"
    by (auto simp: Opposite_working_orders_def split: if_splits)
  then obtain wo where "heap b a = Some wo" "working b (client_order_id wo) = Some a"
    "order_ok (m_contract_name b) wo wp"
    using level_orders [OF inv _ w(2)] by blast
  then show thesis using that w by (simp add: resting_def)
qed

lemma reference_match:
  assumes inv: "box_inv b" and cp: "ComparablePrice_of ord = Inr op" and q: "quantity ord \<noteq> 0"
    and r: "reference_matches ord op b = (ms, r, c)" and m: "m \<in> set ms"
  obtains wo wp where "heap b (match_order m) = Some wo"
    "working b (client_order_id wo) = Some (match_order m)" "order_ok (m_contract_name b) wo wp"
    "match_quantity m \<noteq> 0" "match_quantity m \<le> quantity wo"
    "crosses op wp" "match_price m = trade_price op wp"
proof -
  let ?es = "eligible b op (Opposite_working_orders (buy_sell ord) b)"
  have m': "m \<in> set (fst (allocate (quantity ord) ?es))"
    using r m by (auto simp: reference_matches_def Let_def split: prod.splits if_splits)
  have "snd (snd e) \<noteq> 0" if "e \<in> set ?es" for e
  proof -
    obtain a px qq where e: "e = (a, px, qq)" by (rule prod_cases3)
    show ?thesis
      by (rule eligible_entry [OF inv cp, of a px qq]) (use that e in \<open>auto simp: order_ok_def\<close>)
  qed
  then have "match_quantity m \<noteq> 0" using allocate_positive [OF q _ m'] by blast
  moreover obtain qq where qq: "(match_order m, match_price m, qq) \<in> set ?es" "match_quantity m \<le> qq"
    using allocate_entry [OF m'] by blast
  ultimately show thesis using eligible_entry [OF inv cp qq(1)] qq(2) that by metis
qed

lemma reference_sum:
  assumes "reference_matches ord op b = (ms, r, c)"
  shows "(\<Sum>m\<leftarrow>ms. unat (match_quantity m)) + unat r = unat (quantity ord)"
  using assms allocate_sum [of "quantity ord" "eligible b op (Opposite_working_orders (buy_sell ord) b)"]
  by (auto simp: reference_matches_def Let_def split: prod.splits if_splits)

text \<open>
  matching neither creates nor loses quantity: what is matched and what is left add up
  to the order's quantity (as numbers, so no 64-bit sum wrapped), and every match takes a
  positive quantity, at most what the resting order has, from an order that is allocated and
  working.
\<close>
theorem matches_conserve_quantity:
  assumes "box_inv b" and "quantity ord \<noteq> 0"
    and "Matches ord (Opposite_working_orders (buy_sell ord) b) b = Inr (ms, r, c)"
  shows "(\<Sum>m\<leftarrow>ms. unat (match_quantity m)) + unat r = unat (quantity ord) \<and>
    (\<forall>m \<in> set ms. \<exists>wo. heap b (match_order m) = Some wo \<and>
      working b (client_order_id wo) = Some (match_order m) \<and>
      0 < match_quantity m \<and> match_quantity m \<le> quantity wo)"
proof -
  obtain op where cp: "ComparablePrice_of ord = Inr op"
    using assms(3) by (auto simp: Matches_def bind_res_Inr_iff)
  have r: "reference_matches ord op b = (ms, r, c)"
    using Matches_reference [OF assms(1) cp assms(2)] assms(3) by simp
  have "\<exists>wo. heap b (match_order m) = Some wo \<and>
      working b (client_order_id wo) = Some (match_order m) \<and>
      0 < match_quantity m \<and> match_quantity m \<le> quantity wo" if "m \<in> set ms" for m
    by (rule reference_match [OF assms(1) cp assms(2) r that]) (auto simp: word_neq_0_conv)
  then show ?thesis using reference_sum [OF r] by blast
qed

text \<open>
  Claim C23: no trade is worse than the limit of the incoming order, a fill-or-kill order is
  matched in full or not at all, and only fill-or-kill and fill-and-kill orders have their
  remainder cancelled.
\<close>
theorem matches_respect_the_order:
  assumes "box_inv b" and "quantity ord \<noteq> 0" and "ComparablePrice_of ord = Inr op"
    and "Matches ord (Opposite_working_orders (buy_sell ord) b) b = Inr (ms, r, c)"
  shows "(Is_market op \<or> (\<forall>m \<in> set ms. if buy_sell ord = BS_Buy then match_price m \<le> Price op
           else Price op \<le> match_price m)) \<and>
     (tif ord \<noteq> TIF_FOK \<or> (r = 0 \<and> \<not> c) \<or> (ms = [] \<and> r = quantity ord \<and> c)) \<and>
     (c = (r \<noteq> 0 \<and> tif ord \<in> {TIF_FAK, TIF_FOK}))"
proof -
  have r: "reference_matches ord op b = (ms, r, c)"
    using Matches_reference [OF assms(1,3,2)] assms(4) by simp
  have "if buy_sell ord = BS_Buy then match_price m \<le> Price op else Price op \<le> match_price m"
    if "m \<in> set ms" "\<not> Is_market op" for m
    using ComparablePrice_side [OF assms(3)] that(2)
    by (rule_tac reference_match [OF assms(1,3,2) r that(1)])
      (auto simp: crosses_def trade_price_def split: if_splits)
  moreover have "tif ord \<noteq> TIF_FOK \<or> (r = 0 \<and> \<not> c) \<or> (ms = [] \<and> r = quantity ord \<and> c)"
    "c = (r \<noteq> 0 \<and> tif ord \<in> {TIF_FAK, TIF_FOK})"
    using r assms(2) by (auto simp: reference_matches_def Let_def split: prod.splits if_splits)
  ultimately show ?thesis by blast
qed

section \<open>A box with two offers\<close>

lemma Add_order_keeps:
  assumes "box_inv b" "order_ok (m_contract_name b) ord cp" "working b (client_order_id ord) = None"
    "cancelled b (client_order_id ord) = None"
  shows "box_inv (snd (projr (Add_order ord b)))"
  by (rule Add_order_effect [OF assms]) simp

definition example_order :: "string \<Rightarrow> BuySell \<Rightarrow> string \<Rightarrow> u64 \<Rightarrow> TimeInForce \<Rightarrow> Order" where
  "example_order cid bs px q t = Order_default\<lparr>client_order_id := cid, contract := ''ES'', buy_sell := bs,
     o_price := px, quantity := q, tif := t, order_type := OT_Limit\<rparr>"

definition example_box :: TradeOrderBox where
  "example_box = snd (projr (Add_order (example_order ''B'' BS_Sell ''1.5'' 3 TIF_GTC)
     (snd (projr (Add_order (example_order ''A'' BS_Sell ''1.25'' 4 TIF_GTC) (TradeOrderBox_new ''ES''))))))"

lemma example_box_inv: "box_inv example_box"
proof -
  let ?b = "snd (projr (Add_order (example_order ''A'' BS_Sell ''1.25'' 4 TIF_GTC) (TradeOrderBox_new ''ES'')))"
  have "box_inv ?b"
    by (rule Add_order_keeps [OF TradeOrderBox_new_inv, of _ _ "\<lparr>Is_buy = False, Price = 125\<rparr>"]) code_simp+
  then show ?thesis
    unfolding example_box_def
    by (rule Add_order_keeps [of _ _ "\<lparr>Is_buy = False, Price = 150\<rparr>"]) code_simp+
qed

definition example_taker :: "TimeInForce \<Rightarrow> Order" where
  "example_taker t = example_order ''C'' BS_Buy ''1.3'' 9 t"

lemma example_taker_price: "ComparablePrice_of (example_taker t) = Inr \<lparr>Is_buy = True, Price = 130\<rparr>"
proof -
  have "map_res TO_ORDER_PRICE (stod ''1.3'') = Inr 130" by code_simp
  then show ?thesis
    by (auto simp: ComparablePrice_of_def example_taker_def example_order_def Order_default_def map_res_Inr_iff)
qed

theorem matches_equal_reference_witness:
  "Matches (example_taker TIF_FAK) (Opposite_working_orders BS_Buy example_box) example_box =
    Inr ([\<lparr>match_order = 0, match_price = 125, match_quantity = 4\<rparr>], 5, True)"
proof -
  have "reference_matches (example_taker TIF_FAK) \<lparr>Is_buy = True, Price = 130\<rparr> example_box =
      ([\<lparr>match_order = 0, match_price = 125, match_quantity = 4\<rparr>], 5, True)" by code_simp
  moreover have "quantity (example_taker TIF_FAK) \<noteq> 0" "buy_sell (example_taker TIF_FAK) = BS_Buy"
    by (simp_all add: example_taker_def example_order_def)
  ultimately show ?thesis
    using matches_equal_reference [OF example_box_inv example_taker_price [of TIF_FAK]] by simp
qed

lemma example_matches:
  "Matches (example_taker TIF_GTC) (Opposite_working_orders (buy_sell (example_taker TIF_GTC)) example_box)
    example_box = Inr ([\<lparr>match_order = 0, match_price = 125, match_quantity = 4\<rparr>], 5, False)"
  "Matches (example_taker TIF_FOK) (Opposite_working_orders (buy_sell (example_taker TIF_FOK)) example_box)
    example_box = Inr ([], 9, True)"
  by code_simp+

lemma example_taker_quantity: "quantity (example_taker t) \<noteq> 0"
  by (simp add: example_taker_def example_order_def)

theorem matches_conserve_quantity_witness:
  "unat (4 :: u64) + unat (5 :: u64) = unat (quantity (example_taker TIF_GTC)) \<and>
   heap example_box 0 \<noteq> None"
  using matches_conserve_quantity [OF example_box_inv example_taker_quantity example_matches(1)] by auto

theorem matches_respect_the_order_witness:
  "(125 :: u32) \<le> 130 \<and> tif (example_taker TIF_GTC) \<noteq> TIF_FAK"
  using matches_respect_the_order
      [OF example_box_inv example_taker_quantity example_taker_price example_matches(1)]
  by (auto simp: example_taker_def example_order_def)

end
