(* ===== verification/Trade_Market.thy ===== *)
theory Trade_Market
  imports Trade_Types
begin

text \<open>
  The market data of the trade simulator: the aggregated book of one contract
  (tmalpha/trade/trade_market_state.cc) and the manager that keeps one per contract and
  publishes it (trade_market_manager.cc).  An operation of the state says how far it reaches:
  0 below the published depth, 1 within it, 2 at the best level.
\<close>

section \<open>The book of one contract\<close>

type_synonym size_levels = "(ComparablePrice \<times> OrderSize) list"

record TradeMarketState =
  mk_contract_name :: string
  mk_depth :: u32
  mk_bid :: size_levels
  mk_ask :: size_levels

definition TradeMarketState_new :: "string \<Rightarrow> u32 \<Rightarrow> TradeMarketState" where
  "TradeMarketState_new name depth =
     \<lparr>mk_contract_name = name, mk_depth = depth, mk_bid = [], mk_ask = []\<rparr>"

definition current_states :: "ComparablePrice \<Rightarrow> TradeMarketState \<Rightarrow> size_levels" where
  "current_states cp m = (if Is_buy cp then mk_bid m else mk_ask m)"

definition set_states :: "ComparablePrice \<Rightarrow> size_levels \<Rightarrow> TradeMarketState \<Rightarrow> TradeMarketState" where
  "set_states cp ls m = (if Is_buy cp then m\<lparr>mk_bid := ls\<rparr> else m\<lparr>mk_ask := ls\<rparr>)"

text \<open>\<open>level\<close> and \<open>m_depth\<close> are compared as \<open>int\<close>.\<close>

definition affected :: "nat \<Rightarrow> TradeMarketState \<Rightarrow> nat" where
  "affected level m = (if sint (mk_depth m) \<le> int level then 0 else if level = 0 then 2 else 1)"

definition On_order_created :: "Order \<Rightarrow> TradeMarketState \<Rightarrow> (nat \<times> TradeMarketState) res" where
  "On_order_created ord m =
     (if order_type ord = OT_Market then Inr (0, m)
      else bind_res (ComparablePrice_of ord) (\<lambda>cp.
        let ls = current_states cp m;
            ls' = (case om_find price_before cp ls of
                     Some s \<Rightarrow> om_put price_before cp (s + quantity ord) ls
                   | None \<Rightarrow> om_put price_before cp (quantity ord) ls)
        in Inr (affected (om_index price_before cp ls') m, set_states cp ls' m)))"

definition ComparablePrice_To_string :: "ComparablePrice \<Rightarrow> string" where
  "ComparablePrice_To_string p = (if Is_buy p then ''Buy at '' else ''Sell at '') @
     (if Is_market p then ''Market'' else to_string_double (TO_REAL_PRICE (Price p)))"

definition market_Delete_order ::
    "Order \<Rightarrow> OrderSize \<Rightarrow> TradeMarketState \<Rightarrow> (nat \<times> TradeMarketState) res" where
  "market_Delete_order ord delete_size m =
     (if order_type ord = OT_Market then Inr (0, m)
      else bind_res (ComparablePrice_of ord) (\<lambda>cp.
        let ls = current_states cp m in
        case om_find price_before cp ls of
          None \<Rightarrow> Inl (Invalid_argument (''price not found: '' @ ComparablePrice_To_string cp))
        | Some s \<Rightarrow>
            let ls' = om_put price_before cp (s - delete_size) ls;
                ls'' = (if s - delete_size = 0 then om_erase price_before cp ls' else ls')
            in Inr (affected (om_index price_before cp ls) m, set_states cp ls'' m)))"

definition On_order_deleted :: "Order \<Rightarrow> TradeMarketState \<Rightarrow> (nat \<times> TradeMarketState) res" where
  "On_order_deleted ord m = market_Delete_order ord (quantity ord) m"

definition On_order_filled :: "Order \<Rightarrow> OrderSize \<Rightarrow> TradeMarketState \<Rightarrow> (nat \<times> TradeMarketState) res" where
  "On_order_filled ord filled_size m = market_Delete_order ord filled_size m"

definition Fill_data_point :: "ComparablePrice \<times> OrderSize \<Rightarrow> data_point" where
  "Fill_data_point kv = \<lparr>price = TO_REAL_PRICE (Price (fst kv)), dp_size = snd kv\<rparr>"

text \<open>The loops of \<open>L2\<close>: \<open>n\<close> points are already in the message.\<close>

fun l2_points :: "int \<Rightarrow> nat \<Rightarrow> size_levels \<Rightarrow> data_point list" where
  "l2_points depth n [] = []"
| "l2_points depth n (p # ps) =
     Fill_data_point p # (if depth \<le> int (Suc n) then [] else l2_points depth (Suc n) ps)"

definition L2 :: "TradeMarketState \<Rightarrow> market_event" where
  "L2 m = OnL2 (mk_contract_name m) (l2_points (sint (mk_depth m)) 0 (mk_bid m))
     (l2_points (sint (mk_depth m)) 0 (mk_ask m))"

definition first_point :: "size_levels \<Rightarrow> data_point option" where
  "first_point ls = (case ls of [] \<Rightarrow> None | p # _ \<Rightarrow> Some (Fill_data_point p))"

definition BBO :: "TradeMarketState \<Rightarrow> data_point option \<times> data_point option" where
  "BBO m = (first_point (mk_bid m), first_point (mk_ask m))"

section \<open>The market manager\<close>

text \<open>\<open>m_market_states[name]\<close> creates a null pointer for a contract that was never added, and the
  call through it is undefined behaviour.  The events are those the listener receives, if one is
  set.\<close>

record TradeMarketManager =
  has_market_listener :: bool
  m_market_states :: "string \<rightharpoonup> TradeMarketState"

definition TradeMarketManager_new :: TradeMarketManager where
  "TradeMarketManager_new = \<lparr>has_market_listener = False, m_market_states = Map.empty\<rparr>"

definition market_Set_listener :: "bool \<Rightarrow> TradeMarketManager \<Rightarrow> TradeMarketManager" where
  "market_Set_listener l mm = mm\<lparr>has_market_listener := l\<rparr>"

definition market_Add_contract :: "string \<Rightarrow> u32 \<Rightarrow> TradeMarketManager \<Rightarrow> TradeMarketManager" where
  "market_Add_contract name depth mm =
     mm\<lparr>m_market_states := (m_market_states mm)(name \<mapsto> TradeMarketState_new name depth)\<rparr>"

definition Send_contract :: "contract_definition \<Rightarrow> TradeMarketManager \<Rightarrow> market_event list" where
  "Send_contract c mm = (if has_market_listener mm then [OnContractDefinition c] else [])"

definition market_Send_l2 :: "TradeMarketState \<Rightarrow> TradeMarketManager \<Rightarrow> market_event list" where
  "market_Send_l2 m mm = (if has_market_listener mm then [L2 m] else [])"

definition market_Send_bbo :: "TradeMarketState \<Rightarrow> TradeMarketManager \<Rightarrow> market_event list" where
  "market_Send_bbo m mm =
     (if \<not> has_market_listener mm then []
      else case BBO m of
        (Some b, Some a) \<Rightarrow> [OnBBO (mk_contract_name m) b a]
      | (None, None) \<Rightarrow> []
      | (Some b, None) \<Rightarrow> [OnBid (mk_contract_name m) b]
      | (None, Some a) \<Rightarrow> [OnOffer (mk_contract_name m) a])"

definition market_Send_trade :: "string \<Rightarrow> OrderPrice \<Rightarrow> OrderSize \<Rightarrow> TradeMarketManager \<Rightarrow> market_event list" where
  "market_Send_trade name px q mm =
     (if has_market_listener mm then [OnTrade name \<lparr>price = TO_REAL_PRICE px, dp_size = q\<rparr>] else [])"

text \<open>What the three \<open>Change_market_on_order_...\<close> have in common.\<close>

definition change_market ::
    "(TradeMarketState \<Rightarrow> (nat \<times> TradeMarketState) res) \<Rightarrow> string \<Rightarrow> TradeMarketManager \<Rightarrow>
     (market_event list \<times> TradeMarketManager) res" where
  "change_market f name mm =
     (case m_market_states mm name of
        None \<Rightarrow> Inl Undefined_behaviour
      | Some m \<Rightarrow> bind_res (f m) (\<lambda>(r, m').
          Inr ((if r \<noteq> 0 then market_Send_l2 m' mm else []) @ (if r = 2 then market_Send_bbo m' mm else []),
               mm\<lparr>m_market_states := (m_market_states mm)(name \<mapsto> m')\<rparr>)))"

definition Change_market_on_order_created ::
    "Order \<Rightarrow> TradeMarketManager \<Rightarrow> (market_event list \<times> TradeMarketManager) res" where
  "Change_market_on_order_created ord mm = change_market (On_order_created ord) (contract ord) mm"

definition Change_market_on_order_deleted ::
    "Order \<Rightarrow> TradeMarketManager \<Rightarrow> (market_event list \<times> TradeMarketManager) res" where
  "Change_market_on_order_deleted ord mm = change_market (On_order_deleted ord) (contract ord) mm"

definition Change_market_on_order_filled ::
    "Order \<Rightarrow> OrderSize \<Rightarrow> TradeMarketManager \<Rightarrow> (market_event list \<times> TradeMarketManager) res" where
  "Change_market_on_order_filled ord q mm = change_market (On_order_filled ord q) (contract ord) mm"

section \<open>The book as a function of the price\<close>

definition size_at :: "TradeMarketState \<Rightarrow> ComparablePrice \<Rightarrow> OrderSize option" where
  "size_at m cp = om_find price_before cp (current_states cp m)"

definition market_ok :: "TradeMarketState \<Rightarrow> bool" where
  "market_ok m \<longleftrightarrow> bids.keys_ok (mk_bid m) \<and> asks.keys_ok (mk_ask m)"

lemma market_new_ok: "market_ok (TradeMarketState_new name d)" "size_at (TradeMarketState_new name d) cp = None"
  by (simp_all add: market_ok_def TradeMarketState_new_def bids.keys_ok_Nil asks.keys_ok_Nil
      size_at_def current_states_def)

lemma set_states_simps [simp]:
  "mk_contract_name (set_states cp ls m) = mk_contract_name m"
  "mk_depth (set_states cp ls m) = mk_depth m"
  by (simp_all add: set_states_def)

lemma size_at_set:
  assumes "market_ok m"
  shows "size_at (set_states cp (om_put price_before cp s (current_states cp m)) m) =
      (size_at m)(cp \<mapsto> s)"
    and "size_at (set_states cp (om_erase price_before cp (current_states cp m)) m) =
      (size_at m)(cp := None)"
proof -
  have k: "bids.keys_ok (mk_bid m)" "asks.keys_ok (mk_ask m)" using assms by (simp_all add: market_ok_def)
  show "size_at (set_states cp (om_put price_before cp s (current_states cp m)) m) =
      (size_at m)(cp \<mapsto> s)"
  proof
    fix cq
    show "size_at (set_states cp (om_put price_before cp s (current_states cp m)) m) cq =
      ((size_at m)(cp \<mapsto> s)) cq"
      using bids.find_put [OF k(1), of cp cq s] asks.find_put [OF k(2), of cp cq s]
      by (cases "Is_buy cp"; cases "Is_buy cq")
        (auto simp: size_at_def current_states_def set_states_def)
  qed
  show "size_at (set_states cp (om_erase price_before cp (current_states cp m)) m) =
      (size_at m)(cp := None)"
  proof
    fix cq
    show "size_at (set_states cp (om_erase price_before cp (current_states cp m)) m) cq =
      ((size_at m)(cp := None)) cq"
      using bids.find_erase [OF k(1), of cp cq] asks.find_erase [OF k(2), of cp cq]
      by (cases "Is_buy cp"; cases "Is_buy cq")
        (auto simp: size_at_def current_states_def set_states_def)
  qed
qed

lemma market_ok_set:
  assumes "market_ok m"
  shows "market_ok (set_states cp (om_put price_before cp s (current_states cp m)) m)"
    and "market_ok (set_states cp (om_erase price_before cp (current_states cp m)) m)"
  using assms bids.keys_ok_put [of "mk_bid m" cp s] asks.keys_ok_put [of "mk_ask m" cp s]
    bids.keys_ok_erase [of "mk_bid m" cp] asks.keys_ok_erase [of "mk_ask m" cp]
  by (cases "Is_buy cp"; simp add: market_ok_def set_states_def current_states_def)+

lemma current_set: "current_states cp (set_states cp ls m) = ls"
  by (simp add: current_states_def set_states_def)

lemma set_set: "set_states cp ls (set_states cp ls' m) = set_states cp ls m"
  by (simp add: set_states_def)

section \<open>What an operation leaves as it was\<close>

lemma l2_points_take: "int n < d \<Longrightarrow> l2_points d n ls = map Fill_data_point (take (nat d - n) ls)"
proof (induction d n ls rule: l2_points.induct)
  case (2 d n p ps)
  have "nat d - n = Suc (nat d - Suc n)" using 2(2) by simp
  then show ?case using 2 by (cases "d \<le> int (Suc n)") simp_all
qed simp

lemma first_point_take: "0 < n \<Longrightarrow> first_point (take n ls) = first_point ls"
  by (cases ls; cases n) (simp_all add: first_point_def)

text \<open>An operation that keeps the first \<open>i\<close> levels of one side and all of the other.\<close>

definition keeps_levels :: "nat \<Rightarrow> TradeMarketState \<Rightarrow> TradeMarketState \<Rightarrow> bool" where
  "keeps_levels i m m' \<longleftrightarrow> mk_contract_name m' = mk_contract_name m \<and> mk_depth m' = mk_depth m \<and>
     take i (mk_bid m') = take i (mk_bid m) \<and> take i (mk_ask m') = take i (mk_ask m)"

lemma take_mono: "take i xs = take i ys \<Longrightarrow> j \<le> i \<Longrightarrow> take j xs = take j ys"
  by (metis min.absorb1 take_take)

lemma keeps_levels_L2:
  assumes "keeps_levels i m m'" "0 < sint (mk_depth m)" "affected i m = 0"
  shows "L2 m' = L2 m"
proof -
  have "nat (sint (mk_depth m)) \<le> i" using assms(2,3) by (simp add: affected_def split: if_splits)
  then show ?thesis
    using assms(1,2) take_mono [of i "mk_bid m'" "mk_bid m"] take_mono [of i "mk_ask m'" "mk_ask m"]
    by (simp add: L2_def keeps_levels_def l2_points_take)
qed

lemma keeps_levels_BBO:
  assumes "keeps_levels i m m'" "0 < sint (mk_depth m)" "affected i m \<noteq> 2"
  shows "BBO m' = BBO m"
proof -
  have i: "0 < i" using assms(2,3) by (cases i) (simp_all add: affected_def split: if_splits)
  show ?thesis
    using assms(1) first_point_take [OF i, of "mk_bid m'"] first_point_take [OF i, of "mk_bid m"]
      first_point_take [OF i, of "mk_ask m'"] first_point_take [OF i, of "mk_ask m"]
    by (simp add: BBO_def keeps_levels_def)
qed

lemma keeps_levels_set:
  assumes "take i ls = take i (current_states cp m)"
  shows "keeps_levels i m (set_states cp ls m)"
  using assms by (simp add: keeps_levels_def set_states_def current_states_def)

lemma index_put_price:
  assumes "market_ok m"
  shows "om_index price_before cp (om_put price_before cp s (current_states cp m)) =
    om_index price_before cp (current_states cp m)"
  using assms bids.index_put [of "mk_bid m" cp s] asks.index_put [of "mk_ask m" cp s]
  by (cases "Is_buy cp") (simp_all add: market_ok_def current_states_def)

definition level_of :: "ComparablePrice \<Rightarrow> TradeMarketState \<Rightarrow> nat" where
  "level_of cp m = om_index price_before cp (current_states cp m)"

text \<open>The effects: a limit order adds to its price, a deletion or a fill takes away from it.\<close>

lemma On_order_created_effect:
  assumes ok: "market_ok m" and lim: "order_type ord \<noteq> OT_Market" and cp: "ComparablePrice_of ord = Inr cp"
  obtains m' where "On_order_created ord m = Inr (affected (level_of cp m) m, m')" "market_ok m'"
    "keeps_levels (level_of cp m) m m'"
    "size_at m' = (size_at m)(cp \<mapsto>
       (case size_at m cp of Some s \<Rightarrow> s + quantity ord | None \<Rightarrow> quantity ord))"
proof -
  let ?s = "case size_at m cp of Some s \<Rightarrow> s + quantity ord | None \<Rightarrow> quantity ord"
  let ?ls = "om_put price_before cp ?s (current_states cp m)"
  have "On_order_created ord m = Inr (affected (level_of cp m) m, set_states cp ?ls m)"
    using lim cp index_put_price [OF ok]
    by (simp add: On_order_created_def Let_def size_at_def level_of_def split: option.splits)
  moreover have "keeps_levels (level_of cp m) m (set_states cp ?ls m)"
    by (rule keeps_levels_set) (simp add: take_index_put level_of_def)
  ultimately show thesis
    using that market_ok_set(1) [OF ok, of cp ?s] size_at_set(1) [OF ok, of cp ?s] by blast
qed

lemma market_Delete_order_effect:
  assumes ok: "market_ok m" and lim: "order_type ord \<noteq> OT_Market" and cp: "ComparablePrice_of ord = Inr cp"
    and s: "size_at m cp = Some s"
  obtains m' where "market_Delete_order ord q m = Inr (affected (level_of cp m) m, m')" "market_ok m'"
    "keeps_levels (level_of cp m) m m'"
    "size_at m' = (size_at m)(cp := if s = q then None else Some (s - q))"
proof -
  let ?ls = "om_put price_before cp (s - q) (current_states cp m)"
  let ?m1 = "set_states cp ?ls m"
  define m' where "m' = (if s = q then set_states cp (om_erase price_before cp ?ls) m else ?m1)"
  note m1 = market_ok_set(1) [OF ok, of cp "s - q"] size_at_set(1) [OF ok, of cp "s - q"]
  note m2 = market_ok_set(2) [OF m1(1), of cp] size_at_set(2) [OF m1(1), of cp]
  have keep: "keeps_levels (level_of cp m) m (set_states cp ls m)"
    if "ls = ?ls \<or> ls = om_erase price_before cp ?ls" for ls
    using index_put_price [OF ok, of cp "s - q"] that
    by (intro keeps_levels_set) (auto simp only: take_index_put take_index_erase level_of_def order.refl)
  have "market_Delete_order ord q m = Inr (affected (level_of cp m) m, m')"
    using lim cp s by (simp add: market_Delete_order_def Let_def size_at_def level_of_def m'_def)
  moreover have "market_ok m'"
    using m1(1) m2(1) unfolding m'_def current_set set_set by (simp only: if_split) blast
  moreover have "keeps_levels (level_of cp m) m m'" using keep by (simp only: m'_def if_split simp_thms)
  moreover have "size_at m' = (size_at m)(cp := if s = q then None else Some (s - q))"
    using m1(2) m2(2) unfolding m'_def current_set set_set by (cases "s = q") (simp_all only: simp_thms if_True if_False fun_upd_upd)
  ultimately show thesis using that by blast
qed

section \<open>The subscribers of the market data\<close>

text \<open>An answer of the book is right when it does not understate what changed.\<close>

definition reaches :: "nat \<Rightarrow> TradeMarketState \<Rightarrow> TradeMarketState \<Rightarrow> bool" where
  "reaches r m m' \<longleftrightarrow> market_ok m' \<and> mk_contract_name m' = mk_contract_name m \<and>
     mk_depth m' = mk_depth m \<and> (r = 0 \<longrightarrow> L2 m' = L2 m) \<and> (r \<noteq> 2 \<longrightarrow> BBO m' = BBO m)"

lemma reaches_keeps:
  "keeps_levels i m m' \<Longrightarrow> 0 < sint (mk_depth m) \<Longrightarrow> market_ok m' \<Longrightarrow> reaches (affected i m) m m'"
  using keeps_levels_L2 [of i m m'] keeps_levels_BBO [of i m m']
  by (simp add: reaches_def) (simp add: keeps_levels_def)

lemma On_order_created_reaches:
  assumes "On_order_created ord m = Inr (r, m')" "market_ok m" "0 < sint (mk_depth m)"
  shows "reaches r m m'"
proof (cases "order_type ord = OT_Market")
  case True
  then show ?thesis using assms by (simp add: On_order_created_def reaches_def)
next
  case False
  then obtain cp where cp: "ComparablePrice_of ord = Inr cp"
    using assms(1) by (auto simp: On_order_created_def bind_res_Inr_iff)
  show ?thesis
    by (rule On_order_created_effect [OF assms(2) False cp]) (use assms reaches_keeps in auto)
qed

lemma market_Delete_order_reaches:
  assumes "market_Delete_order ord q m = Inr (r, m')" "market_ok m" "0 < sint (mk_depth m)"
  shows "reaches r m m'"
proof (cases "order_type ord = OT_Market")
  case True
  then show ?thesis using assms by (simp add: market_Delete_order_def reaches_def)
next
  case False
  then obtain cp s where cp: "ComparablePrice_of ord = Inr cp" "size_at m cp = Some s"
    using assms(1)
    by (auto simp: market_Delete_order_def bind_res_Inr_iff Let_def size_at_def split: option.splits)
  show ?thesis
    by (rule market_Delete_order_effect [OF assms(2) False cp, of q]) (use assms reaches_keeps in auto)
qed

text \<open>The calls the simulator makes, and what a strategy remembers of the events of a contract.\<close>

datatype market_op = Created Order | Removed Order | Matched Order OrderSize

fun market_step :: "market_op \<Rightarrow> TradeMarketManager \<Rightarrow> (market_event list \<times> TradeMarketManager) res" where
  "market_step (Created ord) mm = Change_market_on_order_created ord mm"
| "market_step (Removed ord) mm = Change_market_on_order_deleted ord mm"
| "market_step (Matched ord q) mm = Change_market_on_order_filled ord q mm"

fun market_steps :: "market_op list \<Rightarrow> TradeMarketManager \<Rightarrow> (market_event list \<times> TradeMarketManager) res" where
  "market_steps [] mm = Inr ([], mm)"
| "market_steps (x # xs) mm = bind_res (market_step x mm) (\<lambda>(es, mm1).
     map_res (\<lambda>(es', mm2). (es @ es', mm2)) (market_steps xs mm1))"

record book_seen =
  seen_l2 :: market_event
  seen_bid :: "data_point option"
  seen_ask :: "data_point option"

fun see :: "string \<Rightarrow> market_event \<Rightarrow> book_seen \<Rightarrow> book_seen" where
  "see name (OnL2 c b a) k = (if c = name then k\<lparr>seen_l2 := OnL2 c b a\<rparr> else k)"
| "see name (OnBBO c b a) k = (if c = name then k\<lparr>seen_bid := Some b, seen_ask := Some a\<rparr> else k)"
| "see name (OnBid c b) k = (if c = name then k\<lparr>seen_bid := Some b\<rparr> else k)"
| "see name (OnOffer c a) k = (if c = name then k\<lparr>seen_ask := Some a\<rparr> else k)"
| "see name _ k = k"

definition up_to_date :: "TradeMarketState \<Rightarrow> book_seen \<Rightarrow> bool" where
  "up_to_date m k \<longleftrightarrow> seen_l2 k = L2 m \<and>
     (fst (BBO m) \<noteq> None \<longrightarrow> seen_bid k = fst (BBO m)) \<and>
     (snd (BBO m) \<noteq> None \<longrightarrow> seen_ask k = snd (BBO m))"

definition manager_ok :: "TradeMarketManager \<Rightarrow> bool" where
  "manager_ok mm \<longleftrightarrow> has_market_listener mm \<and>
     (\<forall>n m. m_market_states mm n = Some m \<longrightarrow>
        mk_contract_name m = n \<and> market_ok m \<and> 0 < sint (mk_depth m))"

lemma market_see_l2: "mk_contract_name m = n \<Longrightarrow> see n (L2 m) k = k\<lparr>seen_l2 := L2 m\<rparr>"
  by (simp add: L2_def)

lemma market_see_bbo:
  assumes "has_market_listener mm" "seen_l2 k = L2 m"
  shows "up_to_date m (fold (see (mk_contract_name m)) (market_Send_bbo m mm) k)"
  using assms by (cases "fst (BBO m)"; cases "snd (BBO m)")
    (auto simp: up_to_date_def market_Send_bbo_def split: prod.splits)

lemma sent_up_to_date:
  assumes "reaches r m m'" "has_market_listener mm" "up_to_date m k"
  shows "up_to_date m' (fold (see (mk_contract_name m'))
    ((if r \<noteq> 0 then market_Send_l2 m' mm else []) @ (if r = 2 then market_Send_bbo m' mm else [])) k)"
proof (cases "r = 0 \<or> r = 2")
  case True
  then show ?thesis
  proof
    assume "r = 0"
    then show ?thesis using assms(1,3) by (simp add: reaches_def up_to_date_def)
  next
    assume "r = 2"
    then show ?thesis
      using market_see_bbo [OF assms(2), of "k\<lparr>seen_l2 := L2 m'\<rparr>" m'] assms(2)
      by (simp add: market_Send_l2_def market_see_l2)
  qed
next
  case False
  then show ?thesis
    using assms by (simp add: reaches_def up_to_date_def market_Send_l2_def market_see_l2)
qed

lemma see_other:
  assumes "n \<noteq> name" "mk_contract_name m' = n"
  shows "fold (see name)
    ((if r then market_Send_l2 m' mm else []) @ (if r' then market_Send_bbo m' mm else [])) k = k"
  using assms by (cases "fst (BBO m')"; cases "snd (BBO m')")
    (auto simp: market_Send_l2_def market_Send_bbo_def L2_def split: prod.splits)

lemma change_market_up_to_date:
  assumes ok: "manager_ok mm" and ch: "change_market f n mm = Inr (es, mm')"
    and f: "\<And>m r m'. f m = Inr (r, m') \<Longrightarrow> market_ok m \<Longrightarrow> 0 < sint (mk_depth m) \<Longrightarrow> reaches r m m'"
    and old: "\<forall>m. m_market_states mm name = Some m \<longrightarrow> up_to_date m k"
  shows "manager_ok mm' \<and> (\<forall>m. m_market_states mm' name = Some m \<longrightarrow> up_to_date m (fold (see name) es k))"
proof -
  obtain m r m' where m: "m_market_states mm n = Some m" "f m = Inr (r, m')"
    and es: "es = (if r \<noteq> 0 then market_Send_l2 m' mm else []) @ (if r = 2 then market_Send_bbo m' mm else [])"
    and mm': "mm' = mm\<lparr>m_market_states := (m_market_states mm)(n \<mapsto> m')\<rparr>"
    using ch by (auto simp: change_market_def bind_res_Inr_iff split: option.splits)
  have r: "reaches r m m'" and L: "has_market_listener mm" and nm: "mk_contract_name m' = n"
    using ok m f [OF m(2)] by (auto simp: manager_ok_def reaches_def)
  have "manager_ok mm'" using ok r m(1) by (auto simp: manager_ok_def mm' reaches_def)
  moreover have "up_to_date m' (fold (see name) es k)" if "n = name"
    using sent_up_to_date [OF r L] old m(1) nm that by (simp add: es)
  moreover have "fold (see name) es k = k" if "n \<noteq> name"
    using see_other [OF that nm] by (simp add: es)
  ultimately show ?thesis using old by (auto simp: mm')
qed

lemma market_step_up_to_date:
  assumes "manager_ok mm" "market_step x mm = Inr (es, mm')"
    "\<forall>m. m_market_states mm name = Some m \<longrightarrow> up_to_date m k"
  shows "manager_ok mm' \<and> (\<forall>m. m_market_states mm' name = Some m \<longrightarrow> up_to_date m (fold (see name) es k))"
proof (cases x)
  case (Created ord)
  have "change_market (On_order_created ord) (contract ord) mm = Inr (es, mm')"
    using assms(2) Created by (simp add: Change_market_on_order_created_def)
  then show ?thesis by (rule change_market_up_to_date [OF assms(1) _ On_order_created_reaches assms(3)])
next
  case (Removed ord)
  have "change_market (market_Delete_order ord (quantity ord)) (contract ord) mm = Inr (es, mm')"
    using assms(2) Removed by (simp add: Change_market_on_order_deleted_def On_order_deleted_def [abs_def])
  then show ?thesis by (rule change_market_up_to_date [OF assms(1) _ market_Delete_order_reaches assms(3)])
next
  case (Matched ord q)
  have "change_market (market_Delete_order ord q) (contract ord) mm = Inr (es, mm')"
    using assms(2) Matched by (simp add: Change_market_on_order_filled_def On_order_filled_def [abs_def])
  then show ?thesis by (rule change_market_up_to_date [OF assms(1) _ market_Delete_order_reaches assms(3)])
qed

text \<open>
  Claim C11: the simulator publishes enough: a strategy that keeps the last L2 and the last best
  prices it received for a contract holds, after any sequence of created, deleted and filled
  orders of any contracts, exactly the L2 of the current book, and the best bid and offer of
  every side that is not empty.
\<close>
theorem trade_subscribers_stay_current:
  assumes "manager_ok mm" and "market_steps xs mm = Inr (es, mm')"
    and "\<forall>m. m_market_states mm name = Some m \<longrightarrow> up_to_date m k"
    and "m_market_states mm' name = Some m"
  shows "up_to_date m (fold (see name) es k)"
proof -
  have "\<forall>m. m_market_states mm' name = Some m \<longrightarrow> up_to_date m (fold (see name) es k)"
    using assms(1-3)
  proof (induction xs arbitrary: mm es k)
    case (Cons x xs)
    then obtain es1 mm1 es2 where x: "market_step x mm = Inr (es1, mm1)" "es = es1 @ es2"
      "market_steps xs mm1 = Inr (es2, mm')"
      by (auto simp: bind_res_Inr_iff map_res_Inr_iff)
    note s = market_step_up_to_date [OF Cons.prems(1) x(1) Cons.prems(3)]
    show ?case using Cons.IH [OF conjunct1 [OF s] x(3) conjunct2 [OF s]] x(2) by simp
  qed simp
  then show ?thesis using assms(4) by blast
qed

text \<open>Two bids at different prices and a partial fill of the better one, at depth 2.\<close>

definition example_manager :: TradeMarketManager where
  "example_manager = market_Add_contract ''ES'' 2 (market_Set_listener True TradeMarketManager_new)"

definition example_limit :: "string \<Rightarrow> BuySell \<Rightarrow> string \<Rightarrow> u64 \<Rightarrow> Order" where
  "example_limit cid bs px q = Order_default\<lparr>client_order_id := cid, contract := ''ES'', buy_sell := bs,
     o_price := px, quantity := q, order_type := OT_Limit\<rparr>"

definition example_ops :: "market_op list" where
  "example_ops = [Created (example_limit ''1'' BS_Buy ''1.25'' 5),
     Created (example_limit ''2'' BS_Buy ''1.5'' 7), Matched (example_limit ''2'' BS_Buy ''1.5'' 7) 3]"

definition example_seen :: book_seen where
  "example_seen = \<lparr>seen_l2 = OnL2 ''ES'' [] [], seen_bid = None, seen_ask = None\<rparr>"

theorem trade_subscribers_stay_current_witness:
  "\<exists>es mm' m. market_steps example_ops example_manager = Inr (es, mm') \<and>
     m_market_states mm' ''ES'' = Some m \<and> length es = 6 \<and>
     up_to_date m (fold (see ''ES'') es example_seen)"
proof -
  have "case market_steps example_ops example_manager of
      Inr (es, mm') \<Rightarrow> m_market_states mm' ''ES'' \<noteq> None \<and> length es = 6 | Inl _ \<Rightarrow> False"
    by code_simp
  then obtain es mm' m where r: "market_steps example_ops example_manager = Inr (es, mm')"
    "m_market_states mm' ''ES'' = Some m" "length es = 6"
    by (auto split: sum.splits)
  have ok: "manager_ok example_manager"
    by (auto simp: manager_ok_def example_manager_def market_Add_contract_def market_Set_listener_def
        TradeMarketManager_new_def market_new_ok) (simp_all add: TradeMarketState_new_def)
  have "up_to_date m0 example_seen" if "m_market_states example_manager ''ES'' = Some m0" for m0
    using that by (auto simp: example_manager_def market_Add_contract_def up_to_date_def L2_def BBO_def
        TradeMarketState_new_def example_seen_def first_point_def)
  then have "up_to_date m (fold (see ''ES'') es example_seen)"
    using trade_subscribers_stay_current [OF ok r(1) _ r(2)] by blast
  with r show ?thesis by blast
qed

end
