(* ===== verification/Trade_Contracts.thy ===== *)
theory Trade_Contracts
  imports Trade_Types
begin

text \<open>
  The contracts of the trade simulator and the check of an order's price against them
  (tmalpha/trade/trade_contract_assist.h).  Prices and steps are in cents.
\<close>

record TradeContract =
  tc_name :: string
  tc_depth :: u32
  tc_tick :: OrderPrice
  tc_min :: OrderPrice
  tc_max :: OrderPrice

definition To_dms :: "TradeContract \<Rightarrow> contract_definition" where
  "To_dms tc = \<lparr>c_name = tc_name tc, c_tick_size = to_string_double (TO_REAL_PRICE (tc_tick tc)),
     c_tick_value = '''', c_yesterday_close_price = '''',
     c_upper_limit = to_string_double (TO_REAL_PRICE (tc_max tc)),
     c_lower_limit = to_string_double (TO_REAL_PRICE (tc_min tc))\<rparr>"

datatype TradeOrderPreCheckStatus =
  NORMAL | CONTRACT_NOT_EXIST | PRICE_TOO_LOW | PRICE_TOO_HIGH | INVALID_PRICE

type_synonym TradeContractAssist = "string \<rightharpoonup> TradeContract"

definition assist_Add :: "TradeContract \<Rightarrow> TradeContractAssist \<Rightarrow> TradeContractAssist" where
  "assist_Add c m_contracts = m_contracts(tc_name c \<mapsto> c)"

definition Is_contract_exist :: "string \<Rightarrow> TradeContractAssist \<Rightarrow> bool" where
  "Is_contract_exist name m_contracts \<longleftrightarrow> m_contracts name \<noteq> None"

text \<open>The remainder by a tick of 0 is undefined behaviour.\<close>

definition assist_Check_order :: "Order \<Rightarrow> TradeContractAssist \<Rightarrow> TradeOrderPreCheckStatus res" where
  "assist_Check_order ord m_contracts =
     (case m_contracts (contract ord) of
        None \<Rightarrow> Inr CONTRACT_NOT_EXIST
      | Some tc \<Rightarrow>
          bind_res (stod (o_price ord)) (\<lambda>p.
            let nprice = TO_ORDER_PRICE p in
            if p = 0 then Inr NORMAL
            else if p \<noteq> TO_REAL_PRICE nprice then Inr INVALID_PRICE
            else if tc_max tc < nprice then Inr PRICE_TOO_HIGH
            else if nprice < tc_min tc then Inr PRICE_TOO_LOW
            else if tc_tick tc = 0 then Inl Undefined_behaviour
            else if (nprice - tc_min tc) mod tc_tick tc \<noteq> 0 then Inr INVALID_PRICE
            else Inr NORMAL))"

section \<open>Loading\<close>

text \<open>\<open>std::stoul\<close>: blanks, an optional sign (a minus negates the unsigned value), digits, anything
  after them; \<open>unsigned long\<close> has 64 bits.  \<open>boost::split\<close> at every comma.\<close>

definition stoul :: "string \<Rightarrow> u64 res" where
  "stoul s =
     (let (neg, s1) = read_sign (dropWhile is_blank s); (ds, _) = span_digits s1;
          v = digits_value ds
      in if ds = [] then Inl (Invalid_argument ''stoul'')
         else if 2 ^ 64 \<le> v then Inl Out_of_range
         else Inr (if neg then - word_of_int v else word_of_int v))"

fun split_commas :: "string \<Rightarrow> string list" where
  "split_commas [] = [[]]"
| "split_commas (c # s) =
     (if c = CHR '','' then [] # split_commas s
      else case split_commas s of t # ts \<Rightarrow> (c # t) # ts | [] \<Rightarrow> [[c]])"

text \<open>\<open>cs[i]\<close> behind the end is undefined behaviour.\<close>

definition nth_u32 :: "string list \<Rightarrow> nat \<Rightarrow> u32 res" where
  "nth_u32 cs i =
     (if i < length cs then map_res (\<lambda>v. ucast v) (stoul (cs ! i)) else Inl Undefined_behaviour)"

definition read_contract :: "string \<times> string \<Rightarrow> TradeContract res" where
  "read_contract c =
     (let cs = split_commas (snd c) in
      bind_res (nth_u32 cs 0) (\<lambda>depth.
      bind_res (nth_u32 cs 1) (\<lambda>tick.
      bind_res (nth_u32 cs 2) (\<lambda>min.
      map_res (\<lambda>max. \<lparr>tc_name = fst c, tc_depth = depth, tc_tick = tick, tc_min = min, tc_max = max\<rparr>)
        (nth_u32 cs 3)))))"

section \<open>What a passed check means\<close>

lemma assist_Check_order_NORMAL:
  assumes "assist_Check_order ord cs = Inr NORMAL"
  obtains tc p where "cs (contract ord) = Some tc" "stod (o_price ord) = Inr p"
    "p = 0 \<or> (p = TO_REAL_PRICE (TO_ORDER_PRICE p) \<and> tc_min tc \<le> TO_ORDER_PRICE p \<and>
       TO_ORDER_PRICE p \<le> tc_max tc \<and> tc_tick tc dvd TO_ORDER_PRICE p - tc_min tc)"
  using assms
  by (auto simp: assist_Check_order_def bind_res_Inr_iff Let_def not_less split: option.splits if_splits)

text \<open>A price other than 0 that passes is not mistaken for the price of a market order.\<close>

lemma price_zero_iff:
  assumes "p = 0 \<or> p = TO_REAL_PRICE (TO_ORDER_PRICE p)"
  shows "TO_ORDER_PRICE p = 0 \<longleftrightarrow> p = 0"
proof
  assume "TO_ORDER_PRICE p = 0"
  then show "p = 0" using assms by (auto simp: TO_REAL_PRICE_def double_of_int_def double_div_def rnd_def)
next
  assume "p = 0"
  then show "TO_ORDER_PRICE p = 0"
    by (simp add: TO_ORDER_PRICE_def double_mult_def rnd_def double_to_u32_def trunc_rat_def)
qed

section \<open>Prices that are refused\<close>

definition example_contract :: TradeContract where
  "example_contract = \<lparr>tc_name = ''ES'', tc_depth = 5, tc_tick = 1, tc_min = 1, tc_max = 100000\<rparr>"

definition priced :: "string \<Rightarrow> Order" where
  "priced px = Order_default\<lparr>contract := ''ES'', o_price := px\<rparr>"

text \<open>
  The conversion to cents truncates, so that the check refuses prices that are whole
  cents, within the limits and on the tick: 1.13 becomes 112 cents, because the double nearest to
  1.13, multiplied by 100, lies below 113.  And an order without a price, which a market order is
  allowed to be, ends the check with the exception of \<open>std::stod\<close>.
\<close>
theorem check_refuses_valid_prices:
  "TO_ORDER_PRICE (rnd (113 / 100)) = 112 \<and>
   assist_Check_order (priced ''1.13'') [''ES'' \<mapsto> example_contract] = Inr INVALID_PRICE \<and>
   assist_Check_order (priced ''1.12'') [''ES'' \<mapsto> example_contract] = Inr NORMAL \<and>
   assist_Check_order (priced '''') [''ES'' \<mapsto> example_contract] = Inl (Invalid_argument ''stod'')"
  by (intro conjI; code_simp)

end
