(* ===== verification/Trade_Simulater.thy ===== *)
theory Trade_Simulater
  imports Trade_Match Trade_Market Trade_Contracts
begin

text \<open>
  The simulated exchange (tmalpha/trade/trade_simulater.cc) with its order manager
  (trade_order_manager.cc): an order box per contract, the market manager, the contracts and the
  counters of the ids.  What the two listeners receive is kept as a list of events in the state.
  A call through a listener or an algorithm that is not set is undefined behaviour; a resting
  order is an address in the box of its contract.
\<close>

section \<open>The order manager\<close>

type_synonym TradeOrderManager = "string \<rightharpoonup> TradeOrderBox"

definition manager_Add_contract :: "string \<Rightarrow> TradeOrderManager \<Rightarrow> TradeOrderManager" where
  "manager_Add_contract name m_trade_orders = m_trade_orders(name \<mapsto> TradeOrderBox_new name)"

definition Order_box :: "string \<Rightarrow> TradeOrderManager \<Rightarrow> TradeOrderBox res" where
  "Order_box name m_trade_orders =
     (case m_trade_orders name of
        None \<Rightarrow> Inl (Invalid_argument (''contract '' @ name @ '' not exist''))
      | Some b \<Rightarrow> Inr b)"

text \<open>An operation on the box of a contract.\<close>

definition on_box :: "string \<Rightarrow> (TradeOrderBox \<Rightarrow> ('a \<times> TradeOrderBox) res) \<Rightarrow> TradeOrderManager \<Rightarrow>
    ('a \<times> TradeOrderManager) res" where
  "on_box name f m =
     bind_res (Order_box name m) (\<lambda>b. map_res (\<lambda>(x, b'). (x, m(name \<mapsto> b'))) (f b))"

definition manager_Add_order :: "Order \<Rightarrow> TradeOrderManager \<Rightarrow> (Order \<times> TradeOrderManager) res" where
  "manager_Add_order ord = on_box (contract ord) (\<lambda>b.
     bind_res (Add_order ord b) (\<lambda>(a, b'). map_res (\<lambda>w. (w, b')) (deref a b')))"

definition manager_Add_deleted_order :: "Order \<Rightarrow> TradeOrderManager \<Rightarrow> (Order \<times> TradeOrderManager) res" where
  "manager_Add_deleted_order ord = on_box (contract ord) (\<lambda>b.
     let (a, b') = Add_deleted_order ord b in map_res (\<lambda>w. (w, b')) (deref a b'))"

definition manager_Delete_order :: "Order \<Rightarrow> bool \<Rightarrow> TradeOrderManager \<Rightarrow> (Order \<times> TradeOrderManager) res" where
  "manager_Delete_order ord keep = on_box (contract ord) (Delete_order ord keep)"

definition manager_Query_order :: "Order \<Rightarrow> TradeOrderManager \<Rightarrow> Order res" where
  "manager_Query_order ord m = bind_res (Order_box (contract ord) m) (Query_order ord)"

definition manager_Fill_order ::
    "Order \<Rightarrow> string \<Rightarrow> OrderSize \<Rightarrow> OrderPrice \<Rightarrow> TradeOrderManager \<Rightarrow> (Fill \<times> TradeOrderManager) res" where
  "manager_Fill_order ord fid q px = on_box (contract ord) (\<lambda>b. Inr (Fill_order ord fid q px b))"

definition manager_Fill_working_order ::
    "string \<Rightarrow> addr \<Rightarrow> string \<Rightarrow> OrderSize \<Rightarrow> OrderPrice \<Rightarrow> TradeOrderManager \<Rightarrow>
     (Fill \<times> TradeOrderManager) res" where
  "manager_Fill_working_order name a fid q px = on_box name (Fill_working_order a fid q px)"

definition manager_Order_status :: "string \<Rightarrow> string \<Rightarrow> TradeOrderManager \<Rightarrow> order_state res" where
  "manager_Order_status name cid m = map_res (Order_status cid) (Order_box name m)"

definition manager_Opposite_working_orders ::
    "string \<Rightarrow> BuySell \<Rightarrow> TradeOrderManager \<Rightarrow> price_levels res" where
  "manager_Opposite_working_orders name bs m = map_res (Opposite_working_orders bs) (Order_box name m)"

section \<open>State of the simulator\<close>

datatype sim_event = OnOrder Order | OnFill Fill | Market market_event

record TradeSimulater =
  m_exchange_listener :: bool
  m_match_algorithm :: bool
  m_contract_assist :: TradeContractAssist
  m_market_manager :: TradeMarketManager
  m_order_manager :: TradeOrderManager
  m_exchange_order_id :: u32
  m_fill_id :: u32
  events :: "sim_event list"

definition TradeSimulater_new :: TradeSimulater where
  "TradeSimulater_new = \<lparr>m_exchange_listener = False, m_match_algorithm = False,
     m_contract_assist = Map.empty, m_market_manager = TradeMarketManager_new,
     m_order_manager = Map.empty, m_exchange_order_id = 0, m_fill_id = 0, events = []\<rparr>"

definition Set_exchange_listener :: "bool \<Rightarrow> TradeSimulater \<Rightarrow> TradeSimulater" where
  "Set_exchange_listener l s = s\<lparr>m_exchange_listener := l\<rparr>"

definition Set_market_listener :: "bool \<Rightarrow> TradeSimulater \<Rightarrow> TradeSimulater" where
  "Set_market_listener l s = s\<lparr>m_market_manager := market_Set_listener l (m_market_manager s)\<rparr>"

definition Load_match_algorithm :: "bool \<Rightarrow> TradeSimulater \<Rightarrow> TradeSimulater" where
  "Load_match_algorithm ta s = s\<lparr>m_match_algorithm := ta\<rparr>"

definition load_contract :: "string \<times> string \<Rightarrow> TradeSimulater \<Rightarrow> TradeSimulater res" where
  "load_contract c s = map_res (\<lambda>tc.
     s\<lparr>m_contract_assist := assist_Add tc (m_contract_assist s),
       m_market_manager := market_Add_contract (tc_name tc) (tc_depth tc) (m_market_manager s),
       m_order_manager := manager_Add_contract (tc_name tc) (m_order_manager s)\<rparr>) (read_contract c)"

text \<open>The contracts come from a hash map, in its order of iteration.\<close>

definition Load_contracts :: "(string \<times> string) list \<Rightarrow> TradeSimulater \<Rightarrow> TradeSimulater res" where
  "Load_contracts cs s = fold_res load_contract cs s"

definition send_market :: "market_event list \<Rightarrow> TradeSimulater \<Rightarrow> TradeSimulater" where
  "send_market es s = s\<lparr>events := events s @ map Market es\<rparr>"

text \<open>\<open>Start\<close> iterates over the hash map of the contracts: \<open>names\<close> is its order.\<close>

definition TradeSimulater_Start :: "string list \<Rightarrow> TradeSimulater \<Rightarrow> TradeSimulater" where
  "TradeSimulater_Start names s = fold (\<lambda>n s.
     case m_contract_assist s n of
       None \<Rightarrow> s
     | Some tc \<Rightarrow> send_market (Send_contract (To_dms tc) (m_market_manager s)) s) names s"

definition send_order :: "Order \<Rightarrow> TradeSimulater \<Rightarrow> TradeSimulater res" where
  "send_order ord s =
     (if m_exchange_listener s then Inr (s\<lparr>events := events s @ [OnOrder ord]\<rparr>)
      else Inl Undefined_behaviour)"

definition send_fill :: "Fill \<Rightarrow> TradeSimulater \<Rightarrow> TradeSimulater res" where
  "send_fill f s =
     (if m_exchange_listener s then Inr (s\<lparr>events := events s @ [OnFill f]\<rparr>)
      else Inl Undefined_behaviour)"

definition with_orders :: "(TradeOrderManager \<Rightarrow> ('a \<times> TradeOrderManager) res) \<Rightarrow> TradeSimulater \<Rightarrow>
    ('a \<times> TradeSimulater) res" where
  "with_orders f s = map_res (\<lambda>(x, m). (x, s\<lparr>m_order_manager := m\<rparr>)) (f (m_order_manager s))"

definition with_market :: "(TradeMarketManager \<Rightarrow> (market_event list \<times> TradeMarketManager) res) \<Rightarrow>
    TradeSimulater \<Rightarrow> TradeSimulater res" where
  "with_market f s =
     map_res (\<lambda>(es, mm). send_market es (s\<lparr>m_market_manager := mm\<rparr>)) (f (m_market_manager s))"

definition Next_exchange_order_id :: "TradeSimulater \<Rightarrow> string \<times> TradeSimulater" where
  "Next_exchange_order_id s =
     (let i = m_exchange_order_id s + 1 in (''Order-'' @ to_string_word i, s\<lparr>m_exchange_order_id := i\<rparr>))"

definition Next_fill_id :: "TradeSimulater \<Rightarrow> string \<times> TradeSimulater" where
  "Next_fill_id s =
     (let i = m_fill_id s + 1 in (''Fill-'' @ to_string_word i, s\<lparr>m_fill_id := i\<rparr>))"

section \<open>Responses\<close>

definition Make_filled_order :: "Order \<Rightarrow> Fill \<Rightarrow> u64 \<Rightarrow> Order" where
  "Make_filled_order ord fill remaining =
     ord\<lparr>exchange_order_id := f_exchange_order_id fill, status := OS_Filled,
       working_price := o_price ord, working_quantity := remaining,
       filled_quantity := fill_quantity fill, message := ''''\<rparr>"

definition Make_reject_response :: "Order \<Rightarrow> string \<Rightarrow> Order" where
  "Make_reject_response org_order reject_reason =
     org_order\<lparr>status := OS_Rejected, message := reject_reason\<rparr>"

definition Make_cancel_response :: "Order \<Rightarrow> string \<Rightarrow> Order" where
  "Make_cancel_response org_order cancel_reason =
     org_order\<lparr>status := OS_Cancelled, message := cancel_reason\<rparr>"

text \<open>The apostrophe of "order's contract not found" is the character 39.\<close>

definition CONTRACT_NOT_FOUND :: string where
  "CONTRACT_NOT_FOUND = ''order'' @ [CHR 0x27] @ ''s contract not found''"

definition MARKET_ORDER_PRICE_INVALID :: string where
  "MARKET_ORDER_PRICE_INVALID = ''market order'' @ [CHR 0x27] @ ''s price must be 0''"

definition precheck_reason :: "TradeOrderPreCheckStatus \<Rightarrow> string" where
  "precheck_reason ocs =
     (case ocs of NORMAL \<Rightarrow> '''' | CONTRACT_NOT_EXIST \<Rightarrow> CONTRACT_NOT_FOUND
      | PRICE_TOO_LOW \<Rightarrow> ''order price too low'' | PRICE_TOO_HIGH \<Rightarrow> ''order price too high''
      | INVALID_PRICE \<Rightarrow> ''order price invalid'')"

section \<open>The order check\<close>

text \<open>The empty message means that the order is fine.\<close>

definition Check_order :: "Order \<Rightarrow> TradeSimulater \<Rightarrow> string res" where
  "Check_order ord s =
     bind_res (assist_Check_order ord (m_contract_assist s)) (\<lambda>ocs.
       if ocs \<noteq> NORMAL then Inr (precheck_reason ocs)
       else if order_type ord = OT_None then Inr ''order type invalid''
       else if buy_sell ord = BS_None then Inr ''order must be buy or sell''
       else bind_res (stod (o_price ord)) (\<lambda>p.
         if order_type ord = OT_Limit \<and> p = 0 then Inr ''limit order must set price''
         else if order_type ord = OT_Market \<and> p \<noteq> 0 then Inr MARKET_ORDER_PRICE_INVALID
         else if quantity ord = 0 then Inr ''order quantity invalid''
         else Inr ''''))"

section \<open>Matching\<close>

text \<open>One turn of the loop over the matched orders: \<open>remaining\<close> is the quantity that no resting
  order took.\<close>

definition match_step :: "Order \<Rightarrow> OrderSize \<Rightarrow> MatchedOrder \<Rightarrow> TradeSimulater \<Rightarrow> TradeSimulater res" where
  "match_step ord remaining oppo s =
     bind_res (Order_box (contract ord) (m_order_manager s)) (\<lambda>b.
     bind_res (deref (match_order oppo) b) (\<lambda>matched.
     let (fid, s1) = Next_fill_id s in
     bind_res (with_orders (manager_Fill_order ord fid (match_quantity oppo) (match_price oppo)) s1) (\<lambda>(fill, s2).
     bind_res (send_order (Make_filled_order ord fill remaining) s2) (\<lambda>s3.
     bind_res (send_fill fill s3) (\<lambda>s4.
     bind_res (with_orders (manager_Fill_working_order (contract matched) (match_order oppo) fid
                 (match_quantity oppo) (match_price oppo)) s4) (\<lambda>(wfill, s5).
     bind_res (send_order (Make_filled_order matched wfill (quantity matched - fill_quantity wfill)) s5) (\<lambda>s6.
     bind_res (send_fill wfill s6) (\<lambda>s7.
       let s8 = send_market (market_Send_trade (contract ord) (match_price oppo) (match_quantity oppo)
                  (m_market_manager s7)) s7 in
       with_market (Change_market_on_order_filled matched (match_quantity oppo)) s8))))))))"

text \<open>What is left after the matches: cancelled, or resting in the box.\<close>

definition rest_order :: "Order \<Rightarrow> OrderSize \<Rightarrow> bool \<Rightarrow> TradeSimulater \<Rightarrow> TradeSimulater res" where
  "rest_order ord remaining cancel s =
     (if remaining = 0 then Inr s
      else let ord' = ord\<lparr>filled_quantity := quantity ord - remaining, quantity := remaining\<rparr> in
        if cancel then
          bind_res (with_orders (manager_Add_deleted_order ord') s) (\<lambda>(deleted_order, s1).
            send_order (Make_cancel_response deleted_order ''order cancelled'') s1)
        else
          bind_res (with_orders (manager_Add_order ord') s) (\<lambda>(working_order, s1).
          bind_res (send_order working_order s1) (\<lambda>s2.
            with_market (Change_market_on_order_created working_order) s2)))"

definition Match_order :: "Order \<Rightarrow> TradeSimulater \<Rightarrow> TradeSimulater res" where
  "Match_order ord s =
     bind_res (Order_box (contract ord) (m_order_manager s)) (\<lambda>b.
     if \<not> m_match_algorithm s then Inl Undefined_behaviour
     else bind_res (Matches ord (Opposite_working_orders (buy_sell ord) b) b) (\<lambda>(ms, remaining, cancel).
       bind_res (fold_res (match_step ord remaining) ms s) (rest_order ord remaining cancel)))"

section \<open>The requests\<close>

definition sim_Add :: "Order \<Rightarrow> TradeSimulater \<Rightarrow> TradeSimulater res" where
  "sim_Add ord s =
     bind_res (Check_order ord s) (\<lambda>err.
     if err \<noteq> '''' then send_order (Make_reject_response ord err) s
     else bind_res (manager_Order_status (contract ord) (client_order_id ord) (m_order_manager s)) (\<lambda>st.
       if st \<noteq> Not_found then
         send_order (Make_reject_response ord ''client order id already exist'') s
       else
         let (oid, s1) = Next_exchange_order_id s;
             pending = ord\<lparr>exchange_order_id := oid, status := OS_Pending\<rparr>
         in bind_res (send_order pending s1) (Match_order pending)))"

definition sim_Change :: "Order \<Rightarrow> TradeSimulater \<Rightarrow> TradeSimulater res" where
  "sim_Change ord s =
     bind_res (Check_order ord s) (\<lambda>err.
     if err \<noteq> '''' then send_order (Make_reject_response ord err) s
     else bind_res (manager_Order_status (contract ord) (client_order_id ord) (m_order_manager s)) (\<lambda>st.
       if st \<noteq> Working then
         send_order (Make_reject_response ord ''working order not found'') s
       else
         let pending = ord\<lparr>status := OS_Pending\<rparr> in
         bind_res (send_order pending s) (\<lambda>s1.
         bind_res (with_orders (manager_Delete_order ord False) s1) (\<lambda>(deleted_order, s2).
         bind_res (send_order (Make_cancel_response deleted_order ''order cancelled'') s2) (\<lambda>s3.
         bind_res (with_market (Change_market_on_order_deleted deleted_order) s3) (Match_order pending))))))"

definition delete_reject_reason :: "order_state \<Rightarrow> string" where
  "delete_reject_reason st =
     (case st of Deleted \<Rightarrow> ''order is already deleted'' | Working \<Rightarrow> ''''
      | All_filled \<Rightarrow> ''order is already filled'' | Not_found \<Rightarrow> ''order not found'')"

definition sim_Delete :: "Order \<Rightarrow> TradeSimulater \<Rightarrow> TradeSimulater res" where
  "sim_Delete ord s =
     (if \<not> Is_contract_exist (contract ord) (m_contract_assist s) then
        send_order (Make_reject_response ord CONTRACT_NOT_FOUND) s
      else bind_res (manager_Order_status (contract ord) (client_order_id ord) (m_order_manager s)) (\<lambda>st.
        if st \<noteq> Working then send_order (Make_reject_response ord (delete_reject_reason st)) s
        else
          bind_res (with_orders (manager_Delete_order ord True) s) (\<lambda>(deleted_order, s1).
          bind_res (send_order (Make_cancel_response deleted_order ''order cancelled'') s1)
            (with_market (Change_market_on_order_deleted deleted_order)))))"

definition sim_Query :: "Order \<Rightarrow> TradeSimulater \<Rightarrow> TradeSimulater res" where
  "sim_Query ord s =
     (if \<not> Is_contract_exist (contract ord) (m_contract_assist s) then
        send_order (Make_reject_response ord CONTRACT_NOT_FOUND) s
      else bind_res (manager_Query_order ord (m_order_manager s)) (\<lambda>result.
        send_order (if status result = OS_Rejected then result\<lparr>message := ''order not found''\<rparr>
                    else result) s))"

definition On_order_expired :: "Order \<Rightarrow> TradeSimulater \<Rightarrow> TradeSimulater res" where
  "On_order_expired ord s =
     bind_res (send_order (Make_cancel_response ord ''order expired'') s)
       (with_market (Change_market_on_order_deleted ord))"

text \<open>\<open>TradeOrderManager::Delete_expired_order\<close>, which calls the simulator back for each order it
  deleted; \<open>names\<close> is the order of iteration over the hash map of the boxes.\<close>

definition expire_box :: "string \<Rightarrow> TradeSimulater \<Rightarrow> TradeSimulater res" where
  "expire_box name s =
     bind_res (with_orders (on_box name Delete_expired_order) s) (\<lambda>(deleted, s1).
       fold_res (\<lambda>a s. bind_res (Order_box name (m_order_manager s)) (\<lambda>b.
         bind_res (deref a b) (\<lambda>ord. On_order_expired ord s))) deleted s1)"

definition manager_Delete_expired_order :: "string list \<Rightarrow> TradeSimulater \<Rightarrow> TradeSimulater res" where
  "manager_Delete_expired_order names s = fold_res expire_box names s"

end
