(* ===== verification/Trade_Invariant.thy ===== *)
theory Trade_Invariant
  imports Trade_Simulater
begin

text \<open>
  The invariant of the simulated exchange: per contract the box is well formed and the published
  book is its image, the sum of the resting quantities at every limit price.  Each request keeps
  it and never ends in an exception or undefined behaviour.
\<close>

section \<open>The published book is the image of the box\<close>

definition resting_sum :: "TradeOrderBox \<Rightarrow> ComparablePrice \<Rightarrow> nat" where
  "resting_sum b cp = (\<Sum>a\<leftarrow>queue b cp. unat (resting b a))"

definition book_matches :: "TradeOrderBox \<Rightarrow> TradeMarketState \<Rightarrow> bool" where
  "book_matches b m \<longleftrightarrow>
     (\<forall>cp. if Is_market cp then size_at m cp = None
           else resting_sum b cp < 18446744073709551616 \<and>
             size_at m cp = (if resting_sum b cp = 0 then None
                             else Some (word_of_nat (resting_sum b cp))))"

lemma word_take:
  fixes q :: u64
  assumes "unat q \<le> S" "S < 18446744073709551616"
  shows "word_of_nat S - q = word_of_nat (S - unat q)" and "word_of_nat S = q \<longleftrightarrow> S = unat q"
proof -
  show "word_of_nat S - q = word_of_nat (S - unat q)"
    using assms(1) by (simp add: of_nat_diff)
  have "unat (word_of_nat S :: u64) = S" using assms(2) by (simp add: unat_of_nat)
  then show "word_of_nat S = q \<longleftrightarrow> S = unat q" by (metis word_unat_eq_iff)
qed

lemma book_matches_same:
  assumes "book_matches b m" "\<And>cp. \<not> Is_market cp \<Longrightarrow> resting_sum b' cp = resting_sum b cp"
  shows "book_matches b' m"
  using assms by (simp add: book_matches_def)

lemma book_matches_less:
  assumes bm: "book_matches b m" and lim: "\<not> Is_market cp" and q: "0 < unat q" "unat q \<le> resting_sum b cp"
    and m': "size_at m' = (size_at m)(cp := if word_of_nat (resting_sum b cp) = q then None
        else Some (word_of_nat (resting_sum b cp) - q))"
    and b': "\<And>cq. resting_sum b' cq = (if cq = cp then resting_sum b cp - unat q else resting_sum b cq)"
  shows "book_matches b' m'"
proof -
  have S: "resting_sum b cp < 18446744073709551616" using bm lim by (auto simp: book_matches_def)
  have "if Is_market cq then size_at m' cq = None
      else resting_sum b' cq < 18446744073709551616 \<and> size_at m' cq =
        (if resting_sum b' cq = 0 then None else Some (word_of_nat (resting_sum b' cq)))" for cq
  proof (cases "cq = cp")
    case True
    then show ?thesis using lim S word_take [OF q(2) S] q by (auto simp: m' b')
  next
    case False
    then show ?thesis using bm by (simp add: m' b' book_matches_def)
  qed
  then show ?thesis by (simp add: book_matches_def)
qed

lemma book_matches_more:
  assumes bm: "book_matches b m" and lim: "\<not> Is_market cp" and q: "0 < unat q"
    "resting_sum b cp + unat q < 18446744073709551616"
    and m': "size_at m' = (size_at m)(cp \<mapsto> (case size_at m cp of Some s \<Rightarrow> s + q | None \<Rightarrow> q))"
    and b': "\<And>cq. resting_sum b' cq = (if cq = cp then resting_sum b cp + unat q else resting_sum b cq)"
  shows "book_matches b' m'"
proof -
  have s: "size_at m cp = (if resting_sum b cp = 0 then None else Some (word_of_nat (resting_sum b cp)))"
    using bm lim by (simp add: book_matches_def)
  have "(word_of_nat (unat q) :: u64) = q" by simp
  then have "if Is_market cq then size_at m' cq = None
      else resting_sum b' cq < 18446744073709551616 \<and> size_at m' cq =
        (if resting_sum b' cq = 0 then None else Some (word_of_nat (resting_sum b' cq)))" for cq
    using bm lim q s by (auto simp: m' b' book_matches_def)
  then show ?thesis by (simp add: book_matches_def)
qed

lemma size_at_resting:
  assumes "book_matches b m" "\<not> Is_market cp" "0 < resting_sum b cp"
  shows "size_at m cp = Some (word_of_nat (resting_sum b cp))"
  using assms by (simp add: book_matches_def)

section \<open>The sums under the operations of the box\<close>

lemma queue_member:
  assumes "box_inv b" "heap b a = Some ord" "working b (client_order_id ord) = Some a"
  shows "a \<in> set (queue b cp) \<longleftrightarrow> ComparablePrice_of ord = Inr cp"
  using view_queue [OF box_view [OF assms(1)], of a cp] assms(2,3) by auto

lemma resting_le_sum: "a \<in> set (queue b cp) \<Longrightarrow> unat (resting b a) \<le> resting_sum b cp"
  unfolding resting_sum_def by (rule member_le_sum_list) simp_all

lemma resting_sum_cong:
  assumes "queue b' cp = queue b cp" "\<And>a. a \<in> set (queue b cp) \<Longrightarrow> resting b' a = resting b a"
  shows "resting_sum b' cp = resting_sum b cp"
  unfolding resting_sum_def assms(1) using assms(2) by (metis (mono_tags, lifting) map_eq_conv)

lemma resting_sum_removed:
  assumes inv: "box_inv b" and o: "heap b a = Some ord" "working b (client_order_id ord) = Some a"
    and cp: "ComparablePrice_of ord = Inr cp"
    and q: "queue b' = (queue b)(cp := filter (\<lambda>x. x \<noteq> a) (queue b cp))"
    and h: "\<And>x. x \<noteq> a \<Longrightarrow> heap b' x = heap b x"
  shows "resting_sum b' cq = (if cq = cp then resting_sum b cp - unat (quantity ord) else resting_sum b cq)"
proof -
  have r: "resting b' x = resting b x" if "x \<noteq> a" for x using h [OF that] by (simp add: resting_def)
  note mem = queue_member [OF inv o]
  show ?thesis
  proof (cases "cq = cp")
    case True
    have "filter (\<lambda>x. x \<noteq> a) (queue b cp) = remove1 a (queue b cp)"
      using distinct_remove1_removeAll [OF view_distinct [OF box_view [OF inv]]]
      by (simp add: removeAll_filter_not_eq eq_commute)
    moreover have "(\<Sum>x\<leftarrow>queue b cp. unat (resting b x)) =
        unat (resting b a) + (\<Sum>x\<leftarrow>remove1 a (queue b cp). unat (resting b x))"
      by (rule sum_list_map_remove1) (use mem cp in simp)
    moreover have "map (\<lambda>x. unat (resting b' x)) (filter (\<lambda>x. x \<noteq> a) (queue b cp)) =
        map (\<lambda>x. unat (resting b x)) (filter (\<lambda>x. x \<noteq> a) (queue b cp))"
      using r by simp
    then have "(\<Sum>x\<leftarrow>filter (\<lambda>x. x \<noteq> a) (queue b cp). unat (resting b' x)) =
        (\<Sum>x\<leftarrow>filter (\<lambda>x. x \<noteq> a) (queue b cp). unat (resting b x))"
      by (rule arg_cong [where f = sum_list])
    moreover have "resting b a = quantity ord" using o by (simp add: resting_def)
    ultimately show ?thesis using True
      by (simp only: resting_sum_def q fun_upd_same simp_thms if_True add_diff_cancel_left')
  next
    case False
    then have "a \<notin> set (queue b cq)" using mem cp by simp
    then have "resting_sum b' cq = resting_sum b cq"
      by (intro resting_sum_cong) (simp add: q False, metis r)
    then show ?thesis using False by simp
  qed
qed

lemma resting_sum_partial:
  assumes inv: "box_inv b" and o: "heap b a = Some ord" "working b (client_order_id ord) = Some a"
    and cp: "ComparablePrice_of ord = Inr cp" and le: "n \<le> quantity ord"
    and q: "queue b' = queue b" and h: "heap b' = (heap b)(a \<mapsto> ord')" and n: "quantity ord' = quantity ord - n"
  shows "resting_sum b' cq = (if cq = cp then resting_sum b cp - unat n else resting_sum b cq)"
proof -
  have r: "resting b' x = resting b x" if "x \<noteq> a" for x using h that by (simp add: resting_def)
  note mem = queue_member [OF inv o]
  have ra: "unat (resting b a) = unat (resting b' a) + unat n"
    using o le n by (simp add: resting_def h unat_sub_if_size word_le_nat_alt)
  show ?thesis
  proof (cases "cq = cp")
    case True
    have d: "distinct (queue b cp)" by (rule view_distinct [OF box_view [OF inv]])
    then have "resting b' x = resting b x" if "x \<in> set (remove1 a (queue b cp))" for x
      using r that by (cases "x = a") auto
    then have rest: "map (\<lambda>x. unat (resting b' x)) (remove1 a (queue b cp)) =
        map (\<lambda>x. unat (resting b x)) (remove1 a (queue b cp))"
      by simp
    have "a \<in> set (queue b cp)" using mem cp by simp
    note sums = sum_list_map_remove1 [OF this, of "\<lambda>x. unat (resting b x)"]
      sum_list_map_remove1 [OF this, of "\<lambda>x. unat (resting b' x)"]
    have "resting_sum b' cp = resting_sum b cp - unat n"
      unfolding resting_sum_def q sums rest ra by simp
    with True show ?thesis by simp
  next
    case False
    then have "a \<notin> set (queue b cq)" using mem cp by simp
    then have "resting_sum b' cq = resting_sum b cq"
      by (intro resting_sum_cong) (simp add: q, metis r)
    then show ?thesis using False by simp
  qed
qed

lemma resting_sum_added:
  assumes inv: "box_inv b" and q: "queue b' = (queue b)(cp := queue b cp @ [next_addr b])"
    and h: "heap b' = (heap b)(next_addr b \<mapsto> ord)"
  shows "resting_sum b' cq = (if cq = cp then resting_sum b cp + unat (quantity ord) else resting_sum b cq)"
proof -
  have new: "x \<noteq> next_addr b" if "x \<in> set (queue b cr)" for x cr
    using that view_queue [OF box_view [OF inv], of x cr] view_fresh [OF box_view [OF inv]] by auto
  then have r: "resting b' x = resting b x" if "x \<in> set (queue b cr)" for x cr
    using that h by (auto simp: resting_def)
  then have m: "map (\<lambda>x. unat (resting b' x)) (queue b cr) = map (\<lambda>x. unat (resting b x)) (queue b cr)" for cr
    by simp
  have n: "resting b' (next_addr b) = quantity ord" by (simp add: resting_def h)
  show ?thesis
  proof (cases "cq = cp")
    case True
    then show ?thesis by (simp add: resting_sum_def q m n)
  next
    case False
    then show ?thesis by (simp add: resting_sum_def q m)
  qed
qed

section \<open>The invariant\<close>

definition contract_ok :: "string \<Rightarrow> TradeOrderBox \<Rightarrow> TradeMarketState \<Rightarrow> bool" where
  "contract_ok n b m \<longleftrightarrow> box_inv b \<and> m_contract_name b = n \<and> market_ok m \<and>
     mk_contract_name m = n \<and> book_matches b m"

definition sim_inv :: "TradeSimulater \<Rightarrow> bool" where
  "sim_inv s \<longleftrightarrow> m_exchange_listener s \<and> m_match_algorithm s \<and>
     (\<forall>n tc. m_contract_assist s n = Some tc \<longrightarrow> tc_tick tc \<noteq> 0 \<and>
        (\<exists>b m. m_order_manager s n = Some b \<and> m_market_states (m_market_manager s) n = Some m \<and>
           contract_ok n b m))"

text \<open>What changes when a step works on one contract.\<close>

definition changes_contract :: "string \<Rightarrow> TradeOrderBox \<Rightarrow> TradeMarketState \<Rightarrow> TradeSimulater \<Rightarrow>
    TradeSimulater \<Rightarrow> bool" where
  "changes_contract n b m s s' \<longleftrightarrow>
     m_exchange_listener s' = m_exchange_listener s \<and> m_match_algorithm s' = m_match_algorithm s \<and>
     m_contract_assist s' = m_contract_assist s \<and>
     m_order_manager s' = (m_order_manager s)(n \<mapsto> b) \<and>
     m_market_states (m_market_manager s') = (m_market_states (m_market_manager s))(n \<mapsto> m) \<and>
     (\<exists>es. events s' = events s @ es)"

lemma changes_contract_trans:
  "changes_contract n b m s s' \<Longrightarrow> changes_contract n b' m' s' s'' \<Longrightarrow> changes_contract n b' m' s s''"
  by (auto simp: changes_contract_def)

lemma sim_inv_changes:
  "sim_inv s \<Longrightarrow> changes_contract n b m s s' \<Longrightarrow> contract_ok n b m \<Longrightarrow> sim_inv s'"
  by (fastforce simp: sim_inv_def changes_contract_def)

lemma contract_okD:
  assumes "contract_ok n b m"
  shows "box_inv b" "m_contract_name b = n" "market_ok m" "mk_contract_name m = n" "book_matches b m"
  using assms by (simp_all add: contract_ok_def)

lemma with_market_change:
  assumes "m_market_states (m_market_manager s) n = Some m" "f m = Inr (r, m')"
  obtains s' where "with_market (change_market f n) s = Inr s'"
    "m_exchange_listener s' = m_exchange_listener s" "m_match_algorithm s' = m_match_algorithm s"
    "m_contract_assist s' = m_contract_assist s" "m_order_manager s' = m_order_manager s"
    "m_market_states (m_market_manager s') = (m_market_states (m_market_manager s))(n \<mapsto> m')"
    "\<exists>es. events s' = events s @ es"
  using that assms by (simp add: with_market_def change_market_def send_market_def)

text \<open>A resting order loses quantity, in the box and in the published book.\<close>

lemma order_ok_type: "order_ok n ord cp \<Longrightarrow> order_type ord = OT_Market \<longleftrightarrow> Is_market cp"
  by (auto simp: order_ok_def split: if_splits)

lemma market_loses:
  assumes ok: "contract_ok n b m" and o: "heap b a = Some ord" "working b (client_order_id ord) = Some a"
    and oo: "order_ok n ord cp" and q: "q \<noteq> 0" "q \<le> quantity ord"
    and b': "\<And>cq. resting_sum b' cq = (if cq = cp then resting_sum b cp - unat q else resting_sum b cq)"
  obtains r m' where "market_Delete_order ord q m = Inr (r, m')" "market_ok m'"
    "mk_contract_name m' = n" "book_matches b' m'"
proof (cases "order_type ord = OT_Market")
  case True
  then have "Is_market cp" using order_ok_type [OF oo] by simp
  then have "resting_sum b' cq = resting_sum b cq" if "\<not> Is_market cq" for cq using b' [of cq] that by auto
  then have "book_matches b' m" by (rule book_matches_same [OF contract_okD(5) [OF ok]])
  moreover have "market_Delete_order ord q m = Inr (0, m)" using True by (simp add: market_Delete_order_def)
  ultimately show thesis using that [of 0 m] contract_okD [OF ok] by blast
next
  case False
  then have lim: "\<not> Is_market cp" using order_ok_type [OF oo] by simp
  have cp: "ComparablePrice_of ord = Inr cp" by (rule order_okD [OF oo])
  have "a \<in> set (queue b cp)" using queue_member [OF contract_okD(1) [OF ok] o] cp by simp
  then have "unat (quantity ord) \<le> resting_sum b cp" using resting_le_sum o by (fastforce simp: resting_def)
  then have u: "0 < unat q" "unat q \<le> resting_sum b cp"
    using q by (simp_all add: unat_gt_0 word_le_nat_alt)
  note s = size_at_resting [OF contract_okD(5) [OF ok] lim less_le_trans [OF u]]
  obtain m' where m': "market_Delete_order ord q m = Inr (affected (level_of cp m) m, m')" "market_ok m'"
    "keeps_levels (level_of cp m) m m'"
    "size_at m' = (size_at m)(cp := if word_of_nat (resting_sum b cp) = q then None
       else Some (word_of_nat (resting_sum b cp) - q))"
    by (rule market_Delete_order_effect [OF contract_okD(3) [OF ok] False cp s])
  have "book_matches b' m'"
    by (rule book_matches_less [OF contract_okD(5) [OF ok] lim u m'(4) b'])
  moreover have "mk_contract_name m' = n" using m'(3) contract_okD [OF ok] by (simp add: keeps_levels_def)
  ultimately show thesis using that m' by blast
qed

section \<open>One match\<close>

text \<open>The matches that are still to be executed point to different working orders that can give
  the quantity.\<close>

definition pending_ok :: "TradeOrderBox \<Rightarrow> MatchedOrder list \<Rightarrow> bool" where
  "pending_ok b ms \<longleftrightarrow> distinct (map match_order ms) \<and>
     (\<forall>mo \<in> set ms. \<exists>wo. heap b (match_order mo) = Some wo \<and>
        working b (client_order_id wo) = Some (match_order mo) \<and>
        match_quantity mo \<noteq> 0 \<and> match_quantity mo \<le> quantity wo)"

definition after_fill :: "Order \<Rightarrow> OrderSize \<Rightarrow> Order option" where
  "after_fill wo q = (if quantity wo = q then None
     else Some (wo\<lparr>quantity := quantity wo - q, filled_quantity := filled_quantity wo + q\<rparr>))"

text \<open>The box after one match for the order \<open>ord\<close>.\<close>

definition matched_box :: "Order \<Rightarrow> MatchedOrder \<Rightarrow> TradeOrderBox \<Rightarrow> TradeOrderBox \<Rightarrow> bool" where
  "matched_box ord mo b b' \<longleftrightarrow>
     (\<exists>wo cp fill wfill. heap b (match_order mo) = Some wo \<and> ComparablePrice_of wo = Inr cp \<and>
        working b (client_order_id wo) = Some (match_order mo) \<and>
        heap b' = (heap b)(match_order mo := after_fill wo (match_quantity mo)) \<and>
        queue b' = (if quantity wo = match_quantity mo
          then (queue b)(cp := filter (\<lambda>x. x \<noteq> match_order mo) (queue b cp)) else queue b) \<and>
        working b' = (if quantity wo = match_quantity mo
          then (working b)(client_order_id wo := None) else working b) \<and>
        cancelled b' = cancelled b \<and> next_addr b' = next_addr b \<and>
        fill_quantity fill = match_quantity mo \<and> fill_quantity wfill = match_quantity mo \<and>
        f_client_order_id fill = client_order_id ord \<and> f_client_order_id wfill = client_order_id wo \<and>
        fills_of b' = (fills_of b)(client_order_id ord := fills_of b (client_order_id ord) @ [fill],
          client_order_id wo := (if client_order_id wo = client_order_id ord
            then fills_of b (client_order_id ord) @ [fill] else fills_of b (client_order_id wo)) @ [wfill]))"

lemma Order_box_Some: "m n = Some b \<Longrightarrow> Order_box n m = Inr b"
  by (simp add: Order_box_def)

lemma match_step_effect:
  assumes inv: "sim_inv s" and b: "m_order_manager s (contract ord) = Some b"
    and m: "m_market_states (m_market_manager s) (contract ord) = Some m"
    and ok: "contract_ok (contract ord) b m" and p: "pending_ok b (mo # ms)"
  obtains s' b' m' where "match_step ord r mo s = Inr s'"
    "changes_contract (contract ord) b' m' s s'" "contract_ok (contract ord) b' m'"
    "matched_box ord mo b b'"
proof -
  let ?n = "contract ord" and ?a = "match_order mo" and ?q = "match_quantity mo"
  obtain wo where wo: "heap b ?a = Some wo" "working b (client_order_id wo) = Some ?a"
    and q: "?q \<noteq> 0" "?q \<le> quantity wo"
    using p by (auto simp: pending_ok_def)
  note binv = contract_okD(1) [OF ok]
  obtain cp where oo: "order_ok (m_contract_name b) wo cp"
    using view_working [OF box_view [OF binv] wo(2)] wo(1) by auto
  then have cp: "ComparablePrice_of wo = Inr cp" and cn: "contract wo = ?n"
    using contract_okD(2) [OF ok] by (simp_all add: order_ok_def)
  define fid where "fid = ''Fill-'' @ to_string_word (m_fill_id s + 1)"
  obtain fill b1 where b1: "Add_filled_order ord fid ?q (match_price mo) b = (fill, b1)" "box_inv b1"
    "queue b1 = queue b" "working b1 = working b" "cancelled b1 = cancelled b" "heap b1 = heap b"
    "fills_of b1 = (fills_of b)(client_order_id ord := fills_of b (client_order_id ord) @ [fill])"
    "m_contract_name b1 = m_contract_name b" "next_addr b1 = next_addr b"
    "fill_quantity fill = ?q" "f_client_order_id fill = client_order_id ord"
    by (rule Add_filled_order_effect [OF binv])
  have wo1: "working b1 (client_order_id wo) = Some ?a" "heap b1 ?a = Some wo"
    using b1 wo by simp_all
  obtain wfill b2 where b2: "Fill_working_order ?a fid ?q (match_price mo) b1 = Inr (wfill, b2)"
    "box_inv b2"
    "queue b2 = (if quantity wo = ?q then (queue b1)(cp := filter (\<lambda>x. x \<noteq> ?a) (queue b1 cp)) else queue b1)"
    "working b2 = (if quantity wo = ?q then (working b1)(client_order_id wo := None) else working b1)"
    "cancelled b2 = cancelled b1"
    "heap b2 = (heap b1)(?a := (if quantity wo = ?q then None
       else Some (wo\<lparr>quantity := quantity wo - ?q, filled_quantity := filled_quantity wo + ?q\<rparr>)))"
    "fills_of b2 = (fills_of b1)(client_order_id wo := fills_of b1 (client_order_id wo) @ [wfill])"
    "m_contract_name b2 = m_contract_name b1" "next_addr b2 = next_addr b1"
    "fill_quantity wfill = ?q" "f_client_order_id wfill = client_order_id wo"
    by (rule Fill_working_order_effect [OF b1(2) wo1 cp])
  have sums: "resting_sum b2 cq = (if cq = cp then resting_sum b cp - unat ?q else resting_sum b cq)" for cq
  proof (cases "quantity wo = ?q")
    case True
    then show ?thesis
      using resting_sum_removed [OF binv wo cp, of b2 cq] b1 b2 by simp
  next
    case False
    then show ?thesis
      using resting_sum_partial [OF binv wo cp q(2), of b2 _ cq] b1 b2 by simp
  qed
  obtain rr m' where m': "market_Delete_order wo ?q m = Inr (rr, m')" "market_ok m'"
    "mk_contract_name m' = ?n" "book_matches b2 m'"
    by (rule market_loses [OF ok wo oo [unfolded contract_okD(2) [OF ok]] q sums])
  have L: "m_exchange_listener s" using inv by (simp add: sim_inv_def)
  define s1 where "s1 = s\<lparr>m_fill_id := m_fill_id s + 1, m_order_manager := (m_order_manager s)(?n \<mapsto> b2),
     events := events s @ [OnOrder (Make_filled_order ord fill r), OnFill fill,
       OnOrder (Make_filled_order wo wfill (quantity wo - fill_quantity wfill)), OnFill wfill]\<rparr>"
  define s2 where "s2 = send_market (market_Send_trade ?n (match_price mo) ?q (m_market_manager s)) s1"
  have mm2: "m_market_states (m_market_manager s2) ?n = Some m"
    by (simp add: s2_def s1_def send_market_def m)
  obtain s' where s': "with_market (change_market (On_order_filled wo ?q) ?n) s2 = Inr s'"
    "m_exchange_listener s' = m_exchange_listener s2" "m_match_algorithm s' = m_match_algorithm s2"
    "m_contract_assist s' = m_contract_assist s2" "m_order_manager s' = m_order_manager s2"
    "m_market_states (m_market_manager s') = (m_market_states (m_market_manager s2))(?n \<mapsto> m')"
    "\<exists>es. events s' = events s2 @ es"
    using with_market_change [OF mm2, of "On_order_filled wo ?q"] m'(1) by (auto simp: On_order_filled_def)
  have "match_step ord r mo s = Inr s'"
    using b wo(1) b1(1) b2(1) L s'(1) cn
    by (simp add: match_step_def Order_box_Some deref_def Next_fill_id_def with_orders_def
        manager_Fill_order_def manager_Fill_working_order_def on_box_def Fill_order_def send_order_def
        send_fill_def Change_market_on_order_filled_def [abs_def] Let_def s2_def s1_def fid_def)
  moreover have "changes_contract ?n b2 m' s s'"
    using s' by (auto simp: changes_contract_def s2_def s1_def send_market_def)
  moreover have "contract_ok ?n b2 m'"
    using m' b1 b2 contract_okD(2) [OF ok] by (simp add: contract_ok_def)
  moreover have "matched_box ord mo b b2"
    unfolding matched_box_def after_fill_def using wo cp b1 b2 by (intro exI [of _ wo] exI [of _ cp] exI [of _ fill] exI [of _ wfill]) auto
  ultimately show thesis using that by blast
qed

section \<open>All matches\<close>

text \<open>The quantity of an order as the box accounts for it: what was filled, and what still works or
  was cancelled.\<close>

definition unfilled :: "TradeOrderBox \<Rightarrow> string \<Rightarrow> nat" where
  "unfilled b cid = (case working b cid of Some a \<Rightarrow> unat (resting b a)
     | None \<Rightarrow> (case cancelled b cid of Some a \<Rightarrow> unat (resting b a) | None \<Rightarrow> 0))"

definition accounted :: "TradeOrderBox \<Rightarrow> string \<Rightarrow> nat" where
  "accounted b cid = (\<Sum>f\<leftarrow>fills_of b cid. unat (fill_quantity f)) + unfilled b cid"

lemma unfilled_other:
  assumes inv: "box_inv b" and w: "working b cid = Some a" and ne: "cid' \<noteq> cid"
    and same: "working b' cid' = working b cid'" "cancelled b' cid' = cancelled b cid'"
      "\<And>x. x \<noteq> a \<Longrightarrow> heap b' x = heap b x"
  shows "unfilled b' cid' = unfilled b cid'"
proof -
  note V = view_okD [OF box_view [OF inv]]
  have r: "resting b' x = resting b x" if "x \<noteq> a" for x using same(3) [OF that] by (simp add: resting_def)
  have "x \<noteq> a" if "working b cid' = Some x" for x using view_inj [OF box_view [OF inv] w] that ne by auto
  moreover have "x \<noteq> a" if "cancelled b cid' = Some x" for x
    using V(6) [OF that] V(3) [OF w] ne by auto
  ultimately show ?thesis using r same(1,2) by (auto simp: unfilled_def split: option.splits)
qed

lemma matched_box_accounted:
  assumes inv: "box_inv b" and m: "matched_box ord mo b b1" and p: "pending_ok b (mo # ms)"
    and new: "working b (client_order_id ord) = None" and ne: "cid \<noteq> client_order_id ord"
  shows "accounted b1 cid = accounted b cid"
proof -
  let ?a = "match_order mo" and ?q = "match_quantity mo"
  obtain wo cp fill wfill where wo: "heap b ?a = Some wo" "working b (client_order_id wo) = Some ?a"
    "heap b1 = (heap b)(?a := after_fill wo ?q)"
    "working b1 = (if quantity wo = ?q then (working b)(client_order_id wo := None) else working b)"
    "cancelled b1 = cancelled b" "fill_quantity wfill = ?q"
    "fills_of b1 = (fills_of b)(client_order_id ord := fills_of b (client_order_id ord) @ [fill],
          client_order_id wo := (if client_order_id wo = client_order_id ord
            then fills_of b (client_order_id ord) @ [fill] else fills_of b (client_order_id wo)) @ [wfill])"
    using m unfolding matched_box_def by blast
  have le: "?q \<le> quantity wo" using p wo(1) by (auto simp: pending_ok_def)
  have wne: "client_order_id wo \<noteq> client_order_id ord" using wo(2) new by auto
  show ?thesis
  proof (cases "cid = client_order_id wo")
    case False
    then have "unfilled b1 cid = unfilled b cid"
      using unfilled_other [OF inv wo(2) False, of b1] wo(3-5) by simp
    then show ?thesis using False ne wo(7) by (simp add: accounted_def)
  next
    case True
    have c: "cancelled b cid = None"
      using view_cancelled [OF box_view [OF inv], of cid] wo(2) True by (cases "cancelled b cid") auto
    have "unfilled b1 cid + unat ?q = unfilled b cid"
      using True wo(1-5) c le
      by (auto simp: unfilled_def resting_def after_fill_def unat_sub_if_size word_le_nat_alt)
    then show ?thesis using True wne wo(6,7) by (simp add: accounted_def)
  qed
qed

text \<open>The box after the matches \<open>ms\<close>: the matched orders have lost what was taken from them, and
  disappeared when nothing is left; the queues keep their order.\<close>

definition taken :: "MatchedOrder list \<Rightarrow> addr \<Rightarrow> MatchedOrder option" where
  "taken ms a = find (\<lambda>mo. match_order mo = a) ms"

definition matched_boxes :: "Order \<Rightarrow> MatchedOrder list \<Rightarrow> TradeOrderBox \<Rightarrow> TradeOrderBox \<Rightarrow> bool" where
  "matched_boxes ord ms b b' \<longleftrightarrow>
     (\<forall>a. heap b' a = (case taken ms a of None \<Rightarrow> heap b a
        | Some mo \<Rightarrow> Option.bind (heap b a) (\<lambda>wo. after_fill wo (match_quantity mo)))) \<and>
     (\<forall>cp. queue b' cp = filter (\<lambda>a. heap b' a \<noteq> None) (queue b cp)) \<and>
     (\<forall>cid. working b cid = None \<longrightarrow> working b' cid = None) \<and>
     cancelled b' = cancelled b \<and> next_addr b' = next_addr b \<and> (ms = [] \<longrightarrow> b' = b) \<and>
     (\<forall>cid. cid \<noteq> client_order_id ord \<longrightarrow> accounted b' cid = accounted b cid) \<and>
     (\<exists>fs. map fill_quantity fs = map match_quantity ms \<and>
        (\<forall>f \<in> set fs. f_client_order_id f = client_order_id ord) \<and>
        fills_of b' (client_order_id ord) = fills_of b (client_order_id ord) @ fs)"

lemma matched_boxes_Nil: "box_inv b \<Longrightarrow> matched_boxes ord [] b b"
proof -
  assume inv: "box_inv b"
  have "filter (\<lambda>a. heap b a \<noteq> None) (queue b cp) = queue b cp" for cp
    using view_queue [OF box_view [OF inv]] by (auto simp: filter_id_conv)
  then show ?thesis by (simp add: matched_boxes_def taken_def)
qed

lemma matched_box_queue:
  assumes inv: "box_inv b" and m: "matched_box ord mo b b1"
  shows "queue b1 cq = filter (\<lambda>a. heap b1 a \<noteq> None) (queue b cq)"
proof -
  let ?a = "match_order mo"
  obtain wo cp where wo: "heap b ?a = Some wo" "ComparablePrice_of wo = Inr cp"
    "working b (client_order_id wo) = Some ?a"
    "heap b1 = (heap b)(?a := after_fill wo (match_quantity mo))"
    "queue b1 = (if quantity wo = match_quantity mo
       then (queue b)(cp := filter (\<lambda>x. x \<noteq> ?a) (queue b cp)) else queue b)"
    using m unfolding matched_box_def by blast
  have all: "heap b x \<noteq> None" if "x \<in> set (queue b cr)" for x cr
    using that view_queue [OF box_view [OF inv], of x cr] by auto
  have a: "?a \<in> set (queue b cr) \<longleftrightarrow> cp = cr" for cr
    using queue_member [OF inv wo(1,3), of cr] wo(2) by simp
  show ?thesis
  proof (cases "quantity wo = match_quantity mo")
    case True
    then have "heap b1 x \<noteq> None \<longleftrightarrow> x \<noteq> ?a" if "x \<in> set (queue b cq)" for x
      using all [OF that] by (auto simp: wo(4) after_fill_def)
    then have "filter (\<lambda>a. heap b1 a \<noteq> None) (queue b cq) = filter (\<lambda>x. x \<noteq> ?a) (queue b cq)"
      by (rule filter_cong [OF refl])
    moreover have "filter (\<lambda>x. x \<noteq> ?a) (queue b cq) = queue b cq" if "cp \<noteq> cq"
      using a [of cq] that by (auto simp: filter_id_conv)
    ultimately show ?thesis using True wo(5) by auto
  next
    case False
    then have "heap b1 x \<noteq> None" if "x \<in> set (queue b cq)" for x
      using all [OF that] by (auto simp: wo(4) after_fill_def)
    then have "filter (\<lambda>a. heap b1 a \<noteq> None) (queue b cq) = queue b cq"
      by (simp add: filter_id_conv)
    then show ?thesis using False wo(5) by simp
  qed
qed

lemma matched_boxes_Cons:
  assumes inv: "box_inv b" and m: "matched_box ord mo b b1" and ms: "matched_boxes ord ms b1 b2"
    and p: "pending_ok b (mo # ms)" and new: "working b (client_order_id ord) = None"
  shows "matched_boxes ord (mo # ms) b b2"
proof -
  have d: "match_order mo \<notin> match_order ` set ms" using p by (simp add: pending_ok_def)
  let ?a = "match_order mo"
  obtain wo cp fill wfill where wo: "heap b ?a = Some wo" "working b (client_order_id wo) = Some ?a"
    "heap b1 = (heap b)(?a := after_fill wo (match_quantity mo))"
    "working b1 = (if quantity wo = match_quantity mo
       then (working b)(client_order_id wo := None) else working b)"
    "cancelled b1 = cancelled b" "next_addr b1 = next_addr b" "fill_quantity fill = match_quantity mo"
    "f_client_order_id fill = client_order_id ord"
    "fills_of b1 = (fills_of b)(client_order_id ord := fills_of b (client_order_id ord) @ [fill],
          client_order_id wo := (if client_order_id wo = client_order_id ord
            then fills_of b (client_order_id ord) @ [fill] else fills_of b (client_order_id wo)) @ [wfill])"
    using m unfolding matched_box_def by blast
  have cid: "client_order_id wo \<noteq> client_order_id ord" using wo(2) new by auto
  note A = ms [unfolded matched_boxes_def]
  have none: "taken ms ?a = None" using d unfolding taken_def find_None_iff by (metis image_eqI)
  have h: "heap b2 x = (case taken (mo # ms) x of None \<Rightarrow> heap b x
      | Some mo \<Rightarrow> Option.bind (heap b x) (\<lambda>wo. after_fill wo (match_quantity mo)))" for x
    using A [THEN conjunct1, rule_format, of x] none wo(1)
    by (cases "x = ?a") (auto simp: taken_def wo(3) split: option.splits)
  have sub: "heap b1 x \<noteq> None" if "heap b2 x \<noteq> None" for x
    using that A [THEN conjunct1, rule_format, of x] by (cases "heap b1 x") (auto split: option.splits)
  have q: "queue b2 cq = filter (\<lambda>a. heap b2 a \<noteq> None) (queue b cq)" for cq
    using A matched_box_queue [OF inv m, of cq] sub
    by (auto intro!: filter_cong simp: conj_commute)
  obtain fs where fs: "map fill_quantity fs = map match_quantity ms"
    "\<forall>f \<in> set fs. f_client_order_id f = client_order_id ord"
    "fills_of b2 (client_order_id ord) = fills_of b1 (client_order_id ord) @ fs"
    using A by blast
  have "\<forall>cid. working b cid = None \<longrightarrow> working b2 cid = None"
    using A wo(4) by (auto split: if_splits)
  moreover have "\<exists>fs. map fill_quantity fs = map match_quantity (mo # ms) \<and>
      (\<forall>f \<in> set fs. f_client_order_id f = client_order_id ord) \<and>
      fills_of b2 (client_order_id ord) = fills_of b (client_order_id ord) @ fs"
    using fs wo(7-9) cid by (intro exI [of _ "fill # fs"]) simp
  moreover have "\<forall>cid. cid \<noteq> client_order_id ord \<longrightarrow> accounted b2 cid = accounted b cid"
    using A matched_box_accounted [OF inv m p new] by simp
  ultimately show ?thesis
    using h q A wo(5,6) unfolding matched_boxes_def by simp
qed

lemma pending_ok_step:
  assumes inv: "box_inv b" and p: "pending_ok b (mo # ms)" and m: "matched_box ord mo b b1"
  shows "pending_ok b1 ms"
proof -
  obtain wo where wo: "heap b (match_order mo) = Some wo"
    "working b (client_order_id wo) = Some (match_order mo)"
    "heap b1 = (heap b)(match_order mo := after_fill wo (match_quantity mo))"
    "working b1 = (if quantity wo = match_quantity mo
       then (working b)(client_order_id wo := None) else working b)"
    using m unfolding matched_box_def by blast
  have "\<exists>x. heap b1 (match_order m') = Some x \<and> working b1 (client_order_id x) = Some (match_order m') \<and>
      match_quantity m' \<noteq> 0 \<and> match_quantity m' \<le> quantity x" if m': "m' \<in> set ms" for m'
  proof -
    have "match_order mo \<notin> match_order ` set ms" using p by (simp add: pending_ok_def)
    then have ne: "match_order m' \<noteq> match_order mo" using m' by (metis image_eqI)
    obtain x where x: "heap b (match_order m') = Some x"
      "working b (client_order_id x) = Some (match_order m')"
      "match_quantity m' \<noteq> 0" "match_quantity m' \<le> quantity x"
      using p m' by (auto simp: pending_ok_def)
    have "client_order_id x \<noteq> client_order_id wo" using x(2) wo(2) ne by auto
    then show ?thesis using x wo(3,4) ne by simp
  qed
  then show ?thesis using p by (simp add: pending_ok_def)
qed

lemma changes_contract_refl:
  assumes "m_order_manager s n = Some b" "m_market_states (m_market_manager s) n = Some m"
  shows "changes_contract n b m s s"
  using assms by (auto simp: changes_contract_def fun_eq_iff)

lemma matches_effect:
  assumes "sim_inv s" "m_order_manager s (contract ord) = Some b"
    "m_market_states (m_market_manager s) (contract ord) = Some m"
    "contract_ok (contract ord) b m" "pending_ok b ms" "working b (client_order_id ord) = None"
  shows "\<exists>s' b' m'. fold_res (match_step ord r) ms s = Inr s' \<and>
    changes_contract (contract ord) b' m' s s' \<and> contract_ok (contract ord) b' m' \<and>
    matched_boxes ord ms b b'"
  using assms
proof (induction ms arbitrary: s b m)
  case Nil
  then show ?case
    using changes_contract_refl [of s "contract ord" b m]
      matched_boxes_Nil [OF contract_okD(1) [OF Nil(4)], of ord] by auto
next
  case (Cons mo ms)
  obtain s1 b1 m1 where 1: "match_step ord r mo s = Inr s1" "changes_contract (contract ord) b1 m1 s s1"
    "contract_ok (contract ord) b1 m1" "matched_box ord mo b b1"
    by (rule match_step_effect [OF Cons.prems(1-5)])
  note binv = contract_okD(1) [OF Cons.prems(4)]
  have s1: "m_order_manager s1 (contract ord) = Some b1"
    "m_market_states (m_market_manager s1) (contract ord) = Some m1"
    using 1(2) by (simp_all add: changes_contract_def)
  have w1: "working b1 (client_order_id ord) = None"
    using 1(4) Cons.prems(6) unfolding matched_box_def by auto
  obtain s2 b2 m2 where 2: "fold_res (match_step ord r) ms s1 = Inr s2"
    "changes_contract (contract ord) b2 m2 s1 s2" "contract_ok (contract ord) b2 m2"
    "matched_boxes ord ms b1 b2"
    using Cons.IH [OF sim_inv_changes [OF Cons.prems(1) 1(2,3)] s1 1(3)
        pending_ok_step [OF binv Cons.prems(5) 1(4)] w1] by blast
  have "matched_boxes ord (mo # ms) b b2"
    by (rule matched_boxes_Cons [OF binv 1(4) 2(4) Cons.prems(5,6)])
  then show ?case using 1(1) 2 changes_contract_trans [OF 1(2) 2(2)] by auto
qed

section \<open>Matching an order\<close>

text \<open>No resting order is matched twice.\<close>

lemma eligible_addresses:
  "a \<in> fst ` set (eligible b op ls) \<Longrightarrow> \<exists>(wp, ws) \<in> set ls. a \<in> set ws"
  by (force simp: eligible_def)

lemma distinct_eligible:
  assumes "box_inv b" "om_wf price_before ls" "\<forall>(wp, ws) \<in> set ls. queue b wp = ws"
    "\<forall>wp \<in> fst ` set ls. \<not> price_before wp wp"
  shows "distinct (map fst (eligible b op ls))"
  using assms(2-4)
proof (induction ls)
  case (Cons l ls)
  obtain wp ws where l: "l = (wp, ws)" by (rule prod.exhaust)
  have ws: "queue b wp = ws" using Cons.prems(2) l by auto
  have "a \<notin> set ws" if a: "a \<in> fst ` set (eligible b op ls)" for a
  proof
    assume aw: "a \<in> set ws"
    obtain wq wr where wq: "(wq, wr) \<in> set ls" "a \<in> set wr" using eligible_addresses [OF a] by auto
    then have "queue b wq = wr" using Cons.prems(2) by auto
    then have "wq = wp"
      using aw ws wq(2) view_queue [OF box_view [OF assms(1)], of a wp]
        view_queue [OF box_view [OF assms(1)], of a wq] by auto
    moreover have "price_before wp wq" using Cons.prems(1) wq(1) l by force
    ultimately show False using Cons.prems(3) l by auto
  qed
  moreover have "distinct ws" using view_distinct [OF box_view [OF assms(1)], of wp] ws by simp
  moreover have "map fst (entries b px ws) = ws" for px by (simp add: entries_def comp_def)
  moreover have "distinct (map fst (eligible b op ls))" using Cons l by auto
  ultimately show ?case by (auto simp: l eligible_simps)
qed (simp add: eligible_simps)

lemma distinct_opposite:
  assumes inv: "box_inv b"
  shows "distinct (map fst (eligible b op (Opposite_working_orders bs b)))"
proof (rule distinct_eligible [OF inv])
  note k = levels_keys(1,2) [OF box_levels [OF inv]]
  let ?ls = "Opposite_working_orders bs b"
  show "om_wf price_before ?ls"
    using k by (simp add: Opposite_working_orders_def bids.keys_ok_def asks.keys_ok_def)
  show "\<forall>(wp, ws) \<in> set ?ls. queue b wp = ws"
    using side_level [OF box_levels [OF inv]] by (auto simp: Opposite_working_orders_def)
  show "\<forall>wp \<in> fst ` set ?ls. \<not> price_before wp wp"
    using bids.lt_irrefl asks.lt_irrefl by blast
qed

lemma pending_ok_reference:
  assumes inv: "box_inv b" and cp: "ComparablePrice_of ord = Inr op" and q: "quantity ord \<noteq> 0"
    and r: "reference_matches ord op b = (ms, r, c)"
  shows "pending_ok b ms"
proof -
  let ?al = "allocate (quantity ord) (eligible b op (Opposite_working_orders (buy_sell ord) b))"
  have "distinct (map match_order (fst ?al))"
    unfolding allocate_prefix by (rule distinct_take [OF distinct_opposite [OF inv]])
  then have "distinct (map match_order ms)"
    using r by (auto simp: reference_matches_def Let_def split: prod.splits if_splits)
  moreover have "\<exists>wo. heap b (match_order mo) = Some wo \<and>
      working b (client_order_id wo) = Some (match_order mo) \<and>
      match_quantity mo \<noteq> 0 \<and> match_quantity mo \<le> quantity wo" if "mo \<in> set ms" for mo
    by (rule reference_match [OF inv cp q r that]) blast
  ultimately show ?thesis by (simp add: pending_ok_def)
qed

text \<open>Where the remainder goes.\<close>

definition remainder_order :: "Order \<Rightarrow> OrderSize \<Rightarrow> Order" where
  "remainder_order ord r = ord\<lparr>filled_quantity := quantity ord - r, quantity := r\<rparr>"

definition rested :: "Order \<Rightarrow> ComparablePrice \<Rightarrow> OrderSize \<Rightarrow> bool \<Rightarrow> TradeOrderBox \<Rightarrow> TradeOrderBox \<Rightarrow> bool" where
  "rested ord cp r c b b' \<longleftrightarrow>
     (let cid = client_order_id ord; a = next_addr b; rem = remainder_order ord r in
      if r = 0 then b' = b
      else fills_of b' = fills_of b \<and>
        (if c then queue b' = queue b \<and> working b' = working b \<and>
           cancelled b' = (cancelled b)(cid \<mapsto> a) \<and> heap b' = (heap b)(a \<mapsto> rem\<lparr>status := OS_Cancelled\<rparr>)
         else queue b' = (queue b)(cp := queue b cp @ [a]) \<and> working b' = (working b)(cid \<mapsto> a) \<and>
           cancelled b' = cancelled b \<and> heap b' = (heap b)(a \<mapsto> rem\<lparr>status := OS_Working\<rparr>)))"

lemma rest_order_effect:
  assumes inv: "sim_inv s" and b: "m_order_manager s (contract ord) = Some b"
    and m: "m_market_states (m_market_manager s) (contract ord) = Some m"
    and ok: "contract_ok (contract ord) b m" and oo: "order_ok (contract ord) ord cp"
    and new: "working b (client_order_id ord) = None" "cancelled b (client_order_id ord) = None"
    and room: "\<not> Is_market cp \<Longrightarrow> resting_sum b cp + unat r < 18446744073709551616"
  shows "\<exists>s' b' m'. rest_order ord r c s = Inr s' \<and> changes_contract (contract ord) b' m' s s' \<and>
    contract_ok (contract ord) b' m' \<and> rested ord cp r c b b'"
proof (cases "r = 0")
  case True
  then show ?thesis using changes_contract_refl [OF b m] ok by (auto simp: rest_order_def rested_def)
next
  case r: False
  let ?n = "contract ord" and ?o = "remainder_order ord r"
  note C = contract_okD [OF ok]
  have L: "m_exchange_listener s" using inv by (simp add: sim_inv_def)
  have cp: "ComparablePrice_of ord = Inr cp" by (rule order_okD [OF oo])
  have o': "client_order_id ?o = client_order_id ord" "contract ?o = ?n" "quantity ?o = r"
    "order_type ?o = order_type ord" "ComparablePrice_of ?o = Inr cp"
    using cp by (simp_all add: remainder_order_def ComparablePrice_of_def)
  have oo': "order_ok (m_contract_name b) ?o cp"
    using oo r o' C(2) by (simp add: order_ok_def remainder_order_def)
  show ?thesis
  proof (cases c)
    case True
    obtain b' where b': "Add_deleted_order ?o b = (next_addr b, b')" "box_inv b'" "queue b' = queue b"
      "working b' = working b" "cancelled b' = (cancelled b)(client_order_id ?o \<mapsto> next_addr b)"
      "heap b' = (heap b)(next_addr b \<mapsto> ?o\<lparr>status := OS_Cancelled\<rparr>)"
      "m_filled_orders b' = m_filled_orders b" "m_contract_name b' = m_contract_name b"
      by (rule Add_deleted_order_effect [OF C(1), of ?o]) (use new o' in simp_all)
    define s' where "s' = s\<lparr>m_order_manager := (m_order_manager s)(?n \<mapsto> b'),
      events := events s @ [OnOrder (Make_cancel_response (?o\<lparr>status := OS_Cancelled\<rparr>) ''order cancelled'')]\<rparr>"
    have "rest_order ord r c s = Inr s'"
      using r True b b'(1,6) o' L unfolding rest_order_def remainder_order_def [symmetric]
      by (simp add: with_orders_def manager_Add_deleted_order_def on_box_def Order_box_Some deref_def
          send_order_def s'_def)
    moreover have "changes_contract ?n b' m s s'"
      using m by (auto simp: changes_contract_def s'_def fun_eq_iff)
    moreover have "resting_sum b' cq = resting_sum b cq" for cq
    proof (rule resting_sum_cong)
      fix a assume "a \<in> set (queue b cq)"
      then have "a \<noteq> next_addr b"
        using view_queue [OF box_view [OF C(1)], of a cq] view_fresh [OF box_view [OF C(1)]] by auto
      then show "resting b' a = resting b a" by (simp add: resting_def b'(6))
    qed (simp add: b'(3))
    then have "contract_ok ?n b' m"
      using C b' book_matches_same [OF C(5)] by (simp add: contract_ok_def)
    moreover have "rested ord cp r c b b'"
      using r True b' o' fills_of_cong [OF b'(7)] by (simp add: rested_def)
    ultimately show ?thesis by blast
  next
    case False
    let ?w = "?o\<lparr>status := OS_Working\<rparr>"
    obtain b' where b': "Add_order ?o b = Inr (next_addr b, b')" "box_inv b'"
      "queue b' = (queue b)(cp := queue b cp @ [next_addr b])"
      "working b' = (working b)(client_order_id ?o \<mapsto> next_addr b)" "cancelled b' = cancelled b"
      "heap b' = (heap b)(next_addr b \<mapsto> ?w)"
      "m_filled_orders b' = m_filled_orders b" "m_contract_name b' = m_contract_name b"
      by (rule Add_order_effect [OF C(1) oo']) (use new o' in simp_all)
    have sums: "resting_sum b' cq = (if cq = cp then resting_sum b cp + unat r else resting_sum b cq)" for cq
      using resting_sum_added [OF C(1) b'(3,6), of cq] o' by simp
    have ru: "0 < unat r" using r by (simp add: unat_gt_0)
    have "\<exists>rr m'. On_order_created ?w m = Inr (rr, m') \<and> market_ok m' \<and> mk_contract_name m' = ?n \<and>
        book_matches b' m'"
    proof (cases "order_type ord = OT_Market")
      case mk: True
      then have "Is_market cp" using order_ok_type [OF oo] by simp
      then have "resting_sum b' cq = resting_sum b cq" if "\<not> Is_market cq" for cq
        using sums [of cq] that by auto
      then have "book_matches b' m" by (rule book_matches_same [OF C(5)])
      then show ?thesis using mk C o' by (intro exI [of _ 0] exI [of _ m]) (simp add: On_order_created_def)
    next
      case lm: False
      then have lim: "\<not> Is_market cp" using order_ok_type [OF oo] by simp
      obtain m' where m': "On_order_created ?w m = Inr (affected (level_of cp m) m, m')" "market_ok m'"
        "keeps_levels (level_of cp m) m m'"
        "size_at m' = (size_at m)(cp \<mapsto>
           (case size_at m cp of Some s \<Rightarrow> s + quantity ?w | None \<Rightarrow> quantity ?w))"
        by (rule On_order_created_effect [OF C(3), of ?w cp]) (use lm o' in simp_all)
      have "book_matches b' m'"
        by (rule book_matches_more [OF C(5) lim ru room [OF lim] _ sums])
          (use m'(4) o' in \<open>simp split: option.splits\<close>)
      moreover have "mk_contract_name m' = ?n" using m'(3) C by (simp add: keeps_levels_def)
      ultimately show ?thesis using m' by blast
    qed
    then obtain rr m' where m': "On_order_created ?w m = Inr (rr, m')" "market_ok m'"
      "mk_contract_name m' = ?n" "book_matches b' m'" by blast
    define s1 where "s1 = s\<lparr>m_order_manager := (m_order_manager s)(?n \<mapsto> b'),
      events := events s @ [OnOrder ?w]\<rparr>"
    obtain s' where s': "with_market (change_market (On_order_created ?w) ?n) s1 = Inr s'"
      "m_exchange_listener s' = m_exchange_listener s1" "m_match_algorithm s' = m_match_algorithm s1"
      "m_contract_assist s' = m_contract_assist s1" "m_order_manager s' = m_order_manager s1"
      "m_market_states (m_market_manager s') = (m_market_states (m_market_manager s1))(?n \<mapsto> m')"
      "\<exists>es. events s' = events s1 @ es"
      using with_market_change [of s1 ?n m "On_order_created ?w"] m'(1) m by (auto simp: s1_def)
    have "rest_order ord r c s = Inr s'"
      using r False b b'(1,6) o' L s'(1) unfolding rest_order_def remainder_order_def [symmetric]
      by (simp add: with_orders_def manager_Add_order_def on_box_def Order_box_Some deref_def
          send_order_def s1_def Change_market_on_order_created_def [abs_def])
    moreover have "changes_contract ?n b' m' s s'"
      using s' by (auto simp: changes_contract_def s1_def)
    moreover have "contract_ok ?n b' m'" using m' b' C by (simp add: contract_ok_def)
    moreover have "rested ord cp r c b b'"
      using r False b' o' fills_of_cong [OF b'(7)] by (simp add: rested_def)
    ultimately show ?thesis by blast
  qed
qed

text \<open>What matching an order does to the box of its contract: the matches of the reference are
  executed and the remainder is rested.\<close>

definition match_outcome :: "Order \<Rightarrow> ComparablePrice \<Rightarrow> TradeOrderBox \<Rightarrow> TradeOrderBox \<Rightarrow> bool" where
  "match_outcome ord cp b b' \<longleftrightarrow>
     (let (ms, r, c) = reference_matches ord cp b in
      \<exists>b1. box_inv b1 \<and> matched_boxes ord ms b b1 \<and> rested ord cp r c b1 b')"

lemma matched_sum_le:
  assumes inv: "box_inv b" and m: "matched_boxes ord ms b b'" and p: "pending_ok b ms"
  shows "resting_sum b' cp \<le> resting_sum b cp"
proof -
  have r: "unat (resting b' a) \<le> unat (resting b a)" for a
  proof (cases "taken ms a")
    case None
    then have "heap b' a = heap b a" using m by (simp add: matched_boxes_def)
    then show ?thesis by (simp add: resting_def)
  next
    case (Some mo)
    then have "mo \<in> set ms" "match_order mo = a" by (auto simp: taken_def find_Some_iff)
    then obtain wo where wo: "heap b a = Some wo" "match_quantity mo \<le> quantity wo"
      using p by (auto simp: pending_ok_def)
    then have "heap b' a = after_fill wo (match_quantity mo)" using m Some by (simp add: matched_boxes_def)
    then show ?thesis using wo by (auto simp: resting_def after_fill_def unat_sub_if_size word_le_nat_alt)
  qed
  have q: "queue b' cp = filter (\<lambda>a. heap b' a \<noteq> None) (queue b cp)" using m by (simp add: matched_boxes_def)
  have "resting_sum b' cp \<le> (\<Sum>a\<leftarrow>queue b cp. unat (resting b' a))"
    unfolding resting_sum_def q by (rule sum_list_filter_le_nat)
  also have "\<dots> \<le> resting_sum b cp"
    unfolding resting_sum_def by (rule sum_list_mono) (rule r)
  finally show ?thesis .
qed

lemma Match_order_effect:
  assumes inv: "sim_inv s" and b: "m_order_manager s (contract ord) = Some b"
    and m: "m_market_states (m_market_manager s) (contract ord) = Some m"
    and ok: "contract_ok (contract ord) b m" and oo: "order_ok (contract ord) ord cp"
    and new: "working b (client_order_id ord) = None" "cancelled b (client_order_id ord) = None"
    and room: "\<not> Is_market cp \<Longrightarrow> resting_sum b cp + unat (quantity ord) < 18446744073709551616"
  shows "\<exists>s' b' m'. Match_order ord s = Inr s' \<and> changes_contract (contract ord) b' m' s s' \<and>
    contract_ok (contract ord) b' m' \<and> match_outcome ord cp b b'"
proof -
  let ?n = "contract ord"
  note C = contract_okD [OF ok]
  have cp: "ComparablePrice_of ord = Inr cp" and q: "quantity ord \<noteq> 0"
    using oo by (simp_all add: order_ok_def)
  obtain ms r c where ref: "reference_matches ord cp b = (ms, r, c)" by (rule prod_cases3)
  have M: "Matches ord (Opposite_working_orders (buy_sell ord) b) b = Inr (ms, r, c)"
    using Matches_reference [OF C(1) cp q] ref by simp
  have p: "pending_ok b ms" by (rule pending_ok_reference [OF C(1) cp q ref])
  obtain s1 b1 m1 where 1: "fold_res (match_step ord r) ms s = Inr s1" "changes_contract ?n b1 m1 s s1"
    "contract_ok ?n b1 m1" "matched_boxes ord ms b b1"
    using matches_effect [OF inv b m ok p new(1)] by blast
  have s1: "m_order_manager s1 ?n = Some b1" "m_market_states (m_market_manager s1) ?n = Some m1"
    using 1(2) by (simp_all add: changes_contract_def)
  have new1: "working b1 (client_order_id ord) = None" "cancelled b1 (client_order_id ord) = None"
    using 1(4) new by (simp_all add: matched_boxes_def)
  have "unat r \<le> unat (quantity ord)" using reference_sum [OF ref] by simp
  then have room1: "resting_sum b1 cp + unat r < 18446744073709551616" if "\<not> Is_market cp"
    using room [OF that] matched_sum_le [OF C(1) 1(4) p, of cp] by simp
  obtain s2 b2 m2 where 2: "rest_order ord r c s1 = Inr s2" "changes_contract ?n b2 m2 s1 s2"
    "contract_ok ?n b2 m2" "rested ord cp r c b1 b2"
    using rest_order_effect [OF sim_inv_changes [OF inv 1(2,3)] s1 1(3) oo new1 room1] by blast
  have "m_match_algorithm s" using inv by (simp add: sim_inv_def)
  then have "Match_order ord s = Inr s2"
    using b M 1(1) 2(1) by (simp add: Match_order_def Order_box_Some)
  moreover have "match_outcome ord cp b b2"
    using ref contract_okD(1) [OF 1(3)] 1(4) 2(4) by (auto simp: match_outcome_def)
  ultimately show ?thesis using changes_contract_trans [OF 1(2) 2(2)] 2(3) by blast
qed

end
