(* ===== verification/Trade_Requests.thy ===== *)
theory Trade_Requests
  imports Trade_Invariant
begin

text \<open>
  The requests of a strategy to the simulated exchange, as a step relation from the start of the
  simulator: every reachable state satisfies the invariant, no request that the exchange can
  read fails, and no working buy crosses a working sell.
\<close>

section \<open>What a passed check gives\<close>

lemma Check_order_ok:
  assumes "Check_order ord s = Inr ''''"
  obtains tc cp where "m_contract_assist s (contract ord) = Some tc" "order_ok (contract ord) ord cp"
proof -
  have n: "assist_Check_order ord (m_contract_assist s) = Inr NORMAL"
    using assms by (auto simp: Check_order_def bind_res_Inr_iff precheck_reason_def CONTRACT_NOT_FOUND_def
        split: if_splits TradeOrderPreCheckStatus.splits)
  obtain tc p where tc: "m_contract_assist s (contract ord) = Some tc" "stod (o_price ord) = Inr p"
    "p = 0 \<or> (p = TO_REAL_PRICE (TO_ORDER_PRICE p) \<and> tc_min tc \<le> TO_ORDER_PRICE p \<and>
       TO_ORDER_PRICE p \<le> tc_max tc \<and> tc_tick tc dvd TO_ORDER_PRICE p - tc_min tc)"
    by (rule assist_Check_order_NORMAL [OF n])
  let ?cp = "\<lparr>Is_buy = (buy_sell ord = BS_Buy), Price = TO_ORDER_PRICE p\<rparr>"
  have z: "Is_market ?cp \<longleftrightarrow> p = 0" using price_zero_iff [of p] tc(3) by (auto simp: Is_market_def)
  have "order_type ord \<noteq> OT_None" "buy_sell ord \<noteq> BS_None" "quantity ord \<noteq> 0"
    "order_type ord = OT_Limit \<Longrightarrow> p \<noteq> 0" "order_type ord = OT_Market \<Longrightarrow> p = 0"
    using assms n tc(2) by (auto simp: Check_order_def MARKET_ORDER_PRICE_INVALID_def split: if_splits)
  then have "order_ok (contract ord) ord ?cp"
    using z tc(2) by (cases "order_type ord") (auto simp: order_ok_def ComparablePrice_of_def)
  with tc(1) that show thesis by blast
qed

text \<open>The check itself ends when the price can be read and the tick is not 0.\<close>

lemma Check_order_total:
  assumes "\<And>tc. m_contract_assist s (contract ord) = Some tc \<Longrightarrow> tc_tick tc \<noteq> 0 \<and> (\<exists>p. stod (o_price ord) = Inr p)"
  shows "\<exists>err. Check_order ord s = Inr err"
proof (cases "m_contract_assist s (contract ord)")
  case None
  then show ?thesis by (simp add: Check_order_def assist_Check_order_def)
next
  case (Some tc)
  then obtain p where "tc_tick tc \<noteq> 0" "stod (o_price ord) = Inr p" using assms by blast
  then show ?thesis using Some by (auto simp: Check_order_def assist_Check_order_def Let_def)
qed

section \<open>Requests\<close>

datatype request = Add_request Order | Change_request Order | Delete_request Order | Query_request Order

fun handle :: "request \<Rightarrow> TradeSimulater \<Rightarrow> TradeSimulater res" where
  "handle (Add_request ord) s = sim_Add ord s"
| "handle (Change_request ord) s = sim_Change ord s"
| "handle (Delete_request ord) s = sim_Delete ord s"
| "handle (Query_request ord) s = sim_Query ord s"

text \<open>What is asked of a request: its price is a number if its contract exists, and the quantity
  resting at its price stays within 64 bits.\<close>

definition order_readable :: "Order \<Rightarrow> TradeSimulater \<Rightarrow> bool" where
  "order_readable ord s \<longleftrightarrow> (m_contract_assist s (contract ord) \<noteq> None \<longrightarrow>
     (\<exists>cp. ComparablePrice_of ord = Inr cp \<and>
        (\<forall>b. m_order_manager s (contract ord) = Some b \<longrightarrow>
           resting_sum b cp + unat (quantity ord) < 18446744073709551616)))"

fun readable :: "request \<Rightarrow> TradeSimulater \<Rightarrow> bool" where
  "readable (Add_request ord) s = order_readable ord s"
| "readable (Change_request ord) s = order_readable ord s"
| "readable (Delete_request ord) s = True"
| "readable (Query_request ord) s = True"

lemma Check_order_readable:
  assumes "sim_inv s" "order_readable ord s"
  shows "\<exists>err. Check_order ord s = Inr err"
proof (rule Check_order_total)
  fix tc assume "m_contract_assist s (contract ord) = Some tc"
  then show "tc_tick tc \<noteq> 0 \<and> (\<exists>p. stod (o_price ord) = Inr p)"
    using assms by (auto simp: sim_inv_def order_readable_def ComparablePrice_of_def map_res_Inr_iff)
qed

lemma send_order_ok: "sim_inv s \<Longrightarrow> send_order ord s = Inr (s\<lparr>events := events s @ [OnOrder ord]\<rparr>)"
  by (simp add: send_order_def sim_inv_def)

lemma sim_inv_events [simp]: "sim_inv (s\<lparr>events := es\<rparr>) = sim_inv s"
  by (simp add: sim_inv_def)

lemma sim_inv_id [simp]: "sim_inv (s\<lparr>m_exchange_order_id := i\<rparr>) = sim_inv s"
  by (simp add: sim_inv_def)

lemma sim_inv_contract:
  assumes "sim_inv s" "m_contract_assist s n = Some tc"
  obtains b m where "m_order_manager s n = Some b" "m_market_states (m_market_manager s) n = Some m"
    "contract_ok n b m"
  using assms unfolding sim_inv_def by blast

lemma Order_status_view:
  "Order_status cid b = (if cancelled b cid \<noteq> None then Deleted else if working b cid \<noteq> None then Working
     else if fills_of b cid \<noteq> [] then All_filled else Not_found)"
  by (simp add: Order_status_def cancelled_def working_def fills_of_def)

text \<open>An order that is accepted.\<close>

lemma sim_Add_accepted:
  assumes inv: "sim_inv s" and rd: "order_readable ord s" and ck: "Check_order ord s = Inr ''''"
    and b: "m_order_manager s (contract ord) = Some b" and st: "Order_status (client_order_id ord) b = Not_found"
  shows "\<exists>s' b' m' cp oid. sim_Add ord s = Inr s' \<and> order_ok (contract ord) ord cp \<and>
    changes_contract (contract ord) b' m' s s' \<and> contract_ok (contract ord) b' m' \<and>
    match_outcome (ord\<lparr>exchange_order_id := oid, status := OS_Pending\<rparr>) cp b b' \<and>
    (\<exists>es. events s' = events s @ OnOrder (ord\<lparr>exchange_order_id := oid, status := OS_Pending\<rparr>) # es)"
proof -
  let ?n = "contract ord"
  obtain tc cp where tc: "m_contract_assist s ?n = Some tc" and oo: "order_ok ?n ord cp"
    by (rule Check_order_ok [OF ck])
  obtain m where m: "m_market_states (m_market_manager s) ?n = Some m" "contract_ok ?n b m"
    by (rule sim_inv_contract [OF inv tc]) (use b in auto)
  have new: "working b (client_order_id ord) = None" "cancelled b (client_order_id ord) = None"
    using st by (auto simp: Order_status_view split: if_splits)
  define oid where "oid = ''Order-'' @ to_string_word (m_exchange_order_id s + 1)"
  define pd where "pd = ord\<lparr>exchange_order_id := oid, status := OS_Pending\<rparr>"
  have pd: "contract pd = ?n" "client_order_id pd = client_order_id ord" "quantity pd = quantity ord"
    by (simp_all add: pd_def)
  have oo': "order_ok (contract pd) pd cp"
    using oo by (simp add: order_ok_def pd_def ComparablePrice_of_def)
  define s1 where "s1 = s\<lparr>m_exchange_order_id := m_exchange_order_id s + 1, events := events s @ [OnOrder pd]\<rparr>"
  have inv1: "sim_inv s1" using inv by (simp add: s1_def)
  have s1: "m_order_manager s1 (contract pd) = Some b" "m_market_states (m_market_manager s1) (contract pd) = Some m"
    using b m pd by (simp_all add: s1_def)
  have room: "resting_sum b cp + unat (quantity pd) < 18446744073709551616"
    using rd tc b oo pd by (auto simp: order_readable_def order_ok_def)
  obtain s' b' m' where s': "Match_order pd s1 = Inr s'" "changes_contract (contract pd) b' m' s1 s'"
    "contract_ok (contract pd) b' m'" "match_outcome pd cp b b'"
    using Match_order_effect [OF inv1 s1 _ oo' _ _ room] m(2) pd new by auto
  have "m_exchange_listener s" using inv by (simp add: sim_inv_def)
  then have "sim_Add ord s = Inr s'"
    using ck b st s'(1)
    by (simp add: sim_Add_def manager_Order_status_def Order_box_Some Next_exchange_order_id_def Let_def
        send_order_def s1_def pd_def oid_def)
  moreover have "changes_contract ?n b' m' s s'" "\<exists>es. events s' = events s @ OnOrder pd # es"
    using s'(2) pd by (auto simp: changes_contract_def s1_def)
  ultimately show ?thesis using s'(3,4) oo unfolding pd(1) unfolding pd_def by blast
qed


text \<open>An order that is taken out, by a deletion or before a change.\<close>

definition removed_box :: "Order \<Rightarrow> bool \<Rightarrow> TradeOrderBox \<Rightarrow> TradeOrderBox \<Rightarrow> bool" where
  "removed_box ord keep b b' \<longleftrightarrow>
     (\<exists>a wo cp. working b (client_order_id ord) = Some a \<and> heap b a = Some wo \<and>
        ComparablePrice_of wo = Inr cp \<and>
        queue b' = (queue b)(cp := filter (\<lambda>x. x \<noteq> a) (queue b cp)) \<and>
        working b' = (working b)(client_order_id ord := None) \<and>
        cancelled b' = (if keep then (cancelled b)(client_order_id ord \<mapsto> a) else cancelled b) \<and>
        heap b' = (heap b)(a := (if keep then Some (wo\<lparr>status := OS_Cancelled\<rparr>) else None)) \<and>
        fills_of b' = fills_of b \<and> next_addr b' = next_addr b)"

lemma remove_effect:
  assumes inv: "sim_inv s" and b: "m_order_manager s (contract ord) = Some b"
    and m: "m_market_states (m_market_manager s) (contract ord) = Some m"
    and ok: "contract_ok (contract ord) b m" and w: "working b (client_order_id ord) = Some a"
  obtains d s1 s2 s' b' m' where
    "with_orders (manager_Delete_order ord keep) s = Inr (d, s1)" "client_order_id d = client_order_id ord"
    "send_order (Make_cancel_response d ''order cancelled'') s1 = Inr s2"
    "with_market (Change_market_on_order_deleted d) s2 = Inr s'"
    "changes_contract (contract ord) b' m' s s'" "contract_ok (contract ord) b' m'"
    "removed_box ord keep b b'" "\<forall>cp. resting_sum b' cp \<le> resting_sum b cp"
    "\<exists>es. events s' = events s @ OnOrder (Make_cancel_response d ''order cancelled'') # es"
proof -
  let ?n = "contract ord"
  note C = contract_okD [OF ok]
  obtain wo cp where wo: "heap b a = Some wo" "client_order_id wo = client_order_id ord"
    and oo: "order_ok ?n wo cp"
    using view_working [OF box_view [OF C(1)] w] C(2) by auto
  have cp: "ComparablePrice_of wo = Inr cp" and q: "quantity wo \<noteq> 0" and cn: "contract wo = ?n"
    using oo by (simp_all add: order_ok_def)
  let ?d = "wo\<lparr>status := OS_Cancelled\<rparr>"
  obtain b' where b': "Delete_order ord keep b = Inr (?d, b')" "box_inv b'"
    "queue b' = (queue b)(cp := filter (\<lambda>x. x \<noteq> a) (queue b cp))"
    "working b' = (working b)(client_order_id ord := None)"
    "cancelled b' = (if keep then (cancelled b)(client_order_id ord \<mapsto> a) else cancelled b)"
    "heap b' = (heap b)(a := (if keep then Some ?d else None))"
    "m_filled_orders b' = m_filled_orders b" "m_contract_name b' = m_contract_name b"
    "next_addr b' = next_addr b"
    by (rule Delete_order_effect [OF C(1) w wo(1) cp])
  have w': "working b (client_order_id wo) = Some a" using w wo(2) by simp
  have sums: "resting_sum b' cq = (if cq = cp then resting_sum b cp - unat (quantity wo) else resting_sum b cq)" for cq
    by (rule resting_sum_removed [OF C(1) wo(1) w' cp b'(3)]) (simp add: b'(6))
  obtain rr m' where m': "market_Delete_order wo (quantity wo) m = Inr (rr, m')" "market_ok m'"
    "mk_contract_name m' = ?n" "book_matches b' m'"
    by (rule market_loses [OF ok wo(1) w' oo q order.refl sums])
  have "market_Delete_order ?d (quantity wo) m = market_Delete_order wo (quantity wo) m"
    by (simp add: market_Delete_order_def)
  then have dm: "On_order_deleted ?d m = Inr (rr, m')" using m'(1) by (simp add: On_order_deleted_def)
  define s1 where "s1 = s\<lparr>m_order_manager := (m_order_manager s)(?n \<mapsto> b')\<rparr>"
  define s2 where "s2 = s1\<lparr>events := events s1 @ [OnOrder (Make_cancel_response ?d ''order cancelled'')]\<rparr>"
  have m2: "m_market_states (m_market_manager s2) ?n = Some m" using m by (simp add: s2_def s1_def)
  obtain s' where s': "with_market (change_market (On_order_deleted ?d) ?n) s2 = Inr s'"
    "m_exchange_listener s' = m_exchange_listener s2" "m_match_algorithm s' = m_match_algorithm s2"
    "m_contract_assist s' = m_contract_assist s2" "m_order_manager s' = m_order_manager s2"
    "m_market_states (m_market_manager s') = (m_market_states (m_market_manager s2))(?n \<mapsto> m')"
    "\<exists>es. events s' = events s2 @ es"
    by (rule with_market_change [of s2 ?n m "On_order_deleted ?d", OF m2 dm])
  have L: "m_exchange_listener s" using inv by (simp add: sim_inv_def)
  show thesis
  proof (rule that [of ?d s1 s2 s' b' m'])
    show "with_orders (manager_Delete_order ord keep) s = Inr (?d, s1)"
      using b b'(1) by (simp add: with_orders_def manager_Delete_order_def on_box_def Order_box_Some s1_def)
    show "client_order_id ?d = client_order_id ord" using wo(2) by simp
    show "send_order (Make_cancel_response ?d ''order cancelled'') s1 = Inr s2"
      using L by (simp add: send_order_def s2_def s1_def)
    show "with_market (Change_market_on_order_deleted ?d) s2 = Inr s'"
      using s'(1) cn by (simp add: Change_market_on_order_deleted_def [abs_def])
    show "changes_contract ?n b' m' s s'" using s' by (auto simp: changes_contract_def s2_def s1_def)
    show "contract_ok ?n b' m'" using m' b' C by (simp add: contract_ok_def)
    show "removed_box ord keep b b'"
      using w wo cp b' fills_of_cong [OF b'(7)] unfolding removed_box_def by blast
    show "\<forall>cq. resting_sum b' cq \<le> resting_sum b cq" by (simp add: sums)
    show "\<exists>es. events s' = events s @ OnOrder (Make_cancel_response ?d ''order cancelled'') # es"
      using s'(7) by (auto simp: s2_def s1_def)
  qed
qed

lemma sim_Delete_accepted:
  assumes inv: "sim_inv s" and tc: "m_contract_assist s (contract ord) = Some tc"
    and b: "m_order_manager s (contract ord) = Some b" and st: "Order_status (client_order_id ord) b = Working"
  shows "\<exists>s' b' m' d. sim_Delete ord s = Inr s' \<and> changes_contract (contract ord) b' m' s s' \<and>
    contract_ok (contract ord) b' m' \<and> removed_box ord True b b' \<and> client_order_id d = client_order_id ord \<and>
    (\<exists>es. events s' = events s @ OnOrder (Make_cancel_response d ''order cancelled'') # es)"
proof -
  obtain m where m: "m_market_states (m_market_manager s) (contract ord) = Some m" "contract_ok (contract ord) b m"
    by (rule sim_inv_contract [OF inv tc]) (use b in auto)
  obtain a where w: "working b (client_order_id ord) = Some a"
    using st by (auto simp: Order_status_view split: if_splits)
  show ?thesis
    by (rule remove_effect [OF inv b m w, of True])
      (use tc b st in \<open>auto simp: sim_Delete_def Is_contract_exist_def manager_Order_status_def Order_box_Some\<close>)
qed

lemma sim_Change_accepted:
  assumes inv: "sim_inv s" and rd: "order_readable ord s" and ck: "Check_order ord s = Inr ''''"
    and b: "m_order_manager s (contract ord) = Some b" and st: "Order_status (client_order_id ord) b = Working"
  shows "\<exists>s' b1 b' m' cp. sim_Change ord s = Inr s' \<and> order_ok (contract ord) ord cp \<and>
    changes_contract (contract ord) b' m' s s' \<and> contract_ok (contract ord) b' m' \<and> box_inv b1 \<and>
    removed_box ord False b b1 \<and> match_outcome (ord\<lparr>status := OS_Pending\<rparr>) cp b1 b' \<and>
    (\<exists>es. events s' = events s @ OnOrder (ord\<lparr>status := OS_Pending\<rparr>) # es)"
proof -
  let ?n = "contract ord"
  obtain tc cp where tc: "m_contract_assist s ?n = Some tc" and oo: "order_ok ?n ord cp"
    by (rule Check_order_ok [OF ck])
  obtain m where m: "m_market_states (m_market_manager s) ?n = Some m" "contract_ok ?n b m"
    by (rule sim_inv_contract [OF inv tc]) (use b in auto)
  obtain a where w: "working b (client_order_id ord) = Some a" and c: "cancelled b (client_order_id ord) = None"
    using st by (auto simp: Order_status_view split: if_splits)
  define pd where "pd = ord\<lparr>status := OS_Pending\<rparr>"
  have pd: "contract pd = ?n" "client_order_id pd = client_order_id ord" "quantity pd = quantity ord"
    by (simp_all add: pd_def)
  have oo': "order_ok (contract pd) pd cp" using oo by (simp add: pd_def)
  define s0 where "s0 = s\<lparr>events := events s @ [OnOrder pd]\<rparr>"
  have inv0: "sim_inv s0" using inv by (simp add: s0_def)
  have s0: "m_order_manager s0 ?n = Some b" "m_market_states (m_market_manager s0) ?n = Some m"
    using b m by (simp_all add: s0_def)
  obtain d s1 s2 s3 b1 m1 where d: "with_orders (manager_Delete_order ord False) s0 = Inr (d, s1)"
    "client_order_id d = client_order_id ord"
    "send_order (Make_cancel_response d ''order cancelled'') s1 = Inr s2"
    "with_market (Change_market_on_order_deleted d) s2 = Inr s3"
    "changes_contract ?n b1 m1 s0 s3" "contract_ok ?n b1 m1"
    "removed_box ord False b b1" "\<forall>cp. resting_sum b1 cp \<le> resting_sum b cp"
    "\<exists>es. events s3 = events s0 @ OnOrder (Make_cancel_response d ''order cancelled'') # es"
    by (rule remove_effect [OF inv0 s0 m(2) w, of False])
  have inv3: "sim_inv s3" by (rule sim_inv_changes [OF inv0 d(5,6)])
  have s3: "m_order_manager s3 (contract pd) = Some b1" "m_market_states (m_market_manager s3) (contract pd) = Some m1"
    using d(5) pd by (simp_all add: changes_contract_def)
  have new: "working b1 (client_order_id pd) = None" "cancelled b1 (client_order_id pd) = None"
    using d(7) c pd unfolding removed_box_def by auto
  have "resting_sum b cp + unat (quantity ord) < 18446744073709551616"
    using rd tc b oo by (auto simp: order_readable_def order_ok_def)
  then have room: "resting_sum b1 cp + unat (quantity pd) < 18446744073709551616"
    using d(8) [rule_format, of cp] pd by simp
  obtain s' b' m' where s': "Match_order pd s3 = Inr s'" "changes_contract (contract pd) b' m' s3 s'"
    "contract_ok (contract pd) b' m'" "match_outcome pd cp b1 b'"
    using Match_order_effect [OF inv3 s3 _ oo' new room] d(6) pd by auto
  have "m_exchange_listener s" using inv by (simp add: sim_inv_def)
  then have "send_order pd s = Inr s0" by (simp add: send_order_def s0_def)
  then have "sim_Change ord s = Inr s'"
    using ck b st d s'(1)
    by (simp add: sim_Change_def manager_Order_status_def Order_box_Some Let_def flip: pd_def)
  moreover have "changes_contract ?n b' m' s s'" "\<exists>es. events s' = events s @ OnOrder pd # es"
    using d(5) s'(2) pd by (auto simp: changes_contract_def s0_def)
  ultimately show ?thesis
    using s'(3,4) pd oo d(7) contract_okD(1) [OF d(6)] unfolding pd_def [symmetric] by auto
qed

section \<open>Every request\<close>

lemma Query_order_ok:
  assumes inv: "box_inv b"
  shows "\<exists>res. Query_order ord b = Inr res \<and> client_order_id res = client_order_id ord"
proof -
  let ?cid = "client_order_id ord"
  note V = view_okD [OF box_view [OF inv]]
  have fold0: "foldl (\<lambda>n f. n + fill_quantity f) 0 fs \<noteq> 0 \<Longrightarrow> fs \<noteq> []" for fs :: "Fill list" by auto
  have cid: "f_client_order_id f = ?cid" if "f \<in> set (equal_range ?cid (m_filled_orders b))" for f
    using that box_fills [OF inv] by (auto simp: equal_range_def fills_ok_def)
  show ?thesis
  proof (cases "cancelled b ?cid")
    case (Some a)
    then show ?thesis using V(6) [OF Some] by (auto simp: Query_order_def cancelled_def deref_def)
  next
    case c: None
    show ?thesis
    proof (cases "working b ?cid")
      case (Some a)
      then show ?thesis using V(3) [OF Some] c
        by (auto simp: Query_order_def cancelled_def working_def deref_def)
    next
      case None
      then show ?thesis
        using c fold0 [of "equal_range ?cid (m_filled_orders b)"] cid
        by (auto simp: Query_order_def cancelled_def working_def Let_def split: list.splits)
    qed
  qed
qed

text \<open>What a request does to the box of its contract, when it does something.\<close>

fun box_change :: "request \<Rightarrow> TradeOrderBox \<Rightarrow> TradeOrderBox \<Rightarrow> bool" where
  "box_change (Add_request ord) b b' \<longleftrightarrow>
     (\<exists>cp oid. order_ok (contract ord) ord cp \<and> Order_status (client_order_id ord) b = Not_found \<and>
        match_outcome (ord\<lparr>exchange_order_id := oid, status := OS_Pending\<rparr>) cp b b')"
| "box_change (Change_request ord) b b' \<longleftrightarrow>
     (\<exists>cp b1. order_ok (contract ord) ord cp \<and> box_inv b1 \<and> removed_box ord False b b1 \<and>
        match_outcome (ord\<lparr>status := OS_Pending\<rparr>) cp b1 b')"
| "box_change (Delete_request ord) b b' \<longleftrightarrow> removed_box ord True b b'"
| "box_change (Query_request ord) b b' \<longleftrightarrow> False"

fun request_order :: "request \<Rightarrow> Order" where
  "request_order (Add_request ord) = ord"
| "request_order (Change_request ord) = ord"
| "request_order (Delete_request ord) = ord"
| "request_order (Query_request ord) = ord"

definition answered :: "request \<Rightarrow> TradeSimulater \<Rightarrow> TradeSimulater \<Rightarrow> bool" where
  "answered r s s' \<longleftrightarrow> (\<exists>ord es. events s' = events s @ OnOrder ord # es \<and>
     client_order_id ord = client_order_id (request_order r))"

definition handled :: "request \<Rightarrow> TradeSimulater \<Rightarrow> TradeSimulater \<Rightarrow> bool" where
  "handled r s s' \<longleftrightarrow> answered r s s' \<and>
     ((\<exists>es. s' = s\<lparr>events := es\<rparr>) \<or>
      (\<exists>b b' m'. m_order_manager s (contract (request_order r)) = Some b \<and> box_inv b \<and>
         changes_contract (contract (request_order r)) b' m' s s' \<and>
         contract_ok (contract (request_order r)) b' m' \<and> box_change r b b'))"

lemma handled_reply:
  assumes "client_order_id ord = client_order_id (request_order r)"
  shows "handled r s (s\<lparr>events := events s @ [OnOrder ord]\<rparr>)"
  using assms by (auto simp: handled_def answered_def)

lemma handled_reject: "handled r s (s\<lparr>events := events s @ [OnOrder (Make_reject_response (request_order r) msg)]\<rparr>)"
  by (rule handled_reply) (simp add: Make_reject_response_def)

lemma handle_handled:
  assumes inv: "sim_inv s" and rd: "readable r s"
  shows "\<exists>s'. handle r s = Inr s' \<and> handled r s s'"
proof (cases r)
  case (Add_request ord)
  have rdo: "order_readable ord s" using rd Add_request by simp
  obtain err where err: "Check_order ord s = Inr err" using Check_order_readable [OF inv rdo] by blast
  show ?thesis
  proof (cases "err = ''''")
    case False
    then show ?thesis
      using Add_request err handled_reject [of r s err] by (simp add: sim_Add_def send_order_ok [OF inv])
  next
    case True
    obtain tc cp where tc: "m_contract_assist s (contract ord) = Some tc"
      by (rule Check_order_ok [OF err [unfolded True]])
    obtain b m where b: "m_order_manager s (contract ord) = Some b" "contract_ok (contract ord) b m"
      by (rule sim_inv_contract [OF inv tc])
    show ?thesis
    proof (cases "Order_status (client_order_id ord) b = Not_found")
      case False
      then show ?thesis
        using Add_request err True b(1) handled_reject [of r s "''client order id already exist''"]
        by (simp add: sim_Add_def send_order_ok [OF inv] manager_Order_status_def Order_box_Some)
    next
      case nf: True
      show ?thesis
        using sim_Add_accepted [OF inv rdo err [unfolded True] b(1) nf] Add_request b contract_okD(1) [OF b(2)] nf
        by (force simp: handled_def answered_def)
    qed
  qed
next
  case (Change_request ord)
  have rdo: "order_readable ord s" using rd Change_request by simp
  obtain err where err: "Check_order ord s = Inr err" using Check_order_readable [OF inv rdo] by blast
  show ?thesis
  proof (cases "err = ''''")
    case False
    then show ?thesis
      using Change_request err handled_reject [of r s err] by (simp add: sim_Change_def send_order_ok [OF inv])
  next
    case True
    obtain tc cp where tc: "m_contract_assist s (contract ord) = Some tc"
      by (rule Check_order_ok [OF err [unfolded True]])
    obtain b m where b: "m_order_manager s (contract ord) = Some b" "contract_ok (contract ord) b m"
      by (rule sim_inv_contract [OF inv tc])
    show ?thesis
    proof (cases "Order_status (client_order_id ord) b = Working")
      case False
      then show ?thesis
        using Change_request err True b(1) handled_reject [of r s "''working order not found''"]
        by (simp add: sim_Change_def send_order_ok [OF inv] manager_Order_status_def Order_box_Some)
    next
      case wk: True
      show ?thesis
        using sim_Change_accepted [OF inv rdo err [unfolded True] b(1) wk] Change_request b contract_okD(1) [OF b(2)]
        by (force simp: handled_def answered_def)
    qed
  qed
next
  case (Delete_request ord)
  show ?thesis
  proof (cases "m_contract_assist s (contract ord)")
    case None
    then show ?thesis
      using Delete_request handled_reject [of r s CONTRACT_NOT_FOUND]
      by (simp add: sim_Delete_def Is_contract_exist_def send_order_ok [OF inv])
  next
    case (Some tc)
    obtain b m where b: "m_order_manager s (contract ord) = Some b" "contract_ok (contract ord) b m"
      by (rule sim_inv_contract [OF inv Some])
    show ?thesis
    proof (cases "Order_status (client_order_id ord) b = Working")
      case False
      then show ?thesis
        using Delete_request Some b(1)
          handled_reject [of r s "delete_reject_reason (Order_status (client_order_id ord) b)"]
        by (simp add: sim_Delete_def Is_contract_exist_def send_order_ok [OF inv] manager_Order_status_def
            Order_box_Some)
    next
      case wk: True
      show ?thesis
        using sim_Delete_accepted [OF inv Some b(1) wk] Delete_request b contract_okD(1) [OF b(2)]
        by (force simp: handled_def answered_def Make_cancel_response_def)
    qed
  qed
next
  case (Query_request ord)
  show ?thesis
  proof (cases "m_contract_assist s (contract ord)")
    case None
    then show ?thesis
      using Query_request handled_reject [of r s CONTRACT_NOT_FOUND]
      by (simp add: sim_Query_def Is_contract_exist_def send_order_ok [OF inv])
  next
    case (Some tc)
    obtain b m where b: "m_order_manager s (contract ord) = Some b" "contract_ok (contract ord) b m"
      by (rule sim_inv_contract [OF inv Some])
    obtain res where res: "Query_order ord b = Inr res" "client_order_id res = client_order_id ord"
      using Query_order_ok [OF contract_okD(1) [OF b(2)]] by blast
    show ?thesis
      using Query_request Some b(1) res handled_reply [of _ r s]
      by (simp add: sim_Query_def Is_contract_exist_def send_order_ok [OF inv] manager_Query_order_def
          Order_box_Some)
  qed
qed

lemma handled_inv: "sim_inv s \<Longrightarrow> handled r s s' \<Longrightarrow> sim_inv s'"
  using sim_inv_changes by (auto simp: handled_def)

end
