(* ===== verification/Trade_System.thy ===== *)
theory Trade_System
  imports Trade_Requests
begin

text \<open>
  The simulated exchange as a state machine: it starts with its contracts loaded and its exchange
  listener set, handles requests and has its market listener switched on and off.  The
  properties of all its reachable states.
\<close>

section \<open>An uncrossed book\<close>

definition uncrossed :: "TradeOrderBox \<Rightarrow> bool" where
  "uncrossed b \<longleftrightarrow> (\<forall>cp cq. Is_buy cp \<and> \<not> Is_buy cq \<and> queue b cp \<noteq> [] \<and> queue b cq \<noteq> [] \<longrightarrow>
     \<not> crosses cp cq)"

lemma crosses_sym: "Is_buy cp \<noteq> Is_buy cq \<Longrightarrow> crosses cp cq = crosses cq cp"
  by (auto simp: crosses_def)

lemma uncrossed_mono:
  assumes "uncrossed b" "\<And>cp. queue b' cp \<noteq> [] \<Longrightarrow> queue b cp \<noteq> []"
  shows "uncrossed b'"
  using assms by (simp add: uncrossed_def)

lemma uncrossed_removed:
  assumes "removed_box ord keep b b'" "uncrossed b" shows "uncrossed b'"
proof -
  obtain a cp where q: "queue b' = (queue b)(cp := filter (\<lambda>x. x \<noteq> a) (queue b cp))"
    using assms(1) unfolding removed_box_def by blast
  have "queue b cq \<noteq> []" if "queue b' cq \<noteq> []" for cq using that by (cases "cq = cp") (auto simp: q)
  then show ?thesis by (rule uncrossed_mono [OF assms(2)])
qed

lemma uncrossed_matched: "matched_boxes ord ms b b' \<Longrightarrow> uncrossed b \<Longrightarrow> uncrossed b'"
  by (rule uncrossed_mono) (auto simp: matched_boxes_def)

lemma queue_level:
  assumes inv: "box_inv b" and q: "queue b cq \<noteq> []"
  shows "(cq, queue b cq) \<in> set (if Is_buy cq then m_bid b else m_ask b)"
proof -
  note k = levels_keys(1,2) [OF box_levels [OF inv]]
  obtain as where "om_find price_before cq (side b cq) = Some as" "queue b cq = as"
    using q by (auto simp: queue_def level_at_def split: option.splits)
  then show ?thesis
    using bids.find_Some_set [OF k(1), of cq as] asks.find_Some_set [OF k(2), of cq as]
    by (auto simp: side_def split: if_splits)
qed

text \<open>When a remainder is rested, everything it could have traded with is gone.\<close>

lemma no_opposite_left:
  assumes inv: "box_inv b" and cp: "ComparablePrice_of ord = Inr cp" and q: "quantity ord \<noteq> 0"
    and ref: "reference_matches ord cp b = (ms, r, c)" and r: "r \<noteq> 0" "\<not> c"
    and m: "matched_boxes ord ms b b1" and x: "Is_buy cq \<noteq> Is_buy cp" "crosses cp cq"
  shows "queue b1 cq = []"
proof -
  define es where "es = eligible b cp (Opposite_working_orders (buy_sell ord) b)"
  have al: "fst (allocate (quantity ord) es) = ms" "snd (allocate (quantity ord) es) \<noteq> 0"
    using ref r by (auto simp: reference_matches_def es_def Let_def split: prod.splits if_splits)
  have ms: "ms = map (\<lambda>(a, px, q). \<lparr>match_order = a, match_price = px, match_quantity = q\<rparr>) es"
    using allocate_rest [OF q al(2)] al(1) by simp
  have gone: "heap b1 a = None" if a: "a \<in> set (queue b cq)" for a
  proof -
    have "queue b cq \<noteq> []" using a by auto
    then have "(cq, queue b cq) \<in> set (Opposite_working_orders (buy_sell ord) b)"
      using queue_level [OF inv, of cq] ComparablePrice_side [OF cp] x(1)
      by (auto simp: Opposite_working_orders_def)
    then have "(a, trade_price cp cq, resting b a) \<in> set es"
      using a x(2) by (force simp: es_def eligible_def)
    then obtain mo0 where "mo0 \<in> set ms" "match_order mo0 = a" unfolding ms by force
    then obtain mo where mo: "taken ms a = Some mo"
      by (cases "taken ms a") (auto simp: taken_def find_None_iff)
    then have "mo \<in> set ms" "match_order mo = a" by (auto simp: taken_def find_Some_iff)
    then have "match_quantity mo = resting b a"
      unfolding ms es_def by (auto simp: eligible_def)
    moreover obtain wo where "heap b a = Some wo"
      using a view_queue [OF box_view [OF inv], of a cq] by auto
    ultimately show ?thesis
      using m mo by (simp add: matched_boxes_def resting_def after_fill_def)
  qed
  have "queue b1 cq = filter (\<lambda>a. heap b1 a \<noteq> None) (queue b cq)" using m by (simp add: matched_boxes_def)
  also have "\<dots> = []" using gone by (simp add: filter_empty_conv)
  finally show ?thesis .
qed

lemma uncrossed_outcome:
  assumes inv: "box_inv b" and oo: "order_ok n ord cp" and m: "match_outcome ord cp b b'" and u: "uncrossed b"
  shows "uncrossed b'"
proof -
  have cp: "ComparablePrice_of ord = Inr cp" and q: "quantity ord \<noteq> 0" using oo by (simp_all add: order_ok_def)
  obtain ms r c where ref: "reference_matches ord cp b = (ms, r, c)" by (rule prod_cases3)
  obtain b1 where b1: "matched_boxes ord ms b b1" "rested ord cp r c b1 b'"
    using m ref by (auto simp: match_outcome_def)
  have u1: "uncrossed b1" by (rule uncrossed_matched [OF b1(1) u])
  show ?thesis
  proof (cases "r = 0 \<or> c")
    case True
    then have "queue b' = queue b1" using b1(2) by (auto simp: rested_def Let_def split: if_splits)
    then show ?thesis using u1 by (simp add: uncrossed_def)
  next
    case False
    then have q': "queue b' = (queue b1)(cp := queue b1 cp @ [next_addr b1])"
      using b1(2) by (simp add: rested_def Let_def)
    have none: "queue b1 cq = []" if "Is_buy cq \<noteq> Is_buy cp" "crosses cp cq" for cq
      by (rule no_opposite_left [OF inv cp q ref _ _ b1(1) that]) (use False in simp_all)
    show ?thesis
      unfolding uncrossed_def
    proof (intro allI impI)
      fix cb cs
      assume a: "Is_buy cb \<and> \<not> Is_buy cs \<and> queue b' cb \<noteq> [] \<and> queue b' cs \<noteq> []"
      show "\<not> crosses cb cs"
      proof (cases "cb = cp \<or> cs = cp")
        case True
        then show ?thesis
          using a none [of cs] none [of cb] crosses_sym [of cb cs] by (auto simp: q' split: if_splits)
      next
        case False
        then show ?thesis using a u1 by (auto simp: q' uncrossed_def)
      qed
    qed
  qed
qed

section \<open>Quantities are accounted for\<close>

lemma accounted_removed:
  assumes inv: "box_inv b" and m: "removed_box ord True b b'"
  shows "accounted b' cid = accounted b cid"
proof -
  obtain a wo where r: "working b (client_order_id ord) = Some a" "heap b a = Some wo"
    "working b' = (working b)(client_order_id ord := None)"
    "cancelled b' = (cancelled b)(client_order_id ord \<mapsto> a)"
    "heap b' = (heap b)(a := Some (wo\<lparr>status := OS_Cancelled\<rparr>))" "fills_of b' = fills_of b"
    using m unfolding removed_box_def by auto
  show ?thesis
  proof (cases "cid = client_order_id ord")
    case True
    then show ?thesis using r by (simp add: accounted_def unfilled_def resting_def)
  next
    case False
    then show ?thesis using unfilled_other [OF inv r(1) False, of b'] r by (simp add: accounted_def)
  qed
qed

lemma accounted_rested:
  assumes inv: "box_inv b" and m: "rested ord cp r c b b'"
    and new: "working b (client_order_id ord) = None" "cancelled b (client_order_id ord) = None"
  shows "accounted b' cid = accounted b cid + (if cid = client_order_id ord then unat r else 0)"
proof (cases "r = 0")
  case True
  then show ?thesis using m by (simp add: rested_def)
next
  case r: False
  let ?n = "next_addr b"
  have fresh: "heap b ?n = None" by (rule view_fresh [OF box_view [OF inv]])
  have h: "\<exists>x. heap b' = (heap b)(?n \<mapsto> x) \<and> quantity x = r" and f: "fills_of b' = fills_of b"
    using m r by (auto simp: rested_def Let_def remainder_order_def split: if_splits)
  then have n: "resting b' ?n = r" by (auto simp: resting_def)
  have o: "resting b' x = resting b x" if "x \<noteq> ?n" for x using h that by (auto simp: resting_def)
  have wn: "x \<noteq> ?n" if "working b cid = Some x" for x
    using view_working [OF box_view [OF inv] that] fresh by auto
  have cn: "x \<noteq> ?n" if "cancelled b cid = Some x" for x
    using view_cancelled [OF box_view [OF inv] that] fresh by auto
  show ?thesis
  proof (cases c)
    case True
    then have "working b' = working b" "cancelled b' = (cancelled b)(client_order_id ord \<mapsto> ?n)"
      using m r by (simp_all add: rested_def Let_def)
    then show ?thesis
      using new n o wn cn f by (auto simp: accounted_def unfilled_def split: option.splits)
  next
    case False
    then have "working b' = (working b)(client_order_id ord \<mapsto> ?n)" "cancelled b' = cancelled b"
      using m r by (simp_all add: rested_def Let_def)
    then show ?thesis
      using new n o wn cn f by (auto simp: accounted_def unfilled_def split: option.splits)
  qed
qed

lemma accounted_outcome:
  assumes new: "working b (client_order_id ord) = None" "cancelled b (client_order_id ord) = None"
    and m: "match_outcome ord cp b b'"
  shows "accounted b' cid =
    accounted b cid + (if cid = client_order_id ord then unat (quantity ord) else 0)"
proof -
  obtain ms r c where ref: "reference_matches ord cp b = (ms, r, c)" by (rule prod_cases3)
  obtain b1 where b1: "box_inv b1" "matched_boxes ord ms b b1" "rested ord cp r c b1 b'"
    using m ref by (auto simp: match_outcome_def)
  note M = b1(2) [unfolded matched_boxes_def]
  have new1: "working b1 (client_order_id ord) = None" "cancelled b1 (client_order_id ord) = None"
    using M new by simp_all
  note rest = accounted_rested [OF b1(1,3) new1, of cid]
  show ?thesis
  proof (cases "cid = client_order_id ord")
    case False
    then show ?thesis using rest M by simp
  next
    case True
    obtain fs where fs: "map fill_quantity fs = map match_quantity ms"
      "fills_of b1 cid = fills_of b cid @ fs"
      using M True by blast
    have "map (\<lambda>f. unat (fill_quantity f)) fs = map (\<lambda>m. unat (match_quantity m)) ms"
      using arg_cong [OF fs(1), of "map unat"] by (simp add: comp_def)
    then have "(\<Sum>f\<leftarrow>fs. unat (fill_quantity f)) = (\<Sum>m\<leftarrow>ms. unat (match_quantity m))" by (rule arg_cong)
    then have "accounted b1 cid = accounted b cid + (\<Sum>m\<leftarrow>ms. unat (match_quantity m))"
      using new new1 True fs(2) by (simp add: accounted_def unfilled_def)
    then show ?thesis using rest reference_sum [OF ref] True by simp
  qed
qed

section \<open>The state machine\<close>

datatype trade_event = Request request | Market_listener bool

definition trade_start :: "TradeSimulater \<Rightarrow> bool" where
  "trade_start s \<longleftrightarrow> (\<exists>cs s0 l. Load_contracts cs TradeSimulater_new = Inr s0 \<and>
     (\<forall>n tc. m_contract_assist s0 n = Some tc \<longrightarrow> tc_tick tc \<noteq> 0) \<and>
     s = Set_market_listener l (Set_exchange_listener True (Load_match_algorithm True s0)))"

fun trade_step :: "TradeSimulater \<Rightarrow> trade_event \<Rightarrow> TradeSimulater \<Rightarrow> bool" where
  "trade_step s (Request r) s' \<longleftrightarrow> readable r s \<and> handle r s = Inr s'"
| "trade_step s (Market_listener l) s' \<longleftrightarrow> s' = Set_market_listener l s"

definition trade_inv :: "TradeSimulater \<Rightarrow> bool" where
  "trade_inv s \<longleftrightarrow> sim_inv s \<and>
     (\<forall>n tc b. m_contract_assist s n = Some tc \<and> m_order_manager s n = Some b \<longrightarrow> uncrossed b)"

text \<open>Loading: each contract gets an empty box and an empty book.\<close>

definition loaded :: "TradeSimulater \<Rightarrow> bool" where
  "loaded s \<longleftrightarrow> (\<forall>n tc. m_contract_assist s n = Some tc \<longrightarrow>
     m_order_manager s n = Some (TradeOrderBox_new n) \<and>
     m_market_states (m_market_manager s) n = Some (TradeMarketState_new n (tc_depth tc)))"

lemma load_contract_loaded: "loaded s \<Longrightarrow> load_contract c s = Inr s' \<Longrightarrow> loaded s'"
  by (auto simp: load_contract_def map_res_Inr_iff loaded_def assist_Add_def market_Add_contract_def
      manager_Add_contract_def)

lemma Load_contracts_loaded:
  assumes "Load_contracts cs TradeSimulater_new = Inr s" shows "loaded s"
proof (rule fold_res_inv [OF assms [unfolded Load_contracts_def], of loaded])
  show "loaded TradeSimulater_new" by (simp add: loaded_def TradeSimulater_new_def)
qed (rule load_contract_loaded)

lemma queue_new: "queue (TradeOrderBox_new n) cp = []"
  by (simp add: queue_def side_def level_at_def TradeOrderBox_new_def)

lemma contract_ok_new: "contract_ok n (TradeOrderBox_new n) (TradeMarketState_new n d)"
  using TradeOrderBox_new_inv [of n] market_new_ok
  by (simp add: contract_ok_def book_matches_def resting_sum_def queue_new)
    (simp add: TradeOrderBox_new_def TradeMarketState_new_def)

lemma trade_start_inv: "trade_start s \<Longrightarrow> trade_inv s"
  by (auto simp: trade_start_def trade_inv_def sim_inv_def Set_market_listener_def market_Set_listener_def
      Set_exchange_listener_def Load_match_algorithm_def uncrossed_def queue_new
      dest!: Load_contracts_loaded simp: loaded_def contract_ok_new)

lemma box_change_uncrossed:
  assumes "box_inv b" "box_change r b b'" "uncrossed b"
  shows "uncrossed b'"
proof (cases r)
  case (Add_request ord)
  then obtain cp oid where a: "order_ok (contract ord) ord cp"
    "match_outcome (ord\<lparr>exchange_order_id := oid, status := OS_Pending\<rparr>) cp b b'"
    using assms(2) by auto
  have "order_ok (contract ord) (ord\<lparr>exchange_order_id := oid, status := OS_Pending\<rparr>) cp"
    using a(1) by (simp add: order_ok_def ComparablePrice_of_def)
  then show ?thesis by (rule uncrossed_outcome [OF assms(1) _ a(2) assms(3)])
next
  case (Change_request ord)
  then obtain cp b1 where a: "order_ok (contract ord) ord cp" "box_inv b1" "removed_box ord False b b1"
    "match_outcome (ord\<lparr>status := OS_Pending\<rparr>) cp b1 b'"
    using assms(2) by auto
  have "order_ok (contract ord) (ord\<lparr>status := OS_Pending\<rparr>) cp" using a(1) by simp
  then show ?thesis by (rule uncrossed_outcome [OF a(2) _ a(4) uncrossed_removed [OF a(3) assms(3)]])
next
  case (Delete_request ord)
  then show ?thesis using assms uncrossed_removed by auto
next
  case (Query_request ord)
  then show ?thesis using assms(2) by simp
qed

lemma trade_step_inv: "trade_inv s \<Longrightarrow> trade_step s e s' \<Longrightarrow> trade_inv s'"
proof (cases e)
  case (Market_listener l)
  assume "trade_inv s" "trade_step s e s'"
  then show ?thesis
    using Market_listener by (auto simp: trade_inv_def sim_inv_def Set_market_listener_def market_Set_listener_def)
next
  case (Request r)
  assume i: "trade_inv s" and st: "trade_step s e s'"
  then have inv: "sim_inv s" and rd: "readable r s" and h: "handle r s = Inr s'"
    using Request by (simp_all add: trade_inv_def)
  have hd: "handled r s s'" using handle_handled [OF inv rd] h by auto
  have "uncrossed b'" if a: "m_contract_assist s' n = Some tc" "m_order_manager s' n = Some b'" for n tc b'
    using hd [unfolded handled_def, THEN conjunct2]
  proof
    assume "\<exists>es. s' = s\<lparr>events := es\<rparr>"
    then show ?thesis using a i by (auto simp: trade_inv_def)
  next
    assume "\<exists>b b' m'. m_order_manager s (contract (request_order r)) = Some b \<and> box_inv b \<and>
         changes_contract (contract (request_order r)) b' m' s s' \<and>
         contract_ok (contract (request_order r)) b' m' \<and> box_change r b b'"
    then obtain b b1 m1 where c: "m_order_manager s (contract (request_order r)) = Some b" "box_inv b"
      "changes_contract (contract (request_order r)) b1 m1 s s'" "box_change r b b1" by blast
    have as: "m_contract_assist s n = Some tc"
      and om: "m_order_manager s' = (m_order_manager s)(contract (request_order r) \<mapsto> b1)"
      using c(3) a(1) by (simp_all add: changes_contract_def)
    show ?thesis
    proof (cases "n = contract (request_order r)")
      case True
      then show ?thesis using a(2) om as c i box_change_uncrossed [OF c(2,4)] by (auto simp: trade_inv_def)
    next
      case False
      then show ?thesis using a(2) om as i by (auto simp: trade_inv_def)
    qed
  qed
  then show ?thesis using handled_inv [OF inv hd] by (auto simp: trade_inv_def)
qed

interpretation trades: invariant_system trade_step trade_start trade_inv
  by unfold_locales (blast intro: trade_start_inv trade_step_inv)+

lemma reachable_inv: "trade_start s0 \<Longrightarrow> trades.run s0 es s \<Longrightarrow> trade_inv s"
  by (rule trades.start_run_inv)

section \<open>Properties of the simulated exchange\<close>


text \<open>
  Claim C2: the published book refines the orders: in every reachable state, the size at a limit
  price is the sum of the quantities resting there, without a wrap-around, no price is published
  at which nothing rests, and market orders are never published.
\<close>
theorem published_book_is_resting_orders:
  assumes "trade_start s0" and "trades.run s0 es s" and "m_contract_assist s n = Some tc"
  shows "\<exists>b m. m_order_manager s n = Some b \<and> m_market_states (m_market_manager s) n = Some m \<and>
    (\<forall>cp. if Is_market cp then size_at m cp = None
          else if queue b cp = [] then size_at m cp = None
          else \<exists>size. size_at m cp = Some size \<and> unat size = resting_sum b cp \<and> size \<noteq> 0)"
proof -
  have "sim_inv s" using reachable_inv [OF assms(1,2)] by (simp add: trade_inv_def)
  then obtain b m where bm: "m_order_manager s n = Some b" "m_market_states (m_market_manager s) n = Some m"
    "contract_ok n b m" by (rule sim_inv_contract [OF _ assms(3)])
  note C = contract_okD [OF bm(3)]
  have "if Is_market cp then size_at m cp = None
      else if queue b cp = [] then size_at m cp = None
      else \<exists>size. size_at m cp = Some size \<and> unat size = resting_sum b cp \<and> size \<noteq> 0" for cp
  proof (cases "Is_market cp \<or> queue b cp = []")
    case True
    then show ?thesis using C(5) by (auto simp: book_matches_def resting_sum_def)
  next
    case False
    then obtain a where a: "a \<in> set (queue b cp)" by (cases "queue b cp") auto
    then obtain wo where wo: "heap b a = Some wo" "working b (client_order_id wo) = Some a"
      using view_queue [OF box_view [OF C(1)]] by blast
    then have "resting b a \<noteq> 0"
      using view_working [OF box_view [OF C(1)] wo(2)] by (auto simp: resting_def order_ok_def)
    then have pos: "0 < resting_sum b cp"
      using resting_le_sum [OF a] by (metis gr0I le_zero_eq unat_eq_zero)
    have "resting_sum b cp < 18446744073709551616" using C(5) False by (simp add: book_matches_def)
    then have u: "unat (word_of_nat (resting_sum b cp) :: u64) = resting_sum b cp"
      by (simp add: unat_of_nat)
    then have "(word_of_nat (resting_sum b cp) :: u64) \<noteq> 0" using pos by (metis less_irrefl unat_0)
    then show ?thesis using size_at_resting [OF C(5) _ pos] u False by auto
  qed
  then show ?thesis using bm(1,2) by blast
qed

text \<open>
  Claim C4: no reachable box holds a working buy and a working sell that could trade with each
  other; market orders count as crossing every limit order.
\<close>
theorem reachable_book_uncrossed:
  assumes "trade_start s0" and "trades.run s0 es s"
    and "m_contract_assist s n = Some tc" and "m_order_manager s n = Some b"
    and "buy \<in> set (queue b cp)" and "sell \<in> set (queue b cq)" and "Is_buy cp" and "\<not> Is_buy cq"
  shows "\<not> crosses cp cq"
proof -
  have "uncrossed b" using reachable_inv [OF assms(1,2)] assms(3,4) by (auto simp: trade_inv_def)
  then show ?thesis using assms(5-8) by (cases "queue b cp"; cases "queue b cq") (auto simp: uncrossed_def)
qed


section \<open>An example run\<close>

definition ex_start :: TradeSimulater where
  "ex_start = Set_market_listener True (Set_exchange_listener True (Load_match_algorithm True
     (projr (Load_contracts [(''ES'', ''5,1,1,100000'')] TradeSimulater_new))))"

definition ex_sell :: Order where
  "ex_sell = example_order ''A'' BS_Sell ''1.25'' 4 TIF_GTC"

definition ex_buy :: Order where
  "ex_buy = example_order ''B'' BS_Buy ''1'' 5 TIF_GTC"

definition ex_sold :: TradeSimulater where
  "ex_sold = projr (handle (Add_request ex_sell) ex_start)"

definition ex_both :: TradeSimulater where
  "ex_both = projr (handle (Add_request ex_buy) ex_sold)"

lemma ex_trade_start: "trade_start ex_start"
proof -
  let ?s = "projr (Load_contracts [(''ES'', ''5,1,1,100000'')] TradeSimulater_new)"
  have r: "read_contract (''ES'', ''5,1,1,100000'') =
      Inr \<lparr>tc_name = ''ES'', tc_depth = 5, tc_tick = 1, tc_min = 1, tc_max = 100000\<rparr>" by code_simp
  have "Load_contracts [(''ES'', ''5,1,1,100000'')] TradeSimulater_new = Inr ?s"
    by (simp add: Load_contracts_def load_contract_def r)
  moreover have "tc_tick tc \<noteq> 0" if "m_contract_assist ?s n = Some tc" for n tc
    using that by (auto simp: Load_contracts_def load_contract_def r assist_Add_def TradeSimulater_new_def
        split: if_splits)
  ultimately show ?thesis unfolding trade_start_def ex_start_def by blast
qed

text \<open>An order that crosses nothing goes to the end of the queue of its price.\<close>

lemma eligible_Nil:
  assumes inv: "box_inv b" and cp: "ComparablePrice_of ord = Inr cp"
    and no: "\<And>cq. Is_buy cq \<noteq> Is_buy cp \<Longrightarrow> queue b cq \<noteq> [] \<Longrightarrow> \<not> crosses cp cq"
  shows "eligible b cp (Opposite_working_orders (buy_sell ord) b) = []"
proof -
  have "\<not> crosses cp wp" if l: "(wp, ws) \<in> set (Opposite_working_orders (buy_sell ord) b)" for wp ws
  proof (rule no)
    have m: "(wp, ws) \<in> set (m_bid b) \<or> (wp, ws) \<in> set (m_ask b)"
      using l by (auto simp: Opposite_working_orders_def split: if_splits)
    show "queue b wp \<noteq> []"
      using side_level [OF box_levels [OF inv] m] m box_levels [OF inv] by (auto simp: levels_ok_def)
    show "Is_buy wp \<noteq> Is_buy cp"
      using l opposite_ok(1) [OF inv cp] by (force simp: side_ok_def)
  qed
  then show ?thesis by (auto simp: eligible_def filter_empty_conv)
qed

lemma add_without_match:
  assumes inv: "sim_inv s" and b: "m_order_manager s (contract ord) = Some b" and inb: "box_inv b"
    and ck: "Check_order ord s = Inr ''''" and st: "Order_status (client_order_id ord) b = Not_found"
    and cp: "ComparablePrice_of ord = Inr cp" and tif: "tif ord \<noteq> TIF_FAK" "tif ord \<noteq> TIF_FOK"
    and room: "resting_sum b cp + unat (quantity ord) < 18446744073709551616"
    and no: "\<And>cq. Is_buy cq \<noteq> Is_buy cp \<Longrightarrow> queue b cq \<noteq> [] \<Longrightarrow> \<not> crosses cp cq"
  obtains s' b' where "handle (Add_request ord) s = Inr s'" "readable (Add_request ord) s" "sim_inv s'"
    "m_contract_assist s' = m_contract_assist s" "m_order_manager s' (contract ord) = Some b'"
    "box_inv b'" "queue b' = (queue b)(cp := queue b cp @ [next_addr b])"
    "working b' = (working b)(client_order_id ord \<mapsto> next_addr b)" "cancelled b' = cancelled b"
    "fills_of b' = fills_of b"
    "resting_sum b' = (resting_sum b)(cp := resting_sum b cp + unat (quantity ord))"
proof -
  have rd: "order_readable ord s" using b cp room by (simp add: order_readable_def)
  obtain s' b' m' cp' oid where a: "sim_Add ord s = Inr s'" "order_ok (contract ord) ord cp'"
    "changes_contract (contract ord) b' m' s s'" "contract_ok (contract ord) b' m'"
    "match_outcome (ord\<lparr>exchange_order_id := oid, status := OS_Pending\<rparr>) cp' b b'"
    using sim_Add_accepted [OF inv rd ck b st] by blast
  have cp': "cp' = cp" and q: "quantity ord \<noteq> 0" using a(2) cp by (auto simp: order_ok_def)
  let ?pd = "ord\<lparr>exchange_order_id := oid, status := OS_Pending\<rparr>"
  have cpp: "ComparablePrice_of ?pd = Inr cp" using cp by (simp add: ComparablePrice_of_def)
  have "eligible b cp (Opposite_working_orders (buy_sell ?pd) b) = []" by (rule eligible_Nil [OF inb cpp no])
  then have ref: "reference_matches ?pd cp b = ([], quantity ord, False)"
    using tif q by (simp add: reference_matches_def)
  have "rested ?pd cp (quantity ord) False b b'"
    using a(5) ref cp' by (auto simp: match_outcome_def matched_boxes_def)
  then have R: "queue b' = (queue b)(cp := queue b cp @ [next_addr b])"
    "working b' = (working b)(client_order_id ord \<mapsto> next_addr b)" "cancelled b' = cancelled b"
    "heap b' = (heap b)(next_addr b \<mapsto> remainder_order ?pd (quantity ord)\<lparr>status := OS_Working\<rparr>)"
    "fills_of b' = fills_of b"
    using q by (simp_all add: rested_def Let_def)
  have sums: "resting_sum b' = (resting_sum b)(cp := resting_sum b cp + unat (quantity ord))"
    using resting_sum_added [OF inb R(1,4)] by (simp add: remainder_order_def fun_eq_iff)
  show thesis
    by (rule that [of s' b']) (use a rd R sums inv sim_inv_changes [OF inv a(3,4)]
      in \<open>simp_all add: changes_contract_def contract_ok_def\<close>)
qed

lemma ex_prices:
  "ComparablePrice_of ex_sell = Inr \<lparr>Is_buy = False, Price = 125\<rparr>"
  "ComparablePrice_of ex_buy = Inr \<lparr>Is_buy = True, Price = 100\<rparr>"
  by code_simp+

lemma ex_checks:
  assumes "m_contract_assist s ''ES'' =
    Some \<lparr>tc_name = ''ES'', tc_depth = 5, tc_tick = 1, tc_min = 1, tc_max = 100000\<rparr>"
  shows "Check_order ex_sell s = Inr ''''" "Check_order ex_buy s = Inr ''''"
proof -
  have p: "stod ''1.25'' = Inr (5/4)" "TO_ORDER_PRICE (5/4) = 125" "TO_REAL_PRICE 125 = 5/4"
    "stod ''1'' = Inr 1" "TO_ORDER_PRICE 1 = 100" "TO_REAL_PRICE 100 = 1"
    by code_simp+
  show "Check_order ex_sell s = Inr ''''" "Check_order ex_buy s = Inr ''''"
    using assms p by (simp_all add: Check_order_def assist_Check_order_def ex_sell_def ex_buy_def
        example_order_def Order_default_def)
qed

lemma ex_orders [simp]:
  "contract ex_sell = ''ES''" "contract ex_buy = ''ES''" "client_order_id ex_sell = ''A''"
  "client_order_id ex_buy = ''B''" "quantity ex_sell = 4" "quantity ex_buy = 5"
  "tif ex_sell = TIF_GTC" "tif ex_buy = TIF_GTC"
  by (simp_all add: ex_sell_def ex_buy_def example_order_def)

text \<open>The sell rests, then the buy below it.\<close>

lemma ex_states:
  obtains s1 s2 b1 b2 tc a where "trades.run ex_start [Request (Add_request ex_sell)] s1"
    "trades.run ex_start [Request (Add_request ex_sell), Request (Add_request ex_buy)] s2"
    "readable (Add_request ex_buy) s1" "handle (Add_request ex_buy) s1 = Inr s2"
    "m_order_manager s1 ''ES'' = Some b1" "m_order_manager s2 ''ES'' = Some b2"
    "m_contract_assist s2 ''ES'' = Some tc"
    "0 \<in> set (queue b2 \<lparr>Is_buy = False, Price = 125\<rparr>)" "a \<in> set (queue b2 \<lparr>Is_buy = True, Price = 100\<rparr>)"
    "resting_sum b2 \<lparr>Is_buy = False, Price = 125\<rparr> = 4"
proof -
  let ?tc = "\<lparr>tc_name = ''ES'', tc_depth = 5, tc_tick = 1, tc_min = 1, tc_max = 100000\<rparr>"
  let ?S = "\<lparr>Is_buy = False, Price = 125\<rparr>" and ?B = "\<lparr>Is_buy = True, Price = 100\<rparr>"
  let ?b = "TradeOrderBox_new ''ES''"
  have r: "read_contract (''ES'', ''5,1,1,100000'') = Inr ?tc" by code_simp
  have tc0: "m_contract_assist ex_start ''ES'' = Some ?tc"
    and om0: "m_order_manager ex_start ''ES'' = Some ?b"
    by (simp_all add: ex_start_def Load_contracts_def load_contract_def r assist_Add_def manager_Add_contract_def
        Set_market_listener_def Set_exchange_listener_def Load_match_algorithm_def)
  have inv0: "sim_inv ex_start" using trade_start_inv [OF ex_trade_start] by (simp add: trade_inv_def)
  have b0: "Order_status ''A'' ?b = Not_found" "next_addr ?b = 0" "working ?b = Map.empty"
    "cancelled ?b = Map.empty" "fills_of ?b cid = []" for cid
    by (simp_all add: Order_status_def TradeOrderBox_new_def equal_range_def working_def cancelled_def
        fills_of_def fun_eq_iff)
  have sum0: "resting_sum ?b cp = 0" for cp by (simp add: resting_sum_def queue_new)
  obtain s1 b1 where 1: "handle (Add_request ex_sell) ex_start = Inr s1" "readable (Add_request ex_sell) ex_start"
    "sim_inv s1" "m_contract_assist s1 = m_contract_assist ex_start" "m_order_manager s1 ''ES'' = Some b1"
    "box_inv b1" "queue b1 = (queue ?b)(?S := [0])"
    "working b1 = (working ?b)(''A'' \<mapsto> 0)" "cancelled b1 = cancelled ?b" "fills_of b1 = fills_of ?b"
    "resting_sum b1 = (resting_sum ?b)(?S := 4)"
    by (rule add_without_match [OF inv0, of ex_sell ?b ?S])
      (use om0 TradeOrderBox_new_inv ex_checks(1) [OF tc0] b0 ex_prices(1) sum0 queue_new in simp_all)
  have st1: "Order_status ''B'' b1 = Not_found"
    using 1(8-10) b0 by (simp add: Order_status_view)
  have no: "\<not> crosses ?B cq" if "queue b1 cq \<noteq> []" for cq
    using that 1(7) by (auto simp: queue_new crosses_def Is_market_def split: if_splits)
  obtain s2 b2 where 2: "handle (Add_request ex_buy) s1 = Inr s2" "readable (Add_request ex_buy) s1"
    "sim_inv s2" "m_contract_assist s2 = m_contract_assist s1" "m_order_manager s2 ''ES'' = Some b2"
    "box_inv b2" "queue b2 = (queue b1)(?B := queue b1 ?B @ [next_addr b1])"
    "working b2 = (working b1)(''B'' \<mapsto> next_addr b1)" "cancelled b2 = cancelled b1" "fills_of b2 = fills_of b1"
    "resting_sum b2 = (resting_sum b1)(?B := resting_sum b1 ?B + 5)"
    by (rule add_without_match [OF 1(3), of ex_buy b1 ?B])
      (use 1 ex_checks(2) [of s1] tc0 st1 ex_prices(2) sum0 no in simp_all)
  have r0: "trades.run ex_start [] ex_start" by (rule trades.run_Nil)
  have r1: "trades.run ex_start [Request (Add_request ex_sell)] s1"
    using trades.run_snoc [OF r0, of "Request (Add_request ex_sell)" s1] 1(1,2) by simp
  have r2: "trades.run ex_start [Request (Add_request ex_sell), Request (Add_request ex_buy)] s2"
    using trades.run_snoc [OF r1, of "Request (Add_request ex_buy)" s2] 2(1,2) by simp
  show thesis
    by (rule that [OF r1 r2 2(2,1) 1(5) 2(5)]) (use 1 2 tc0 queue_new in auto)
qed


theorem published_book_is_resting_orders_witness:
  "\<exists>(s :: TradeSimulater) m size. m_market_states (m_market_manager s) ''ES'' = Some m \<and>
     size_at m \<lparr>Is_buy = False, Price = 125\<rparr> = Some size \<and> unat size = 4"
proof (rule ex_states)
  fix s2 b2 tc
  assume a: "trades.run ex_start [Request (Add_request ex_sell), Request (Add_request ex_buy)] s2"
    "m_order_manager s2 ''ES'' = Some b2" "m_contract_assist s2 ''ES'' = Some tc"
    "0 \<in> set (queue b2 \<lparr>Is_buy = False, Price = 125\<rparr>)" "resting_sum b2 \<lparr>Is_buy = False, Price = 125\<rparr> = 4"
  obtain m where m: "m_market_states (m_market_manager s2) ''ES'' = Some m"
    "\<forall>cp. if Is_market cp then size_at m cp = None
          else if queue b2 cp = [] then size_at m cp = None
          else \<exists>size. size_at m cp = Some size \<and> unat size = resting_sum b2 cp \<and> size \<noteq> 0"
    using published_book_is_resting_orders [OF ex_trade_start a(1,3)] a(2) by auto
  have "queue b2 \<lparr>Is_buy = False, Price = 125\<rparr> \<noteq> []" using a(4) by auto
  moreover have "\<not> Is_market \<lparr>Is_buy = False, Price = 125\<rparr>" by (simp add: Is_market_def)
  ultimately show ?thesis
    using m(1) m(2) [rule_format, of "\<lparr>Is_buy = False, Price = 125\<rparr>"] a(5) by auto
qed

theorem reachable_book_uncrossed_witness:
  "\<not> crosses \<lparr>Is_buy = True, Price = 100\<rparr> \<lparr>Is_buy = False, Price = 125\<rparr>"
proof (rule ex_states)
  fix s2 b2 tc x
  assume a: "trades.run ex_start [Request (Add_request ex_sell), Request (Add_request ex_buy)] s2"
    "m_order_manager s2 ''ES'' = Some b2" "m_contract_assist s2 ''ES'' = Some tc"
    "0 \<in> set (queue b2 \<lparr>Is_buy = False, Price = 125\<rparr>)" "x \<in> set (queue b2 \<lparr>Is_buy = True, Price = 100\<rparr>)"
  show ?thesis
    using reachable_book_uncrossed [OF ex_trade_start a(1,3,2,5,4)] by simp
qed


end
