(* ===== verification/Replay_Matcher.thy ===== *)
theory Replay_Matcher
  imports Trade_Types
begin

text \<open>
  The simulated exchange that replays recorded market data
  (tmalpha/replay/replay_order_matcher.cc) and the second copy of it that listens to a simulated
  market (tmalpha/exchange/exchange_simulater.cc).  An order is filled at once, and as a whole,
  when it crosses the best opposite quote; otherwise it waits, in order of arrival, until a later
  quote crosses it or the volume traded at its price has passed its place in the queue, which is
  a share of the size quoted there.  The two classes differ in \<open>Order_filled\<close> only, so the
  operations that fill orders take it as an argument.  The mutex makes every operation atomic.
  What the listener receives is kept as a list of events in the state.
\<close>

section \<open>State\<close>

record L2_book =
  l2_contract :: string
  l2_bid :: "data_point list"
  l2_offer :: "data_point list"

text \<open>A working order with its place among the orders of its price (an \<open>int\<close>, -1 when it is not
  known) and the volume traded there since.\<close>

type_synonym order_info = "Order \<times> i32 \<times> u32"

datatype exchange_event = On_order Order | On_fill Fill

record ReplayOrderMatcher =
  m_result_listener :: bool
  m_exchange_order_id :: u32
  m_fill_id :: u32
  m_working_orders :: "string \<rightharpoonup> order_info"
  m_working_order_ids :: "string list"
  m_filled_orders :: "string \<rightharpoonup> Fill"
  m_canceled_orders :: "string \<rightharpoonup> Order"
  m_current_states :: "string \<rightharpoonup> L2_book \<times> u32 \<times> u32"
  m_trade_rate :: u32
  sent :: "exchange_event list"

definition ReplayOrderMatcher_new :: "i32 \<Rightarrow> ReplayOrderMatcher" where
  "ReplayOrderMatcher_new trade_rate =
     \<lparr>m_result_listener = False, m_exchange_order_id = 0, m_fill_id = 0,
      m_working_orders = Map.empty, m_working_order_ids = [], m_filled_orders = Map.empty,
      m_canceled_orders = Map.empty, m_current_states = Map.empty,
      m_trade_rate = word_of_int (max (min (sint trade_rate) 100) 0), sent = []\<rparr>"

definition Add_exchange_listener :: "bool \<Rightarrow> ReplayOrderMatcher \<Rightarrow> ReplayOrderMatcher" where
  "Add_exchange_listener l m = m\<lparr>m_result_listener := l\<rparr>"

text \<open>A call through the listener, which is undefined when none is set.\<close>

definition send :: "exchange_event \<Rightarrow> ReplayOrderMatcher \<Rightarrow> ReplayOrderMatcher res" where
  "send e m = (if m_result_listener m then Inr (m\<lparr>sent := sent m @ [e]\<rparr>) else Inl Undefined_behaviour)"

definition matcher_Next_exchange_order_id :: "ReplayOrderMatcher \<Rightarrow> string \<times> ReplayOrderMatcher" where
  "matcher_Next_exchange_order_id m =
     (let n = m_exchange_order_id m + 1 in (''Order-'' @ to_string_word n, m\<lparr>m_exchange_order_id := n\<rparr>))"

definition matcher_Next_fill_id :: "ReplayOrderMatcher \<Rightarrow> string \<times> ReplayOrderMatcher" where
  "matcher_Next_fill_id m =
     (let n = m_fill_id m + 1 in (''Fill-'' @ to_string_word n, m\<lparr>m_fill_id := n\<rparr>))"

section \<open>Messages to the strategy\<close>

definition new_fill :: "Order \<Rightarrow> string \<Rightarrow> string \<Rightarrow> Fill" where
  "new_fill org_order eid fid =
     \<lparr>fill_id = fid, fill_price = o_price org_order, fill_quantity = quantity org_order,
      f_account = account org_order, f_client_order_id = client_order_id org_order,
      f_exchange_order_id = eid, f_contract = contract org_order, f_buy_sell = buy_sell org_order\<rparr>"

definition replay_Order_filled ::
    "Order \<Rightarrow> string \<Rightarrow> ReplayOrderMatcher \<Rightarrow> (Fill \<times> ReplayOrderMatcher) res" where
  "replay_Order_filled org_order eid m =
     bind_res (send (On_order (org_order\<lparr>exchange_order_id := eid, status := OS_Filled,
         working_price := ''0'', working_quantity := 0, filled_quantity := quantity org_order,
         message := ''''\<rparr>)) m) (\<lambda>m1.
       let (fid, m2) = matcher_Next_fill_id m1; fill = new_fill org_order eid fid
       in map_res (\<lambda>m3. (fill, m3)) (send (On_fill fill) m2))"

text \<open>The other class sends the fill only.\<close>

definition simulater_Order_filled ::
    "Order \<Rightarrow> string \<Rightarrow> ReplayOrderMatcher \<Rightarrow> (Fill \<times> ReplayOrderMatcher) res" where
  "simulater_Order_filled org_order eid m =
     (let (fid, m1) = matcher_Next_fill_id m; fill = new_fill org_order eid fid
      in map_res (\<lambda>m2. (fill, m2)) (send (On_fill fill) m1))"

definition Calculate_order_position :: "Order \<Rightarrow> ReplayOrderMatcher \<Rightarrow> i32 res" where
  "Calculate_order_position org_order m =
     (case m_current_states m (contract org_order) of
        None \<Rightarrow> Inr (-1)
      | Some (l2, _, _) \<Rightarrow>
          let position = (\<lambda>prices. case prices of
              [] \<Rightarrow> Inr (-1)
            | best # _ \<Rightarrow> bind_res (stod (o_price org_order)) (\<lambda>p.
                Inr (if p \<noteq> price best then -1
                     else ucast (dp_size best * ucast (m_trade_rate m) div 100))))
          in case buy_sell org_order of
               BS_Buy \<Rightarrow> position (l2_bid l2)
             | BS_Sell \<Rightarrow> position (l2_offer l2)
             | BS_None \<Rightarrow> Inr (-1))"

definition Order_working ::
    "Order \<Rightarrow> string \<Rightarrow> ReplayOrderMatcher \<Rightarrow> (order_info \<times> ReplayOrderMatcher) res" where
  "Order_working org_order eid m =
     (let ord = org_order\<lparr>exchange_order_id := eid, status := OS_Working,
           working_price := o_price org_order, working_quantity := quantity org_order,
           filled_quantity := 0, message := ''''\<rparr>
      in bind_res (send (On_order ord) m) (\<lambda>m1.
         bind_res (Calculate_order_position org_order m1) (\<lambda>position.
         Inr ((ord, position, 0), m1))))"

definition Order_reject :: "Order \<Rightarrow> string \<Rightarrow> ReplayOrderMatcher \<Rightarrow> ReplayOrderMatcher res" where
  "Order_reject org_order reason =
     send (On_order (org_order\<lparr>status := OS_Rejected, message := reason\<rparr>))"

definition Order_status_order ::
    "Order \<Rightarrow> OrderStatus \<Rightarrow> ReplayOrderMatcher \<Rightarrow> ReplayOrderMatcher res" where
  "Order_status_order org_order st = send (On_order (org_order\<lparr>status := st, message := ''''\<rparr>))"

definition Order_status_fill :: "Fill \<Rightarrow> ReplayOrderMatcher \<Rightarrow> ReplayOrderMatcher res" where
  "Order_status_fill f = send (On_order (Order_default\<lparr>client_order_id := f_client_order_id f,
     account := f_account f, contract := f_contract f, buy_sell := f_buy_sell f,
     o_price := fill_price f, quantity := fill_quantity f,
     exchange_order_id := f_exchange_order_id f, status := OS_Filled,
     filled_quantity := fill_quantity f, message := ''''\<rparr>))"

section \<open>Matching\<close>

text \<open>A match leaves the price it is made at in the order.\<close>

definition Is_price_matching :: "Order \<Rightarrow> L2_book \<Rightarrow> (bool \<times> Order) res" where
  "Is_price_matching org_order l2 =
     (let against = (\<lambda>prices crosses. case prices of
          [] \<Rightarrow> Inr (False, org_order)
        | best # _ \<Rightarrow>
            bind_res (if order_type org_order = OT_Market then Inr True
                      else map_res (\<lambda>p. crosses p (price best)) (stod (o_price org_order))) (\<lambda>is_matching.
            Inr (is_matching, if is_matching then org_order\<lparr>o_price := to_string_double (price best)\<rparr>
                              else org_order)))
      in case buy_sell org_order of
           BS_Buy \<Rightarrow> against (l2_offer l2) (\<lambda>p best. best \<le> p)
         | BS_Sell \<Rightarrow> against (l2_bid l2) (\<lambda>p best. p \<le> best)
         | BS_None \<Rightarrow> Inr (False, org_order))"

definition Has_matching :: "Order \<Rightarrow> ReplayOrderMatcher \<Rightarrow> (bool \<times> Order) res" where
  "Has_matching org_order m =
     (case m_current_states m (contract org_order) of
        None \<Rightarrow> Inr (False, org_order)
      | Some (l2, _, _) \<Rightarrow> Is_price_matching org_order l2)"

definition Is_position_reached ::
    "u32 \<Rightarrow> order_info \<Rightarrow> data_point list \<Rightarrow> u32 \<Rightarrow> (double \<Rightarrow> double \<Rightarrow> bool) \<Rightarrow>
     (bool \<times> order_info) res" where
  "Is_position_reached trade_rate oi prices current_turnover_size compare =
     (case (oi, prices) of
        (_, []) \<Rightarrow> Inr (False, oi)
      | ((ord, position, turnover), best # _) \<Rightarrow>
          bind_res (stod (o_price ord)) (\<lambda>order_price. Inr (
            if compare (price best) order_price then (False, oi)
            else if compare order_price (price best) then (True, oi)
            else if position = -1
              then (False, (ord, ucast (dp_size best * ucast trade_rate div 100), turnover))
            else (position < turnover + current_turnover_size,
                  (ord, position, turnover + current_turnover_size)))))"

definition Has_rematching :: "order_info \<Rightarrow> ReplayOrderMatcher \<Rightarrow> (bool \<times> order_info) res" where
  "Has_rematching oi m =
     (case oi of (ord, position, turnover) \<Rightarrow>
      case m_current_states m (contract ord) of
        None \<Rightarrow> Inr (False, oi)
      | Some (l2, bid_volumn, ask_volumn) \<Rightarrow>
          bind_res (Is_price_matching ord l2) (\<lambda>(hit, ord').
            if hit then Inr (True, (ord', position, turnover))
            else case buy_sell ord of
              BS_Buy \<Rightarrow> Is_position_reached (m_trade_rate m) (ord', position, turnover) (l2_bid l2) bid_volumn (>)
            | BS_Sell \<Rightarrow> Is_position_reached (m_trade_rate m) (ord', position, turnover) (l2_offer l2) ask_volumn (<)
            | BS_None \<Rightarrow> Inr (False, (ord', position, turnover))))"

text \<open>The loop over the list of ids; \<open>operator[]\<close> inserts an entry with the defaults for an id
  that is not in the map.  The loop gives the ids it keeps.\<close>

type_synonym filler = "Order \<Rightarrow> string \<Rightarrow> ReplayOrderMatcher \<Rightarrow> (Fill \<times> ReplayOrderMatcher) res"

definition default_info :: order_info where
  "default_info = (Order_default, 0, 0)"

fun rematch_loop :: "filler \<Rightarrow> string \<Rightarrow> string list \<Rightarrow> ReplayOrderMatcher \<Rightarrow>
    (string list \<times> ReplayOrderMatcher) res" where
  "rematch_loop order_filled name [] m = Inr ([], m)"
| "rematch_loop order_filled name (i # ids) m =
     (let oi = (case m_working_orders m i of None \<Rightarrow> default_info | Some oi \<Rightarrow> oi);
          m1 = m\<lparr>m_working_orders := (m_working_orders m)(i \<mapsto> oi)\<rparr>
      in bind_res (if contract (fst oi) = name then Has_rematching oi m1 else Inr (False, oi)) (\<lambda>(hit, oi').
         let m2 = m1\<lparr>m_working_orders := (m_working_orders m1)(i \<mapsto> oi')\<rparr>; ord = fst oi'
         in if hit then
              bind_res (order_filled ord (exchange_order_id ord) m2) (\<lambda>(fill, m3).
              rematch_loop order_filled name ids
                (m3\<lparr>m_filled_orders := (m_filled_orders m3)(client_order_id ord \<mapsto> fill),
                    m_working_orders := (m_working_orders m3)(client_order_id ord := None)\<rparr>))
            else map_res (\<lambda>(kept, m'). (i # kept, m')) (rematch_loop order_filled name ids m2)))"

definition Rematching :: "filler \<Rightarrow> string \<Rightarrow> ReplayOrderMatcher \<Rightarrow> ReplayOrderMatcher res" where
  "Rematching order_filled name m =
     map_res (\<lambda>(kept, m'). m'\<lparr>m_working_order_ids := kept\<rparr>)
       (rematch_loop order_filled name (m_working_order_ids m) m)"

section \<open>Operations\<close>

definition On_state_changed ::
    "filler \<Rightarrow> L2_book \<Rightarrow> u32 \<Rightarrow> u32 \<Rightarrow> ReplayOrderMatcher \<Rightarrow> ReplayOrderMatcher res" where
  "On_state_changed order_filled l2 bid_volumn ask_volumn m =
     Rematching order_filled (l2_contract l2)
       (m\<lparr>m_current_states := (m_current_states m)(l2_contract l2 \<mapsto> (l2, bid_volumn, ask_volumn))\<rparr>)"

definition matcher_Add :: "filler \<Rightarrow> Order \<Rightarrow> ReplayOrderMatcher \<Rightarrow> ReplayOrderMatcher res" where
  "matcher_Add order_filled ord m =
     bind_res (Has_matching ord m) (\<lambda>(hit, org_order).
       let (eid, m1) = matcher_Next_exchange_order_id m in
       if hit then
         map_res (\<lambda>(fill, m2). m2\<lparr>m_filled_orders := (m_filled_orders m2)(client_order_id org_order \<mapsto> fill)\<rparr>)
           (order_filled org_order eid m1)
       else
         map_res (\<lambda>(oi, m2).
             m2\<lparr>m_working_orders := (m_working_orders m2)(client_order_id org_order \<mapsto> oi),
                m_working_order_ids := m_working_order_ids m2 @ [client_order_id org_order]\<rparr>)
           (Order_working org_order eid m1))"

definition matcher_Change :: "Order \<Rightarrow> ReplayOrderMatcher \<Rightarrow> ReplayOrderMatcher res" where
  "matcher_Change ord m =
     (if m_filled_orders m (client_order_id ord) \<noteq> None then Order_reject ord ''order is filled'' m
      else if m_canceled_orders m (client_order_id ord) \<noteq> None then Order_reject ord ''order is canceled'' m
      else case m_working_orders m (client_order_id ord) of
        None \<Rightarrow> Order_reject ord ''order not found'' m
      | Some opos \<Rightarrow>
          map_res (\<lambda>(oi, m1). m1\<lparr>m_working_orders := (m_working_orders m1)(client_order_id ord \<mapsto> oi)\<rparr>)
            (Order_working ord (exchange_order_id (fst opos)) m))"

definition matcher_Delete :: "Order \<Rightarrow> ReplayOrderMatcher \<Rightarrow> ReplayOrderMatcher res" where
  "matcher_Delete ord m =
     (if m_filled_orders m (client_order_id ord) \<noteq> None then Order_reject ord ''order is filled'' m
      else if m_canceled_orders m (client_order_id ord) \<noteq> None then Order_reject ord ''order is canceled'' m
      else case m_working_orders m (client_order_id ord) of
        None \<Rightarrow> Order_reject ord ''order not found'' m
      | Some opos \<Rightarrow>
          map_res (\<lambda>m1. m1\<lparr>m_canceled_orders := (m_canceled_orders m1)(client_order_id ord \<mapsto> fst opos),
                            m_working_order_ids := removeAll (client_order_id ord) (m_working_order_ids m1),
                            m_working_orders := (m_working_orders m1)(client_order_id ord := None)\<rparr>)
            (Order_status_order (fst opos) OS_Cancelled m))"

definition matcher_Query :: "Order \<Rightarrow> ReplayOrderMatcher \<Rightarrow> ReplayOrderMatcher res" where
  "matcher_Query ord m =
     (case m_filled_orders m (client_order_id ord) of
        Some f \<Rightarrow> Order_status_fill f m
      | None \<Rightarrow>
      case m_canceled_orders m (client_order_id ord) of
        Some c \<Rightarrow> Order_status_order c OS_Cancelled m
      | None \<Rightarrow>
      case m_working_orders m (client_order_id ord) of
        None \<Rightarrow> Order_reject ord ''order not found'' m
      | Some opos \<Rightarrow> Order_status_order (fst opos) OS_Working m)"

text \<open>What reaches the two simulators: requests of a strategy and changes of the quotes with the
  volumes traded.\<close>

datatype replay_request =
    Replay_add Order
  | Replay_change Order
  | Replay_delete Order
  | Replay_query Order
  | Replay_quotes L2_book u32 u32

fun serve :: "filler \<Rightarrow> replay_request \<Rightarrow> ReplayOrderMatcher \<Rightarrow> ReplayOrderMatcher res" where
  "serve order_filled (Replay_add ord) m = matcher_Add order_filled ord m"
| "serve order_filled (Replay_change ord) m = matcher_Change ord m"
| "serve order_filled (Replay_delete ord) m = matcher_Delete ord m"
| "serve order_filled (Replay_query ord) m = matcher_Query ord m"
| "serve order_filled (Replay_quotes l2 b a) m = On_state_changed order_filled l2 b a m"

section \<open>The second class\<close>

text \<open>\<open>ExchangeSimulater\<close> repeats the text of all other operations word for word.\<close>

definition simulater_On_state_changed :: "L2_book \<Rightarrow> u32 \<Rightarrow> u32 \<Rightarrow> ReplayOrderMatcher \<Rightarrow> ReplayOrderMatcher res" where
  "simulater_On_state_changed = On_state_changed simulater_Order_filled"

definition simulater_Add :: "Order \<Rightarrow> ReplayOrderMatcher \<Rightarrow> ReplayOrderMatcher res" where
  "simulater_Add = matcher_Add simulater_Order_filled"

definition simulater_Change :: "Order \<Rightarrow> ReplayOrderMatcher \<Rightarrow> ReplayOrderMatcher res" where
  "simulater_Change = matcher_Change"

definition simulater_Delete :: "Order \<Rightarrow> ReplayOrderMatcher \<Rightarrow> ReplayOrderMatcher res" where
  "simulater_Delete = matcher_Delete"

definition simulater_Query :: "Order \<Rightarrow> ReplayOrderMatcher \<Rightarrow> ReplayOrderMatcher res" where
  "simulater_Query = matcher_Query"

fun simulater_serve :: "replay_request \<Rightarrow> ReplayOrderMatcher \<Rightarrow> ReplayOrderMatcher res" where
  "simulater_serve (Replay_add ord) m = simulater_Add ord m"
| "simulater_serve (Replay_change ord) m = simulater_Change ord m"
| "simulater_serve (Replay_delete ord) m = simulater_Delete ord m"
| "simulater_serve (Replay_query ord) m = simulater_Query ord m"
| "simulater_serve (Replay_quotes l2 b a) m = simulater_On_state_changed l2 b a m"

lemma simulater_serve_eq: "simulater_serve = serve simulater_Order_filled"
proof (intro ext)
  show "simulater_serve r m = serve simulater_Order_filled r m" for r m
    by (cases r) (simp_all add: simulater_On_state_changed_def simulater_Add_def simulater_Change_def
        simulater_Delete_def simulater_Query_def)
qed

end
