(* ===== verification/Replay_Rules.thy ===== *)
theory Replay_Rules
  imports Replay_Matcher "HOL-Library.Sublist"
begin

text \<open>
  What the simulated exchange of the replay promises: where an order is kept, when a resting
  order is filled and at what price, that requests with readable prices are always served, and
  how the second copy of the class differs.  The laws are proved once for every way of
  reporting a fill (locale \<open>order_filler\<close>) and hold for both classes by interpretation.
\<close>

section \<open>Effects\<close>

named_theorems matcher_defs \<open>definitions of the parts of the matcher that only send\<close>

lemmas [matcher_defs] = matcher_Next_exchange_order_id_def matcher_Next_fill_id_def Order_reject_def
  Order_status_order_def Order_status_fill_def Let_def

lemma send_Inr_iff: "send e m = Inr m' \<longleftrightarrow> m_result_listener m \<and> m' = m\<lparr>sent := sent m @ [e]\<rparr>"
  by (auto simp: send_def)

text \<open>Two states that differ in the counters and the messages only.\<close>

definition same_books :: "ReplayOrderMatcher \<Rightarrow> ReplayOrderMatcher \<Rightarrow> bool" where
  "same_books m m' \<longleftrightarrow>
     m_working_orders m' = m_working_orders m \<and> m_working_order_ids m' = m_working_order_ids m \<and>
     m_filled_orders m' = m_filled_orders m \<and> m_canceled_orders m' = m_canceled_orders m \<and>
     m_current_states m' = m_current_states m \<and> m_trade_rate m' = m_trade_rate m \<and>
     m_result_listener m' = m_result_listener m"

lemma same_books_refl [simp]: "same_books m m"
  by (simp add: same_books_def)

lemma same_booksD:
  assumes "same_books m m'"
  shows "m_working_orders m' = m_working_orders m" "m_working_order_ids m' = m_working_order_ids m"
    "m_filled_orders m' = m_filled_orders m" "m_canceled_orders m' = m_canceled_orders m"
    "m_current_states m' = m_current_states m" "m_trade_rate m' = m_trade_rate m"
    "m_result_listener m' = m_result_listener m"
  using assms by (simp_all add: same_books_def)

lemma send_same_books: "send e m = Inr m' \<Longrightarrow> same_books m m'"
  by (auto simp: send_Inr_iff same_books_def)

lemma Calculate_order_position_cong:
  assumes "m_current_states m' = m_current_states m" "m_trade_rate m' = m_trade_rate m"
  shows "Calculate_order_position ord m' = Calculate_order_position ord m"
  unfolding Calculate_order_position_def assms ..

lemma Has_rematching_cong:
  assumes "m_current_states m' = m_current_states m" "m_trade_rate m' = m_trade_rate m"
  shows "Has_rematching oi m' = Has_rematching oi m"
  unfolding Has_rematching_def assms ..

text \<open>What matching may change in an order: its price, and that only when it matches.\<close>

definition repriced :: "Order \<Rightarrow> Order \<Rightarrow> bool" where
  "repriced ord ord' \<longleftrightarrow> (\<exists>p. ord' = ord\<lparr>o_price := p\<rparr>)"

lemma repriced_simps [simp]: "repriced ord (ord\<lparr>o_price := p\<rparr>)" "repriced ord ord"
proof -
  show "repriced ord (ord\<lparr>o_price := p\<rparr>)" by (auto simp: repriced_def)
  have "ord = ord\<lparr>o_price := o_price ord\<rparr>" by simp
  then show "repriced ord ord" unfolding repriced_def by blast
qed

lemma repriced_id: "repriced ord ord' \<Longrightarrow> client_order_id ord' = client_order_id ord"
  by (auto simp: repriced_def)

lemma Is_price_matching_order:
  "Is_price_matching ord l2 = Inr (hit, ord') \<Longrightarrow> repriced ord ord' \<and> (\<not> hit \<longrightarrow> ord' = ord)"
  by (auto simp: Is_price_matching_def bind_res_Inr_iff split: BuySell.splits list.splits if_splits)

lemma Is_position_reached_order:
  "Is_position_reached r (ord, p, t) ps v c = Inr (hit, oi') \<Longrightarrow> fst oi' = ord"
  by (auto simp: Is_position_reached_def bind_res_Inr_iff split: list.splits if_splits)

lemma Has_rematching_order:
  assumes "Has_rematching oi m = Inr (hit, oi')"
  shows "repriced (fst oi) (fst oi') \<and> (\<not> hit \<longrightarrow> fst oi' = fst oi)"
proof -
  obtain ord pos t where oi: "oi = (ord, pos, t)" by (rule prod_cases3)
  show ?thesis
    using assms unfolding oi Has_rematching_def
    by (auto simp: bind_res_Inr_iff split: option.splits if_splits BuySell.splits
        dest!: Is_price_matching_order Is_position_reached_order)
qed

text \<open>The outcome of the loop for one working order.\<close>

definition verdict :: "string \<Rightarrow> order_info \<Rightarrow> ReplayOrderMatcher \<Rightarrow> (bool \<times> order_info) res" where
  "verdict name oi m = (if contract (fst oi) = name then Has_rematching oi m else Inr (False, oi))"

lemma verdict_cong:
  "m_current_states m' = m_current_states m \<Longrightarrow> m_trade_rate m' = m_trade_rate m \<Longrightarrow>
   verdict name oi m' = verdict name oi m"
  using Has_rematching_cong [of m' m] by (simp add: verdict_def)

lemma verdict_order:
  "verdict name oi m = Inr (hit, oi') \<Longrightarrow> repriced (fst oi) (fst oi') \<and> (\<not> hit \<longrightarrow> fst oi' = fst oi)"
  using Has_rematching_order [of oi m hit oi'] by (auto simp: verdict_def split: if_splits)

lemma verdict_id: "verdict name oi m = Inr (hit, oi') \<Longrightarrow> client_order_id (fst oi') = client_order_id (fst oi)"
  by (simp add: verdict_order repriced_id)

declare rematch_loop.simps(2) [simp del]

text \<open>The invariant of both classes when no id is used twice: every order is kept under its own
  id, in one of the three maps, and the list holds the working ones once each.\<close>

definition matcher_inv :: "ReplayOrderMatcher \<Rightarrow> bool" where
  "matcher_inv m \<longleftrightarrow>
     m_result_listener m \<and> distinct (m_working_order_ids m) \<and>
     set (m_working_order_ids m) = dom (m_working_orders m) \<and>
     dom (m_working_orders m) \<inter> dom (m_filled_orders m) = {} \<and>
     dom (m_working_orders m) \<inter> dom (m_canceled_orders m) = {} \<and>
     dom (m_filled_orders m) \<inter> dom (m_canceled_orders m) = {} \<and>
     (\<forall>i oi. m_working_orders m i = Some oi \<longrightarrow> client_order_id (fst oi) = i) \<and>
     (\<forall>i f. m_filled_orders m i = Some f \<longrightarrow> f_client_order_id f = i) \<and>
     (\<forall>i c. m_canceled_orders m i = Some c \<longrightarrow> client_order_id c = i)"

definition known :: "ReplayOrderMatcher \<Rightarrow> string set" where
  "known m = dom (m_working_orders m) \<union> dom (m_filled_orders m) \<union> dom (m_canceled_orders m)"

text \<open>The fill of an order: the whole of it, at the price it carries.\<close>

definition fill_of :: "Order \<Rightarrow> Fill \<Rightarrow> bool" where
  "fill_of ord f \<longleftrightarrow> f_client_order_id f = client_order_id ord \<and> fill_price f = o_price ord \<and>
     fill_quantity f = quantity ord \<and> f_contract f = contract ord \<and> f_buy_sell f = buy_sell ord \<and>
     f_account f = account ord"

definition fills :: "ReplayOrderMatcher \<Rightarrow> Fill list" where
  "fills m = List.map_filter (\<lambda>e. case e of On_fill f \<Rightarrow> Some f | On_order _ \<Rightarrow> None) (sent m)"

section \<open>Orders with readable prices\<close>

text \<open>A request whose price \<open>std::stod\<close> reads.\<close>

definition price_readable :: "Order \<Rightarrow> bool" where
  "price_readable ord \<longleftrightarrow> (\<exists>p. stod (o_price ord) = Inr p)"

definition all_readable :: "ReplayOrderMatcher \<Rightarrow> bool" where
  "all_readable m \<longleftrightarrow> (\<forall>i oi. m_working_orders m i = Some oi \<longrightarrow> price_readable (fst oi))"

fun added :: "replay_request \<Rightarrow> string list" where
  "added (Replay_add ord) = [client_order_id ord]"
| "added _ = []"

fun request_priced :: "replay_request \<Rightarrow> bool" where
  "request_priced (Replay_add ord) = price_readable ord"
| "request_priced (Replay_change ord) = price_readable ord"
| "request_priced _ = True"

definition added_ids :: "replay_request list \<Rightarrow> string list" where
  "added_ids rs = concat (map added rs)"

lemma price_readableE: assumes "price_readable ord" obtains p where "stod (o_price ord) = Inr p"
  using assms by (auto simp: price_readable_def)

lemma send_total: "m_result_listener m \<Longrightarrow> \<exists>m'. send e m = Inr m'"
  by (simp add: send_def)

lemma Calculate_order_position_total: "price_readable ord \<Longrightarrow> \<exists>p. Calculate_order_position ord m = Inr p"
  by (elim price_readableE) (auto simp: Calculate_order_position_def Let_def split: option.split BuySell.split list.split)

lemma Is_price_matching_total: "price_readable ord \<Longrightarrow> \<exists>r. Is_price_matching ord l2 = Inr r"
  by (elim price_readableE) (auto simp: Is_price_matching_def Let_def split: BuySell.split list.split)

lemma Has_matching_total: "price_readable ord \<Longrightarrow> \<exists>r. Has_matching ord m = Inr r"
  using Is_price_matching_total by (auto simp: Has_matching_def split: option.split)

lemma Is_position_reached_total: "price_readable ord \<Longrightarrow> \<exists>r. Is_position_reached x (ord, p, t) ps v c = Inr r"
  by (elim price_readableE) (auto simp: Is_position_reached_def split: list.split)

lemma verdict_total:
  assumes "price_readable (fst oi)"
  shows "\<exists>hit oi'. verdict name oi m = Inr (hit, oi')"
proof -
  obtain ord pos t where oi: "oi = (ord, pos, t)" by (rule prod_cases3)
  have "\<exists>r. Has_rematching oi m = Inr r"
  proof (cases "m_current_states m (contract ord)")
    case (Some q)
    obtain l2 b a where q: "q = (l2, b, a)" by (rule prod_cases3)
    obtain hit ord' where h: "Is_price_matching ord l2 = Inr (hit, ord')"
      using Is_price_matching_total assms oi by fastforce
    have "price_readable ord'" if "\<not> hit" using Is_price_matching_order [OF h] that assms oi by simp
    then show ?thesis
      using Is_position_reached_total [of ord' _ pos t]
      by (auto simp: Has_rematching_def oi Some q h simp del: split_paired_Ex split: BuySell.split)
  qed (auto simp: Has_rematching_def oi)
  then show ?thesis by (auto simp: verdict_def oi)
qed

lemma Order_working_effect:
  "Order_working ord eid m = Inr (oi, m') \<Longrightarrow>
   same_books m m' \<and> fills m' = fills m \<and> client_order_id (fst oi) = client_order_id ord \<and>
   o_price (fst oi) = o_price ord"
  by (auto simp: Order_working_def Let_def bind_res_Inr_iff send_Inr_iff same_books_def fills_def
      List.map_filter_def)

lemma Order_working_total:
  assumes "m_result_listener m" "price_readable ord"
  shows "\<exists>oi m'. Order_working ord eid m = Inr (oi, m')"
  using Calculate_order_position_total [OF assms(2)] assms(1)
  by (simp add: Order_working_def Let_def send_def) (metis bind_res_simps(2))

lemma Has_matching_order: "Has_matching ord m = Inr (hit, ord') \<Longrightarrow> repriced ord ord' \<and> (\<not> hit \<longrightarrow> ord' = ord)"
  using Is_price_matching_order by (auto simp: Has_matching_def split: option.splits)

lemma answer_effect:
  assumes "Order_reject ord reason m = Inr m' \<or> Order_status_order ord st m = Inr m' \<or>
    Order_status_fill f m = Inr m'"
  shows "same_books m m'"
  using assms by (auto simp: matcher_defs intro: send_same_books)

lemma matcher_inv_id: "matcher_inv m \<Longrightarrow> m_working_orders m i = Some oi \<Longrightarrow> client_order_id (fst oi) = i"
  unfolding matcher_inv_def by blast

lemma matcher_inv_same_books:
  "same_books m m' \<Longrightarrow> matcher_inv m' = matcher_inv m"
  "same_books m m' \<Longrightarrow> known m' = known m"
  "same_books m m' \<Longrightarrow> all_readable m' = all_readable m"
  by (simp_all add: same_books_def matcher_inv_def known_def all_readable_def)

section \<open>The outcome of a change of the quotes\<close>

text \<open>The loop treats every working order by itself, in order.\<close>

definition settled1 :: "string \<Rightarrow> ReplayOrderMatcher \<Rightarrow> ReplayOrderMatcher \<Rightarrow> string \<Rightarrow> bool" where
  "settled1 name m m' i \<longleftrightarrow> (\<exists>oi hit oi'. m_working_orders m i = Some oi \<and> verdict name oi m = Inr (hit, oi') \<and>
     (if hit then m_working_orders m' i = None \<and> (\<exists>f. m_filled_orders m' i = Some f \<and> fill_of (fst oi') f)
      else m_working_orders m' i = Some oi' \<and> m_filled_orders m' i = m_filled_orders m i))"

lemma settled1_rest:
  "m_working_orders m i = Some oi \<Longrightarrow> verdict name oi m = Inr (False, oi') \<Longrightarrow>
   m_working_orders m' i = Some oi' \<Longrightarrow> m_filled_orders m' i = m_filled_orders m i \<Longrightarrow> settled1 name m m' i"
  unfolding settled1_def by (rule exI [of _ oi], rule exI [of _ False], rule exI [of _ oi']) simp

lemma settled1_fill:
  "m_working_orders m i = Some oi \<Longrightarrow> verdict name oi m = Inr (True, oi') \<Longrightarrow>
   m_working_orders m' i = None \<Longrightarrow> m_filled_orders m' i = Some f \<Longrightarrow> fill_of (fst oi') f \<Longrightarrow>
   settled1 name m m' i"
  unfolding settled1_def by (rule exI [of _ oi], rule exI [of _ True], rule exI [of _ oi']) simp

definition same_setting :: "ReplayOrderMatcher \<Rightarrow> ReplayOrderMatcher \<Rightarrow> bool" where
  "same_setting m m' \<longleftrightarrow>
     m_canceled_orders m' = m_canceled_orders m \<and> m_current_states m' = m_current_states m \<and>
     m_trade_rate m' = m_trade_rate m \<and> m_result_listener m' = m_result_listener m"

definition settled :: "string \<Rightarrow> string list \<Rightarrow> ReplayOrderMatcher \<Rightarrow> string list \<Rightarrow> ReplayOrderMatcher \<Rightarrow> bool" where
  "settled name ids m kept m' \<longleftrightarrow>
     same_setting m m' \<and>
     (\<forall>j. j \<notin> set ids \<longrightarrow> m_working_orders m' j = m_working_orders m j \<and>
                          m_filled_orders m' j = m_filled_orders m j) \<and>
     (\<forall>i \<in> set ids. settled1 name m m' i) \<and>
     kept = filter (\<lambda>i. m_working_orders m' i \<noteq> None) ids \<and>
     fills m' = fills m @ map (\<lambda>i. the (m_filled_orders m' i))
                          (filter (\<lambda>i. m_working_orders m' i = None) ids)"

lemma settled_Cons:
  assumes s: "settled name ids m4 kept' m'" and i: "i \<notin> set ids" and set: "same_setting m m4"
    and other: "\<And>j. j \<noteq> i \<Longrightarrow> m_working_orders m4 j = m_working_orders m j \<and>
                             m_filled_orders m4 j = m_filled_orders m j"
    and one: "settled1 name m m' i"
    and kept: "kept = (if m_working_orders m' i = None then kept' else i # kept')"
    and fs: "fills m4 = fills m @ (if m_working_orders m' i = None then [the (m_filled_orders m' i)] else [])"
  shows "settled name (i # ids) m kept m'"
proof -
  have vc: "verdict name x m4 = verdict name x m" for x
    using set by (intro verdict_cong) (simp_all add: same_setting_def)
  have "settled1 name m m' j" if "j \<in> set ids" for j
  proof -
    have "j \<noteq> i" using i that by blast
    moreover have "settled1 name m4 m' j" using s that by (simp add: settled_def)
    ultimately show ?thesis using other [OF \<open>j \<noteq> i\<close>] by (simp only: settled1_def vc)
  qed
  with one have "\<forall>j \<in> set (i # ids). settled1 name m m' j" by simp
  moreover have "\<forall>j. j \<notin> set (i # ids) \<longrightarrow> m_working_orders m' j = m_working_orders m j \<and>
                          m_filled_orders m' j = m_filled_orders m j"
    using s other by (simp add: settled_def)
  moreover have "same_setting m m'" using s set by (simp add: settled_def same_setting_def)
  moreover have "kept = filter (\<lambda>i. m_working_orders m' i \<noteq> None) (i # ids)"
    using s kept by (simp add: settled_def)
  moreover have "fills m' = fills m @ map (\<lambda>i. the (m_filled_orders m' i))
                          (filter (\<lambda>i. m_working_orders m' i = None) (i # ids))"
    using s fs by (simp add: settled_def)
  ultimately show ?thesis unfolding settled_def by blast
qed

lemma settled_ids: "settled name ids m kept (m'\<lparr>m_working_order_ids := x\<rparr>) = settled name ids m kept m'"
  by (simp add: settled_def settled1_def same_setting_def fills_def)

lemma settled_keys:
  assumes "settled name ids m kept m'"
  shows "j \<notin> set ids \<Longrightarrow> m_working_orders m' j = m_working_orders m j \<and> m_filled_orders m' j = m_filled_orders m j"
    and "j \<in> set ids \<Longrightarrow> m_working_orders m' j = None \<Longrightarrow>
      \<exists>oi oi' f. m_working_orders m j = Some oi \<and> repriced (fst oi) (fst oi') \<and>
        m_filled_orders m' j = Some f \<and> fill_of (fst oi') f"
    and "j \<in> set ids \<Longrightarrow> m_working_orders m' j = Some oi' \<Longrightarrow>
      \<exists>oi. m_working_orders m j = Some oi \<and> fst oi' = fst oi \<and> m_filled_orders m' j = m_filled_orders m j"
proof -
  assume j: "j \<in> set ids"
  then obtain oi hit oi1 where o: "m_working_orders m j = Some oi" "verdict name oi m = Inr (hit, oi1)"
      "if hit then m_working_orders m' j = None \<and> (\<exists>f. m_filled_orders m' j = Some f \<and> fill_of (fst oi1) f)
       else m_working_orders m' j = Some oi1 \<and> m_filled_orders m' j = m_filled_orders m j"
    using assms unfolding settled_def settled1_def by blast
  show "\<exists>oi oi' f. m_working_orders m j = Some oi \<and> repriced (fst oi) (fst oi') \<and>
        m_filled_orders m' j = Some f \<and> fill_of (fst oi') f" if "m_working_orders m' j = None"
    using that o(1,3) verdict_order [OF o(2)] by (cases hit) auto
  show "\<exists>oi. m_working_orders m j = Some oi \<and> fst oi' = fst oi \<and> m_filled_orders m' j = m_filled_orders m j"
    if "m_working_orders m' j = Some oi'"
    using that o(1,3) verdict_order [OF o(2)] by (cases hit) auto
qed (use assms in \<open>auto simp: settled_def\<close>)

text \<open>A change of the quotes: what it does to every working order, and in which order the fills
  are sent.\<close>

definition quoted :: "L2_book \<Rightarrow> u32 \<Rightarrow> u32 \<Rightarrow> ReplayOrderMatcher \<Rightarrow> ReplayOrderMatcher" where
  "quoted l2 b a m = m\<lparr>m_current_states := (m_current_states m)(l2_contract l2 \<mapsto> (l2, b, a))\<rparr>"

lemma quoted_simps [simp]:
  "m_working_orders (quoted l2 b a m) = m_working_orders m" "m_working_order_ids (quoted l2 b a m) = m_working_order_ids m"
  "m_filled_orders (quoted l2 b a m) = m_filled_orders m" "m_canceled_orders (quoted l2 b a m) = m_canceled_orders m"
  "m_current_states (quoted l2 b a m) = (m_current_states m)(l2_contract l2 \<mapsto> (l2, b, a))"
  "m_trade_rate (quoted l2 b a m) = m_trade_rate m" "m_result_listener (quoted l2 b a m) = m_result_listener m"
  "fills (quoted l2 b a m) = fills m" "matcher_inv (quoted l2 b a m) = matcher_inv m"
  by (simp_all add: quoted_def fills_def matcher_inv_def)

section \<open>The laws of both classes\<close>

locale order_filler =
  fixes order_filled :: filler
  assumes filler_books: "order_filled ord eid m = Inr (f, m') \<Longrightarrow> same_books m m'"
    and filler_fill: "order_filled ord eid m = Inr (f, m') \<Longrightarrow> fill_of ord f"
    and filler_fills: "order_filled ord eid m = Inr (f, m') \<Longrightarrow> fills m' = fills m @ [f]"
    and filler_total: "m_result_listener m \<Longrightarrow> \<exists>f m'. order_filled ord eid m = Inr (f, m')"
begin

lemma rematch_loop_Cons:
  assumes "m_working_orders m i = Some oi" and "client_order_id (fst oi) = i"
  shows "rematch_loop order_filled name (i # ids) m =
    bind_res (verdict name oi m) (\<lambda>(hit, oi').
      let m2 = m\<lparr>m_working_orders := (m_working_orders m)(i \<mapsto> oi')\<rparr> in
      if hit then bind_res (order_filled (fst oi') (exchange_order_id (fst oi')) m2) (\<lambda>(fill, m3).
              rematch_loop order_filled name ids
                (m3\<lparr>m_filled_orders := (m_filled_orders m3)(i \<mapsto> fill),
                    m_working_orders := (m_working_orders m3)(i := None)\<rparr>))
       else map_res (\<lambda>(kept, m'). (i # kept, m')) (rematch_loop order_filled name ids m2))"
proof -
  have "Has_rematching oi (m\<lparr>m_working_orders := (m_working_orders m)(i \<mapsto> oi)\<rparr>) = Has_rematching oi m"
    by (rule Has_rematching_cong) simp_all
  then have "rematch_loop order_filled name (i # ids) m =
    bind_res (verdict name oi m) (\<lambda>(hit, oi').
      let m2 = m\<lparr>m_working_orders := (m_working_orders m)(i \<mapsto> oi')\<rparr>; ord = fst oi' in
      if hit then bind_res (order_filled ord (exchange_order_id ord) m2) (\<lambda>(fill, m3).
              rematch_loop order_filled name ids
                (m3\<lparr>m_filled_orders := (m_filled_orders m3)(client_order_id ord \<mapsto> fill),
                    m_working_orders := (m_working_orders m3)(client_order_id ord := None)\<rparr>))
       else map_res (\<lambda>(kept, m'). (i # kept, m')) (rematch_loop order_filled name ids m2))"
    by (simp add: assms(1) Let_def verdict_def rematch_loop.simps(2) cong: if_cong)
  also have "\<dots> = bind_res (verdict name oi m) (\<lambda>(hit, oi').
      let m2 = m\<lparr>m_working_orders := (m_working_orders m)(i \<mapsto> oi')\<rparr> in
      if hit then bind_res (order_filled (fst oi') (exchange_order_id (fst oi')) m2) (\<lambda>(fill, m3).
              rematch_loop order_filled name ids
                (m3\<lparr>m_filled_orders := (m_filled_orders m3)(i \<mapsto> fill),
                    m_working_orders := (m_working_orders m3)(i := None)\<rparr>))
       else map_res (\<lambda>(kept, m'). (i # kept, m')) (rematch_loop order_filled name ids m2))"
    using assms(2) by (intro bind_res_cong refl) (auto simp: Let_def dest!: verdict_id)
  finally show ?thesis .
qed

lemma rematch_loop_settled:
  assumes "rematch_loop order_filled name ids m = Inr (kept, m')" and "distinct ids"
    and "\<forall>i \<in> set ids. \<exists>oi. m_working_orders m i = Some oi \<and> client_order_id (fst oi) = i"
  shows "settled name ids m kept m'"
  using assms
proof (induction ids arbitrary: m kept)
  case (Cons i ids)
  obtain oi where oi: "m_working_orders m i = Some oi" "client_order_id (fst oi) = i"
    using Cons.prems(3) by auto
  obtain hit oi' where v: "verdict name oi m = Inr (hit, oi')"
    using Cons.prems(1) unfolding rematch_loop_Cons [OF oi] bind_res_Inr_iff by auto
  define m2 where "m2 = m\<lparr>m_working_orders := (m_working_orders m)(i \<mapsto> oi')\<rparr>"
  note eq = rematch_loop_Cons [OF oi, of name ids, unfolded v, simplified, folded m2_def]
  show ?case
  proof (cases hit)
    case False
    then obtain kept' where r: "rematch_loop order_filled name ids m2 = Inr (kept', m')" "kept = i # kept'"
      using Cons.prems(1) unfolding eq by (auto simp: map_res_Inr_iff)
    have s: "settled name ids m2 kept' m'"
      using Cons.prems(2,3) by (intro Cons.IH [OF r(1)]) (auto simp: m2_def)
    then have i': "m_working_orders m' i = Some oi'" "m_filled_orders m' i = m_filled_orders m i"
      using Cons.prems(2) by (simp_all add: settled_def m2_def)
    have "settled1 name m m' i" using v False i' by (intro settled1_rest [OF oi(1)]) simp_all
    then show ?thesis
      using Cons.prems(2) i'(1) r(2)
      by (intro settled_Cons [OF s]) (simp_all add: m2_def same_setting_def fills_def)
  next
    case True
    then obtain f m3 where f: "order_filled (fst oi') (exchange_order_id (fst oi')) m2 = Inr (f, m3)"
      and r: "rematch_loop order_filled name ids
                (m3\<lparr>m_filled_orders := (m_filled_orders m3)(i \<mapsto> f),
                    m_working_orders := (m_working_orders m3)(i := None)\<rparr>) = Inr (kept, m')"
      using Cons.prems(1) unfolding eq by (auto simp: bind_res_Inr_iff)
    note sb = same_booksD [OF filler_books [OF f]]
    let ?m4 = "m3\<lparr>m_filled_orders := (m_filled_orders m3)(i \<mapsto> f),
                    m_working_orders := (m_working_orders m3)(i := None)\<rparr>"
    have s: "settled name ids ?m4 kept m'"
      using Cons.prems(2,3) by (intro Cons.IH [OF r]) (auto simp: sb m2_def)
    then have i': "m_working_orders m' i = None" "m_filled_orders m' i = Some f"
      using Cons.prems(2) by (simp_all add: settled_def)
    have "settled1 name m m' i"
      using v True i' filler_fill [OF f] by (intro settled1_fill [OF oi(1)]) simp_all
    moreover have "fills ?m4 = fills m @ [f]"
      using filler_fills [OF f] by (simp add: fills_def m2_def)
    ultimately show ?thesis
      using Cons.prems(2) i' by (intro settled_Cons [OF s]) (simp_all add: m2_def same_setting_def sb)
  qed
qed (simp add: settled_def same_setting_def)

text \<open>The loop ends whenever the prices can be read.\<close>

lemma rematch_loop_total:
  assumes "m_result_listener m" "distinct ids"
    and "\<forall>i \<in> set ids. \<exists>oi. m_working_orders m i = Some oi \<and> client_order_id (fst oi) = i \<and> price_readable (fst oi)"
  shows "\<exists>kept m'. rematch_loop order_filled name ids m = Inr (kept, m')"
  using assms
proof (induction ids arbitrary: m)
  case (Cons i ids)
  obtain oi where oi: "m_working_orders m i = Some oi" "client_order_id (fst oi) = i" "price_readable (fst oi)"
    using Cons.prems(3) by auto
  obtain hit oi' where v: "verdict name oi m = Inr (hit, oi')" using verdict_total [OF oi(3)] by blast
  define m2 where "m2 = m\<lparr>m_working_orders := (m_working_orders m)(i \<mapsto> oi')\<rparr>"
  note eq = rematch_loop_Cons [OF oi(1,2), of name ids, unfolded v, simplified, folded m2_def]
  show ?case
  proof (cases hit)
    case False
    have "\<exists>kept m'. rematch_loop order_filled name ids m2 = Inr (kept, m')"
      using Cons.prems by (intro Cons.IH) (auto simp: m2_def)
    then show ?thesis using False by (auto simp: eq)
  next
    case True
    have "m_result_listener m2" using Cons.prems(1) by (simp add: m2_def)
    then obtain f m3 where f: "order_filled (fst oi') (exchange_order_id (fst oi')) m2 = Inr (f, m3)"
      using filler_total by blast
    note sb = same_booksD [OF filler_books [OF f]]
    have "\<exists>kept m'. rematch_loop order_filled name ids
        (m3\<lparr>m_filled_orders := (m_filled_orders m3)(i \<mapsto> f),
            m_working_orders := (m_working_orders m3)(i := None)\<rparr>) = Inr (kept, m')"
      using Cons.prems by (intro Cons.IH) (auto simp: sb m2_def)
    then show ?thesis using True f by (simp add: eq)
  qed
qed simp

lemma matcher_inv_working:
  assumes "matcher_inv m" "i \<in> set (m_working_order_ids m)"
  obtains oi where "m_working_orders m i = Some oi" "client_order_id (fst oi) = i"
  using assms by (fastforce simp: matcher_inv_def)

lemma quotes_settled:
  assumes "On_state_changed order_filled l2 b a m = Inr m'" and inv: "matcher_inv m"
  shows "settled (l2_contract l2) (m_working_order_ids m) (quoted l2 b a m) (m_working_order_ids m') m'"
proof -
  obtain kept m1 where r: "rematch_loop order_filled (l2_contract l2) (m_working_order_ids m) (quoted l2 b a m) =
      Inr (kept, m1)" and m': "m' = m1\<lparr>m_working_order_ids := kept\<rparr>"
    using assms(1) by (auto simp: On_state_changed_def Rematching_def map_res_Inr_iff quoted_def)
  have "\<forall>i \<in> set (m_working_order_ids m). \<exists>oi. m_working_orders (quoted l2 b a m) i = Some oi \<and>
      client_order_id (fst oi) = i"
    using matcher_inv_working [OF inv] by (metis quoted_simps(1))
  then have "settled (l2_contract l2) (m_working_order_ids m) (quoted l2 b a m) kept m1"
    using inv by (intro rematch_loop_settled [OF r]) (auto simp: matcher_inv_def)
  then show ?thesis by (simp add: m' settled_ids)
qed

text \<open>Every operation keeps the invariant and the set of known ids grows by the added one.\<close>

lemma quotes_inv:
  assumes s: "On_state_changed order_filled l2 b a m = Inr m'" and inv: "matcher_inv m"
  shows "matcher_inv m' \<and> known m' = known m"
proof -
  let ?ids = "m_working_order_ids m"
  note st = quotes_settled [OF s inv] and k = settled_keys [OF quotes_settled [OF s inv], unfolded quoted_simps]
  note wid = matcher_inv_id [OF inv]
  have dom: "set ?ids = dom (m_working_orders m)" using inv by (simp add: matcher_inv_def)
  have same: "m_canceled_orders m' = m_canceled_orders m" "m_result_listener m' = m_result_listener m"
    "m_working_order_ids m' = filter (\<lambda>i. m_working_orders m' i \<noteq> None) ?ids"
    using st by (simp_all add: settled_def same_setting_def)
  have W: "\<exists>oi. m_working_orders m i = Some oi \<and> fst oi' = fst oi \<and> m_filled_orders m' i = m_filled_orders m i"
    if "m_working_orders m' i = Some oi'" for i oi'
  proof -
    have "i \<in> set ?ids" using k(1) [of i] that domI [of "m_working_orders m" i oi'] by (fastforce simp: dom)
    then show ?thesis using k(3) that by blast
  qed
  have F: "m_filled_orders m i = Some f \<or> m_working_orders m i \<noteq> None \<and> m_working_orders m' i = None \<and> f_client_order_id f = i"
    if "m_filled_orders m' i = Some f" for i f
  proof (cases "i \<in> set ?ids \<and> m_working_orders m' i = None")
    case True
    then obtain oi oi1 f1 where "m_working_orders m i = Some oi" "repriced (fst oi) (fst oi1)"
      "m_filled_orders m' i = Some f1" "fill_of (fst oi1) f1" using k(2) [of i] by auto
    then show ?thesis using True that wid repriced_id by (auto simp: fill_of_def)
  next
    case False
    then have "m_filled_orders m' i = m_filled_orders m i"
      using k(1) [of i] k(3) [of i] by (cases "m_working_orders m' i") blast+
    then show ?thesis using that by simp
  qed
  have keep: "m_filled_orders m' i = Some f" if "m_filled_orders m i = Some f" for i f
  proof -
    have "i \<notin> set ?ids" using that inv dom by (auto simp: matcher_inv_def)
    then show ?thesis using k(1) that by simp
  qed
  have gone: "\<exists>f. m_filled_orders m' i = Some f" if "m_working_orders m i = Some oi" "m_working_orders m' i = None" for i oi
    using k(2) [of i] that dom by auto
  have "matcher_inv m'"
    unfolding matcher_inv_def
  proof (intro conjI allI impI)
    show "m_result_listener m'" using same inv by (simp add: matcher_inv_def)
    show "distinct (m_working_order_ids m')" using same inv by (simp add: matcher_inv_def)
    show "set (m_working_order_ids m') = dom (m_working_orders m')"
      using W dom by (fastforce simp: same)
    show "dom (m_working_orders m') \<inter> dom (m_filled_orders m') = {}"
      using W F inv by (fastforce simp: matcher_inv_def)
    show "dom (m_working_orders m') \<inter> dom (m_canceled_orders m') = {}"
      using W inv by (fastforce simp: matcher_inv_def same)
    show "dom (m_filled_orders m') \<inter> dom (m_canceled_orders m') = {}"
      using F inv by (fastforce simp: matcher_inv_def same)
    show "client_order_id (fst oi) = i" if "m_working_orders m' i = Some oi" for i oi
      using W [OF that] wid by auto
    show "f_client_order_id f = i" if "m_filled_orders m' i = Some f" for i f
      using F [OF that] inv by (auto simp: matcher_inv_def)
    show "client_order_id c = i" if "m_canceled_orders m' i = Some c" for i c
      using that inv by (auto simp: matcher_inv_def same)
  qed
  moreover have "known m' = known m"
  proof
    show "known m' \<subseteq> known m" by (auto simp: known_def same dest: W F)
    show "known m \<subseteq> known m'"
    proof
      fix i
      assume "i \<in> known m"
      then consider oi where "m_working_orders m i = Some oi" | f where "m_filled_orders m i = Some f"
        | c where "m_canceled_orders m i = Some c" unfolding known_def by blast
      then show "i \<in> known m'"
      proof cases
        case (1 oi)
        then show ?thesis using gone [OF 1] by (cases "m_working_orders m' i") (auto simp: known_def)
      qed (use keep same in \<open>auto simp: known_def\<close>)
    qed
  qed
  ultimately show ?thesis ..
qed

lemma add_inv:
  assumes s: "matcher_Add order_filled ord m = Inr m'" and inv: "matcher_inv m"
    and fresh: "client_order_id ord \<notin> known m"
  shows "matcher_inv m' \<and> known m' = insert (client_order_id ord) (known m)"
proof -
  obtain hit org where h: "Has_matching ord m = Inr (hit, org)"
    using s by (auto simp: matcher_Add_def bind_res_Inr_iff)
  have id: "client_order_id org = client_order_id ord" using Has_matching_order [OF h] repriced_id by blast
  obtain eid m1 where n: "matcher_Next_exchange_order_id m = (eid, m1)" by (cases "matcher_Next_exchange_order_id m")
  have m1: "same_books m m1" using n by (auto simp: matcher_Next_exchange_order_id_def Let_def same_books_def)
  show ?thesis
  proof (cases hit)
    case True
    then obtain f m2 where f: "order_filled org eid m1 = Inr (f, m2)"
        and m': "m' = m2\<lparr>m_filled_orders := (m_filled_orders m2)(client_order_id ord \<mapsto> f)\<rparr>"
      using s h n id by (auto simp: matcher_Add_def map_res_Inr_iff)
    have "f_client_order_id f = client_order_id ord" using filler_fill [OF f] id by (simp add: fill_of_def)
    then show ?thesis
      using inv fresh same_booksD [OF m1] same_booksD [OF filler_books [OF f]]
      by (auto simp: matcher_inv_def known_def m')
  next
    case False
    then obtain oi m2 where w: "Order_working org eid m1 = Inr (oi, m2)"
        and m': "m' = m2\<lparr>m_working_orders := (m_working_orders m2)(client_order_id ord \<mapsto> oi),
                   m_working_order_ids := m_working_order_ids m2 @ [client_order_id ord]\<rparr>"
      using s h n id by (auto simp: matcher_Add_def map_res_Inr_iff)
    have "client_order_id (fst oi) = client_order_id ord" "same_books m1 m2"
      using Order_working_effect [OF w] id by simp_all
    then show ?thesis
      using inv fresh same_booksD [OF m1] same_booksD [of m1 m2]
      by (auto simp: matcher_inv_def known_def m')
  qed
qed

end

lemma change_inv:
  assumes s: "matcher_Change ord m = Inr m'" and inv: "matcher_inv m"
  shows "matcher_inv m' \<and> known m' = known m"
proof (cases "m_filled_orders m (client_order_id ord) = None \<and> m_canceled_orders m (client_order_id ord) = None \<and>
    m_working_orders m (client_order_id ord) \<noteq> None")
  case True
  then obtain op oi m1 where w: "Order_working ord op m = Inr (oi, m1)"
    and m': "m' = m1\<lparr>m_working_orders := (m_working_orders m1)(client_order_id ord \<mapsto> oi)\<rparr>"
    using s by (auto simp: matcher_Change_def map_res_Inr_iff)
  note e = Order_working_effect [OF w]
  show ?thesis
    using inv True e same_booksD [of m m1] by (auto simp: matcher_inv_def known_def m' insert_absorb)
next
  case False
  then have "same_books m m'"
    using s by (auto simp: matcher_Change_def intro: answer_effect split: if_splits option.splits)
  then show ?thesis using inv matcher_inv_same_books by blast
qed

lemma delete_inv:
  assumes s: "matcher_Delete ord m = Inr m'" and inv: "matcher_inv m"
  shows "matcher_inv m' \<and> known m' = known m"
proof (cases "m_filled_orders m (client_order_id ord) = None \<and> m_canceled_orders m (client_order_id ord) = None \<and>
    m_working_orders m (client_order_id ord) \<noteq> None")
  case True
  then obtain oi m1 where oi: "m_working_orders m (client_order_id ord) = Some oi"
    and w: "Order_status_order (fst oi) OS_Cancelled m = Inr m1"
    and m': "m' = m1\<lparr>m_canceled_orders := (m_canceled_orders m1)(client_order_id ord \<mapsto> fst oi),
              m_working_order_ids := removeAll (client_order_id ord) (m_working_order_ids m1),
              m_working_orders := (m_working_orders m1)(client_order_id ord := None)\<rparr>"
    using s by (auto simp: matcher_Delete_def map_res_Inr_iff)
  note e = same_booksD [OF answer_effect [OF disjI2 [OF disjI1 [OF w]]]]
  have "client_order_id (fst oi) = client_order_id ord" by (rule matcher_inv_id [OF inv oi])
  then show ?thesis
    using inv True oi e by (auto simp: matcher_inv_def known_def m' distinct_removeAll)
next
  case False
  then have "same_books m m'"
    using s by (auto simp: matcher_Delete_def intro: answer_effect split: if_splits option.splits)
  then show ?thesis using inv matcher_inv_same_books by blast
qed

lemma query_same: "matcher_Query ord m = Inr m' \<Longrightarrow> same_books m m'"
  by (auto simp: matcher_Query_def intro: answer_effect split: option.splits)

lemma query_inv: "matcher_Query ord m = Inr m' \<Longrightarrow> matcher_inv m \<Longrightarrow> matcher_inv m' \<and> known m' = known m"
  using query_same matcher_inv_same_books by blast

section \<open>Runs of requests\<close>

text \<open>Operations other than the two that fill orders succeed on readable prices.\<close>

lemma answers_total:
  assumes "m_result_listener m"
  shows "\<exists>m'. Order_reject ord reason m = Inr m'" "\<exists>m'. Order_status_order ord st m = Inr m'"
    "\<exists>m'. Order_status_fill f m = Inr m'"
  using assms by (simp_all add: matcher_defs send_def)

lemma change_total:
  assumes "matcher_inv m" "all_readable m" "price_readable ord"
  shows "\<exists>m'. matcher_Change ord m = Inr m' \<and> all_readable m'"
proof -
  have l: "m_result_listener m" using assms(1) by (simp add: matcher_inv_def)
  note a = answers_total [OF l]
  show ?thesis
  proof (cases "m_filled_orders m (client_order_id ord) = None \<and> m_canceled_orders m (client_order_id ord) = None \<and>
      m_working_orders m (client_order_id ord) \<noteq> None")
    case True
    then obtain op where op: "m_working_orders m (client_order_id ord) = Some op" by blast
    obtain oi m1 where w: "Order_working ord (exchange_order_id (fst op)) m = Inr (oi, m1)"
      using Order_working_total [OF l assms(3)] by blast
    note e = Order_working_effect [OF w]
    have "price_readable (fst oi)" using e assms(3) by (simp add: price_readable_def)
    then have "all_readable (m1\<lparr>m_working_orders := (m_working_orders m1)(client_order_id ord \<mapsto> oi)\<rparr>)"
      using assms(2) same_booksD [of m m1] e by (auto simp: all_readable_def)
    then show ?thesis using True op w by (simp add: matcher_Change_def)
  next
    case False
    then obtain reason where "matcher_Change ord m = Order_reject ord reason m"
      by (cases "m_filled_orders m (client_order_id ord)"; cases "m_canceled_orders m (client_order_id ord)";
          cases "m_working_orders m (client_order_id ord)") (auto simp: matcher_Change_def)
    then show ?thesis using a(1) [of ord reason] answer_effect matcher_inv_same_books(3) assms(2) by metis
  qed
qed

lemma delete_total:
  assumes "matcher_inv m" "all_readable m"
  shows "\<exists>m'. matcher_Delete ord m = Inr m' \<and> all_readable m'"
proof -
  have l: "m_result_listener m" using assms(1) by (simp add: matcher_inv_def)
  note a = answers_total [OF l]
  show ?thesis
  proof (cases "m_filled_orders m (client_order_id ord) = None \<and> m_canceled_orders m (client_order_id ord) = None \<and>
      m_working_orders m (client_order_id ord) \<noteq> None")
    case True
    then obtain op where op: "m_working_orders m (client_order_id ord) = Some op" by blast
    obtain m1 where w: "Order_status_order (fst op) OS_Cancelled m = Inr m1" using a(2) by blast
    have "same_books m m1" using answer_effect w by blast
    then show ?thesis
      using True op w assms(2) by (auto simp: matcher_Delete_def all_readable_def same_booksD)
  next
    case False
    then obtain reason where "matcher_Delete ord m = Order_reject ord reason m"
      by (cases "m_filled_orders m (client_order_id ord)"; cases "m_canceled_orders m (client_order_id ord)";
          cases "m_working_orders m (client_order_id ord)") (auto simp: matcher_Delete_def)
    then show ?thesis using a(1) [of ord reason] answer_effect matcher_inv_same_books(3) assms(2) by metis
  qed
qed

lemma query_total: "m_result_listener m \<Longrightarrow> \<exists>m'. matcher_Query ord m = Inr m'"
  using answers_total [of m] by (simp add: matcher_Query_def split: option.split)

text \<open>The list of ids keeps the order of arrival, and filled and cancelled orders stay so.\<close>

definition in_order :: "ReplayOrderMatcher \<Rightarrow> string list \<Rightarrow> ReplayOrderMatcher \<Rightarrow> bool" where
  "in_order m new m' \<longleftrightarrow>
     m_working_order_ids m' = filter (\<lambda>i. m_working_orders m' i \<noteq> None) (m_working_order_ids m @ new) \<and>
     dom (m_filled_orders m) \<subseteq> dom (m_filled_orders m') \<and> dom (m_canceled_orders m) \<subseteq> dom (m_canceled_orders m')"

lemma matcher_inv_dom: "matcher_inv m \<Longrightarrow> i \<in> set (m_working_order_ids m) \<longleftrightarrow> m_working_orders m i \<noteq> None"
  by (auto simp: matcher_inv_def)

lemma in_order_same_books: "matcher_inv m \<Longrightarrow> same_books m m' \<Longrightarrow> in_order m [] m'"
  by (auto simp: in_order_def same_booksD matcher_inv_dom intro!: filter_True [symmetric])

lemma query_order: "matcher_Query ord m = Inr m' \<Longrightarrow> matcher_inv m \<Longrightarrow> in_order m [] m'"
  using query_same in_order_same_books by blast

lemma change_order:
  assumes s: "matcher_Change ord m = Inr m'" and inv: "matcher_inv m"
  shows "in_order m [] m'"
proof (cases "m_filled_orders m (client_order_id ord) = None \<and> m_canceled_orders m (client_order_id ord) = None \<and>
    m_working_orders m (client_order_id ord) \<noteq> None")
  case True
  then obtain op oi m1 where w: "Order_working ord op m = Inr (oi, m1)"
    and m': "m' = m1\<lparr>m_working_orders := (m_working_orders m1)(client_order_id ord \<mapsto> oi)\<rparr>"
    using s by (auto simp: matcher_Change_def map_res_Inr_iff)
  have e: "same_books m m1" using Order_working_effect [OF w] by simp
  show ?thesis
    using True matcher_inv_dom [OF inv]
    by (auto simp: in_order_def m' same_booksD [OF e] simp del: split_paired_Ex intro!: filter_True [symmetric])
next
  case False
  then have "same_books m m'"
    using s by (auto simp: matcher_Change_def intro: answer_effect split: if_splits option.splits)
  then show ?thesis using inv in_order_same_books by blast
qed

lemma delete_order:
  assumes s: "matcher_Delete ord m = Inr m'" and inv: "matcher_inv m"
  shows "in_order m [] m'"
proof (cases "m_filled_orders m (client_order_id ord) = None \<and> m_canceled_orders m (client_order_id ord) = None \<and>
    m_working_orders m (client_order_id ord) \<noteq> None")
  case True
  then obtain oi m1 where w: "Order_status_order (fst oi) OS_Cancelled m = Inr m1"
    and m': "m' = m1\<lparr>m_canceled_orders := (m_canceled_orders m1)(client_order_id ord \<mapsto> fst oi),
              m_working_order_ids := removeAll (client_order_id ord) (m_working_order_ids m1),
              m_working_orders := (m_working_orders m1)(client_order_id ord := None)\<rparr>"
    using s by (auto simp: matcher_Delete_def map_res_Inr_iff)
  have e: "same_books m m1" using answer_effect w by blast
  show ?thesis
    using matcher_inv_dom [OF inv]
    by (auto simp: in_order_def m' same_booksD [OF e] removeAll_filter_not_eq intro!: filter_cong)
next
  case False
  then have "same_books m m'"
    using s by (auto simp: matcher_Delete_def intro: answer_effect split: if_splits option.splits)
  then show ?thesis using inv in_order_same_books by blast
qed

context order_filler
begin

lemma quotes_total:
  assumes inv: "matcher_inv m" and "all_readable m"
  shows "\<exists>m'. On_state_changed order_filled l2 b a m = Inr m' \<and> all_readable m'"
proof -
  have "\<exists>kept m'. rematch_loop order_filled (l2_contract l2) (m_working_order_ids m) (quoted l2 b a m) = Inr (kept, m')"
  proof (rule rematch_loop_total)
    show "\<forall>i \<in> set (m_working_order_ids m). \<exists>oi. m_working_orders (quoted l2 b a m) i = Some oi \<and>
        client_order_id (fst oi) = i \<and> price_readable (fst oi)"
    proof
      fix i
      assume "i \<in> set (m_working_order_ids m)"
      then obtain oi where "m_working_orders m i = Some oi" "client_order_id (fst oi) = i"
        by (rule matcher_inv_working [OF inv])
      then show "\<exists>oi. m_working_orders (quoted l2 b a m) i = Some oi \<and> client_order_id (fst oi) = i \<and> price_readable (fst oi)"
        using assms(2) unfolding all_readable_def quoted_simps by blast
    qed
  qed (use inv in \<open>simp_all add: matcher_inv_def\<close>)
  then obtain m' where s: "On_state_changed order_filled l2 b a m = Inr m'"
    by (auto simp: On_state_changed_def Rematching_def quoted_def)
  have "price_readable (fst oi)" if "m_working_orders m' i = Some oi" for i oi
  proof -
    have "\<exists>oi0. m_working_orders m i = Some oi0 \<and> fst oi = fst oi0"
      using settled_keys [OF quotes_settled [OF s inv], unfolded quoted_simps, of i] that by metis
    then show ?thesis using assms(2) by (auto simp: all_readable_def)
  qed
  then show ?thesis using s unfolding all_readable_def by blast
qed

lemma add_total:
  assumes "matcher_inv m" "all_readable m" "price_readable ord"
  shows "\<exists>m'. matcher_Add order_filled ord m = Inr m' \<and> all_readable m'"
proof -
  obtain hit org where h: "Has_matching ord m = Inr (hit, org)" using Has_matching_total [OF assms(3), of m] by auto
  obtain eid m1 where n: "matcher_Next_exchange_order_id m = (eid, m1)" by (cases "matcher_Next_exchange_order_id m")
  have m1: "same_books m m1" using n by (auto simp: matcher_Next_exchange_order_id_def Let_def same_books_def)
  have l: "m_result_listener m1" using assms(1) same_booksD [OF m1] by (simp add: matcher_inv_def)
  show ?thesis
  proof (cases hit)
    case True
    obtain f m2 where f: "order_filled org eid m1 = Inr (f, m2)" using filler_total [OF l] by blast
    then show ?thesis
      using True h n assms(2) same_booksD [OF m1] same_booksD [OF filler_books [OF f]]
      by (simp add: matcher_Add_def all_readable_def)
  next
    case False
    then have org: "org = ord" using Has_matching_order [OF h] by simp
    obtain oi m2 where w: "Order_working ord eid m1 = Inr (oi, m2)" using Order_working_total [OF l assms(3)] by blast
    note e = Order_working_effect [OF w]
    have "price_readable (fst oi)" using e assms(3) by (simp add: price_readable_def)
    then show ?thesis
      using False h n w org assms(2) same_booksD [OF m1] same_booksD [of m1 m2] e
      by (auto simp: matcher_Add_def all_readable_def)
  qed
qed

lemma serve_inv:
  assumes "serve order_filled r m = Inr m'" "matcher_inv m" "set (added r) \<inter> known m = {}"
  shows "matcher_inv m' \<and> known m' = set (added r) \<union> known m"
  using assms quotes_inv add_inv change_inv delete_inv query_inv
  by (cases r) auto

lemma quotes_order:
  assumes s: "On_state_changed order_filled l2 b a m = Inr m'" and inv: "matcher_inv m"
  shows "in_order m [] m'"
proof -
  note st = quotes_settled [OF s inv]
  have "m_filled_orders m' i = m_filled_orders m i" if "m_filled_orders m i \<noteq> None" for i
  proof -
    have "i \<notin> set (m_working_order_ids m)"
      using that inv by (auto simp: matcher_inv_def)
    then show ?thesis using settled_keys(1) [OF st] by simp
  qed
  then have "dom (m_filled_orders m) \<subseteq> dom (m_filled_orders m')" by fastforce
  then show ?thesis using st by (simp add: in_order_def settled_def same_setting_def)
qed

lemma add_order:
  assumes s: "matcher_Add order_filled ord m = Inr m'" and inv: "matcher_inv m"
    and fresh: "client_order_id ord \<notin> known m"
  shows "in_order m [client_order_id ord] m'"
proof -
  obtain hit org where h: "Has_matching ord m = Inr (hit, org)"
    using s by (auto simp: matcher_Add_def bind_res_Inr_iff)
  have id: "client_order_id org = client_order_id ord" using Has_matching_order [OF h] repriced_id by blast
  obtain eid m1 where n: "matcher_Next_exchange_order_id m = (eid, m1)" by (cases "matcher_Next_exchange_order_id m")
  have m1: "same_books m m1" using n by (auto simp: matcher_Next_exchange_order_id_def Let_def same_books_def)
  have f: "m_working_orders m (client_order_id ord) = None" using fresh by (auto simp: known_def)
  have ids: "filter (\<lambda>i. m_working_orders m i \<noteq> None) (m_working_order_ids m) = m_working_order_ids m"
    using matcher_inv_dom [OF inv] by (intro filter_True) blast
  show ?thesis
  proof (cases hit)
    case True
    then obtain fl m2 where fl: "order_filled org eid m1 = Inr (fl, m2)"
        and m': "m' = m2\<lparr>m_filled_orders := (m_filled_orders m2)(client_order_id ord \<mapsto> fl)\<rparr>"
      using s h n id by (auto simp: matcher_Add_def map_res_Inr_iff)
    show ?thesis
      using ids f same_booksD [OF m1] same_booksD [OF filler_books [OF fl]] by (auto simp: in_order_def m')
  next
    case False
    then obtain oi m2 where w: "Order_working org eid m1 = Inr (oi, m2)"
        and m': "m' = m2\<lparr>m_working_orders := (m_working_orders m2)(client_order_id ord \<mapsto> oi),
                   m_working_order_ids := m_working_order_ids m2 @ [client_order_id ord]\<rparr>"
      using s h n id by (auto simp: matcher_Add_def map_res_Inr_iff)
    have e: "same_books m1 m2" using Order_working_effect [OF w] by simp
    have "filter (\<lambda>i. m_working_orders m' i \<noteq> None) (m_working_order_ids m) = m_working_order_ids m"
      using matcher_inv_dom [OF inv] f same_booksD [OF m1] same_booksD [OF e] by (intro filter_True) (auto simp: m')
    then show ?thesis
      using same_booksD [OF m1] same_booksD [OF e] by (simp add: in_order_def m' del: split_paired_Ex)
  qed
qed

lemma serve_order:
  assumes "serve order_filled r m = Inr m'" "matcher_inv m" "set (added r) \<inter> known m = {}"
  shows "in_order m (added r) m'"
  using assms quotes_order add_order change_order delete_order query_order by (cases r) auto

lemma serve_total:
  assumes "matcher_inv m" "all_readable m" "request_priced r"
  shows "\<exists>m'. serve order_filled r m = Inr m' \<and> all_readable m'"
proof (cases r)
  case (Replay_query ord)
  have "m_result_listener m" using assms(1) by (simp add: matcher_inv_def)
  then obtain m' where q: "matcher_Query ord m = Inr m'" using query_total by blast
  then show ?thesis using matcher_inv_same_books(3) [OF query_same [OF q]] assms(2) Replay_query by simp
qed (use assms quotes_total add_total change_total delete_total in simp_all)

text \<open>Serving a list of requests that add every id once.\<close>

lemma serve_all_inv:
  assumes "fold_res (serve order_filled) rs m = Inr m'" "matcher_inv m"
    and "distinct (added_ids rs)" "set (added_ids rs) \<inter> known m = {}"
  shows "matcher_inv m' \<and> known m' = set (added_ids rs) \<union> known m"
  using assms
proof (induction rs arbitrary: m)
  case (Cons r rs)
  obtain m1 where r: "serve order_filled r m = Inr m1" and rs: "fold_res (serve order_filled) rs m1 = Inr m'"
    using Cons.prems(1) by (auto simp: bind_res_Inr_iff)
  have i: "matcher_inv m1 \<and> known m1 = set (added r) \<union> known m"
    using Cons.prems by (intro serve_inv [OF r]) (auto simp: added_ids_def)
  have "matcher_inv m' \<and> known m' = set (added_ids rs) \<union> known m1"
    using Cons.prems i by (intro Cons.IH [OF rs]) (auto simp: added_ids_def)
  then show ?case using i by (auto simp: added_ids_def)
qed (simp add: added_ids_def)

lemma serve_all_order:
  assumes "fold_res (serve order_filled) rs m = Inr m'" "matcher_inv m"
    and "distinct (added_ids rs)" "set (added_ids rs) \<inter> known m = {}"
  shows "in_order m (added_ids rs) m'"
  using assms
proof (induction rs arbitrary: m)
  case Nil
  then show ?case using in_order_same_books [of m m] by (simp add: added_ids_def)
next
  case (Cons r rs)
  obtain m1 where r: "serve order_filled r m = Inr m1" and rs: "fold_res (serve order_filled) rs m1 = Inr m'"
    using Cons.prems(1) by (auto simp: bind_res_Inr_iff)
  have fresh: "set (added r) \<inter> known m = {}" using Cons.prems(4) by (auto simp: added_ids_def)
  have i: "matcher_inv m1 \<and> known m1 = set (added r) \<union> known m"
    by (rule serve_inv [OF r Cons.prems(2) fresh])
  have o1: "in_order m (added r) m1" by (rule serve_order [OF r Cons.prems(2) fresh])
  have more: "distinct (added_ids rs)" "set (added_ids rs) \<inter> known m1 = {}"
    using Cons.prems i by (auto simp: added_ids_def)
  have o2: "in_order m1 (added_ids rs) m'" using Cons.IH [OF rs] i more by blast
  have inv': "matcher_inv m'" using serve_all_inv [OF rs] i more by blast
  have stay: "m_working_orders m1 j \<noteq> None"
    if "m_working_orders m' j \<noteq> None" "j \<in> set (m_working_order_ids m @ added r)" for j
  proof (rule ccontr)
    assume a: "\<not> m_working_orders m1 j \<noteq> None"
    have "j \<in> known m1" using that(2) i matcher_inv_dom [OF Cons.prems(2)] by (auto simp: known_def)
    then have "j \<in> dom (m_filled_orders m1) \<union> dom (m_canceled_orders m1)" using a by (auto simp: known_def)
    then have "j \<in> dom (m_filled_orders m') \<union> dom (m_canceled_orders m')" using o2 by (auto simp: in_order_def)
    then show False using that(1) inv' unfolding matcher_inv_def by blast
  qed
  have "filter (\<lambda>j. m_working_orders m' j \<noteq> None) (m_working_order_ids m1) =
      filter (\<lambda>j. m_working_orders m' j \<noteq> None) (m_working_order_ids m @ added r)"
    using o1 stay unfolding in_order_def filter_filter [symmetric] by (metis (mono_tags, lifting) filter_cong filter_filter)
  moreover have "dom (m_filled_orders m) \<subseteq> dom (m_filled_orders m')" "dom (m_canceled_orders m) \<subseteq> dom (m_canceled_orders m')"
    using o1 o2 unfolding in_order_def by (blast intro: subset_trans)+
  ultimately show ?case using o2 by (simp add: in_order_def added_ids_def)
qed

lemma serve_all_total:
  assumes "matcher_inv m" "all_readable m" "\<forall>r \<in> set rs. request_priced r"
    and "distinct (added_ids rs)" "set (added_ids rs) \<inter> known m = {}"
  shows "\<exists>m'. fold_res (serve order_filled) rs m = Inr m'"
  using assms
proof (induction rs arbitrary: m)
  case (Cons r rs)
  obtain m1 where r: "serve order_filled r m = Inr m1" "all_readable m1"
    using serve_total Cons.prems(1,2,3) by fastforce
  have i: "matcher_inv m1 \<and> known m1 = set (added r) \<union> known m"
    using Cons.prems by (intro serve_inv [OF r(1)]) (auto simp: added_ids_def)
  have "\<exists>m'. fold_res (serve order_filled) rs m1 = Inr m'"
    using Cons.prems i r by (intro Cons.IH) (auto simp: added_ids_def)
  then show ?case using r by simp
qed simp

end

lemma new_matcher_inv:
  assumes "m = Add_exchange_listener True (ReplayOrderMatcher_new rate)"
  shows "matcher_inv m" "all_readable m" "known m = {}"
  using assms by (simp_all add: ReplayOrderMatcher_new_def Add_exchange_listener_def matcher_inv_def
      all_readable_def known_def)

section \<open>The two classes\<close>

definition filled_order :: "Order \<Rightarrow> string \<Rightarrow> Order" where
  "filled_order ord eid = ord\<lparr>exchange_order_id := eid, status := OS_Filled, working_price := ''0'',
     working_quantity := 0, filled_quantity := quantity ord, message := ''''\<rparr>"

definition next_fill :: "Order \<Rightarrow> string \<Rightarrow> ReplayOrderMatcher \<Rightarrow> Fill" where
  "next_fill ord eid m = new_fill ord eid (fst (matcher_Next_fill_id m))"

lemma replay_Order_filled_eq:
  "replay_Order_filled ord eid m =
     (if m_result_listener m
      then Inr (next_fill ord eid m, m\<lparr>m_fill_id := m_fill_id m + 1,
                  sent := sent m @ [On_order (filled_order ord eid), On_fill (next_fill ord eid m)]\<rparr>)
      else Inl Undefined_behaviour)"
  by (simp add: replay_Order_filled_def send_def matcher_Next_fill_id_def Let_def next_fill_def filled_order_def)

lemma simulater_Order_filled_eq:
  "simulater_Order_filled ord eid m =
     (if m_result_listener m
      then Inr (next_fill ord eid m, m\<lparr>m_fill_id := m_fill_id m + 1, sent := sent m @ [On_fill (next_fill ord eid m)]\<rparr>)
      else Inl Undefined_behaviour)"
  by (simp add: simulater_Order_filled_def send_def matcher_Next_fill_id_def Let_def next_fill_def)

lemma fill_of_next_fill: "fill_of ord (next_fill ord eid m)"
  by (simp add: fill_of_def next_fill_def new_fill_def)

interpretation replay: order_filler replay_Order_filled
  by unfold_locales
    (auto simp: replay_Order_filled_eq same_books_def fill_of_next_fill fills_def List.map_filter_def
      split: if_splits)

interpretation simulater: order_filler simulater_Order_filled
  by unfold_locales
    (auto simp: simulater_Order_filled_eq same_books_def fill_of_next_fill fills_def List.map_filter_def
      split: if_splits)

end
