(* ===== verification/Replay_Properties.thy ===== *)
theory Replay_Properties
  imports Replay_Rules
begin

text \<open>
  The properties of the two simulated exchanges that replay market data (Replay_Matcher), from
  the laws of Replay_Rules: where every order is kept, that priced requests are served and what
  an unpriced one does, the queue a resting order waits in, the price and order of the fills, and
  the difference between the two classes.
\<close>

abbreviation both_classes :: "filler \<Rightarrow> bool" where
  "both_classes order_filled \<equiv>
     order_filled = replay_Order_filled \<or> order_filled = simulater_Order_filled"

abbreviation started :: "i32 \<Rightarrow> ReplayOrderMatcher" where
  "started trade_rate \<equiv> Add_exchange_listener True (ReplayOrderMatcher_new trade_rate)"

section \<open>Every order has one place\<close>

text \<open>
  Claim C24: after any requests that use every id for one new order only, each of these orders is
  in exactly one of the maps of working, filled and cancelled orders, under its own id, no other
  order is anywhere, and the list the loop goes through holds the working ones in the order in
  which they arrived.
\<close>
theorem replay_orders_have_one_place:
  assumes "both_classes order_filled"
    and "fold_res (serve order_filled) rs (started trade_rate) = Inr m"
    and "distinct (added_ids rs)"
  shows "set (added_ids rs) = dom (m_working_orders m) \<union> dom (m_filled_orders m) \<union> dom (m_canceled_orders m) \<and>
    dom (m_working_orders m) \<inter> dom (m_filled_orders m) = {} \<and>
    dom (m_working_orders m) \<inter> dom (m_canceled_orders m) = {} \<and>
    dom (m_filled_orders m) \<inter> dom (m_canceled_orders m) = {} \<and>
    (\<forall>i oi. m_working_orders m i = Some oi \<longrightarrow> client_order_id (fst oi) = i) \<and>
    (\<forall>i f. m_filled_orders m i = Some f \<longrightarrow> f_client_order_id f = i) \<and>
    (\<forall>i c. m_canceled_orders m i = Some c \<longrightarrow> client_order_id c = i) \<and>
    m_working_order_ids m = filter (\<lambda>i. m_working_orders m i \<noteq> None) (added_ids rs)"
proof -
  note start = new_matcher_inv [OF refl, of trade_rate]
  have none: "set (added_ids rs) \<inter> known (started trade_rate) = {}" using start(3) by simp
  have inv: "matcher_inv m \<and> known m = set (added_ids rs) \<union> known (started trade_rate)"
    using replay.serve_all_inv simulater.serve_all_inv assms start(1) none by metis
  have ord: "in_order (started trade_rate) (added_ids rs) m"
    using replay.serve_all_order simulater.serve_all_order assms start(1) none by metis
  have "m_working_order_ids (started trade_rate) = []"
    by (simp add: ReplayOrderMatcher_new_def Add_exchange_listener_def)
  then have "m_working_order_ids m = filter (\<lambda>i. m_working_orders m i \<noteq> None) (added_ids rs)"
    using ord by (simp add: in_order_def)
  moreover have "set (added_ids rs) = known m" using inv start(3) by simp
  ultimately show ?thesis using inv unfolding matcher_inv_def known_def by blast
qed

section \<open>Requests that are served, and one that is not\<close>

text \<open>
  Claim C25: requests whose prices can be read as numbers and that use every id for one new order
  only are all served: no sequence of them, with any changes of the quotes in between, ends in an
  exception or undefined behaviour.
\<close>
theorem priced_requests_are_served:
  assumes "both_classes order_filled"
    and "\<forall>r \<in> set rs. request_priced r" and "distinct (added_ids rs)"
  shows "\<exists>m. fold_res (serve order_filled) rs (started trade_rate) = Inr m"
proof -
  note start = new_matcher_inv [OF refl, of trade_rate]
  have "set (added_ids rs) \<inter> known (started trade_rate) = {}" using start(3) by simp
  then show ?thesis
    using replay.serve_all_total simulater.serve_all_total assms start by metis
qed

text \<open>
  A market order without a price, sent while its contract has quotes on its own side
  only, ends in the exception of \<open>std::stod\<close>: no quote can fill it, and the place it would take
  in the queue is computed from a price it does not have.
\<close>
theorem unpriced_market_order_throws:
  assumes "m_result_listener m"
    and "order_type ord = OT_Market" and "o_price ord = ''''"
    and "m_current_states m (contract ord) = Some (l2, b, a)"
    and "(buy_sell ord = BS_Buy \<and> l2_offer l2 = [] \<and> l2_bid l2 \<noteq> []) \<or>
         (buy_sell ord = BS_Sell \<and> l2_bid l2 = [] \<and> l2_offer l2 \<noteq> [])"
  shows "matcher_Add order_filled ord m = Inl (Invalid_argument ''stod'')"
proof -
  have e: "stod '''' = Inl (Invalid_argument ''stod'')" by code_simp
  have "Calculate_order_position ord m' = Inl (Invalid_argument ''stod'')"
    if "m_current_states m' = m_current_states m" for m'
    using assms that e by (auto simp: Calculate_order_position_def Let_def neq_Nil_conv)
  then show ?thesis
    using assms
    by (auto simp: matcher_Add_def Has_matching_def Is_price_matching_def Let_def Order_working_def
        matcher_Next_exchange_order_id_def send_def)
qed

section \<open>The difference between the two classes\<close>

text \<open>Leaves out the message on an order that goes before its fill.\<close>

fun unannounce :: "exchange_event list \<Rightarrow> exchange_event list" where
  "unannounce (On_order ord # On_fill f # es) = On_fill f # unannounce es"
| "unannounce (e # es) = e # unannounce es"
| "unannounce [] = []"

definition as_simulater :: "ReplayOrderMatcher \<Rightarrow> ReplayOrderMatcher" where
  "as_simulater m = m\<lparr>sent := unannounce (sent m)\<rparr>"

lemma unannounce_order: "unannounce (es @ [On_order ord]) = unannounce es @ [On_order ord]"
  by (induction es rule: unannounce.induct) auto

lemma unannounce_filled: "unannounce (es @ [On_order ord, On_fill f]) = unannounce es @ [On_fill f]"
  by (induction es rule: unannounce.induct) auto

lemma as_simulater_simps [simp]:
  "m_working_orders (as_simulater m) = m_working_orders m" "m_working_order_ids (as_simulater m) = m_working_order_ids m"
  "m_filled_orders (as_simulater m) = m_filled_orders m" "m_canceled_orders (as_simulater m) = m_canceled_orders m"
  "m_current_states (as_simulater m) = m_current_states m" "m_trade_rate (as_simulater m) = m_trade_rate m"
  "m_result_listener (as_simulater m) = m_result_listener m" "m_fill_id (as_simulater m) = m_fill_id m"
  "m_exchange_order_id (as_simulater m) = m_exchange_order_id m" "sent (as_simulater m) = unannounce (sent m)"
  by (simp_all add: as_simulater_def)

lemma as_simulater_send:
  "send (On_order ord) (as_simulater m) = map_res as_simulater (send (On_order ord) m)"
  by (simp add: send_def as_simulater_def unannounce_order)

lemma as_simulater_filled:
  "simulater_Order_filled ord eid (as_simulater m) =
     map_res (\<lambda>(f, m'). (f, as_simulater m')) (replay_Order_filled ord eid m)"
  by (simp add: simulater_Order_filled_eq replay_Order_filled_eq next_fill_def matcher_Next_fill_id_def Let_def
      as_simulater_def unannounce_filled)

lemma as_simulater_updates:
  "(as_simulater m)\<lparr>m_working_orders := w\<rparr> = as_simulater (m\<lparr>m_working_orders := w\<rparr>)"
  "(as_simulater m)\<lparr>m_filled_orders := fs\<rparr> = as_simulater (m\<lparr>m_filled_orders := fs\<rparr>)"
  "(as_simulater m)\<lparr>m_canceled_orders := c\<rparr> = as_simulater (m\<lparr>m_canceled_orders := c\<rparr>)"
  "(as_simulater m)\<lparr>m_working_order_ids := ids\<rparr> = as_simulater (m\<lparr>m_working_order_ids := ids\<rparr>)"
  "(as_simulater m)\<lparr>m_current_states := st\<rparr> = as_simulater (m\<lparr>m_current_states := st\<rparr>)"
  "(as_simulater m)\<lparr>m_exchange_order_id := n\<rparr> = as_simulater (m\<lparr>m_exchange_order_id := n\<rparr>)"
  by (simp_all add: as_simulater_def)

lemma map_res_bind: "map_res g (bind_res r f) = bind_res r (\<lambda>x. map_res g (f x))"
  by (cases r) simp_all

lemma bind_res_map: "bind_res (map_res g r) f = bind_res r (\<lambda>x. f (g x))"
  by (cases r) simp_all

lemma map_res_comp: "map_res g (map_res f r) = map_res (\<lambda>x. g (f x)) r"
  by (cases r) simp_all

lemmas res_maps = map_res_bind bind_res_map map_res_comp case_prod_unfold

lemma as_simulater_working:
  "Order_working ord eid (as_simulater m) = map_res (\<lambda>(oi, m'). (oi, as_simulater m')) (Order_working ord eid m)"
proof -
  have "Calculate_order_position ord (as_simulater m') = Calculate_order_position ord m'" for m'
    by (rule Calculate_order_position_cong) simp_all
  then show ?thesis by (simp add: Order_working_def Let_def as_simulater_send res_maps)
qed

lemma as_simulater_rematch:
  "rematch_loop simulater_Order_filled name ids (as_simulater m) =
     map_res (\<lambda>(kept, m'). (kept, as_simulater m')) (rematch_loop replay_Order_filled name ids m)"
proof (induction ids arbitrary: m)
  case (Cons i ids)
  have c: "Has_rematching oi (as_simulater m') = Has_rematching oi m'" for oi m'
    by (rule Has_rematching_cong) simp_all
  let ?oi = "case m_working_orders m i of None \<Rightarrow> default_info | Some oi \<Rightarrow> oi"
  show ?case
    unfolding rematch_loop.simps(2) Let_def as_simulater_simps as_simulater_updates c map_res_bind
  proof (rule bind_res_cong [OF refl], clarify, goal_cases)
    case (1 hit ord pos t)
    show ?case
      by (cases hit) (simp_all add: as_simulater_filled as_simulater_updates Cons.IH res_maps)
  qed
qed simp

lemma serve_as_simulater:
  "serve simulater_Order_filled r (as_simulater m) = map_res as_simulater (serve replay_Order_filled r m)"
proof (cases r)
  case (Replay_add ord)
  have "Has_matching ord (as_simulater m) = Has_matching ord m" by (simp add: Has_matching_def)
  then show ?thesis
    by (cases "Has_matching ord m")
      (auto simp: Replay_add matcher_Add_def matcher_Next_exchange_order_id_def Let_def as_simulater_updates
        as_simulater_filled as_simulater_working res_maps)
next
  case (Replay_change ord)
  show ?thesis
    by (simp add: Replay_change matcher_Change_def Order_reject_def as_simulater_send as_simulater_working
        as_simulater_updates res_maps split: option.split)
next
  case (Replay_delete ord)
  show ?thesis
    by (simp add: Replay_delete matcher_Delete_def Order_reject_def Order_status_order_def as_simulater_send
        as_simulater_updates res_maps split: option.split)
next
  case (Replay_query ord)
  show ?thesis
    by (simp add: Replay_query matcher_Query_def matcher_defs as_simulater_send split: option.split)
next
  case (Replay_quotes l2 b a)
  show ?thesis
    by (simp add: Replay_quotes On_state_changed_def Rematching_def as_simulater_updates as_simulater_rematch res_maps)
qed


section \<open>The queue of a resting order\<close>

definition own_side :: "Order \<Rightarrow> L2_book \<Rightarrow> data_point list" where
  "own_side ord l2 = (if buy_sell ord = BS_Buy then l2_bid l2 else l2_offer l2)"

definition other_side :: "Order \<Rightarrow> L2_book \<Rightarrow> data_point list" where
  "other_side ord l2 = (if buy_sell ord = BS_Buy then l2_offer l2 else l2_bid l2)"

text \<open>The price of a limit order is the best one of its side, and the other side does not reach it.\<close>

definition at_best :: "Order \<Rightarrow> double \<Rightarrow> L2_book \<Rightarrow> bool" where
  "at_best ord p l2 \<longleftrightarrow> l2_contract l2 = contract ord \<and> order_type ord \<noteq> OT_Market \<and> buy_sell ord \<noteq> BS_None \<and>
     own_side ord l2 \<noteq> [] \<and> price (hd (own_side ord l2)) = p \<and>
     (other_side ord l2 = [] \<or>
      (if buy_sell ord = BS_Buy then p < price (hd (other_side ord l2)) else price (hd (other_side ord l2)) < p))"

text \<open>The volume traded on the side of an order.\<close>

definition volume_at :: "Order \<Rightarrow> L2_book \<times> u32 \<times> u32 \<Rightarrow> u32" where
  "volume_at ord q = (case q of (l2, b, a) \<Rightarrow> if buy_sell ord = BS_Buy then b else a)"

definition total_volume :: "Order \<Rightarrow> (L2_book \<times> u32 \<times> u32) list \<Rightarrow> int" where
  "total_volume ord qs = sum_list (map (\<lambda>q. uint (volume_at ord q)) qs)"

definition quotes_request :: "L2_book \<times> u32 \<times> u32 \<Rightarrow> replay_request" where
  "quotes_request q = (case q of (l2, b, a) \<Rightarrow> Replay_quotes l2 b a)"

lemma quotes_request_simp [simp]: "quotes_request (l2, b, a) = Replay_quotes l2 b a"
  by (simp add: quotes_request_def)

lemma added_ids_quotes [simp]: "added_ids (map quotes_request qs) = []"
  by (induction qs) (auto simp: added_ids_def)

lemma side_cases: "buy_sell ord \<noteq> BS_None \<Longrightarrow> buy_sell ord = BS_Buy \<or> buy_sell ord = BS_Sell"
  by (cases "buy_sell ord") auto

lemma at_best_no_match:
  assumes "at_best ord p l2" "stod (o_price ord) = Inr p"
  shows "Is_price_matching ord l2 = Inr (False, ord)"
  using assms side_cases [of ord]
  by (auto simp: at_best_def Is_price_matching_def other_side_def Let_def split: list.split)

lemma verdict_at_best:
  assumes "at_best ord p l2" "stod (o_price ord) = Inr p" "pos \<noteq> -1"
  shows "verdict (l2_contract l2) (ord, pos, t) (quoted l2 b a m) =
    Inr (pos < t + volume_at ord (l2, b, a), (ord, pos, t + volume_at ord (l2, b, a)))"
  using assms(1,3) side_cases [of ord] at_best_no_match [OF assms(1,2)]
  by (auto simp: verdict_def Has_rematching_def at_best_def Is_position_reached_def assms(2) own_side_def
      volume_at_def neq_Nil_conv)

lemma position_at_best:
  assumes "at_best ord p l2" "stod (o_price ord) = Inr p"
    and "m_current_states m (contract ord) = Some (l2, b, a)"
  shows "Calculate_order_position ord m =
    Inr (ucast (dp_size (hd (own_side ord l2)) * ucast (m_trade_rate m) div 100))"
  using assms side_cases [of ord]
  by (auto simp: Calculate_order_position_def at_best_def own_side_def Let_def neq_Nil_conv)

context order_filler
begin

lemma quote_effect:
  assumes s: "On_state_changed order_filled l2 b a m = Inr m'" and inv: "matcher_inv m"
  shows "m_working_orders m i = Some oi \<Longrightarrow> verdict (l2_contract l2) oi (quoted l2 b a m) = Inr (hit, oi') \<Longrightarrow>
      (if hit then m_working_orders m' i = None \<and> (\<exists>f. m_filled_orders m' i = Some f \<and> fill_of (fst oi') f)
       else m_working_orders m' i = Some oi')"
    and "m_filled_orders m i = Some f \<Longrightarrow> m_filled_orders m' i = Some f"
proof -
  note st = quotes_settled [OF s inv]
  assume w: "m_working_orders m i = Some oi" and v: "verdict (l2_contract l2) oi (quoted l2 b a m) = Inr (hit, oi')"
  have "i \<in> set (m_working_order_ids m)" using w matcher_inv_dom [OF inv] by blast
  then obtain oi1 hit1 oi2 where "m_working_orders m i = Some oi1"
      "verdict (l2_contract l2) oi1 (quoted l2 b a m) = Inr (hit1, oi2)"
      "if hit1 then m_working_orders m' i = None \<and> (\<exists>f. m_filled_orders m' i = Some f \<and> fill_of (fst oi2) f)
       else m_working_orders m' i = Some oi2 \<and> m_filled_orders m' i = m_filled_orders (quoted l2 b a m) i"
    using st unfolding settled_def settled1_def quoted_simps by blast
  then show "if hit then m_working_orders m' i = None \<and> (\<exists>f. m_filled_orders m' i = Some f \<and> fill_of (fst oi') f)
       else m_working_orders m' i = Some oi'" using w v by (auto split: if_splits)
next
  note st = quotes_settled [OF s inv]
  assume f: "m_filled_orders m i = Some f"
  then have "i \<notin> set (m_working_order_ids m)" using inv by (auto simp: matcher_inv_def)
  then show "m_filled_orders m' i = Some f" using settled_keys(1) [OF st] f by simp
qed

lemma queue_quotes:
  assumes "fold_res (serve order_filled) (map quotes_request qs) m = Inr m'" "matcher_inv m"
    and "stod (o_price ord) = Inr p" "pos \<noteq> -1" "\<forall>q \<in> set qs. at_best ord p (fst q)"
    and "m_working_orders m i = Some (ord, pos, t)" "uint t + total_volume ord qs < 2 ^ 32" "t \<le> pos"
  shows "if uint t + total_volume ord qs \<le> uint pos
      then m_working_orders m' i = Some (ord, pos, t + word_of_int (total_volume ord qs))
      else m_working_orders m' i = None \<and> (\<exists>f. m_filled_orders m' i = Some f \<and> fill_of ord f)"
  using assms
proof (induction qs arbitrary: m t)
  case Nil
  then show ?case by (simp add: total_volume_def word_le_def)
next
  case (Cons q qs)
  obtain l2 b a where q: "q = (l2, b, a)" by (rule prod_cases3)
  obtain m1 where s: "On_state_changed order_filled l2 b a m = Inr m1"
    and rs: "fold_res (serve order_filled) (map quotes_request qs) m1 = Inr m'"
    using Cons.prems(1) by (auto simp: q bind_res_Inr_iff)
  let ?v = "volume_at ord q"
  have inv1: "matcher_inv m1" using quotes_inv [OF s Cons.prems(2)] by blast
  have tot: "total_volume ord (q # qs) = uint ?v + total_volume ord qs" by (simp add: total_volume_def)
  have nn: "0 \<le> total_volume ord qs" by (auto simp: total_volume_def intro!: sum_list_nonneg)
  have tv: "uint (t + ?v) = uint t + uint ?v"
    using Cons.prems(7) nn by (intro uint_add_lem [THEN iffD1]) (simp add: tot)
  have "verdict (l2_contract l2) (ord, pos, t) (quoted l2 b a m) = Inr (pos < t + ?v, (ord, pos, t + ?v))"
    using verdict_at_best [of ord p l2 pos t b a m] Cons.prems(3,4,5) by (simp add: q)
  note e = quote_effect(1) [OF s Cons.prems(2,6) this]
  show ?case
  proof (cases "pos < t + ?v")
    case False
    then have w: "m_working_orders m1 i = Some (ord, pos, t + ?v)" "t + ?v \<le> pos" using e by auto
    have "if uint (t + ?v) + total_volume ord qs \<le> uint pos
      then m_working_orders m' i = Some (ord, pos, t + ?v + word_of_int (total_volume ord qs))
      else m_working_orders m' i = None \<and> (\<exists>f. m_filled_orders m' i = Some f \<and> fill_of ord f)"
      using Cons.prems(3-5,7) w tv tot by (intro Cons.IH [OF rs inv1]) auto
    then show ?thesis by (simp add: tv tot add.assoc)
  next
    case True
    then obtain f where f: "m_filled_orders m1 i = Some f" "fill_of ord f" using e by auto
    have "matcher_inv m' \<and> m_filled_orders m' i = Some f"
      using rs inv1 f(1)
    proof (induction qs arbitrary: m1)
      case (Cons q qs)
      obtain l2 b a where q: "q = (l2, b, a)" by (rule prod_cases3)
      obtain m2 where "On_state_changed order_filled l2 b a m1 = Inr m2"
        and "fold_res (serve order_filled) (map quotes_request qs) m2 = Inr m'"
        using Cons.prems(1) by (auto simp: q bind_res_Inr_iff)
      then show ?case using Cons.IH quotes_inv quote_effect(2) Cons.prems(2,3) by blast
    qed simp
    then have "m_filled_orders m' i = Some f \<and> m_working_orders m' i = None"
      by (auto simp: matcher_inv_def)
    moreover have "\<not> uint t + total_volume ord (q # qs) \<le> uint pos"
      using True nn tv by (simp add: word_less_def tot)
    ultimately show ?thesis using f(2) by simp
  qed
qed

end

definition place_in_queue :: "Order \<Rightarrow> L2_book \<Rightarrow> ReplayOrderMatcher \<Rightarrow> int" where
  "place_in_queue ord l2 m = uint (dp_size (hd (own_side ord l2))) * uint (m_trade_rate m) div 100"

lemma place_word:
  fixes s :: u64 and r :: u32
  assumes "uint s * uint r < 2 ^ 64" and "uint s * uint r div 100 < 2 ^ 32"
  shows "uint (ucast (s * ucast r div 100) :: u32) = uint s * uint r div 100"
proof -
  have r: "uint (ucast r :: u64) = uint r" by (simp add: uint_up_ucast is_up)
  then have "uint (s * ucast r) = uint s * uint r"
    using assms(1) by (subst uint_mult_lem [THEN iffD1]) simp_all
  then have "uint (s * ucast r div 100) = uint s * uint r div 100" by (simp add: uint_div)
  moreover have "0 \<le> uint s * uint r div 100" by (simp add: pos_imp_zdiv_nonneg_iff)
  ultimately show ?thesis using assms(2) by (simp add: unsigned_ucast_eq take_bit_int_eq_self)
qed

context order_filler
begin

lemma resting_order:
  assumes "matcher_inv m" and "client_order_id ord \<notin> known m"
    and "stod (o_price ord) = Inr p"
    and "\<forall>q \<in> set (q0 # qs). at_best ord p (fst q)"
    and "uint (dp_size (hd (own_side ord (fst q0)))) * uint (m_trade_rate m) < 2 ^ 64"
    and "place_in_queue ord (fst q0) m < 2 ^ 32 - 1" and "total_volume ord qs < 2 ^ 32"
    and "fold_res (serve order_filled) (quotes_request q0 # Replay_add ord # map quotes_request qs) m = Inr m'"
  shows "if total_volume ord qs \<le> place_in_queue ord (fst q0) m
    then m_filled_orders m' (client_order_id ord) = None \<and>
      (\<exists>w pos. m_working_orders m' (client_order_id ord) = Some (w, pos, word_of_int (total_volume ord qs)))
    else m_working_orders m' (client_order_id ord) = None \<and>
      (\<exists>f. m_filled_orders m' (client_order_id ord) = Some f \<and>
         fill_price f = o_price ord \<and> fill_quantity f = quantity ord)"
proof -
  let ?i = "client_order_id ord" and ?place = "place_in_queue ord (fst q0) m"
  obtain l2 b a where q0: "q0 = (l2, b, a)" by (rule prod_cases3)
  obtain m1 m2 where s1: "On_state_changed order_filled l2 b a m = Inr m1"
    and s2: "matcher_Add order_filled ord m1 = Inr m2"
    and s3: "fold_res (serve order_filled) (map quotes_request qs) m2 = Inr m'"
    using assms(8) by (auto simp: q0 bind_res_Inr_iff)
  have inv1: "matcher_inv m1 \<and> known m1 = known m" by (rule quotes_inv [OF s1 assms(1)])
  then have fresh: "?i \<notin> known m1" using assms(2) by simp
  have inv2: "matcher_inv m2" using add_inv [OF s2 _ fresh] inv1 by blast
  have set1: "m_current_states m1 = (m_current_states m)(l2_contract l2 \<mapsto> (l2, b, a))" "m_trade_rate m1 = m_trade_rate m"
    using quotes_settled [OF s1 assms(1)] by (simp_all add: settled_def same_setting_def)
  have at: "at_best ord p l2" using assms(4) by (simp add: q0)
  have lc: "l2_contract l2 = contract ord" using at by (simp add: at_best_def)
  have cs: "m_current_states m1 (contract ord) = Some (l2, b, a)" using set1 lc by simp
  have h: "Has_matching ord m1 = Inr (False, ord)"
    using at_best_no_match [OF at assms(3)] by (simp add: Has_matching_def cs)
  obtain eid m1' where n: "matcher_Next_exchange_order_id m1 = (eid, m1')" by (cases "matcher_Next_exchange_order_id m1")
  have m1': "same_books m1 m1'" using n by (auto simp: matcher_Next_exchange_order_id_def Let_def same_books_def)
  define pos :: i32 where "pos = ucast (dp_size (hd (own_side ord l2)) * ucast (m_trade_rate m) div 100)"
  obtain w m2' where w: "Order_working ord eid m1' = Inr ((w, pos, 0), m2')"
    and m2: "m2 = m2'\<lparr>m_working_orders := (m_working_orders m2')(?i \<mapsto> (w, pos, 0)),
                   m_working_order_ids := m_working_order_ids m2' @ [?i]\<rparr>"
  proof -
    have c: "Calculate_order_position ord m3 = Inr pos" if "same_books m1' m3" for m3
      using position_at_best [OF at assms(3), of m3 b a] cs same_booksD [OF that] same_booksD [OF m1'] set1
      by (simp add: pos_def)
    obtain oi m2' where w: "Order_working ord eid m1' = Inr (oi, m2')"
      using s2 by (auto simp: matcher_Add_def h n map_res_Inr_iff)
    then have "snd oi = (pos, 0)"
      using c send_same_books by (fastforce simp: Order_working_def Let_def bind_res_Inr_iff)
    then obtain w' where "oi = (w', pos, 0)" by (cases oi) simp
    with w that show ?thesis using s2 by (auto simp: matcher_Add_def h n)
  qed
  have wf: "o_price w = o_price ord" "fill_of w f = fill_of ord f" "at_best w p l = at_best ord p l"
    "volume_at w q = volume_at ord q" for f l q
    using w by (auto simp: Order_working_def Let_def bind_res_Inr_iff fill_of_def at_best_def own_side_def
        other_side_def volume_at_def)
  have tv: "total_volume w qs = total_volume ord qs" by (simp add: total_volume_def wf)
  have place: "uint pos = ?place"
    using place_word assms(5,6) by (simp add: pos_def place_in_queue_def q0)
  have "uint (-1 :: i32) = 2 ^ 32 - 1" by code_simp
  then have pos: "pos \<noteq> -1" using place assms(6) by auto
  have "if uint (0 :: u32) + total_volume w qs \<le> uint pos
      then m_working_orders m' ?i = Some (w, pos, 0 + word_of_int (total_volume w qs))
      else m_working_orders m' ?i = None \<and> (\<exists>f. m_filled_orders m' ?i = Some f \<and> fill_of w f)"
  proof (rule queue_quotes [OF s3 inv2])
    show "\<forall>q \<in> set qs. at_best w p (fst q)" using assms(4) unfolding wf(3) by simp
  qed (use assms(3,7) pos in \<open>simp_all add: wf(1) tv m2\<close>)
  moreover have "m_filled_orders m' ?i = None" if "m_working_orders m' ?i \<noteq> None"
  proof -
    have "matcher_inv m'" using serve_all_inv [OF s3 inv2] by simp
    then have "dom (m_working_orders m') \<inter> dom (m_filled_orders m') = {}" by (simp add: matcher_inv_def)
    then show ?thesis using that by blast
  qed
  moreover have "fill_price f = o_price ord \<and> fill_quantity f = quantity ord" if "fill_of ord f" for f
    using that by (simp add: fill_of_def)
  ultimately show ?thesis
    unfolding tv place wf(2) unsigned_0 add_0 by (cases "total_volume ord qs \<le> ?place") auto
qed

end

text \<open>
  Claim C27: a limit order that arrives when its price is the best of its side takes the place in
  the queue that is the configured share of the size quoted there.  While its price stays the
  best of its side and the other side does not reach it, the order rests as long as the volume
  traded on its side since is at most that place, and it is filled as a whole, at its own price,
  by the update that takes the volume past it.
\<close>
theorem resting_order_waits_its_turn:
  assumes "both_classes order_filled"
    and "matcher_inv m" and "client_order_id ord \<notin> known m"
    and "stod (o_price ord) = Inr p"
    and "\<forall>q \<in> set (q0 # qs). at_best ord p (fst q)"
    and "uint (dp_size (hd (own_side ord (fst q0)))) * uint (m_trade_rate m) < 2 ^ 64"
    and "place_in_queue ord (fst q0) m < 2 ^ 32 - 1" and "total_volume ord qs < 2 ^ 32"
    and "fold_res (serve order_filled) (quotes_request q0 # Replay_add ord # map quotes_request qs) m = Inr m'"
  shows "if total_volume ord qs \<le> place_in_queue ord (fst q0) m
    then m_filled_orders m' (client_order_id ord) = None \<and>
      (\<exists>w pos. m_working_orders m' (client_order_id ord) = Some (w, pos, word_of_int (total_volume ord qs)))
    else m_working_orders m' (client_order_id ord) = None \<and>
      (\<exists>f. m_filled_orders m' (client_order_id ord) = Some f \<and>
         fill_price f = o_price ord \<and> fill_quantity f = quantity ord)"
  using assms(1)
proof
  assume f: "order_filled = replay_Order_filled"
  show ?thesis by (rule replay.resting_order [OF assms(2-8) assms(9) [unfolded f]])
next
  assume f: "order_filled = simulater_Order_filled"
  show ?thesis by (rule simulater.resting_order [OF assms(2-8) assms(9) [unfolded f]])
qed

section \<open>The price and the order of fills\<close>

text \<open>The price of an order itself, or the best quote of the other side when that is no worse.\<close>

definition fair_price :: "Order \<Rightarrow> L2_book \<Rightarrow> string \<Rightarrow> bool" where
  "fair_price ord l2 px \<longleftrightarrow> px = o_price ord \<or>
     other_side ord l2 \<noteq> [] \<and> px = to_string_double (price (hd (other_side ord l2))) \<and>
     (order_type ord = OT_Market \<or>
      (\<exists>p. stod (o_price ord) = Inr p \<and>
         (if buy_sell ord = BS_Buy then price (hd (other_side ord l2)) \<le> p
          else p \<le> price (hd (other_side ord l2)))))"

lemma matching_fair:
  assumes "Is_price_matching ord l2 = Inr (hit, ord')"
  shows "fair_price ord l2 (o_price ord')"
proof (cases hit)
  case True
  then show ?thesis
    using assms
    by (auto simp: Is_price_matching_def fair_price_def other_side_def Let_def bind_res_Inr_iff map_res_Inr_iff
        split: BuySell.splits list.splits if_splits)
qed (use assms Is_price_matching_order in \<open>auto simp: fair_price_def\<close>)

lemma verdict_fair:
  assumes "verdict (l2_contract l2) oi (quoted l2 b a m) = Inr (hit, oi')" and "hit"
  shows "contract (fst oi) = l2_contract l2 \<and> fair_price (fst oi) l2 (o_price (fst oi')) \<and>
    quantity (fst oi') = quantity (fst oi)"
proof -
  obtain ord pos t where oi: "oi = (ord, pos, t)" by (rule prod_cases3)
  have c: "contract ord = l2_contract l2" using assms by (auto simp: verdict_def oi split: if_splits)
  have "repriced ord (fst oi')" using verdict_order [OF assms(1)] by (simp add: oi)
  then have q: "quantity (fst oi') = quantity ord" by (auto simp: repriced_def)
  have h: "Has_rematching (ord, pos, t) (quoted l2 b a m) = Inr (hit, oi')"
    using assms(1) c by (simp add: verdict_def oi)
  obtain hit1 ord1 where p: "Is_price_matching ord l2 = Inr (hit1, ord1)"
    using h c by (auto simp: Has_rematching_def bind_res_Inr_iff)
  have "o_price (fst oi') = o_price ord1"
    using h c p by (auto simp: Has_rematching_def split: if_splits BuySell.splits dest!: Is_position_reached_order)
  then show ?thesis using matching_fair [OF p] c q by (simp add: oi)
qed

context order_filler
begin

lemma quote_fills:
  assumes "matcher_inv m" and "On_state_changed order_filled l2 b a m = Inr m'"
  shows "fills m' = fills m @ map (\<lambda>i. the (m_filled_orders m' i))
      (filter (\<lambda>i. m_working_orders m' i = None) (m_working_order_ids m)) \<and>
    (\<forall>i. m_working_orders m i \<noteq> None \<and> m_working_orders m' i = None \<longrightarrow>
      (\<exists>ord pos t f. m_working_orders m i = Some (ord, pos, t) \<and> m_filled_orders m' i = Some f \<and>
         contract ord = l2_contract l2 \<and> fill_quantity f = quantity ord \<and> fair_price ord l2 (fill_price f)))"
proof (intro conjI allI impI)
  show "fills m' = fills m @ map (\<lambda>i. the (m_filled_orders m' i))
      (filter (\<lambda>i. m_working_orders m' i = None) (m_working_order_ids m))"
    using quotes_settled [OF assms(2,1)] by (simp add: settled_def)
  fix i
  assume i: "m_working_orders m i \<noteq> None \<and> m_working_orders m' i = None"
  then have "settled1 (l2_contract l2) (quoted l2 b a m) m' i"
    using quotes_settled [OF assms(2,1)] matcher_inv_dom [OF assms(1)] unfolding settled_def by blast
  then obtain oi hit oi' where o: "m_working_orders m i = Some oi"
      "verdict (l2_contract l2) oi (quoted l2 b a m) = Inr (hit, oi')"
      "if hit then m_working_orders m' i = None \<and> (\<exists>f. m_filled_orders m' i = Some f \<and> fill_of (fst oi') f)
       else m_working_orders m' i = Some oi' \<and> m_filled_orders m' i = m_filled_orders (quoted l2 b a m) i"
    unfolding settled1_def quoted_simps by blast
  then have hit: "hit" using i by (auto split: if_splits)
  then obtain f where f: "m_filled_orders m' i = Some f" "fill_of (fst oi') f" using o(3) by auto
  obtain ord pos t where oi: "oi = (ord, pos, t)" by (rule prod_cases3)
  have "fill_price f = o_price (fst oi')" "fill_quantity f = quantity (fst oi')" using f(2) by (simp_all add: fill_of_def)
  then have "contract ord = l2_contract l2 \<and> fill_quantity f = quantity ord \<and> fair_price ord l2 (fill_price f)"
    using verdict_fair [OF o(2) hit] by (simp add: oi)
  then show "\<exists>ord pos t f. m_working_orders m i = Some (ord, pos, t) \<and> m_filled_orders m' i = Some f \<and>
         contract ord = l2_contract l2 \<and> fill_quantity f = quantity ord \<and> fair_price ord l2 (fill_price f)"
    using o(1) f(1) oi by blast
qed

end

text \<open>
  Claim C28: a change of the quotes fills every order it fills as a whole, at the limit of the
  order or at a best opposite quote that is no worse, and tells the strategy of the fills in the
  order in which the orders arrived; only orders of the contract the quotes are for are filled.
\<close>
theorem quote_fills_are_fair:
  assumes "both_classes order_filled"
    and "matcher_inv m" and "On_state_changed order_filled l2 b a m = Inr m'"
  shows "fills m' = fills m @ map (\<lambda>i. the (m_filled_orders m' i))
      (filter (\<lambda>i. m_working_orders m' i = None) (m_working_order_ids m)) \<and>
    (\<forall>i. m_working_orders m i \<noteq> None \<and> m_working_orders m' i = None \<longrightarrow>
      (\<exists>ord pos t f. m_working_orders m i = Some (ord, pos, t) \<and> m_filled_orders m' i = Some f \<and>
         contract ord = l2_contract l2 \<and> fill_quantity f = quantity ord \<and> fair_price ord l2 (fill_price f)))"
  using assms(1)
proof
  assume f: "order_filled = replay_Order_filled"
  show ?thesis by (rule replay.quote_fills [OF assms(2) assms(3) [unfolded f]])
next
  assume f: "order_filled = simulater_Order_filled"
  show ?thesis by (rule simulater.quote_fills [OF assms(2) assms(3) [unfolded f]])
qed

section \<open>Witnesses\<close>

text \<open>A buy of three at 10 behind eight quoted there, with a trade rate of one half.\<close>

definition ex_waiting :: Order where
  "ex_waiting = Order_default\<lparr>client_order_id := ''a'', contract := ''C'', buy_sell := BS_Buy, o_price := ''10'',
     quantity := 3, order_type := OT_Limit\<rparr>"

definition ex_quotes :: "L2_book" where
  "ex_quotes = \<lparr>l2_contract = ''C'', l2_bid = [\<lparr>price = 10, dp_size = 8\<rparr>], l2_offer = [\<lparr>price = 11, dp_size = 5\<rparr>]\<rparr>"

definition ex_run :: "replay_request list" where
  "ex_run = [quotes_request (ex_quotes, 0, 0), Replay_add ex_waiting, quotes_request (ex_quotes, 3, 0), quotes_request (ex_quotes, 2, 1)]"

lemma ex_price: "stod ''10'' = Inr 10"
  by code_simp

lemma ex_readable: "price_readable ex_waiting"
  by (simp add: price_readable_def ex_waiting_def ex_price)

lemma ex_served: "\<exists>m. fold_res (serve replay_Order_filled) ex_run (started 50) = Inr m"
  using new_matcher_inv [OF refl, of 50] ex_readable
  by (intro replay.serve_all_total) (simp_all add: ex_run_def added_ids_def)

theorem priced_requests_are_served_witness:
  "\<exists>m. fold_res (serve replay_Order_filled) ex_run (started 50) = Inr m"
  using ex_readable by (intro priced_requests_are_served) (simp_all add: ex_run_def added_ids_def)

theorem replay_orders_have_one_place_witness:
  "\<exists>m. fold_res (serve replay_Order_filled) ex_run (started 50) = Inr m \<and>
     dom (m_working_orders m) \<union> dom (m_filled_orders m) \<union> dom (m_canceled_orders m) = {''a''}"
proof -
  obtain m where m: "fold_res (serve replay_Order_filled) ex_run (started 50) = Inr m" using ex_served by blast
  have ids: "added_ids ex_run = [''a'']" by (simp add: ex_run_def added_ids_def ex_waiting_def)
  show ?thesis using replay_orders_have_one_place [OF _ m] m by (auto simp: ids)
qed

theorem unpriced_market_order_throws_witness:
  "matcher_Add replay_Order_filled (ex_waiting\<lparr>order_type := OT_Market, o_price := ''''\<rparr>)
     ((started 50)\<lparr>m_current_states := [''C'' \<mapsto> (ex_quotes\<lparr>l2_offer := []\<rparr>, 0, 0)]\<rparr>) = Inl (Invalid_argument ''stod'')"
  by (rule unpriced_market_order_throws [of _ _ "ex_quotes\<lparr>l2_offer := []\<rparr>" 0 0])
    (simp_all add: Add_exchange_listener_def ex_waiting_def ex_quotes_def)

lemma ex_facts:
  "m_trade_rate (started 50) = 50" "at_best ex_waiting 10 ex_quotes"
  "uint (dp_size (hd (own_side ex_waiting ex_quotes))) = 8"
  "place_in_queue ex_waiting ex_quotes (started 50) = 4"
  "client_order_id ex_waiting = ''a''" "o_price ex_waiting = ''10''" "quantity ex_waiting = 3"
proof -
  show r: "m_trade_rate (started 50) = 50"
    by (simp add: Add_exchange_listener_def ReplayOrderMatcher_new_def)
  show "at_best ex_waiting 10 ex_quotes"
    by (simp add: at_best_def ex_waiting_def ex_quotes_def own_side_def other_side_def)
  show size: "uint (dp_size (hd (own_side ex_waiting ex_quotes))) = 8"
    by (simp add: ex_waiting_def ex_quotes_def own_side_def)
  show "place_in_queue ex_waiting ex_quotes (started 50) = 4"
    unfolding place_in_queue_def r size by simp
qed (simp_all add: ex_waiting_def)

lemma ex_volumes:
  "total_volume ex_waiting [(ex_quotes, 3, 0), (ex_quotes, 2, 1)] = 5"
  "total_volume ex_waiting [(ex_quotes, 3, 0)] = 3"
  by (simp_all add: total_volume_def volume_at_def ex_waiting_def)

theorem resting_order_waits_its_turn_witness:
  "\<exists>m f. fold_res (serve replay_Order_filled) ex_run (started 50) = Inr m \<and> m_working_orders m ''a'' = None \<and>
     m_filled_orders m ''a'' = Some f \<and> fill_price f = ''10'' \<and> fill_quantity f = 3"
proof -
  obtain m where m: "fold_res (serve replay_Order_filled) ex_run (started 50) = Inr m" using ex_served by blast
  have "m_working_orders m (client_order_id ex_waiting) = None \<and>
      (\<exists>f. m_filled_orders m (client_order_id ex_waiting) = Some f \<and>
         fill_price f = o_price ex_waiting \<and> fill_quantity f = quantity ex_waiting)"
    using resting_order_waits_its_turn [of replay_Order_filled "started 50" ex_waiting 10 "(ex_quotes, 0, 0)"
        "[(ex_quotes, 3, 0), (ex_quotes, 2, 1)]" m] m new_matcher_inv [OF refl, of 50]
    by (simp add: ex_run_def ex_price ex_facts ex_volumes)
  then show ?thesis using m by (auto simp: ex_facts)
qed

text \<open>The last update of the run fills the order.\<close>

theorem quote_fills_are_fair_witness:
  "\<exists>m m' ord f. matcher_inv m \<and> On_state_changed replay_Order_filled ex_quotes 2 1 m = Inr m' \<and>
     m_working_orders m ''a'' \<noteq> None \<and> m_filled_orders m' ''a'' = Some f \<and>
     fill_quantity f = quantity ord \<and> fair_price ord ex_quotes (fill_price f)"
proof -
  let ?first = "quotes_request (ex_quotes, 0, 0) # Replay_add ex_waiting # map quotes_request [(ex_quotes, 3, 0)]"
  note start = new_matcher_inv [OF refl, of 50]
  obtain m' where r: "fold_res (serve replay_Order_filled) ex_run (started 50) = Inr m'" using ex_served by blast
  have "ex_run = ?first @ [Replay_quotes ex_quotes 2 1]" by (simp add: ex_run_def)
  then have "bind_res (fold_res (serve replay_Order_filled) ?first (started 50))
      (fold_res (serve replay_Order_filled) [Replay_quotes ex_quotes 2 1]) = Inr m'"
    using r unfolding fold_res_append [symmetric] by metis
  then obtain m where m: "fold_res (serve replay_Order_filled) ?first (started 50) = Inr m"
    and m': "On_state_changed replay_Order_filled ex_quotes 2 1 m = Inr m'"
    unfolding bind_res_Inr_iff by (auto simp del: list.map fold_res.simps(2) simp: bind_res_Inr_iff fold_res.simps(2) [of _ "Replay_quotes x y z" for x y z])
  have "added_ids ?first = [''a'']" by (simp add: added_ids_def ex_facts)
  then have inv: "matcher_inv m" using replay.serve_all_inv [OF m start(1)] start(3) by simp
  have w: "m_working_orders m ''a'' \<noteq> None"
    using replay.resting_order [of "started 50" ex_waiting 10 "(ex_quotes, 0, 0)" "[(ex_quotes, 3, 0)]" m] m start
    by (auto simp: ex_price ex_facts ex_volumes)
  have w': "m_working_orders m' ''a'' = None"
    using replay.resting_order [of "started 50" ex_waiting 10 "(ex_quotes, 0, 0)"
        "[(ex_quotes, 3, 0), (ex_quotes, 2, 1)]" m'] r start
    by (simp add: ex_run_def ex_price ex_facts ex_volumes)
  show ?thesis using quote_fills_are_fair [OF _ inv m'] inv m' w w' by blast
qed

end
