(* ===== verification/Replay_Feed.thy ===== *)
theory Replay_Feed
  imports Replay_Matcher
begin

text \<open>
  The recorded market data on its way into the simulated exchange: the listener that forwards it
  to the market listener and works out how much of the traded volume went to either side
  (tmalpha/replay/replay_listener.h), and the consumer that turns the recorded JSON documents
  back into events (replay_data_consumer.h).  The JSON library is a parameter: \<open>bson\<close> holds the
  operations of it that the consumer calls.
\<close>

section \<open>The listener\<close>

text \<open>What leaves the listener: events for the market listener, and changed quotes with the
  volumes traded on the bid and on the ask side for the matcher.\<close>

datatype replay_output = To_market market_event | To_matcher L2_book u32 u32

record ReplayListener =
  has_market_listener :: bool
  has_l2_changed :: bool
  m_last_total_turnover :: "string \<rightharpoonup> u64 \<times> double"
  m_current_turnover :: "string \<rightharpoonup> u64 \<times> double"

definition ReplayListener_new :: ReplayListener where
  "ReplayListener_new = \<lparr>has_market_listener = False, has_l2_changed = False,
     m_last_total_turnover = Map.empty, m_current_turnover = Map.empty\<rparr>"

definition Add_l2_changed_callback :: "bool \<Rightarrow> ReplayListener \<Rightarrow> ReplayListener" where
  "Add_l2_changed_callback f l = l\<lparr>has_l2_changed := f\<rparr>"

definition Add_market_listener :: "bool \<Rightarrow> ReplayListener \<Rightarrow> ReplayListener" where
  "Add_market_listener f l = l\<lparr>has_market_listener := f\<rparr>"

text \<open>The calls that are only passed on: definitions, best prices, trades and trading status.\<close>

definition pass_on :: "market_event \<Rightarrow> ReplayListener \<Rightarrow> replay_output list" where
  "pass_on e l = (if has_market_listener l then [To_market e] else [])"

text \<open>\<open>operator[]\<close> of the two maps gives zeros for a contract that is not there.\<close>

definition turnover_of :: "string \<Rightarrow> (string \<rightharpoonup> u64 \<times> double) \<Rightarrow> u64 \<times> double" where
  "turnover_of name t = (case t name of None \<Rightarrow> (0, 0) | Some p \<Rightarrow> p)"

text \<open>The conversion of a 64-bit count to \<open>int\<close>, and a difference of two \<open>int\<close>s.\<close>

definition to_int :: "u64 \<Rightarrow> int" where
  "to_int w = sint (ucast w :: i32)"

definition int_range :: "int \<Rightarrow> int res" where
  "int_range i = (if - (2 ^ 31) \<le> i \<and> i < 2 ^ 31 then Inr i else Inl Undefined_behaviour)"

definition On_turnover :: "string \<Rightarrow> u64 \<Rightarrow> double \<Rightarrow> ReplayListener \<Rightarrow> ReplayListener res" where
  "On_turnover name total_volume turnover l =
     (let last = turnover_of name (m_last_total_turnover l) in
      bind_res (int_range (to_int total_volume - to_int (fst last))) (\<lambda>d.
      Inr (l\<lparr>m_current_turnover := (m_current_turnover l)(name \<mapsto>
               (word_of_int (max 0 d), max 0 (double_sub turnover (snd last)))),
             m_last_total_turnover := (m_last_total_turnover l)(name \<mapsto> (total_volume, turnover))\<rparr>)))"

text \<open>\<open>(int)x\<close> for a double, which is undefined outside of the range.\<close>

definition double_to_int :: "double \<Rightarrow> int res" where
  "double_to_int x = int_range (trunc_rat x)"

definition best_price :: "data_point list \<Rightarrow> double" where
  "best_price ps = (case ps of [] \<Rightarrow> 0 | p # _ \<Rightarrow> price p)"

definition Calculate_current_trade_volumn :: "L2_book \<Rightarrow> int \<Rightarrow> ReplayListener \<Rightarrow> (u32 \<times> u32) res" where
  "Calculate_current_trade_volumn l2 volume_multiple l =
     (let (volumn, turnover) = turnover_of (l2_contract l2) (m_current_turnover l);
          bid = best_price (l2_bid l2); ask = best_price (l2_offer l2)
      in if volume_multiple \<le> 0 \<or> volumn = 0 \<or> turnover \<le> 0 \<or> (bid \<le> 0 \<and> ask \<le> 0) \<or> bid = ask
         then Inr (0, 0)
         else
           bind_res (double_to_int (double_div
               (double_sub (double_div turnover (double_of_int volume_multiple))
                           (double_mult (double_of_int (to_int volumn)) ask))
               (double_sub bid ask))) (\<lambda>bid_v.
           let ask_v = sint (ucast (volumn - word_of_int bid_v) :: i32) in
           Inr (if bid_v \<le> 0 then (0, ucast volumn)
                else if ask_v \<le> 0 then (ucast volumn, 0)
                else (word_of_int bid_v, word_of_int ask_v))))"

text \<open>\<open>operator[]\<close> of the calculation also inserts the entry it reads.\<close>

definition listener_OnL2 :: "L2_book \<Rightarrow> int \<Rightarrow> ReplayListener \<Rightarrow> (replay_output list \<times> ReplayListener) res" where
  "listener_OnL2 l2 volume_multiple l =
     (let out = pass_on (OnL2 (l2_contract l2) (l2_bid l2) (l2_offer l2)) l in
      if has_l2_changed l then
        bind_res (Calculate_current_trade_volumn l2 volume_multiple l) (\<lambda>(b, a).
          Inr (out @ [To_matcher l2 b a],
               l\<lparr>m_current_turnover := (m_current_turnover l)(l2_contract l2 \<mapsto>
                    turnover_of (l2_contract l2) (m_current_turnover l))\<rparr>))
      else Inr (out, l))"

section \<open>The consumer\<close>

text \<open>The JSON library: parsing a document, a member of a document, the text of a string member
  and the elements of an array member.  The accessors throw on a member of another type or one
  that is not there.\<close>

record 'd bson =
  from_json :: "string \<Rightarrow> 'd res"
  sub :: "'d \<Rightarrow> string \<Rightarrow> 'd"
  get_utf8 :: "'d \<Rightarrow> string res"
  get_array :: "'d \<Rightarrow> 'd list res"

definition GET_STR :: "'d bson \<Rightarrow> 'd \<Rightarrow> string \<Rightarrow> string res" where
  "GET_STR js view key = get_utf8 js (sub js view key)"

definition GET_INT :: "'d bson \<Rightarrow> 'd \<Rightarrow> string \<Rightarrow> i64 res" where
  "GET_INT js view key = bind_res (GET_STR js view key) stol"

definition GET_DOUBLE :: "'d bson \<Rightarrow> 'd \<Rightarrow> string \<Rightarrow> double res" where
  "GET_DOUBLE js view key = bind_res (GET_STR js view key) stod"

text \<open>A price and a size of a data point.\<close>

definition read_point :: "'d bson \<Rightarrow> 'd \<Rightarrow> data_point res" where
  "read_point js dp =
     bind_res (GET_DOUBLE js dp ''price'') (\<lambda>p.
     bind_res (GET_INT js dp ''size'') (\<lambda>s. Inr \<lparr>price = p, dp_size = s\<rparr>))"

definition Parse_trade :: "'d bson \<Rightarrow> 'd \<Rightarrow> market_event res" where
  "Parse_trade js body =
     bind_res (GET_STR js body ''contract'') (\<lambda>c.
     bind_res (read_point js (sub js body ''last'')) (\<lambda>p.
     bind_res (GET_STR js body ''time'') (\<lambda>_. Inr (OnTrade c p))))"

definition Parse_bbo :: "'d bson \<Rightarrow> 'd \<Rightarrow> market_event res" where
  "Parse_bbo js body =
     bind_res (GET_STR js body ''contract'') (\<lambda>c.
     bind_res (read_point js (sub js body ''bid'')) (\<lambda>bid.
     bind_res (read_point js (sub js body ''offer'')) (\<lambda>ask. Inr (OnBBO c bid ask))))"

definition Parse_bid :: "'d bson \<Rightarrow> 'd \<Rightarrow> market_event res" where
  "Parse_bid js body =
     bind_res (GET_STR js body ''contract'') (\<lambda>c.
     bind_res (read_point js (sub js body ''bid'')) (\<lambda>bid. Inr (OnBid c bid)))"

definition Parse_offer :: "'d bson \<Rightarrow> 'd \<Rightarrow> market_event res" where
  "Parse_offer js body =
     bind_res (GET_STR js body ''contract'') (\<lambda>c.
     bind_res (read_point js (sub js body ''offer'')) (\<lambda>ask. Inr (OnOffer c ask)))"

definition Parse_l2 :: "'d bson \<Rightarrow> 'd \<Rightarrow> L2_book res" where
  "Parse_l2 js body =
     bind_res (GET_STR js body ''contract'') (\<lambda>c.
     bind_res (bind_res (get_array js (sub js body ''bid'')) (traverse (read_point js))) (\<lambda>bid.
     bind_res (bind_res (get_array js (sub js body ''offer'')) (traverse (read_point js))) (\<lambda>ask.
     bind_res (GET_STR js body ''time'') (\<lambda>_.
     Inr \<lparr>l2_contract = c, l2_bid = bid, l2_offer = ask\<rparr>))))"

definition Parse_contract :: "'d bson \<Rightarrow> 'd \<Rightarrow> market_event res" where
  "Parse_contract js body =
     bind_res (GET_STR js body ''name'') (\<lambda>name.
     bind_res (GET_STR js body ''tick_size'') (\<lambda>tick_size.
     bind_res (GET_STR js body ''tick_value'') (\<lambda>tick_value.
     bind_res (GET_STR js body ''yesterday_close_price'') (\<lambda>close.
     bind_res (GET_STR js body ''upper_limit'') (\<lambda>upper_limit.
     bind_res (GET_STR js body ''lower_limit'') (\<lambda>lower_limit.
     Inr (OnContractDefinition \<lparr>c_name = name, c_tick_size = tick_size, c_tick_value = tick_value,
            c_yesterday_close_price = close,
            c_upper_limit = upper_limit, c_lower_limit = lower_limit\<rparr>)))))))"

definition Parse_turnover :: "'d bson \<Rightarrow> 'd \<Rightarrow> ReplayListener \<Rightarrow> ReplayListener res" where
  "Parse_turnover js body l =
     bind_res (GET_STR js body ''contract'') (\<lambda>c.
     bind_res (GET_INT js body ''total_volume'') (\<lambda>v.
     bind_res (GET_DOUBLE js body ''turnover'') (\<lambda>t. On_turnover c v t l)))"

text \<open>The body of a document, by its type.\<close>

definition consume_body ::
    "'d bson \<Rightarrow> string \<Rightarrow> 'd \<Rightarrow> int \<Rightarrow> ReplayListener \<Rightarrow> (replay_output list \<times> ReplayListener) res" where
  "consume_body js ty body volume_multiple l =
     (let event = map_res (\<lambda>e. (pass_on e l, l))
      in if ty = ''trade'' then event (Parse_trade js body)
         else if ty = ''bbo'' then event (Parse_bbo js body)
         else if ty = ''bid'' then event (Parse_bid js body)
         else if ty = ''offer'' then event (Parse_offer js body)
         else if ty = ''l2'' then bind_res (Parse_l2 js body) (\<lambda>l2. listener_OnL2 l2 volume_multiple l)
         else if ty = ''contract'' then event (Parse_contract js body)
         else if ty = ''turnover'' then map_res (\<lambda>l'. ([], l')) (Parse_turnover js body l)
         else Inr ([], l))"

definition Consume :: "'d bson \<Rightarrow> string \<Rightarrow> ReplayListener \<Rightarrow> (replay_output list \<times> ReplayListener) res" where
  "Consume js msg l =
     bind_res (from_json js msg) (\<lambda>json.
     bind_res (GET_STR js json ''type'') (\<lambda>ty.
     bind_res (GET_STR js json ''insertTime'') (\<lambda>_.
     bind_res (GET_INT js json ''VolumeMultiple'') (\<lambda>vm.
     consume_body js ty (sub js json ''message'') (sint (ucast vm :: i32)) l))))"

section \<open>The split of the traded volume\<close>

lemma to_int_bounds: "- (2 ^ 31) \<le> to_int w \<and> to_int w < 2 ^ 31"
  using sint_ge [of "ucast w :: i32"] sint_lt [of "ucast w :: i32"] by (simp add: to_int_def)

lemma int_range_Inr_iff: "int_range i = Inr j \<longleftrightarrow> i = j \<and> - (2 ^ 31) \<le> i \<and> i < 2 ^ 31"
  by (auto simp: int_range_def)

lemma signed_difference:
  fixes v b :: int
  assumes "0 \<le> v" "v < 2 ^ 31" "0 < b" "b < 2 ^ 31"
  shows "sint (ucast (word_of_int v - word_of_int b :: u64) :: i32) = v - b"
proof -
  have low: "(ucast (word_of_int i :: u64) :: i32) = word_of_int i" for i
    by (rule bit_word_eqI) (simp add: bit_simps)
  have "sint (word_of_int (v - b) :: i32) = v - b"
    using assms by (simp add: signed_of_int signed_take_bit_int_eq_self del: of_int_diff)
  then show ?thesis unfolding of_int_diff [symmetric] low .
qed

lemma Calculate_splits:
  assumes "Calculate_current_trade_volumn l2 vm l = Inr (b, a)"
    and "fst (turnover_of (l2_contract l2) (m_current_turnover l)) = word_of_int v" "0 \<le> v" "v < 2 ^ 31"
  shows "(b, a) = (0, 0) \<or> uint b + uint a = v"
proof -
  obtain w t where w: "turnover_of (l2_contract l2) (m_current_turnover l) = (w, t)" by force
  have wv: "w = word_of_int v" "uint w = v"
    using assms w by (simp_all add: uint_word_of_int take_bit_int_eq_self)
  have low: "uint (ucast w :: u32) = v"
    using assms(3,4) by (simp add: unsigned_ucast_eq wv(2) take_bit_int_eq_self)
  show ?thesis
  proof (cases "(b, a) = (0, 0)")
    case False
    let ?bid = "best_price (l2_bid l2)" and ?ask = "best_price (l2_offer l2)"
    define q where "q = double_div (double_sub (double_div t (double_of_int vm))
        (double_mult (double_of_int (to_int w)) ?ask)) (double_sub ?bid ?ask)"
    have "bind_res (double_to_int q) (\<lambda>bid_v.
           let ask_v = sint (ucast (w - word_of_int bid_v) :: i32) in
           Inr (if bid_v \<le> 0 then (0, ucast w) else if ask_v \<le> 0 then (ucast w, 0)
                else (word_of_int bid_v, word_of_int ask_v))) = Inr (b, a)"
      using assms(1) False unfolding Calculate_current_trade_volumn_def w Let_def prod.case q_def
      by (auto split: if_splits)
    then obtain bid_v where q: "double_to_int q = Inr bid_v"
      and e: "(b, a) = (if bid_v \<le> 0 then (0, ucast w)
          else if sint (ucast (w - word_of_int bid_v) :: i32) \<le> 0 then (ucast w, 0)
          else (word_of_int bid_v, word_of_int (sint (ucast (w - word_of_int bid_v) :: i32))))"
      unfolding bind_res_Inr_iff Let_def by auto
    have r: "- (2 ^ 31) \<le> bid_v" "bid_v < 2 ^ 31"
      using q by (auto simp: double_to_int_def int_range_Inr_iff)
    show ?thesis
    proof (cases "bid_v \<le> 0")
      case False
      then have s: "sint (ucast (w - word_of_int bid_v) :: i32) = v - bid_v"
        using signed_difference [of v bid_v] assms(3,4) r wv(1) by simp
      show ?thesis
      proof (cases "v - bid_v \<le> 0")
        case False
        then have ba: "b = word_of_int bid_v" "a = word_of_int (v - bid_v)"
          using e \<open>\<not> bid_v \<le> 0\<close> unfolding s by simp_all
        have "uint (word_of_int i :: u32) = i" if "0 < i" "i < 2 ^ 31" for i
          using that by (simp add: uint_word_of_int take_bit_int_eq_self)
        then have "uint b = bid_v" "uint a = v - bid_v"
          using False r assms(4) \<open>\<not> bid_v \<le> 0\<close> unfolding ba by (auto simp del: of_int_diff)
        then show ?thesis by simp
      qed (use e s low \<open>\<not> bid_v \<le> 0\<close> in simp)
    qed (use e low in simp)
  qed simp
qed

text \<open>
  An update of the quotes that follows a report of the total volume hands the matcher
  two volumes, for the bid and the ask side, that add up to exactly the increase of the total
  since the report before (which is no increase when the total went down), or are both zero when
  prices or amounts do not allow to split it; no volume is invented or lost, whatever rounding
  the division does.
\<close>
theorem traded_volume_is_split:
  assumes "On_turnover (l2_contract l2) tot amount l = Inr l1" and "has_l2_changed l1"
    and "listener_OnL2 l2 volume_multiple l1 = Inr (out, l2')"
  shows "\<exists>b a. out = pass_on (OnL2 (l2_contract l2) (l2_bid l2) (l2_offer l2)) l @ [To_matcher l2 b a] \<and>
    ((b, a) = (0, 0) \<or>
     uint b + uint a =
       max 0 (to_int tot - to_int (fst (turnover_of (l2_contract l2) (m_last_total_turnover l)))))"
proof -
  let ?c = "l2_contract l2"
  let ?d = "to_int tot - to_int (fst (turnover_of ?c (m_last_total_turnover l)))"
  have d: "?d < 2 ^ 31" and l1: "l1 = l\<lparr>m_current_turnover := (m_current_turnover l)(?c \<mapsto>
               (word_of_int (max 0 ?d), max 0 (double_sub amount (snd (turnover_of ?c (m_last_total_turnover l)))))),
             m_last_total_turnover := (m_last_total_turnover l)(?c \<mapsto> (tot, amount))\<rparr>"
    using assms(1) by (auto simp: On_turnover_def Let_def bind_res_Inr_iff int_range_Inr_iff)
  obtain b a where c: "Calculate_current_trade_volumn l2 volume_multiple l1 = Inr (b, a)"
    and out: "out = pass_on (OnL2 ?c (l2_bid l2) (l2_offer l2)) l1 @ [To_matcher l2 b a]"
    using assms(2,3) by (auto simp: listener_OnL2_def Let_def bind_res_Inr_iff)
  have "fst (turnover_of ?c (m_current_turnover l1)) = word_of_int (max 0 ?d)"
    by (simp add: l1 turnover_of_def)
  then have "(b, a) = (0, 0) \<or> uint b + uint a = max 0 ?d"
    using d by (intro Calculate_splits [OF c]) simp_all
  moreover have "pass_on e l1 = pass_on e l" for e by (simp add: pass_on_def l1)
  ultimately show ?thesis using out by auto
qed

text \<open>Ten contracts of ten units traded for 10030, between 100 and 101: seven at the bid, three at the ask.\<close>

definition ex_listener :: ReplayListener where
  "ex_listener = Add_l2_changed_callback True ReplayListener_new"

definition ex_l2 :: L2_book where
  "ex_l2 = \<lparr>l2_contract = ''C'', l2_bid = [\<lparr>price = 100, dp_size = 8\<rparr>], l2_offer = [\<lparr>price = 101, dp_size = 5\<rparr>]\<rparr>"

definition ex_turned :: ReplayListener where
  "ex_turned = ex_listener\<lparr>m_current_turnover := [''C'' \<mapsto> (10, 10030)], m_last_total_turnover := [''C'' \<mapsto> (10, 10030)]\<rparr>"

lemma ex_turnover: "On_turnover ''C'' 10 10030 ex_listener = Inr ex_turned"
proof -
  have "double_sub 10030 0 = 10030" by code_simp
  then show ?thesis
    by (simp add: On_turnover_def ex_listener_def ex_turned_def Add_l2_changed_callback_def ReplayListener_new_def
        turnover_of_def to_int_def int_range_def)
qed

lemma ex_split: "Calculate_current_trade_volumn ex_l2 10 ex_turned = Inr (7, 3)"
proof -
  have "turnover_of ''C'' (m_current_turnover ex_turned) = (10, 10030)"
    by (simp add: turnover_of_def ex_turned_def)
  moreover have "double_to_int (double_div (double_sub (double_div 10030 (double_of_int 10))
      (double_mult (double_of_int (to_int 10)) 101)) (double_sub 100 101)) = Inr 7" by code_simp
  ultimately show ?thesis
    by (simp add: Calculate_current_trade_volumn_def ex_l2_def best_price_def)
qed

theorem traded_volume_is_split_witness:
  "\<exists>out l'. listener_OnL2 ex_l2 10 ex_turned = Inr (out, l') \<and> out = [To_matcher ex_l2 7 3] \<and>
     uint (7 :: u32) + uint (3 :: u32) = max 0 (to_int 10 - to_int 0)"
proof -
  have c: "l2_contract ex_l2 = ''C''" by (simp add: ex_l2_def)
  have h: "has_l2_changed ex_turned" "\<not> has_market_listener ex_listener"
    by (simp_all add: ex_turned_def ex_listener_def Add_l2_changed_callback_def ReplayListener_new_def)
  obtain out l' where o: "listener_OnL2 ex_l2 10 ex_turned = Inr (out, l')"
    using h ex_split by (simp add: listener_OnL2_def)
  have out: "out = [To_matcher ex_l2 7 3]"
    using o h ex_split by (auto simp: listener_OnL2_def pass_on_def ex_turned_def)
  have last: "fst (turnover_of ''C'' (m_last_total_turnover ex_listener)) = 0"
    by (simp add: turnover_of_def ex_listener_def Add_l2_changed_callback_def ReplayListener_new_def)
  show ?thesis
    using traded_volume_is_split [of ex_l2 10 10030 ex_listener ex_turned 10 out l'] ex_turnover o h out
    by (auto simp: c last)
qed

end
