(* ===== verification/Replay_Simulater.thy ===== *)
theory Replay_Simulater
  imports Replay_Feed
begin

text \<open>
  The replay (tmalpha/replay/replay_simulater.cc): a reader thread that fetches pages of recorded
  messages, a replayer thread that consumes them, and the threads of the strategy, which send
  requests to the matcher.  The two replay threads share a queue, a mutex and one condition
  variable; a thread is modelled by its place in the code, and a step of it ends where another
  thread can come in between.  A wake-up without a notification is a step of its own.  Waiting
  between messages to keep the recorded pace is left out.  An exception that leaves a thread ends
  the process.  The data provider is a parameter: \<open>query n\<close> gives the page after the message
  identified by \<open>n\<close>, \<open>ident\<close> identifies a message; \<open>js\<close> is the JSON library.
\<close>

section \<open>State\<close>

datatype reader_pc = R_test | R_query | R_push "string list" | R_wait | R_woken | R_notify | R_done

datatype replayer_pc = P_test | P_lock | P_holds | P_empty | P_sleep | P_wait | P_woken | P_done

record ReplaySimulater =
  m_messages :: "string list"
  m_is_fetch_end :: bool
  m_is_stopped :: bool
  m_mutex_held :: bool
  last_message :: u64
  reader :: reader_pc
  replayer :: replayer_pc
  m_consumer :: ReplayListener
  m_matcher :: ReplayOrderMatcher
  to_market :: "market_event list"
  consumed :: "string list"
  terminated :: bool

text \<open>The state after \<open>Start\<close>, with both listeners and the callback of the constructor set.
  \<open>consumed\<close> records what was replayed, \<open>to_market\<close> what the market listener received.\<close>

definition ReplaySimulater_start :: "i32 \<Rightarrow> ReplaySimulater" where
  "ReplaySimulater_start trade_rate =
     \<lparr>m_messages = [], m_is_fetch_end = False, m_is_stopped = False, m_mutex_held = False,
      last_message = 0, reader = R_test, replayer = P_test,
      m_consumer = Add_market_listener True (Add_l2_changed_callback True ReplayListener_new),
      m_matcher = Add_exchange_listener True (ReplayOrderMatcher_new trade_rate),
      to_market = [], consumed = [], terminated = False\<rparr>"

text \<open>\<open>m_condition.notify_all()\<close>.\<close>

definition notify_all :: "ReplaySimulater \<Rightarrow> ReplaySimulater" where
  "notify_all s = s\<lparr>reader := (if reader s = R_wait then R_woken else reader s),
                     replayer := (if replayer s = P_wait then P_woken else replayer s)\<rparr>"

section \<open>Steps\<close>

text \<open>\<open>Read\<close>.  The section from taking the mutex to waiting is one step: it runs when the mutex
  is free and gives it back when it waits.\<close>

definition reader_step ::
    "(u64 \<Rightarrow> string list) \<Rightarrow> (string \<Rightarrow> u64) \<Rightarrow> ReplaySimulater \<Rightarrow> ReplaySimulater option" where
  "reader_step query ident s =
     (case reader s of
        R_test \<Rightarrow> Some (s\<lparr>reader := if m_is_stopped s then R_notify else R_query\<rparr>)
      | R_query \<Rightarrow>
          (case query (last_message s) of
             [] \<Rightarrow> Some (s\<lparr>m_is_fetch_end := True, reader := R_notify\<rparr>)
           | msg # msgs \<Rightarrow> Some (s\<lparr>reader := R_push (msg # msgs)\<rparr>))
      | R_push msgs \<Rightarrow>
          if m_mutex_held s then None
          else Some ((notify_all (s\<lparr>m_messages := m_messages s @ msgs,
                        last_message := ident (last (m_messages s @ msgs))\<rparr>))\<lparr>reader := R_wait\<rparr>)
      | R_wait \<Rightarrow> None
      | R_woken \<Rightarrow> if m_mutex_held s then None else Some (s\<lparr>reader := R_test\<rparr>)
      | R_notify \<Rightarrow> Some ((notify_all s)\<lparr>reader := R_done\<rparr>)
      | R_done \<Rightarrow> None)"

text \<open>What a consumed message leads to.\<close>

fun deliver :: "replay_output \<Rightarrow> ReplaySimulater \<Rightarrow> ReplaySimulater res" where
  "deliver (To_market e) s = Inr (s\<lparr>to_market := to_market s @ [e]\<rparr>)"
| "deliver (To_matcher l2 b a) s =
     map_res (\<lambda>m. s\<lparr>m_matcher := m\<rparr>) (On_state_changed replay_Order_filled l2 b a (m_matcher s))"

definition Consume_one :: "'d bson \<Rightarrow> string \<Rightarrow> ReplaySimulater \<Rightarrow> ReplaySimulater res" where
  "Consume_one js msg s =
     bind_res (Consume js msg (m_consumer s)) (\<lambda>(out, l).
       map_res (\<lambda>s'. s'\<lparr>m_messages := tl (m_messages s'), consumed := consumed s' @ [msg]\<rparr>)
         (fold_res deliver out (s\<lparr>m_consumer := l\<rparr>)))"

text \<open>\<open>Replay\<close>.  It holds the mutex from taking it to the end of the round or to waiting; the test
  of \<open>m_is_fetch_end\<close> and the wait are two steps, because the reader changes that flag and
  notifies without the mutex.\<close>

definition replayer_step :: "'d bson \<Rightarrow> ReplaySimulater \<Rightarrow> ReplaySimulater option" where
  "replayer_step js s =
     (case replayer s of
        P_test \<Rightarrow> Some (s\<lparr>replayer := if m_is_stopped s then P_done else P_lock\<rparr>)
      | P_lock \<Rightarrow> if m_mutex_held s then None else Some (s\<lparr>m_mutex_held := True, replayer := P_holds\<rparr>)
      | P_holds \<Rightarrow>
          (case m_messages s of
             [] \<Rightarrow> Some (s\<lparr>replayer := P_empty\<rparr>)
           | msg # _ \<Rightarrow>
               (case Consume_one js msg s of
                  Inl _ \<Rightarrow> Some (s\<lparr>terminated := True\<rparr>)
                | Inr s1 \<Rightarrow>
                    let s2 = (if length (m_messages s1) < 100 then notify_all s1 else s1)
                    in Some (s2\<lparr>m_mutex_held := False, replayer := P_test\<rparr>)))
      | P_empty \<Rightarrow> Some (if m_is_fetch_end s then s\<lparr>m_mutex_held := False, replayer := P_done\<rparr>
                         else s\<lparr>replayer := P_sleep\<rparr>)
      | P_sleep \<Rightarrow> Some (s\<lparr>m_mutex_held := False, replayer := P_wait\<rparr>)
      | P_wait \<Rightarrow> None
      | P_woken \<Rightarrow> if m_mutex_held s then None else Some (s\<lparr>replayer := P_test\<rparr>)
      | P_done \<Rightarrow> None)"

definition Stop :: "ReplaySimulater \<Rightarrow> ReplaySimulater" where
  "Stop s = s\<lparr>m_is_stopped := True\<rparr>"

text \<open>The requests of a strategy (\<open>Add\<close>, \<open>Change\<close>, \<open>Delete\<close>, \<open>Query\<close>) go to the matcher.\<close>

definition strategy_request :: "replay_request \<Rightarrow> ReplaySimulater \<Rightarrow> ReplaySimulater" where
  "strategy_request r s =
     (case serve replay_Order_filled r (m_matcher s) of
        Inl _ \<Rightarrow> s\<lparr>terminated := True\<rparr>
      | Inr m \<Rightarrow> s\<lparr>m_matcher := m\<rparr>)"

datatype replay_label =
  Reader | Replayer | Reader_wakes | Replayer_wakes | Strategy replay_request | Stopping

fun replay_step ::
    "'d bson \<Rightarrow> (u64 \<Rightarrow> string list) \<Rightarrow> (string \<Rightarrow> u64) \<Rightarrow> replay_label \<Rightarrow> ReplaySimulater \<Rightarrow>
     ReplaySimulater option" where
  "replay_step js query ident Reader s = reader_step query ident s"
| "replay_step js query ident Replayer s = replayer_step js s"
| "replay_step js query ident Reader_wakes s =
     (if reader s = R_wait then Some (s\<lparr>reader := R_woken\<rparr>) else None)"
| "replay_step js query ident Replayer_wakes s =
     (if replayer s = P_wait then Some (s\<lparr>replayer := P_woken\<rparr>) else None)"
| "replay_step js query ident (Strategy r) s = Some (strategy_request r s)"
| "replay_step js query ident Stopping s = Some (Stop s)"

definition replay_moves ::
    "'d bson \<Rightarrow> (u64 \<Rightarrow> string list) \<Rightarrow> (string \<Rightarrow> u64) \<Rightarrow> ReplaySimulater \<Rightarrow> replay_label \<Rightarrow> ReplaySimulater \<Rightarrow> bool" where
  "replay_moves js query ident s l t \<longleftrightarrow> \<not> terminated s \<and> replay_step js query ident l s = Some t"

section \<open>Messages are replayed once, in order\<close>

text \<open>The pages of the provider: the recorded messages in the order of their identification, which
  differs from message to message, a page of \<open>n\<close> at a time.\<close>

definition pages :: "(u64 \<Rightarrow> string list) \<Rightarrow> (string \<Rightarrow> u64) \<Rightarrow> nat \<Rightarrow> string list \<Rightarrow> bool" where
  "pages query ident n recorded \<longleftrightarrow> 0 < n \<and> sorted_wrt (<) (map ident recorded) \<and>
     (\<forall>m \<in> set recorded. 0 < ident m) \<and>
     (\<forall>k. query k = take n (filter (\<lambda>m. k < ident m) recorded))"

definition to_fetch :: "(string \<Rightarrow> u64) \<Rightarrow> string list \<Rightarrow> ReplaySimulater \<Rightarrow> string list" where
  "to_fetch ident recorded s = filter (\<lambda>m. last_message s < ident m) recorded"

definition in_sequence :: "(string \<Rightarrow> u64) \<Rightarrow> string list \<Rightarrow> ReplaySimulater \<Rightarrow> bool" where
  "in_sequence ident recorded s \<longleftrightarrow> consumed s @ m_messages s @ to_fetch ident recorded s = recorded"

definition replay_inv :: "(u64 \<Rightarrow> string list) \<Rightarrow> (string \<Rightarrow> u64) \<Rightarrow> string list \<Rightarrow> ReplaySimulater \<Rightarrow> bool" where
  "replay_inv query ident recorded s \<longleftrightarrow>
     in_sequence ident recorded s \<and>
     (m_is_fetch_end s \<longrightarrow> to_fetch ident recorded s = []) \<and>
     (\<forall>msgs. reader s = R_push msgs \<longrightarrow> msgs = query (last_message s) \<and> msgs \<noteq> []) \<and>
     (replayer s \<in> {P_holds, P_empty, P_sleep} \<longrightarrow> m_mutex_held s) \<and>
     (replayer s \<in> {P_empty, P_sleep} \<longrightarrow> m_messages s = []) \<and>
     (replayer s = P_done \<longrightarrow> m_is_stopped s \<or> m_is_fetch_end s \<and> m_messages s = [])"

lemma to_fetch_simps [simp]:
  "to_fetch ident recorded (s\<lparr>m_messages := q\<rparr>) = to_fetch ident recorded s"
  "to_fetch ident recorded (s\<lparr>m_is_fetch_end := b\<rparr>) = to_fetch ident recorded s"
  "to_fetch ident recorded (s\<lparr>m_is_stopped := b\<rparr>) = to_fetch ident recorded s"
  "to_fetch ident recorded (s\<lparr>m_mutex_held := b\<rparr>) = to_fetch ident recorded s"
  "to_fetch ident recorded (s\<lparr>reader := r\<rparr>) = to_fetch ident recorded s"
  "to_fetch ident recorded (s\<lparr>replayer := p\<rparr>) = to_fetch ident recorded s"
  "to_fetch ident recorded (s\<lparr>m_matcher := m\<rparr>) = to_fetch ident recorded s"
  "to_fetch ident recorded (s\<lparr>terminated := b\<rparr>) = to_fetch ident recorded s"
  by (simp_all add: to_fetch_def)

lemma in_sequence_simps [simp]:
  "in_sequence ident recorded (s\<lparr>m_is_fetch_end := b\<rparr>) = in_sequence ident recorded s"
  "in_sequence ident recorded (s\<lparr>m_is_stopped := b\<rparr>) = in_sequence ident recorded s"
  "in_sequence ident recorded (s\<lparr>m_mutex_held := b\<rparr>) = in_sequence ident recorded s"
  "in_sequence ident recorded (s\<lparr>reader := r\<rparr>) = in_sequence ident recorded s"
  "in_sequence ident recorded (s\<lparr>replayer := p\<rparr>) = in_sequence ident recorded s"
  "in_sequence ident recorded (s\<lparr>m_matcher := m\<rparr>) = in_sequence ident recorded s"
  "in_sequence ident recorded (s\<lparr>terminated := b\<rparr>) = in_sequence ident recorded s"
  by (simp_all add: in_sequence_def)

lemma notify_all_simps [simp]:
  "m_messages (notify_all s) = m_messages s" "m_is_fetch_end (notify_all s) = m_is_fetch_end s"
  "m_is_stopped (notify_all s) = m_is_stopped s" "m_mutex_held (notify_all s) = m_mutex_held s"
  "last_message (notify_all s) = last_message s" "consumed (notify_all s) = consumed s"
  "reader (notify_all s) = R_push ms \<longleftrightarrow> reader s = R_push ms"
  "replayer (notify_all s) = p \<longleftrightarrow> (if replayer s = P_wait then p = P_woken else replayer s = p)"
  "to_fetch ident recorded (notify_all s) = to_fetch ident recorded s"
  "in_sequence ident recorded (notify_all s) = in_sequence ident recorded s"
  by (auto simp: notify_all_def to_fetch_def in_sequence_def)

text \<open>After a page is stored, the rest is what the next query starts with.\<close>

lemma filter_after_page:
  assumes "sorted_wrt (<) (map ident xs)" and "ms = take n (filter (\<lambda>m. k < ident m) xs)" and "ms \<noteq> []"
  shows "filter (\<lambda>m. ident (last ms) < ident m) xs = drop n (filter (\<lambda>m. (k :: u64) < ident m) xs)"
proof -
  let ?ys = "filter (\<lambda>m. k < ident m) xs"
  have s: "sorted_wrt (\<lambda>a b. ident a < ident b) ?ys"
    using assms(1) by (simp add: sorted_wrt_map sorted_wrt_filter)
  have split: "?ys = ms @ drop n ?ys" using assms(2) by simp
  have l: "last ms \<in> set ms" using assms(3) by simp
  then have "last ms \<in> set ?ys" using assms(2) by (metis in_set_takeD)
  then have k: "k < ident (last ms)" by simp
  have order: "sorted_wrt (\<lambda>a b. ident a < ident b) (ms @ drop n ?ys)"
    using s split by simp
  have below: "\<not> ident (last ms) < ident m" if "m \<in> set ms" for m
  proof -
    have ms: "ms = butlast ms @ [last ms]" using assms(3) by simp
    then have "m \<in> set (butlast ms) \<or> m = last ms" using that by (metis UnE empty_iff insertE list.set set_append)
    moreover have "sorted_wrt (\<lambda>a b. ident a < ident b) (butlast ms @ [last ms])"
      using order ms by (simp add: sorted_wrt_append)
    ultimately show ?thesis by (auto simp: sorted_wrt_append)
  qed
  have above: "ident (last ms) < ident m" if "m \<in> set (drop n ?ys)" for m
    using order l that by (simp add: sorted_wrt_append)
  have "filter (\<lambda>m. ident (last ms) < ident m) xs = filter (\<lambda>m. ident (last ms) < ident m) ?ys"
    using k by (auto intro!: filter_cong simp: filter_filter)
  also have "\<dots> = filter (\<lambda>m. ident (last ms) < ident m) (ms @ drop n ?ys)" using split by simp
  also have "\<dots> = drop n ?ys" using below above by simp
  finally show ?thesis .
qed

lemma deliver_frame:
  assumes "fold_res deliver out s = Inr t"
  shows "m_messages t = m_messages s \<and> m_is_fetch_end t = m_is_fetch_end s \<and> m_is_stopped t = m_is_stopped s \<and>
    m_mutex_held t = m_mutex_held s \<and> last_message t = last_message s \<and> reader t = reader s \<and>
    replayer t = replayer s \<and> consumed t = consumed s"
  using assms
proof (induction out arbitrary: s)
  case (Cons o1 out)
  then show ?case by (cases o1) (fastforce simp: bind_res_Inr_iff map_res_Inr_iff)+
qed simp

lemma Consume_one_frame:
  assumes "Consume_one js msg s = Inr t"
  shows "m_messages t = tl (m_messages s)" "consumed t = consumed s @ [msg]" "m_is_fetch_end t = m_is_fetch_end s"
    "m_is_stopped t = m_is_stopped s" "m_mutex_held t = m_mutex_held s" "last_message t = last_message s"
    "reader t = reader s" "replayer t = replayer s"
  using assms by (auto simp: Consume_one_def bind_res_Inr_iff map_res_Inr_iff dest!: deliver_frame)

lemma replay_inv_start:
  "pages query ident n recorded \<Longrightarrow> replay_inv query ident recorded (ReplaySimulater_start rate)"
  by (auto simp: replay_inv_def in_sequence_def ReplaySimulater_start_def to_fetch_def pages_def intro!: filter_True)

lemma reader_keeps_inv:
  assumes p: "pages query ident n recorded" and i: "replay_inv query ident recorded s"
    and s: "reader_step query ident s = Some t"
  shows "replay_inv query ident recorded t"
proof (cases "reader s")
  case R_query
  have q: "query (last_message s) = take n (to_fetch ident recorded s)" "0 < n"
    using p by (simp_all add: pages_def to_fetch_def)
  show ?thesis
  proof (cases "query (last_message s)")
    case Nil
    then have "to_fetch ident recorded s = []" using q by simp
    moreover have "t = s\<lparr>m_is_fetch_end := True, reader := R_notify\<rparr>"
      using s R_query Nil by (simp add: reader_step_def)
    ultimately show ?thesis using i R_query by (simp add: replay_inv_def, blast)
  next
    case (Cons m ms)
    then have "t = s\<lparr>reader := R_push (m # ms)\<rparr>" using s R_query by (simp add: reader_step_def)
    then show ?thesis using i Cons by (simp add: replay_inv_def)
  qed
next
  case (R_push ms)
  have free: "\<not> m_mutex_held s" using s R_push by (auto simp: reader_step_def split: if_splits)
  have ms: "ms = take n (to_fetch ident recorded s)" "ms \<noteq> []"
    using i p R_push by (auto simp: replay_inv_def pages_def to_fetch_def)
  have t: "t = (notify_all (s\<lparr>m_messages := m_messages s @ ms, last_message := ident (last ms)\<rparr>))\<lparr>reader := R_wait\<rparr>"
    using s R_push free ms(2) by (auto simp: reader_step_def)
  have "to_fetch ident recorded t = drop n (to_fetch ident recorded s)"
    using filter_after_page [of ident recorded ms n "last_message s"] p ms
    by (simp add: to_fetch_def t pages_def)
  then have "in_sequence ident recorded t"
    using i ms(1) by (simp add: t replay_inv_def in_sequence_def)
  moreover have "\<not> m_is_fetch_end s" using i ms by (auto simp: replay_inv_def)
  ultimately show ?thesis using i free by (auto simp: replay_inv_def t)
next
  case R_test
  then have "t = s\<lparr>reader := if m_is_stopped s then R_notify else R_query\<rparr>" using s by (simp add: reader_step_def)
  then show ?thesis using i by (simp add: replay_inv_def)
next
  case R_woken
  then have "t = s\<lparr>reader := R_test\<rparr>" using s by (simp add: reader_step_def split: if_splits)
  then show ?thesis using i by (simp add: replay_inv_def)
next
  case R_notify
  then have "t = (notify_all s)\<lparr>reader := R_done\<rparr>" using s by (simp add: reader_step_def)
  then show ?thesis using i by (auto simp: replay_inv_def)
qed (use s in \<open>simp_all add: reader_step_def\<close>)

lemma replayer_keeps_inv:
  assumes i: "replay_inv query ident recorded s" and s: "replayer_step js s = Some t"
  shows "replay_inv query ident recorded t"
proof (cases "replayer s")
  case P_holds
  show ?thesis
  proof (cases "m_messages s")
    case Nil
    then show ?thesis using i s P_holds by (auto simp: replayer_step_def replay_inv_def)
  next
    case (Cons m ms)
    show ?thesis
    proof (cases "Consume_one js m s")
      case (Inl e)
      then show ?thesis using i s P_holds Cons by (auto simp: replayer_step_def replay_inv_def)
    next
      case (Inr s1)
      note f = Consume_one_frame [OF Inr]
      have "to_fetch ident recorded s1 = to_fetch ident recorded s" by (simp add: to_fetch_def f)
      moreover have "t = (if length (m_messages s1) < 100 then notify_all s1 else s1)\<lparr>m_mutex_held := False, replayer := P_test\<rparr>"
        using s P_holds Cons Inr by (simp add: replayer_step_def Let_def)
      moreover have "in_sequence ident recorded s1"
        using i Cons f calculation by (simp add: replay_inv_def in_sequence_def)
      ultimately show ?thesis using i Cons f P_holds by (auto simp: replay_inv_def)
    qed
  qed
next
  case P_test
  then have "t = s\<lparr>replayer := if m_is_stopped s then P_done else P_lock\<rparr>" using s by (simp add: replayer_step_def)
  then show ?thesis using i by (simp add: replay_inv_def)
next
  case P_lock
  then have "t = s\<lparr>m_mutex_held := True, replayer := P_holds\<rparr>" using s by (simp add: replayer_step_def split: if_splits)
  then show ?thesis using i by (simp add: replay_inv_def)
next
  case P_empty
  then have "t = (if m_is_fetch_end s then s\<lparr>m_mutex_held := False, replayer := P_done\<rparr> else s\<lparr>replayer := P_sleep\<rparr>)"
    using s by (simp add: replayer_step_def)
  then show ?thesis using i P_empty by (simp add: replay_inv_def)
next
  case P_sleep
  then have "t = s\<lparr>m_mutex_held := False, replayer := P_wait\<rparr>" using s by (simp add: replayer_step_def)
  then show ?thesis using i by (simp add: replay_inv_def)
next
  case P_woken
  then have "t = s\<lparr>replayer := P_test\<rparr>" using s by (simp add: replayer_step_def split: if_splits)
  then show ?thesis using i by (simp add: replay_inv_def)
qed (use s in \<open>simp_all add: replayer_step_def\<close>)

lemma replay_moves_keep_inv:
  assumes "pages query ident n recorded" "replay_inv query ident recorded s" "replay_moves js query ident s l t"
  shows "replay_inv query ident recorded t"
proof (cases l)
  case (Strategy r)
  then have t: "t = strategy_request r s" using assms(3) by (simp add: replay_moves_def)
  show ?thesis
    using assms(2) unfolding t
    by (cases "serve replay_Order_filled r (m_matcher s)") (simp_all add: replay_inv_def strategy_request_def)
next
  case Reader
  then show ?thesis using assms reader_keeps_inv by (simp add: replay_moves_def)
next
  case Replayer
  then show ?thesis using assms replayer_keeps_inv [of query ident recorded s js t] by (simp add: replay_moves_def)
next
  case Stopping
  then have "t = Stop s" using assms(3) by (simp add: replay_moves_def)
  then show ?thesis using assms(2) by (simp add: Stop_def replay_inv_def)
next
  case Reader_wakes
  then have "t = s\<lparr>reader := R_woken\<rparr>" using assms(3) by (simp add: replay_moves_def split: if_splits)
  then show ?thesis using assms(2) by (simp add: replay_inv_def)
next
  case Replayer_wakes
  then have "t = s\<lparr>replayer := P_woken\<rparr>" using assms(3) by (simp add: replay_moves_def split: if_splits)
  then show ?thesis using assms(2) by (simp add: replay_inv_def)
qed

text \<open>The replay as a state machine with this invariant.\<close>

definition replay_starts :: "(u64 \<Rightarrow> string list) \<Rightarrow> (string \<Rightarrow> u64) \<Rightarrow> nat \<Rightarrow> string list \<Rightarrow> ReplaySimulater \<Rightarrow> bool" where
  "replay_starts query ident n recorded s \<longleftrightarrow>
     pages query ident n recorded \<and> (\<exists>rate. s = ReplaySimulater_start rate)"

interpretation replays: invariant_system "replay_moves js query ident" "replay_starts query ident n recorded"
    "\<lambda>s. pages query ident n recorded \<and> replay_inv query ident recorded s"
  for js query ident n recorded
  by unfold_locales (auto simp: replay_starts_def intro: replay_inv_start replay_moves_keep_inv)

abbreviation replay_run ::
    "'d bson \<Rightarrow> (u64 \<Rightarrow> string list) \<Rightarrow> (string \<Rightarrow> u64) \<Rightarrow> ReplaySimulater \<Rightarrow> replay_label list \<Rightarrow> ReplaySimulater \<Rightarrow> bool" where
  "replay_run js query ident \<equiv> invariant_system.run (replay_moves js query ident)"

text \<open>
  Claim C29: whatever the interleaving of the two threads, the strategy and a request to stop, the
  messages that were replayed are the first of the recorded ones, each once and in order, those
  in the queue come next and the rest is still to be fetched; a replay that ends without being
  stopped has replayed all of them.
\<close>
theorem messages_replayed_once_in_order:
  assumes "pages query ident n recorded"
    and "replay_run js query ident (ReplaySimulater_start rate) ls s"
  shows "(\<exists>rest. consumed s @ m_messages s @ rest = recorded) \<and>
    (replayer s = P_done \<and> \<not> m_is_stopped s \<longrightarrow> consumed s = recorded)"
proof -
  have "pages query ident n recorded \<and> replay_inv query ident recorded s"
    using replays.start_run_inv [OF _ assms(2)] assms(1) by (auto simp: replay_starts_def)
  then show ?thesis by (auto simp: replay_inv_def in_sequence_def)
qed

section \<open>A replay that never ends\<close>

text \<open>Neither thread can go on, and not both have ended: \<open>Join\<close> does not return.\<close>

definition hung :: "'d bson \<Rightarrow> (u64 \<Rightarrow> string list) \<Rightarrow> (string \<Rightarrow> u64) \<Rightarrow> ReplaySimulater \<Rightarrow> bool" where
  "hung js query ident s \<longleftrightarrow> \<not> terminated s \<and> reader_step query ident s = None \<and> replayer_step js s = None \<and>
     (reader s \<noteq> R_done \<or> replayer s \<noteq> P_done)"

fun replay_exec :: "'d bson \<Rightarrow> (u64 \<Rightarrow> string list) \<Rightarrow> (string \<Rightarrow> u64) \<Rightarrow> replay_label list \<Rightarrow>
    ReplaySimulater \<Rightarrow> ReplaySimulater option" where
  "replay_exec js query ident [] s = Some s"
| "replay_exec js query ident (l # ls) s =
     (if terminated s then None
      else case replay_step js query ident l s of None \<Rightarrow> None | Some t \<Rightarrow> replay_exec js query ident ls t)"

lemma replay_exec_run:
  "replay_run js query ident s0 ks s \<Longrightarrow> replay_exec js query ident ls s = Some t \<Longrightarrow>
   replay_run js query ident s0 (ks @ ls) t"
proof (induction ls arbitrary: ks s)
  case (Cons l ls)
  then obtain u where u: "replay_moves js query ident s l u" "replay_exec js query ident ls u = Some t"
    by (auto simp: replay_moves_def split: if_splits option.splits)
  have "replay_run js query ident s0 (ks @ [l]) u"
    by (rule replays.run_snoc [OF Cons.prems(1) u(1)])
  then show ?case using Cons.IH u(2) by fastforce
qed simp

lemma run_from_start: "replay_exec js query ident ls s = Some t \<Longrightarrow> replay_run js query ident s ls t"
  using replay_exec_run [OF replays.run_Nil] by fastforce

text \<open>Asleep with the other thread gone, the state stays hung whatever the strategy does.\<close>

lemma hung_cases:
  "hung js query ident s \<Longrightarrow> \<not> m_mutex_held s \<Longrightarrow>
   (reader s = R_wait \<or> reader s = R_done) \<and> (replayer s = P_wait \<or> replayer s = P_done)"
  by (cases "reader s"; cases "replayer s")
    (auto simp: hung_def reader_step_def replayer_step_def split: list.splits sum.splits)

lemma hung_stays:
  assumes "hung js query ident s" "\<not> m_mutex_held s" "replay_moves js query ident s l t"
    and "l \<noteq> Reader_wakes" "l \<noteq> Replayer_wakes"
  shows "terminated t \<or> hung js query ident t \<and> \<not> m_mutex_held t"
proof (cases l)
  case (Strategy r)
  then have t: "t = strategy_request r s" using assms(3) by (simp add: replay_moves_def)
  then have f: "reader t = reader s" "replayer t = replayer s" "m_mutex_held t = m_mutex_held s"
    by (simp_all add: strategy_request_def split: sum.split)
  show ?thesis
    using hung_cases [OF assms(1,2)] assms(1,2) f by (auto simp: hung_def reader_step_def replayer_step_def)
next
  case Stopping
  then have t: "t = Stop s" using assms(3) by (simp add: replay_moves_def)
  show ?thesis
    using hung_cases [OF assms(1,2)] assms(1,2)
    by (auto simp: hung_def t Stop_def reader_step_def replayer_step_def)
qed (use assms in \<open>auto simp: hung_def replay_moves_def\<close>)

text \<open>
  Claim C30: the replay need not end.  Without a request to stop, the reader can find that there is
  nothing more and notify between the replayer's test of \<open>m_is_fetch_end\<close> and its wait: the
  replayer then waits for a notification that nobody sends.  And when it is stopped while the
  reader waits, the replayer ends without notifying, so that the reader waits for ever.  Nothing
  the strategy does changes that.
\<close>
theorem replay_may_never_end:
  assumes "query 0 = []" and "query' 0 \<noteq> []"
  shows "(\<exists>ls s. replay_run js query ident (ReplaySimulater_start rate) ls s \<and> Stopping \<notin> set ls \<and>
      hung js query ident s \<and> replayer s = P_wait \<and> reader s = R_done \<and> m_is_fetch_end s) \<and>
    (\<exists>ls s. replay_run js query' ident (ReplaySimulater_start rate) ls s \<and> m_is_stopped s \<and>
      hung js query' ident s \<and> replayer s = P_done \<and> reader s = R_wait) \<and>
    (\<forall>q s l t. hung js q ident s \<and> \<not> m_mutex_held s \<and> replay_moves js q ident s l t \<and>
       l \<noteq> Reader_wakes \<and> l \<noteq> Replayer_wakes \<longrightarrow> terminated t \<or> hung js q ident t \<and> \<not> m_mutex_held t)"
proof (intro conjI)
  let ?s = "ReplaySimulater_start rate"
  let ?a = "[Replayer, Replayer, Replayer, Replayer, Reader, Reader, Reader, Replayer]"
  let ?h = "?s\<lparr>m_is_fetch_end := True, reader := R_done, replayer := P_wait\<rparr>"
  have "replay_exec js query ident ?a ?s = Some ?h"
    using assms(1) by (simp add: ReplaySimulater_start_def reader_step_def replayer_step_def notify_all_def)
  then have "replay_run js query ident ?s ?a ?h" by (rule run_from_start)
  moreover have "hung js query ident ?h"
    by (simp add: hung_def reader_step_def replayer_step_def ReplaySimulater_start_def)
  ultimately show "\<exists>ls s. replay_run js query ident ?s ls s \<and> Stopping \<notin> set ls \<and>
      hung js query ident s \<and> replayer s = P_wait \<and> reader s = R_done \<and> m_is_fetch_end s"
    by (intro exI [of _ ?a] exI [of _ ?h]) simp
next
  let ?s = "ReplaySimulater_start rate"
  let ?b = "[Reader, Reader, Reader, Stopping, Replayer]"
  let ?h = "?s\<lparr>m_messages := query' 0, last_message := ident (last (query' 0)), m_is_stopped := True,
      reader := R_wait, replayer := P_done\<rparr>"
  have "replay_exec js query' ident ?b ?s = Some ?h"
    using assms(2)
    by (simp add: ReplaySimulater_start_def reader_step_def replayer_step_def notify_all_def Stop_def split: list.split)
  then have "replay_run js query' ident ?s ?b ?h" by (rule run_from_start)
  moreover have "hung js query' ident ?h"
    by (simp add: hung_def reader_step_def replayer_step_def ReplaySimulater_start_def)
  ultimately show "\<exists>ls s. replay_run js query' ident ?s ls s \<and> m_is_stopped s \<and>
      hung js query' ident s \<and> replayer s = P_done \<and> reader s = R_wait"
    by (intro exI [of _ ?b] exI [of _ ?h]) simp
next
  show "\<forall>q s l t. hung js q ident s \<and> \<not> m_mutex_held s \<and> replay_moves js q ident s l t \<and>
       l \<noteq> Reader_wakes \<and> l \<noteq> Replayer_wakes \<longrightarrow> terminated t \<or> hung js q ident t \<and> \<not> m_mutex_held t"
    using hung_stays by blast
qed

section \<open>Witnesses\<close>

text \<open>A recording of one message, of a kind that the consumer ignores.\<close>

definition ex_js :: "unit bson" where
  "ex_js = \<lparr>from_json = \<lambda>_. Inr (), sub = \<lambda>_ _. (), get_utf8 = \<lambda>_. Inr ''1'', get_array = \<lambda>_. Inr []\<rparr>"

definition ex_query :: "u64 \<Rightarrow> string list" where
  "ex_query k = (if k < 5 then [''m''] else [])"

lemma ex_pages: "pages ex_query (\<lambda>_. 5) 1 [''m'']"
  by (simp add: pages_def ex_query_def)

lemma ex_stol: "stol ''1'' = Inr 1"
  by code_simp

lemma ex_consume: "Consume ex_js ''m'' l = Inr ([], l)"
  by (simp add: Consume_def consume_body_def ex_js_def GET_STR_def GET_INT_def ex_stol)

theorem messages_replayed_once_in_order_witness:
  "\<exists>s. replay_run ex_js ex_query (\<lambda>_. 5) (ReplaySimulater_start 50)
      [Reader, Reader, Reader, Replayer, Replayer, Replayer] s \<and>
    consumed s = [''m''] \<and> (\<exists>rest. consumed s @ m_messages s @ rest = [''m''])"
proof -
  let ?s = "(ReplaySimulater_start 50)\<lparr>last_message := 5, reader := R_woken, consumed := [''m'']\<rparr>"
  have "replay_exec ex_js ex_query (\<lambda>_. 5) [Reader, Reader, Reader, Replayer, Replayer, Replayer]
      (ReplaySimulater_start 50) = Some ?s"
    by (simp add: ReplaySimulater_start_def reader_step_def replayer_step_def notify_all_def ex_query_def
        Consume_one_def ex_consume)
  then have r: "replay_run ex_js ex_query (\<lambda>_. 5) (ReplaySimulater_start 50)
      [Reader, Reader, Reader, Replayer, Replayer, Replayer] ?s"
    by (rule run_from_start)
  show ?thesis using messages_replayed_once_in_order [OF ex_pages r] r by (intro exI [of _ ?s]) simp
qed

theorem replay_may_never_end_witness:
  "(\<exists>ls s. replay_run ex_js (\<lambda>_. []) (\<lambda>_. 5) (ReplaySimulater_start 50) ls s \<and> Stopping \<notin> set ls \<and>
     hung ex_js (\<lambda>_. []) (\<lambda>_. 5) s) \<and>
   (\<exists>ls s. replay_run ex_js ex_query (\<lambda>_. 5) (ReplaySimulater_start 50) ls s \<and> m_is_stopped s \<and>
     hung ex_js ex_query (\<lambda>_. 5) s)"
proof -
  have "ex_query 0 \<noteq> []" by (simp add: ex_query_def)
  then show ?thesis
    using replay_may_never_end [of "\<lambda>_. []" ex_query ex_js "\<lambda>_. 5" 50] by simp blast
qed

end
