(* ===== verification/Double_Facts.thy ===== *)
theory Double_Facts
  imports Doubles
begin

text \<open>
  Facts on the doubles of \<open>Doubles\<close>: the exponent of a positive rational, the error of rounding,
  and what follows for the conversions the order gateway makes: integers below 2^53 survive
  the trip through a double, and short decimal numerals are in the range of \<open>std::stod\<close>.
\<close>

section \<open>Powers of two and the exponent\<close>

lemma pow2_powi: "pow2 e = 2 powi e"
  by (simp add: pow2_def power_int_def power_inverse field_simps)

lemma pow2_pos [simp]: "0 < pow2 e" "0 \<le> pow2 e" "pow2 e \<noteq> 0"
  by (simp_all add: pow2_powi)

lemma pow2_add: "pow2 (a + b) = pow2 a * pow2 b"
  by (simp add: pow2_powi power_int_add)

lemma pow2_mono: "a \<le> b \<Longrightarrow> pow2 a \<le> pow2 b"
  by (simp add: pow2_powi power_int_increasing)

lemma pow2_less_iff: "pow2 a < pow2 b \<longleftrightarrow> a < b"
  by (metis linorder_not_less order_le_less pow2_mono pow2_powi power_int_strict_increasing
      one_less_numeral_iff semiring_norm(76))

lemma pow2_nat: "0 \<le> e \<Longrightarrow> pow2 e = of_int (2 ^ nat e)"
  by (simp add: pow2_def)

lemma ilog2_bounds:
  assumes "0 < x"
  shows "pow2 (ilog2 x) \<le> x" "x < pow2 (ilog2 x + 1)"
proof -
  obtain n d where q: "quotient_of x = (n, d)" by (cases "quotient_of x")
  have x: "x = of_int n / of_int d" and d: "0 < d"
    using q by (simp_all add: quotient_of_div quotient_of_denom_pos)
  have n: "0 < n" using assms d by (simp add: x zero_less_divide_iff)
  define a where "a = bitlen n"
  define b where "b = bitlen d"
  have a: "0 < a" "2 ^ nat (a - 1) \<le> n" "n < 2 ^ nat a"
    using n bitlen_bounds [of n] bitlen_nonneg [of n] bitlen_eq_zero_iff [of n]
    by (auto simp: a_def order_le_less)
  have b: "0 < b" "2 ^ nat (b - 1) \<le> d" "d < 2 ^ nat b"
    using d bitlen_bounds [of d] bitlen_nonneg [of d] bitlen_eq_zero_iff [of d]
    by (auto simp: b_def order_le_less)
  have n': "pow2 (a - 1) \<le> of_int n" "of_int n < pow2 a"
    using a by (simp_all add: pow2_nat del: of_int_power of_int_numeral)
  have d': "pow2 (b - 1) \<le> of_int d" "of_int d < pow2 b"
    using b by (simp_all add: pow2_nat del: of_int_power of_int_numeral)
  have up: "x < pow2 (a - b + 1)"
  proof -
    have "x \<le> of_int n / pow2 (b - 1)"
      unfolding x using d' n d by (intro divide_left_mono) simp_all
    also have "\<dots> < pow2 a / pow2 (b - 1)" using n' by (simp add: divide_strict_right_mono)
    also have "\<dots> = pow2 (a - b + 1)" by (simp add: pow2_powi power_int_diff power_int_add)
    finally show ?thesis .
  qed
  have lo: "pow2 (a - b - 1) \<le> x"
  proof -
    have "pow2 (a - b - 1) = pow2 (a - 1) / pow2 b" by (simp add: pow2_powi power_int_diff)
    also have "\<dots> \<le> of_int n / pow2 b" using n' by (simp add: divide_right_mono)
    also have "\<dots> \<le> x" unfolding x using d' n d by (intro divide_left_mono) simp_all
    finally show ?thesis .
  qed
  show "pow2 (ilog2 x) \<le> x" "x < pow2 (ilog2 x + 1)"
    using up lo by (auto simp: ilog2_def q a_def b_def Let_def algebra_simps)
qed

lemma ilog2_less: "0 < x \<Longrightarrow> x < pow2 e \<Longrightarrow> ilog2 x < e"
  using ilog2_bounds(1) [of x] pow2_less_iff by fastforce

lemma ilog2_ge: "0 < x \<Longrightarrow> pow2 e \<le> x \<Longrightarrow> e \<le> ilog2 x"
  using ilog2_bounds(2) [of x] pow2_less_iff [of e "ilog2 x + 1"] by linarith

section \<open>Rounding\<close>

lemma round_half_even_of_int [simp]: "round_half_even (of_int i) = i"
  by (simp add: round_half_even_def)

lemma round_half_even_error: "\<bar>of_int (round_half_even x) - x\<bar> \<le> 1 / 2"
proof -
  have "of_int \<lfloor>x\<rfloor> \<le> x" "x < of_int \<lfloor>x\<rfloor> + 1" by linarith+
  then show ?thesis by (auto simp: round_half_even_def Let_def abs_le_iff)
qed

lemma rnd_0 [simp]: "rnd 0 = 0"
  by (simp add: rnd_def)

lemma rnd_error:
  assumes "0 < x"
  shows "\<bar>rnd x - x\<bar> \<le> pow2 (ulp_exponent x) / 2"
proof -
  let ?u = "pow2 (ulp_exponent x)"
  have "rnd x - x = (of_int (round_half_even (x / ?u)) - x / ?u) * ?u"
    using assms by (simp add: rnd_def Let_def left_diff_distrib)
  then have "\<bar>rnd x - x\<bar> = \<bar>of_int (round_half_even (x / ?u)) - x / ?u\<bar> * ?u"
    by (simp add: abs_mult)
  also have "\<dots> \<le> 1 / 2 * ?u"
    by (rule mult_right_mono [OF round_half_even_error]) simp
  finally show ?thesis by simp
qed

lemma rnd_le_double:
  assumes "0 < x" "- 1022 \<le> ilog2 x"
  shows "rnd x \<le> 2 * x"
proof -
  have "ulp_exponent x = ilog2 x - 52" using assms by (simp add: ulp_exponent_def)
  then have "pow2 (ulp_exponent x) \<le> pow2 (ilog2 x)" by (simp add: pow2_mono)
  also have "\<dots> \<le> x" using assms by (simp add: ilog2_bounds)
  finally show ?thesis using rnd_error [OF assms(1)] assms(1) by linarith
qed

lemma rnd_nonneg: "0 \<le> x \<Longrightarrow> 0 \<le> rnd x"
proof (cases "x = 0")
  case False
  assume "0 \<le> x"
  then have x: "0 \<le> x / pow2 (ulp_exponent x)" by simp
  have "0 \<le> round_half_even (x / pow2 (ulp_exponent x))"
    using round_half_even_error [of "x / pow2 (ulp_exponent x)"] x
    by (simp add: round_half_even_def Let_def)
  then show ?thesis using False \<open>0 \<le> x\<close> by (simp add: rnd_def Let_def)
qed simp

lemma rnd_small_int:
  assumes "0 \<le> i" "i < 2 ^ 53"
  shows "rnd (of_int i) = of_int i"
proof (cases "i = 0")
  case False
  then have i: "0 < (of_int i :: rat)" using assms(1) by simp
  have le: "ilog2 (of_int i) < 53"
    by (rule ilog2_less [OF i]) (use assms(2) in \<open>simp add: pow2_def\<close>)
  have ge: "0 \<le> ilog2 (of_int i)"
    by (rule ilog2_ge [OF i]) (use False assms(1) in \<open>simp add: pow2_def\<close>)
  define k where "k = 52 - ilog2 (of_int i)"
  have k: "0 \<le> k" "ulp_exponent (of_int i) = - k"
    using le ge by (simp_all add: k_def ulp_exponent_def)
  have q: "of_int i / pow2 (- k) = of_int (i * 2 ^ nat k)"
    using k(1) by (simp add: pow2_def power_one_over)
  show ?thesis
    using False assms(1) i unfolding rnd_def Let_def
    by (simp add: k(2) q del: of_int_mult of_int_power) (simp add: q [symmetric] del: of_int_mult of_int_power)
qed simp

section \<open>Short decimal numerals\<close>

lemma ilog2_0: "ilog2 0 < 1024"
  by (simp add: ilog2_def pow2_def bitlen_alt_def)

lemma short_decimal_in_range:
  assumes "0 \<le> m" "m < 10 ^ n" "n \<le> 300" "k \<le> 300"
  defines "x \<equiv> of_int m / 10 ^ k"
  shows "ilog2 (rnd x) < 1024" "rnd x \<noteq> x \<Longrightarrow> - 1022 \<le> ilog2 x"
proof -
  have lo: "- 1022 \<le> ilog2 x" if "x \<noteq> 0"
  proof (rule ilog2_ge)
    have m: "1 \<le> m" using that assms(1) by (simp add: x_def)
    have "(10::rat) ^ k \<le> 10 ^ 300" using assms(4) by (intro power_increasing) simp_all
    also have "\<dots> \<le> 2 ^ 1022" by simp
    finally have "pow2 (- 1022) \<le> 1 / 10 ^ k" by (simp add: pow2_def field_simps)
    also have "\<dots> \<le> x" unfolding x_def using m by (intro divide_right_mono) simp_all
    finally show "pow2 (- 1022) \<le> x" .
    show "0 < x" using m by (simp add: x_def)
  qed
  then show "- 1022 \<le> ilog2 x" if "rnd x \<noteq> x" using that by (cases "x = 0") auto
  show "ilog2 (rnd x) < 1024"
  proof (cases "rnd x = 0")
    case False
    then have x: "0 < x" using assms(1) by (cases "m = 0") (auto simp: x_def)
    then have "0 < rnd x" using rnd_nonneg [of x] False by simp
    moreover have "rnd x < pow2 1024"
    proof -
      have "x \<le> of_int m" using assms(1) by (simp add: x_def divide_le_eq mult_le_cancel_left1)
      also have "(of_int m :: rat) \<le> 10 ^ n"
        using assms(2) by (metis of_int_le_iff of_int_numeral of_int_power order_less_imp_le)
      also have "(10::rat) ^ n \<le> 10 ^ 300" using assms(3) by (intro power_increasing) simp_all
      finally have "2 * x \<le> 2 * 10 ^ 300" by simp
      also have "(2 * 10 ^ 300 :: rat) < 2 ^ 1024" by simp
      finally have "2 * x < pow2 1024" by (simp add: pow2_def)
      then show ?thesis using rnd_le_double [OF x lo] x by simp
    qed
    ultimately show ?thesis by (rule ilog2_less)
  qed (simp add: ilog2_0)
qed

lemma digits_value_bound:
  assumes "\<forall>d \<in> set ds. 0 \<le> d \<and> d \<le> 9"
  shows "0 \<le> digits_value ds" "digits_value ds < 10 ^ length ds"
proof -
  have "0 \<le> n \<Longrightarrow> 0 \<le> foldl (\<lambda>n d. 10 * n + d) n ds \<and>
      foldl (\<lambda>n d. 10 * n + d) n ds < (n + 1) * 10 ^ length ds" for n :: int
    using assms
  proof (induction ds arbitrary: n)
    case (Cons d ds)
    have d: "0 \<le> d" "d \<le> 9" using Cons.prems by simp_all
    have "(10 * n + d + 1) * 10 ^ length ds \<le> (n + 1) * 10 ^ length (d # ds)"
      using mult_right_mono [of "10 * n + d + 1" "(n + 1) * 10" "10 ^ length ds"] d
      by (simp add: mult.assoc)
    moreover have "0 \<le> foldl (\<lambda>n d. 10 * n + d) (10 * n + d) ds \<and>
        foldl (\<lambda>n d. 10 * n + d) (10 * n + d) ds < (10 * n + d + 1) * 10 ^ length ds"
      by (rule Cons.IH) (use Cons.prems d in simp_all)
    ultimately show ?case unfolding foldl.simps by (blast intro: order_less_le_trans)
  qed simp
  from this [of 0] show "0 \<le> digits_value ds" "digits_value ds < 10 ^ length ds"
    by (simp_all add: digits_value_def)
qed

lemma digit_value_bound: "digit_value c = Some d \<Longrightarrow> 0 \<le> d \<and> d \<le> 9"
  by (auto simp: digit_value_def Let_def split: if_splits)

lemma span_digits_append:
  assumes "\<forall>c \<in> set s. digit_value c \<noteq> None" "r = [] \<or> digit_value (hd r) = None"
  shows "span_digits (s @ r) = (map (the \<circ> digit_value) s, r)"
  using assms
proof (induction s)
  case Nil
  then show ?case by (cases r) auto
qed auto

lemma digit_not_mark:
  "digit_value c \<noteq> None \<Longrightarrow> \<not> is_blank c \<and> c \<noteq> CHR ''-'' \<and> c \<noteq> CHR ''+'' \<and> c \<noteq> CHR ''.''"
  by (auto simp: digit_value_def is_blank_def Let_def split: if_splits)

text \<open>\<open>std::stod\<close> reads every numeral of at most 300 digits before and after the point, as the double
  nearest to it.\<close>

lemma stod_numeral_value:
  assumes "ip \<noteq> []" "\<forall>c \<in> set (ip @ fp). digit_value c \<noteq> None"
    and "length (ip @ fp) \<le> 300" "t = [] \<and> fp = [] \<or> t = CHR ''.'' # fp"
  shows "stod (ip @ t) =
    Inr (rnd (of_int (digits_value (map (the \<circ> digit_value) (ip @ fp))) / 10 ^ length fp))"
proof -
  define m where "m = digits_value (map (the \<circ> digit_value) ip @ map (the \<circ> digit_value) fp)"
  have "\<forall>d \<in> set (map (the \<circ> digit_value) (ip @ fp)). 0 \<le> d \<and> d \<le> 9"
    using assms(2) digit_value_bound by fastforce
  then have m: "0 \<le> m" "m < 10 ^ length (ip @ fp)"
    using digits_value_bound [of "map (the \<circ> digit_value) (ip @ fp)"] by (simp_all add: m_def)
  obtain c cs where ip: "ip = c # cs" using assms(1) by (cases ip) auto
  have c: "\<not> is_blank c" "c \<noteq> CHR ''-''" "c \<noteq> CHR ''+''"
    using digit_not_mark [of c] assms(2) by (simp_all add: ip)
  have dot: "digit_value CHR ''.'' = None" by (simp add: digit_value_def)
  have sign: "read_sign (dropWhile is_blank (ip @ t)) = (False, ip @ t)"
    using c by (simp add: ip read_sign_def)
  have int: "span_digits (ip @ t) = (map (the \<circ> digit_value) ip, t)"
    using assms(2,4) by (intro span_digits_append) (auto simp: dot)
  have frac: "span_digits fp = (map (the \<circ> digit_value) fp, [])"
    using span_digits_append [of fp "[]"] assms(2) by simp
  have rest: "(case t of c # r \<Rightarrow> if c = CHR ''.'' then span_digits r else ([], t) | [] \<Rightarrow> ([], []))
      = (map (the \<circ> digit_value) fp, [])"
    using assms(4) frac by auto
  note range = short_decimal_in_range [OF m, of "length fp"]
  have "\<not> (1024 \<le> ilog2 (rnd (of_int m / 10 ^ length fp)) \<or>
      rnd (of_int m / 10 ^ length fp) \<noteq> of_int m / 10 ^ length fp \<and>
      ilog2 (of_int m / 10 ^ length fp) < - 1022)"
    using range assms(3) by fastforce
  then show ?thesis
    unfolding stod_def sign int Let_def prod.case rest
    by (simp add: m_def read_exponent_def pow10_def ip)
qed

lemma stod_numeral:
  assumes "ip \<noteq> []" "\<forall>c \<in> set (ip @ fp). digit_value c \<noteq> None"
    and "length (ip @ fp) \<le> 300" "t = [] \<and> fp = [] \<or> t = CHR ''.'' # fp"
  shows "\<exists>x. stod (ip @ t) = Inr x"
  using stod_numeral_value [OF assms] by blast

section \<open>Written numbers\<close>

lemma digit_value_char: "0 \<le> d \<Longrightarrow> d \<le> 9 \<Longrightarrow> digit_value (char_of (48 + d)) = Some d"
proof -
  assume d: "0 \<le> d" "d \<le> 9"
  then have "of_char (char_of (48 + d) :: char) = 48 + d"
    by (simp add: take_bit_int_eq_self)
  then show ?thesis using d by (simp add: digit_value_def)
qed

lemma digits_value_snoc: "digits_value (ds @ [d]) = 10 * digits_value ds + d"
  by (simp add: digits_value_def)

lemma span_show_digits:
  assumes "0 \<le> n"
  shows "(\<forall>c \<in> set (show_digits n). digit_value c \<noteq> None) \<and>
    digits_value (map (the \<circ> digit_value) (show_digits n)) = n"
  using assms
proof (induction n rule: show_digits.induct)
  case (1 n)
  show ?case
  proof (cases "n < 10")
    case True
    then show ?thesis using 1(2) digit_value_char [of n]
      by (simp add: show_digits.simps [of n] digits_value_def)
  next
    case False
    have "digit_value (char_of (48 + n mod 10)) = Some (n mod 10)"
      by (rule digit_value_char) (use pos_mod_bound [of 10 n] in simp_all)
    then show ?thesis using False 1
      by (simp add: show_digits.simps [of n] digits_value_snoc)
  qed
qed

lemma show_digits_nonempty [simp]: "show_digits n \<noteq> []"
  by (subst show_digits.simps) simp

lemma length_show_digits: "0 \<le> n \<Longrightarrow> n < 10 ^ Suc k \<Longrightarrow> length (show_digits n) \<le> Suc k"
proof (induction k arbitrary: n)
  case (Suc k)
  show ?case
  proof (cases "n < 10")
    case False
    have "n div 10 < 10 ^ Suc k" using Suc.prems by simp
    then show ?thesis using Suc.IH [of "n div 10"] Suc.prems False by (subst show_digits.simps) simp
  qed (simp add: show_digits.simps [of n])
qed (simp add: show_digits.simps)

lemma show_digits_unsigned:
  assumes "0 \<le> n"
  shows "read_sign (dropWhile is_blank (show_digits n @ r)) = (False, show_digits n @ r)"
proof -
  obtain c cs where c: "show_digits n = c # cs" using show_digits_nonempty by (meson list.exhaust)
  then have "\<not> is_blank c" "c \<noteq> CHR ''-''" "c \<noteq> CHR ''+''"
    using digit_not_mark [of c] span_show_digits [OF assms] by simp_all
  then show ?thesis by (simp add: c read_sign_def)
qed

lemma span_show: "0 \<le> n \<Longrightarrow> span_digits (show_digits n) = (map (the \<circ> digit_value) (show_digits n), [])"
  using span_digits_append [of "show_digits n" "[]"] span_show_digits [of n] by simp

lemma stol_show_digits:
  assumes "0 \<le> n" "n < 2 ^ 63"
  shows "stol (show_digits n) = Inr (word_of_int n)"
  using show_digits_unsigned [OF assms(1), of "[]"] span_show [OF assms(1)] span_show_digits [OF assms(1)]
    assms
  by (simp add: stol_def Let_def)

lemma stol_show_negative:
  assumes "0 \<le> n" "n < 2 ^ 63"
  shows "stol (CHR ''-'' # show_digits n) = Inr (word_of_int (- n))"
proof -
  have "read_sign (dropWhile is_blank (CHR ''-'' # show_digits n)) = (True, show_digits n)"
    by (simp add: read_sign_def is_blank_def)
  then show ?thesis
    using span_show [OF assms(1)] span_show_digits [OF assms(1)] assms
    by (simp add: stol_def Let_def)
qed

section \<open>Written doubles\<close>

lemma round_half_even_unique: "\<bar>x - of_int i\<bar> < 1 / 2 \<Longrightarrow> round_half_even x = i"
  using round_half_even_error [of x] by linarith

lemma rnd_micros:
  assumes "0 \<le> k" "k < 2 ^ 52"
  shows "round_half_even (rnd (of_int k / 1000000) * 1000000) = k"
proof (cases "k = 0")
  case True
  show ?thesis using round_half_even_of_int [of 0] by (simp add: True)
next
  case False
  let ?y = "of_int k / 1000000 :: rat"
  have k: "1 \<le> (of_int k :: rat)" using assms(1) False by simp
  have y: "0 < ?y" using k by simp
  have "- 20 \<le> ilog2 ?y"
    by (rule ilog2_ge [OF y]) (use k in \<open>simp add: pow2_def\<close>)
  then have "ulp_exponent ?y = ilog2 ?y + - 52" by (simp add: ulp_exponent_def)
  then have "pow2 (ulp_exponent ?y) = pow2 (ilog2 ?y) * (1 / 2 ^ 52)"
    by (simp only: pow2_add) (simp add: pow2_def)
  also have "\<dots> \<le> ?y * (1 / 2 ^ 52)"
    by (rule mult_right_mono [OF ilog2_bounds(1) [OF y]]) simp
  finally have "\<bar>rnd ?y - ?y\<bar> \<le> of_int k / 1000000 / 2 ^ 53"
    using rnd_error [OF y] by simp
  then have "\<bar>rnd ?y - ?y\<bar> * 1000000 \<le> of_int k / 2 ^ 53" by simp
  moreover have "\<bar>rnd ?y - ?y\<bar> * 1000000 = \<bar>rnd ?y * 1000000 - of_int k\<bar>"
    using abs_mult [of "rnd ?y - ?y" 1000000] by (simp add: left_diff_distrib)
  moreover have "(of_int k :: rat) < 2 ^ 52"
    using assms(2) by (metis of_int_less_iff of_int_numeral of_int_power)
  ultimately have "\<bar>rnd ?y * 1000000 - of_int k\<bar> < 1 / 2" by simp
  then show ?thesis by (rule round_half_even_unique)
qed

lemma digits_value_append: "digits_value (xs @ ys) = digits_value xs * 10 ^ length ys + digits_value ys"
proof (induction ys rule: rev_induct)
  case (snoc y ys)
  then show ?case
    by (simp add: digits_value_snoc algebra_simps flip: append_assoc)
qed (simp add: digits_value_def)

lemma digits_value_zeros: "digits_value (replicate n 0 @ ds) = digits_value ds"
proof -
  have "digits_value (replicate n 0) = 0" by (induction n) (simp_all add: digits_value_def)
  then show ?thesis by (simp add: digits_value_append)
qed

text \<open>A double that is nearest to a number of at most six decimals below 4503599627 survives being
  written with six decimals and read again.\<close>

lemma written_decimal_read:
  assumes "0 \<le> k" "k < 2 ^ 52"
  shows "stod (to_string_double (rnd (of_int k / 1000000))) = Inr (rnd (of_int k / 1000000))"
proof -
  let ?x = "rnd (of_int k / 1000000)"
  define ip where "ip = show_digits (k div 1000000)"
  define fp where "fp = pad_left 6 (show_digits (k mod 1000000))"
  have pos: "0 \<le> ?x" using assms(1) by (intro rnd_nonneg) simp
  have written: "to_string_double ?x = ip @ CHR ''.'' # fp"
    using pos rnd_micros [OF assms] by (simp add: to_string_double_def ip_def fp_def Let_def)
  have hi: "0 \<le> k div 1000000" "k div 1000000 < 10 ^ Suc 9" and lo: "0 \<le> k mod 1000000" "k mod 1000000 < 10 ^ Suc 5"
    using assms by simp_all
  have lens: "length ip \<le> 10" "length fp = 6"
    using length_show_digits [OF hi] length_show_digits [OF lo] by (simp_all add: ip_def fp_def pad_left_def)
  have zero: "digit_value CHR ''0'' = Some 0" by (simp add: digit_value_def)
  have digits: "\<forall>c \<in> set (ip @ fp). digit_value c \<noteq> None"
    using span_show_digits [OF hi(1)] span_show_digits [OF lo(1)] zero
    by (auto simp: ip_def fp_def pad_left_def)
  have fpv: "digits_value (map (the \<circ> digit_value) fp) = k mod 1000000"
    using span_show_digits [OF lo(1)] zero by (simp add: fp_def pad_left_def digits_value_zeros)
  have "digits_value (map (the \<circ> digit_value) (ip @ fp)) = k div 1000000 * 10 ^ 6 + k mod 1000000"
    using span_show_digits [OF hi(1)] lens(2) fpv by (simp add: digits_value_append ip_def)
  also have "\<dots> = k" by simp
  finally have all: "digits_value (map (the \<circ> digit_value) (ip @ fp)) = k" .
  have "stod (ip @ CHR ''.'' # fp) = Inr (rnd (of_int k / 10 ^ length fp))"
    using stod_numeral_value [of ip fp "CHR ''.'' # fp"] digits lens all by (simp add: ip_def)
  then show ?thesis by (simp add: written lens(2))
qed

end
