(* ===== verification/Strategy.thy ===== *)
theory Strategy
  imports Trade_Types Double_Facts
begin

text \<open>
  The side of the exchange gateways that faces the strategies: the protobuf orders and fills
  with the presence of their optional fields (pb/ems/ems.proto), the check of prices
  (core/assist/utility.cc), the receiver (core/zmq/zmq_receiver.cc) and the communicator that
  checks requests and hands them to an exchange (core/strategy/strategy_communicator.cc).  Every
  exchange is a record of the operations of \<open>ExchangeI\<close>; what a request needs of them is the
  locale \<open>exchange_port\<close>.  The protobuf coding is a parameter (generated code).
\<close>

section \<open>Orders and fills\<close>

datatype OrderFlag = OF_None | OF_Open | OF_Close | OF_YClose | OF_TClose

record Timestamp =
  ts_year :: u32
  ts_month :: u32
  ts_day :: u32
  ts_hour :: u32
  ts_minute :: u32
  ts_second :: u32
  ts_micros :: u32

text \<open>A field that is absent is \<open>None\<close>; its accessor returns the default of its type.  A time
  stamp inside an order is \<open>None\<close> as long as its parts are not set.\<close>

record ems_order =
  p_client_order_id :: "string option"
  p_account :: "string option"
  p_contract :: "string option"
  p_buy_sell :: "BuySell option"
  p_price :: "string option"
  p_quantity :: "u64 option"
  p_tif :: "TimeInForce option"
  p_order_type :: "OrderType option"
  p_exchange_order_id :: "string option"
  p_status :: "OrderStatus option"
  p_working_price :: "string option"
  p_working_quantity :: "u64 option"
  p_filled_quantity :: "u64 option"
  p_message :: "string option"
  p_submit_time :: "Timestamp option"
  p_order_flag :: "OrderFlag option"

record ems_fill =
  q_fill_id :: string
  q_fill_price :: string
  q_fill_quantity :: u64
  q_account :: string
  q_client_order_id :: string
  q_exchange_order_id :: string
  q_contract :: string
  q_buy_sell :: BuySell
  q_fill_time :: "Timestamp option"
  q_order_flag :: "OrderFlag option"

definition ems_order_default :: ems_order where
  "ems_order_default = \<lparr>p_client_order_id = None, p_account = None, p_contract = None,
     p_buy_sell = None, p_price = None, p_quantity = None, p_tif = None, p_order_type = None,
     p_exchange_order_id = None, p_status = None, p_working_price = None,
     p_working_quantity = None, p_filled_quantity = None, p_message = None,
     p_submit_time = None, p_order_flag = None\<rparr>"

definition get :: "'a \<Rightarrow> 'a option \<Rightarrow> 'a" where
  "get d x = (case x of None \<Rightarrow> d | Some v \<Rightarrow> v)"

lemma get_simps [simp]: "get d None = d" "get d (Some v) = v"
  by (simp_all add: get_def)

record ems_codec =
  ParseFromArray :: "string \<Rightarrow> ems_order option"
  order_SerializeAsString :: "ems_order \<Rightarrow> string"
  fill_SerializeAsString :: "ems_fill \<Rightarrow> string"

section \<open>Exceptions of the gateway\<close>

text \<open>\<open>InvalidOrder\<close> is the one exception the communicator catches.\<close>

datatype fault = InvalidOrder string | Thrown exn

type_synonym 'a outcome = "fault + 'a"

definition bind_out :: "'a outcome \<Rightarrow> ('a \<Rightarrow> 'b outcome) \<Rightarrow> 'b outcome" where
  "bind_out r f = (case r of Inl e \<Rightarrow> Inl e | Inr x \<Rightarrow> f x)"

definition lift_res :: "'a res \<Rightarrow> 'a outcome" where
  "lift_res r = (case r of Inl e \<Rightarrow> Inl (Thrown e) | Inr x \<Rightarrow> Inr x)"

lemma bind_out_simps [simp]:
  "bind_out (Inl e) f = Inl e" "bind_out (Inr x) f = f x"
  by (simp_all add: bind_out_def)

lemma lift_res_simps [simp]:
  "lift_res (Inl e) = Inl (Thrown e)" "lift_res (Inr x) = Inr x"
  by (simp_all add: lift_res_def)

lemma bind_out_Inr_iff: "bind_out r f = Inr y \<longleftrightarrow> (\<exists>x. r = Inr x \<and> f x = Inr y)"
  by (cases r) simp_all

section \<open>Times\<close>

text \<open>\<open>utility::To_pb_time\<close>: a time of 21 characters (yyyyMMdd-HH:mm:ss.fff) is taken apart, any
  other one is left unset.  \<open>boost::lexical_cast\<close> to an unsigned integer is the parameter \<open>cast\<close>.\<close>

definition lexical :: "(string \<Rightarrow> u32 option) \<Rightarrow> string \<Rightarrow> nat \<Rightarrow> nat \<Rightarrow> u32 outcome" where
  "lexical cast s from n =
     (case cast (take n (drop from s)) of
        None \<Rightarrow> Inl (Thrown (Runtime_error ''bad_lexical_cast'')) | Some w \<Rightarrow> Inr w)"

definition To_pb_time :: "(string \<Rightarrow> u32 option) \<Rightarrow> string \<Rightarrow> Timestamp option outcome" where
  "To_pb_time cast datetime =
     (if length datetime \<noteq> 21 then Inr None
      else
        bind_out (lexical cast datetime 0 4) (\<lambda>year.
        bind_out (lexical cast datetime 4 2) (\<lambda>month.
        bind_out (lexical cast datetime 6 2) (\<lambda>day.
        bind_out (lexical cast datetime 9 2) (\<lambda>hour.
        bind_out (lexical cast datetime 12 2) (\<lambda>minute.
        bind_out (lexical cast datetime 15 2) (\<lambda>second.
        bind_out (lexical cast datetime 18 3) (\<lambda>micros.
        Inr (Some \<lparr>ts_year = year, ts_month = month, ts_day = day, ts_hour = hour,
          ts_minute = minute, ts_second = second, ts_micros = micros\<rparr>)))))))))"

section \<open>Prices\<close>

definition is_digit :: "char \<Rightarrow> bool" where
  "is_digit c \<longleftrightarrow> digit_value c \<noteq> None"

text \<open>The loop over the inner characters: \<open>None\<close> at a character that is neither a digit nor a
  point, else the number of points.\<close>

fun count_points :: "string \<Rightarrow> nat \<Rightarrow> nat option" where
  "count_points [] n = Some n"
| "count_points (c # cs) n =
     (if \<not> is_digit c \<and> c \<noteq> CHR ''.'' then None
      else count_points cs (if c = CHR ''.'' then Suc n else n))"

definition Is_price_valid :: "string \<Rightarrow> bool" where
  "Is_price_valid str =
     (if str = [] then False
      else if \<not> is_digit (hd str) \<or> \<not> is_digit (last str) then False
      else case count_points (butlast (tl str)) 0 of None \<Rightarrow> False | Some n \<Rightarrow> \<not> 1 < n)"

lemma count_points_digits:
  "count_points cs n = Some n \<Longrightarrow> \<forall>c \<in> set cs. is_digit c"
  and count_points_mono: "count_points cs n = Some k \<Longrightarrow> n \<le> k"
proof -
  have mono: "count_points cs n = Some k \<Longrightarrow> n \<le> k" for cs n k
    by (induction cs n rule: count_points.induct) (auto split: if_splits)
  show "count_points cs n = Some k \<Longrightarrow> n \<le> k" by (rule mono)
  show "count_points cs n = Some n \<Longrightarrow> \<forall>c \<in> set cs. is_digit c"
    by (induction cs) (auto split: if_splits dest: mono)
qed

lemma count_points_one:
  "count_points cs n = Some (Suc n) \<Longrightarrow>
    \<exists>a b. cs = a @ CHR ''.'' # b \<and> (\<forall>c \<in> set (a @ b). is_digit c)"
proof (induction cs)
  case (Cons c cs)
  show ?case
  proof (cases "c = CHR ''.''")
    case True
    then have "\<forall>c \<in> set cs. is_digit c" using Cons.prems count_points_digits by simp
    then show ?thesis using True by (intro exI [of _ "[]"] exI [of _ cs]) simp
  next
    case False
    then have c: "is_digit c" "count_points cs n = Some (Suc n)"
      using Cons.prems by (auto split: if_splits)
    then obtain a b where "cs = a @ CHR ''.'' # b" "\<forall>c \<in> set (a @ b). is_digit c"
      using Cons.IH by auto
    then show ?thesis using c(1) by (intro exI [of _ "c # a"] exI [of _ b]) simp
  qed
qed simp

text \<open>A valid price is a numeral, with digits on both sides of its point if it has one.\<close>

lemma Is_price_valid_numeral:
  assumes "Is_price_valid s"
  shows "\<exists>ip fp t. s = ip @ t \<and> ip \<noteq> [] \<and> (\<forall>c \<in> set (ip @ fp). digit_value c \<noteq> None) \<and>
    (t = [] \<and> fp = [] \<or> t = CHR ''.'' # fp)"
proof -
  have s: "s \<noteq> []" "is_digit (hd s)" "is_digit (last s)"
    and "\<exists>n. count_points (butlast (tl s)) 0 = Some n \<and> n \<le> 1"
    using assms by (auto simp: Is_price_valid_def split: if_splits option.splits)
  then obtain n where n: "count_points (butlast (tl s)) 0 = Some n" "n \<le> 1" by blast
  obtain c cs where cs: "s = c # cs" using s(1) by (cases s) auto
  show ?thesis
  proof (cases "cs = []")
    case True
    then show ?thesis using s by (intro exI [of _ s] exI [of _ "[]"]) (simp add: cs is_digit_def)
  next
    case False
    then have s_eq: "s = c # butlast cs @ [last s]" by (simp add: cs)
    show ?thesis
    proof (cases "n = 0")
      case True
      have "set cs = insert (last cs) (set (butlast cs))"
        by (subst append_butlast_last_id [OF False, symmetric]) simp
      then have "\<forall>d \<in> set s. is_digit d"
        using count_points_digits [of "butlast cs" 0] n(1) s(2,3) True
        by (simp add: cs False)
      then show ?thesis by (intro exI [of _ s] exI [of _ "[]"]) (simp add: s(1) is_digit_def)
    next
      case nz: False
      then have "count_points (butlast cs) 0 = Some (Suc 0)" using n by (simp add: cs le_Suc_eq)
      from count_points_one [OF this] obtain a b where ab:
        "butlast cs = a @ CHR ''.'' # b" "\<forall>c \<in> set (a @ b). is_digit c" by blast
      have "s = (c # a) @ CHR ''.'' # (b @ [last s])" using s_eq ab(1) by simp
      moreover have "\<forall>d \<in> set ((c # a) @ b @ [last s]). digit_value d \<noteq> None"
        using ab(2) s by (auto simp: is_digit_def cs)
      ultimately show ?thesis
        by (intro exI [of _ "c # a"] exI [of _ "b @ [last s]"]
            exI [of _ "CHR ''.'' # b @ [last s]"]) simp
    qed
  qed
qed

lemma valid_price_readable:
  assumes "Is_price_valid s" "length s \<le> 300"
  shows "\<exists>x. stod s = Inr x"
proof -
  obtain ip fp t where s: "s = ip @ t" "ip \<noteq> []" "\<forall>c \<in> set (ip @ fp). digit_value c \<noteq> None"
    "t = [] \<and> fp = [] \<or> t = CHR ''.'' # fp"
    using Is_price_valid_numeral [OF assms(1)] by blast
  then show ?thesis using stod_numeral [of ip fp t] assms(2) by auto
qed

section \<open>Communicator\<close>

text \<open>What a gateway emits: a message on its connection to the exchange, or bytes published to
  the strategies (\<open>m_sender.Send\<close>).\<close>

datatype 'x gateway_event = Sent 'x | Published string

text \<open>The operations of \<open>ExchangeI\<close> a request can call, on an exchange with state \<open>'s\<close>.  An
  operation that throws leaves no effect: the ones modelled here throw before they send.\<close>

record ('s, 'x) exchangeI =
  ex_Add :: "ems_order \<Rightarrow> 's \<Rightarrow> ('s \<times> 'x gateway_event list) outcome"
  ex_Change :: "ems_order \<Rightarrow> 's \<Rightarrow> ('s \<times> 'x gateway_event list) outcome"
  ex_Delete :: "ems_order \<Rightarrow> 's \<Rightarrow> ('s \<times> 'x gateway_event list) outcome"
  ex_Query :: "ems_order \<Rightarrow> 's \<Rightarrow> ('s \<times> 'x gateway_event list) outcome"
  ex_Query_mass :: "string \<Rightarrow> 's \<Rightarrow> ('s \<times> 'x gateway_event list) outcome"
  ex_Delete_mass :: "string \<Rightarrow> 's \<Rightarrow> ('s \<times> 'x gateway_event list) outcome"

definition strategy_Create_order :: "ems_codec \<Rightarrow> string \<Rightarrow> ems_order outcome" where
  "strategy_Create_order codec data =
     (case ParseFromArray codec data of
        None \<Rightarrow> Inl (InvalidOrder ''order parse error'') | Some ord \<Rightarrow> Inr ord)"

definition strategy_Check_order :: "ems_order \<Rightarrow> unit outcome" where
  "strategy_Check_order ord =
     (if p_client_order_id ord = None then Inl (InvalidOrder ''Missing field: cl_order_id'')
      else if p_contract ord = None then Inl (InvalidOrder ''Missing field: contract'')
      else if p_buy_sell ord = None then Inl (InvalidOrder ''Missing field: side'')
      else if get BS_None (p_buy_sell ord) \<noteq> BS_Buy \<and> get BS_None (p_buy_sell ord) \<noteq> BS_Sell
      then Inl (InvalidOrder ''Invalid side'')
      else if p_price ord = None then Inl (InvalidOrder ''Missing field: price'')
      else if \<not> Is_price_valid (get '''' (p_price ord)) then Inl (InvalidOrder ''Invalid price'')
      else if p_quantity ord = None then Inl (InvalidOrder ''Missing field: quantity'')
      else if get 0 (p_quantity ord) = 0 then Inl (InvalidOrder ''Invalid OrderQty'')
      else if p_order_type ord = None then Inl (InvalidOrder ''Missing field: order_type'')
      else if get OT_None (p_order_type ord) \<noteq> OT_Limit \<and> get OT_None (p_order_type ord) \<noteq> OT_Market
      then Inl (InvalidOrder ''Invalid OrdType'')
      else Inr ())"

definition strategy_OnOrder :: "ems_codec \<Rightarrow> ems_order \<Rightarrow> 'x gateway_event" where
  "strategy_OnOrder codec ord = Published (''O'' @ order_SerializeAsString codec ord)"

definition strategy_OnFill :: "ems_codec \<Rightarrow> ems_fill \<Rightarrow> 'x gateway_event" where
  "strategy_OnFill codec fill = Published (''F'' @ fill_SerializeAsString codec fill)"

definition Reject_order :: "ems_codec \<Rightarrow> ems_order \<Rightarrow> 'x gateway_event" where
  "Reject_order codec ord = Published (''O'' @ order_SerializeAsString codec ord)"

text \<open>The handler of the \<open>try\<close> block, with the order as it was assigned when \<open>InvalidOrder\<close> was
  thrown.\<close>

definition rejected :: "ems_order \<Rightarrow> string \<Rightarrow> ems_order" where
  "rejected ord why = ord\<lparr>p_status := Some OS_Rejected, p_message := Some why\<rparr>"

definition catch_InvalidOrder ::
    "ems_codec \<Rightarrow> ems_order \<Rightarrow> 's \<Rightarrow> ('s \<times> 'x gateway_event list) outcome \<Rightarrow>
     ('s \<times> 'x gateway_event list) outcome" where
  "catch_InvalidOrder codec ord s r =
     (case r of Inl (InvalidOrder why) \<Rightarrow> Inr (s, [Reject_order codec (rejected ord why)]) | _ \<Rightarrow> r)"

definition with_order ::
    "ems_codec \<Rightarrow> string \<Rightarrow> 's \<Rightarrow> (ems_order \<Rightarrow> ('s \<times> 'x gateway_event list) outcome) \<Rightarrow>
     ('s \<times> 'x gateway_event list) outcome" where
  "with_order codec data s f =
     (case strategy_Create_order codec data of
        Inl e \<Rightarrow> catch_InvalidOrder codec ems_order_default s (Inl e)
      | Inr ord \<Rightarrow> catch_InvalidOrder codec ord s (f ord))"

definition Order_request ::
    "ems_codec \<Rightarrow> ('s, 'x) exchangeI \<Rightarrow> string \<Rightarrow> 's \<Rightarrow> ('s \<times> 'x gateway_event list) outcome" where
  "Order_request codec ex data s =
     (case data of
        [] \<Rightarrow> Inl (Thrown Undefined_behaviour)
      | c # body \<Rightarrow>
          let msg_type = (of_char c - 49 :: u8) in
          if msg_type = 0 then
            with_order codec body s (\<lambda>ord. bind_out (strategy_Check_order ord) (\<lambda>_. ex_Add ex ord s))
          else if msg_type = 1 then with_order codec body s (\<lambda>ord. ex_Delete ex ord s)
          else if msg_type = 2 then
            with_order codec body s (\<lambda>ord. bind_out (strategy_Check_order ord) (\<lambda>_. ex_Change ex ord s))
          else if msg_type = 3 then
            with_order codec body s (\<lambda>ord. bind_out (strategy_Check_order ord) (\<lambda>_. ex_Query ex ord s))
          else if msg_type = 4 then
            catch_InvalidOrder codec ems_order_default s (ex_Query_mass ex body s)
          else if msg_type = 5 then
            catch_InvalidOrder codec ems_order_default s (ex_Delete_mass ex body s)
          else Inr (s, []))"

text \<open>\<open>ZmqReceiver::Process_message\<close> with \<open>StrategyReceiver::Save\<close>: the first eight bytes are
  the id of the message (they are read, and the size reduced by them, without a check).\<close>

definition Process_message ::
    "(string \<Rightarrow> 's \<Rightarrow> ('s \<times> 'x gateway_event list) outcome) \<Rightarrow> string \<Rightarrow> 's \<Rightarrow>
     ('s \<times> 'x gateway_event list) outcome" where
  "Process_message processor data s =
     (if data = [] then Inr (s, [])
      else if length data < 8 then Inl (Thrown Undefined_behaviour)
      else processor (drop 8 data) s)"

lemma strategy_Check_order_OK:
  "strategy_Check_order ord = Inr () \<longleftrightarrow>
     p_client_order_id ord \<noteq> None \<and> p_contract ord \<noteq> None \<and>
     (p_buy_sell ord = Some BS_Buy \<or> p_buy_sell ord = Some BS_Sell) \<and>
     (\<exists>price. p_price ord = Some price \<and> Is_price_valid price) \<and>
     (\<exists>n. p_quantity ord = Some n \<and> n \<noteq> 0) \<and>
     (p_order_type ord = Some OT_Limit \<or> p_order_type ord = Some OT_Market)"
  by (auto simp: strategy_Check_order_def get_def split: option.splits)

lemma strategy_Check_order_error:
  "strategy_Check_order ord = Inl e \<Longrightarrow> \<exists>why. e = InvalidOrder why"
  by (auto simp: strategy_Check_order_def split: if_splits)

section \<open>What a request needs of an exchange\<close>

text \<open>An exchange sends one message for each order it accepts and throws \<open>InvalidOrder\<close> for the
  others.  It promises this in the states that are \<open>ready\<close>, for orders that passed the check and
  are \<open>good\<close>; \<open>sends kind ord s x\<close> says that \<open>x\<close> is the message of the kind for the order.\<close>

datatype request_kind = Add_kind | Change_kind | Query_kind

definition request_letter :: "request_kind \<Rightarrow> char" where
  "request_letter k = (case k of Add_kind \<Rightarrow> CHR ''1'' | Change_kind \<Rightarrow> CHR ''3'' | Query_kind \<Rightarrow> CHR ''4'')"

definition ex_operation ::
    "('s, 'x) exchangeI \<Rightarrow> request_kind \<Rightarrow> ems_order \<Rightarrow> 's \<Rightarrow> ('s \<times> 'x gateway_event list) outcome" where
  "ex_operation ex k = (case k of Add_kind \<Rightarrow> ex_Add ex | Change_kind \<Rightarrow> ex_Change ex | Query_kind \<Rightarrow> ex_Query ex)"

lemma Order_request_checked:
  "Order_request codec ex (request_letter k # body) s =
     with_order codec body s
       (\<lambda>ord. bind_out (strategy_Check_order ord) (\<lambda>_. ex_operation ex k ord s))"
  by (cases k) (simp_all add: Order_request_def request_letter_def ex_operation_def)

locale exchange_port =
  fixes ex :: "('s, 'x) exchangeI"
    and ready :: "'s \<Rightarrow> bool"
    and good :: "ems_order \<Rightarrow> bool"
    and accepts :: "ems_order \<Rightarrow> bool"
    and sends :: "request_kind \<Rightarrow> ems_order \<Rightarrow> 's \<Rightarrow> 'x \<Rightarrow> bool"
  assumes served: "ready s \<Longrightarrow> strategy_Check_order ord = Inr () \<Longrightarrow> good ord \<Longrightarrow> accepts ord \<Longrightarrow>
      \<exists>x. sends k ord s x \<and> ex_operation ex k ord s = Inr (s, [Sent x])"
    and refused: "ready s \<Longrightarrow> strategy_Check_order ord = Inr () \<Longrightarrow> good ord \<Longrightarrow> \<not> accepts ord \<Longrightarrow>
      \<exists>why. ex_operation ex k ord s = Inl (InvalidOrder why)"
begin

lemma request_accepted:
  assumes "ready s" "ParseFromArray codec data = Some ord" "good ord" "accepts ord"
    and "strategy_Check_order ord = Inr ()"
  shows "\<exists>x. sends k ord s x \<and>
    Order_request codec ex (request_letter k # data) s = Inr (s, [Sent x])"
  using served [OF assms(1,5,3,4), of k] assms(2,5)
  by (auto simp: Order_request_checked with_order_def strategy_Create_order_def catch_InvalidOrder_def)

lemma request_rejected:
  assumes "ready s" "\<And>ord. ParseFromArray codec data = Some ord \<Longrightarrow> good ord"
    and "\<And>ord. ParseFromArray codec data = Some ord \<Longrightarrow> strategy_Check_order ord = Inr () \<Longrightarrow> \<not> accepts ord"
  shows "\<exists>why. Order_request codec ex (request_letter k # data) s =
    Inr (s, [Reject_order codec (rejected (get ems_order_default (ParseFromArray codec data)) why)])"
proof -
  have invalid: "\<exists>why. (if ParseFromArray codec data = None then Inl (InvalidOrder ''order parse error'')
      else bind_out (strategy_Check_order ord) (\<lambda>_. ex_operation ex k ord s)) = Inl (InvalidOrder why)"
    if "\<forall>p. ParseFromArray codec data = Some p \<longrightarrow> p = ord" for ord
  proof (cases "ParseFromArray codec data")
    case (Some p)
    then have p: "p = ord" "good ord" "strategy_Check_order ord = Inr () \<longrightarrow> \<not> accepts ord"
      using that assms(2,3) by simp_all
    show ?thesis
    proof (cases "strategy_Check_order ord")
      case (Inl e)
      then show ?thesis using strategy_Check_order_error [OF Inl] Some by auto
    next
      case (Inr u)
      then show ?thesis using refused [OF assms(1), of ord k] p Some by auto
    qed
  qed simp
  show ?thesis
    using invalid [of "get ems_order_default (ParseFromArray codec data)"]
    by (cases "ParseFromArray codec data")
      (auto simp: Order_request_checked with_order_def strategy_Create_order_def catch_InvalidOrder_def)
qed

end

end
