(* ===== verification/Fix_Orders.thy ===== *)
theory Fix_Orders
  imports Strategy
begin

text \<open>
  The order manager of the CME gateway (cme/exchange/order_manager.cc, order.h): the FIX
  messages it builds from orders, the fields it adds to what QuickFIX sends, and how it reads
  execution reports.  QuickFIX is a parameter: how it writes values into fields and reads them,
  its sessions and its sending of messages.  A message maps fields to their texts; the names
  of the fields stand for their FIX tags.
\<close>

section \<open>FIX messages\<close>

datatype fix_field =
    Account | AvgPx | BeginSeqNo | BusinessRejectReason | ClOrdID | CumQty | CustomerOrFirm
  | CxlRejReason | CxlRejResponseTo | EncryptMethod | EndSeqNo | ExecID | ExecType | HandlInst
  | LastMsgSeqNumProcessed | LastPx | LastQty | LeavesQty | ManualOrderIndicator
  | MassActionResponse | MassActionScope | MassActionType | MassStatusReqID | MassStatusReqType
  | MinQty | MsgSeqNum | NextExpectedMsgSeqNum | NoAffectedOrders | OrdRejReason | OrdStatus
  | OrdType | OrderID | OrderQty | OrigClOrdID | PossDupFlag | FIX_Price | RawData | RawDataLength
  | ResetSeqNumFlag | SecurityDesc | SecurityID | SecurityType | SenderCompID
  | SenderLocationID | SenderSubID | Side | Symbol | TargetCompID | TargetSubID | FIX_Text
  | FIX_TimeInForce | TotalAffectedOrders | TradeDate | TransactTime
  | ApplicationSystemName | TradingSystemVersion | ApplicationSystemVendor | OrdStatusReqType
  | MassCancelRequestType | CtiCode | CorrelationClOrdID

text \<open>\<open>CmeFixField\<close>: the tags QuickFIX has no names for.\<close>

fun CmeFixField :: "fix_field \<Rightarrow> nat option" where
  "CmeFixField ApplicationSystemName = Some 1603"
| "CmeFixField TradingSystemVersion = Some 1604"
| "CmeFixField ApplicationSystemVendor = Some 1605"
| "CmeFixField OrdStatusReqType = Some 5000"
| "CmeFixField MassCancelRequestType = Some 6115"
| "CmeFixField CtiCode = Some 9702"
| "CmeFixField CorrelationClOrdID = Some 9717"
| "CmeFixField _ = None"

record FixMessage =
  msg_type :: string
  header :: "fix_field \<Rightarrow> string option"
  body :: "fix_field \<Rightarrow> string option"
  groups :: "(fix_field \<Rightarrow> string option) list"

definition new_message :: "string \<Rightarrow> FixMessage" where
  "new_message t = \<lparr>msg_type = t, header = Map.empty, body = Map.empty, groups = []\<rparr>"

text \<open>\<open>set\<close> and \<open>setField\<close> replace the value of a field.\<close>

definition set_field :: "fix_field \<Rightarrow> string \<Rightarrow> FixMessage \<Rightarrow> FixMessage" where
  "set_field f v m = m\<lparr>body := (body m)(f \<mapsto> v)\<rparr>"

definition set_header :: "fix_field \<Rightarrow> string \<Rightarrow> FixMessage \<Rightarrow> FixMessage" where
  "set_header f v m = m\<lparr>header := (header m)(f \<mapsto> v)\<rparr>"

definition set_fields :: "(fix_field \<times> string) list \<Rightarrow> FixMessage \<Rightarrow> FixMessage" where
  "set_fields fvs m = fold (\<lambda>(f, v). set_field f v) fvs m"

definition set_headers :: "(fix_field \<times> string) list \<Rightarrow> FixMessage \<Rightarrow> FixMessage" where
  "set_headers fvs m = fold (\<lambda>(f, v). set_header f v) fvs m"

lemma set_fields_simps [simp]:
  "set_fields [] m = m"
  "set_fields ((f, v) # fvs) m = set_fields fvs (set_field f v m)"
  "set_headers [] m = m"
  "set_headers ((f, v) # fvs) m = set_headers fvs (set_header f v m)"
  by (simp_all add: set_fields_def set_headers_def)

lemma set_fields_append: "set_fields (xs @ ys) m = set_fields ys (set_fields xs m)"
  by (simp add: set_fields_def)

lemma set_field_simps [simp]:
  "body (set_field f v m) = (body m)(f \<mapsto> v)" "header (set_field f v m) = header m"
  "msg_type (set_field f v m) = msg_type m" "groups (set_field f v m) = groups m"
  "body (set_header f v m) = body m" "header (set_header f v m) = (header m)(f \<mapsto> v)"
  "msg_type (set_header f v m) = msg_type m" "groups (set_header f v m) = groups m"
  by (simp_all add: set_field_def set_header_def)

lemma body_set_fields: "body (set_fields fvs m) = body m ++ map_of (rev fvs)"
  by (induction fvs arbitrary: m) (auto simp: map_add_def split: option.splits)

lemma set_fields_msg_type [simp]: "msg_type (set_fields fvs m) = msg_type m"
  by (induction fvs arbitrary: m) auto

section \<open>QuickFIX\<close>

text \<open>The conversions of fields (\<open>CharConvertor\<close>, \<open>IntConvertor\<close>, \<open>DoubleConvertor\<close>, \<open>None\<close> for a
  conversion that throws), \<open>boost::lexical_cast\<close> to unsigned integers, the clock as a FIX time
  stamp, the message types for which the inherited handler throws, and what sending does.\<close>

record quickfix =
  char_text :: "char \<Rightarrow> string"
  text_char :: "string \<Rightarrow> char option"
  int_text :: "int \<Rightarrow> string"
  text_int :: "string \<Rightarrow> int option"
  double_text :: "double \<Rightarrow> string"
  text_double :: "string \<Rightarrow> double option"
  lexical_u64 :: "string \<Rightarrow> u64 option"
  lexical_u32 :: "string \<Rightarrow> u32 option"
  utc_now :: string
  unsupported_type :: "string \<Rightarrow> bool"
  sendToTarget :: "FixMessage \<Rightarrow> bool outcome"

text \<open>A session, as far as the code asks for it.\<close>

record fix_session =
  getExpectedTargetNum :: int
  resendRequested :: bool

type_synonym sessions = "string \<Rightarrow> fix_session option"

definition to_string_int :: "int \<Rightarrow> string" where
  "to_string_int i = (if i < 0 then ''-'' @ show_digits (- i) else show_digits i)"

text \<open>\<open>FIX::Session::lookupSession(sessionID)\<close> is null for an unknown session; all but the first
  function dereference it.\<close>

definition Is_fix_session_exist :: "sessions \<Rightarrow> string \<Rightarrow> bool" where
  "Is_fix_session_exist ss sid \<longleftrightarrow> ss sid \<noteq> None"

definition Last_processed_seq_num :: "sessions \<Rightarrow> string \<Rightarrow> string outcome" where
  "Last_processed_seq_num ss sid =
     (case ss sid of None \<Rightarrow> Inl (Thrown Undefined_behaviour)
      | Some session \<Rightarrow> Inr (to_string_int (max (getExpectedTargetNum session - 1) 0)))"

definition Next_expected_seq_num :: "sessions \<Rightarrow> string \<Rightarrow> string outcome" where
  "Next_expected_seq_num ss sid =
     (case ss sid of None \<Rightarrow> Inl (Thrown Undefined_behaviour)
      | Some session \<Rightarrow> Inr (to_string_int (getExpectedTargetNum session)))"

definition Is_duplicate_resend_request :: "sessions \<Rightarrow> string \<Rightarrow> bool outcome" where
  "Is_duplicate_resend_request ss sid =
     (case ss sid of None \<Rightarrow> Inl (Thrown Undefined_behaviour)
      | Some session \<Rightarrow> Inr (resendRequested session))"

section \<open>Orders and reports of the gateway\<close>

text \<open>\<open>stop_px\<close> and \<open>expire_date\<close> are passed along and never used; they are left out.\<close>

record cme_order =
  o_symbol :: string
  o_security_desc :: string
  o_cl_order_id :: string
  o_side :: char
  o_order_type :: char
  o_order_qty :: u64
  o_px :: double
  o_time_in_force :: char
  o_min_qty :: u64
  o_order_id :: string
  o_orig_cl_order_id :: string

record cme_mass_order =
  mo_cl_order_id :: string
  mo_action_type :: u8
  mo_action_scope :: u8
  mo_market_segment_id :: string
  mo_symbol :: string
  mo_security_desc :: string
  mo_cancel_req_type :: u8
  mo_account :: string
  mo_side :: char
  mo_order_type :: char
  mo_time_in_force :: char
  mo_status_req_id :: string
  mo_status_req_type :: u8
  mo_ord_status_req_type :: u8

definition MassOrder_new :: cme_mass_order where
  "MassOrder_new = \<lparr>mo_cl_order_id = '''', mo_action_type = 0, mo_action_scope = 0,
     mo_market_segment_id = '''', mo_symbol = '''', mo_security_desc = '''',
     mo_cancel_req_type = 0, mo_account = '''', mo_side = CHR ''0'', mo_order_type = CHR ''0'',
     mo_time_in_force = CHR ''0'', mo_status_req_id = '''', mo_status_req_type = 0,
     mo_ord_status_req_type = 0\<rparr>"

record SingleOrderReport =
  r_exec_type :: char
  r_cl_order_id :: string
  r_account :: string
  r_order_id :: string
  r_mass_status_req_id :: string
  r_exec_id :: string
  r_orig_cl_order_id :: string
  r_order_status :: char
  r_order_type :: char
  r_side :: char
  r_symbol :: string
  r_security_id :: string
  r_security_desc :: string
  r_cancel_rej_response_to :: char
  r_time_in_force :: char
  r_min_qty :: u64
  r_cum_qty :: u64
  r_leaves_qty :: u64
  r_order_qty :: u64
  r_price :: double
  r_last_px :: double
  r_last_qty :: u64
  r_rej_reason :: u32
  r_text :: string
  r_transact_time :: string
  r_trade_date :: string

record MassOrderReport =
  mr_cl_order_id :: string
  mr_action_response :: u8
  mr_total_affected_orders :: u32
  mr_no_affected_orders :: u32
  mr_orig_cl_order_ids :: string
  mr_transact_time :: string
  mr_text :: string

text \<open>An \<open>OrderReport\<close> carries a message type and the report of that type: \<open>Logged_on\<close> is the empty
  type.\<close>

datatype OrderReport =
    Logged_on
  | Single_report string SingleOrderReport
  | Mass_report MassOrderReport

end
