(* ===== verification/Fix_Manager.thy ===== *)
theory Fix_Manager
  imports Fix_Orders
begin

text \<open>
  The order manager (cme/exchange/order_manager.cc): its settings and its count of received
  messages, the messages it builds and sends, the fields it adds to messages on their way to the
  exchange, and the reports it makes of messages from there.  The callback it hands reports to
  (\<open>m_processor\<close>) is an argument.
\<close>

section \<open>State\<close>

record order_manager =
  m_target_comp_id :: string
  m_target_sub_id :: string
  m_sender_comp_id :: string
  m_sender_sub_id :: string
  m_sender_location_id :: string
  m_raw_data :: string
  m_raw_data_length :: string
  m_app_name :: string
  m_trading_ver :: string
  m_app_vendor :: string
  m_account :: string
  m_manual_flag :: bool
  m_security_type :: string
  m_customer_flag :: u8
  m_cti_code :: string
  m_current_received_seq :: "string \<Rightarrow> u32 option"

text \<open>\<open>Settings::Get\<close>: a key is "section.name"; the ini file is a map of maps.\<close>

definition Settings_Get :: "(string \<Rightarrow> (string \<Rightarrow> string option) option) \<Rightarrow> string \<Rightarrow> string res" where
  "Settings_Get m_sections key =
     (let section = takeWhile (\<lambda>c. c \<noteq> CHR ''.'') key;
          rest = dropWhile (\<lambda>c. c \<noteq> CHR ''.'') key
      in if rest = [] then Inl (Invalid_argument (''setting key['' @ key @ ''] is invalid''))
         else case m_sections section of
             None \<Rightarrow> Inl (Invalid_argument (''setting key['' @ key @ ''] not found''))
           | Some values \<Rightarrow>
               (case values (tl rest) of
                  None \<Rightarrow> Inl (Invalid_argument (''setting key['' @ key @ ''] not found''))
                | Some v \<Rightarrow> Inr v))"

text \<open>The constructor, with the getters of \<open>ExchangeSettings\<close> (cme/exchange/exchange_settings.cc)
  in the order they are called.\<close>

definition OrderManager_new ::
    "(string \<Rightarrow> (string \<Rightarrow> string option) option) \<Rightarrow> order_manager res" where
  "OrderManager_new m_sections =
     bind_res (traverse (Settings_Get m_sections)
       [''session.target_comp_id'', ''session.target_sub_id'', ''session.sender_comp_id'',
        ''session.sender_sub_id'', ''session.sender_location_id'', ''session.password'',
        ''session.password_length'', ''session.app_sys_name'', ''session.trading_sys_ver'',
        ''session.app_sys_vendor'', ''order.account'', ''order.manual_order_indicator'',
        ''order.security_type'', ''order.customer_or_firm'', ''order.cti_code''])
       (\<lambda>v. Inr \<lparr>m_target_comp_id = v ! 0, m_target_sub_id = v ! 1, m_sender_comp_id = v ! 2,
          m_sender_sub_id = v ! 3, m_sender_location_id = v ! 4, m_raw_data = v ! 5,
          m_raw_data_length = v ! 6, m_app_name = v ! 7, m_trading_ver = v ! 8,
          m_app_vendor = v ! 9, m_account = v ! 10, m_manual_flag = (v ! 11 = ''Y''),
          m_security_type = v ! 12, m_customer_flag = (if v ! 13 = ''0'' then 0 else 1),
          m_cti_code = v ! 14, m_current_received_seq = Map.empty\<rparr>)"

section \<open>Messages to the exchange\<close>

definition setHeader :: "order_manager \<Rightarrow> FixMessage \<Rightarrow> FixMessage" where
  "setHeader om = set_headers [(SenderCompID, m_sender_comp_id om), (TargetCompID, m_target_comp_id om)]"

definition manual_text :: "order_manager \<Rightarrow> string" where
  "manual_text om = (if m_manual_flag om then ''Y'' else ''N'')"

text \<open>Quantities are FIX quantities, which are doubles.\<close>

definition qty_text :: "quickfix \<Rightarrow> u64 \<Rightarrow> string" where
  "qty_text q n = double_text q (double_of_int (uint n))"

definition createLogout42 :: "order_manager \<Rightarrow> string \<Rightarrow> FixMessage" where
  "createLogout42 om text = setHeader om (set_fields [(FIX_Text, text)] (new_message ''5''))"

definition createNewOrderSingle42 :: "quickfix \<Rightarrow> order_manager \<Rightarrow> cme_order \<Rightarrow> FixMessage" where
  "createNewOrderSingle42 q om ord =
     setHeader om (set_fields
       ([(Account, m_account om), (ClOrdID, o_cl_order_id ord), (HandlInst, char_text q CHR ''1''),
         (OrderQty, qty_text q (o_order_qty ord)), (OrdType, char_text q (o_order_type ord)),
         (Side, char_text q (o_side ord)), (Symbol, o_symbol ord)] @
        (if o_time_in_force ord \<noteq> CHR 0x00
         then [(FIX_TimeInForce, char_text q (o_time_in_force ord))] else []) @
        (if o_min_qty ord \<noteq> 0 then [(MinQty, qty_text q (o_min_qty ord))] else []) @
        [(TransactTime, utc_now q), (SecurityDesc, o_security_desc ord),
         (SecurityType, m_security_type om),
         (CustomerOrFirm, int_text q (uint (m_customer_flag om))),
         (CtiCode, m_cti_code om), (CorrelationClOrdID, o_cl_order_id ord),
         (ManualOrderIndicator, manual_text om)] @
        (if o_order_type ord = CHR ''2'' \<or> o_order_type ord = CHR ''4''
         then [(FIX_Price, double_text q (o_px ord))] else []))
       (new_message ''D''))"

definition createOrderCancelRequest42 :: "quickfix \<Rightarrow> order_manager \<Rightarrow> cme_order \<Rightarrow> FixMessage" where
  "createOrderCancelRequest42 q om ord =
     setHeader om (set_fields
       [(Account, m_account om), (ClOrdID, o_cl_order_id ord), (OrderID, o_order_id ord),
        (OrigClOrdID, o_orig_cl_order_id ord), (Side, char_text q (o_side ord)),
        (TransactTime, utc_now q), (SecurityDesc, o_security_desc ord),
        (SecurityType, m_security_type om), (CorrelationClOrdID, o_cl_order_id ord),
        (ManualOrderIndicator, manual_text om)]
       (new_message ''F''))"

definition createOrderCancelReplaceRequest42 ::
    "quickfix \<Rightarrow> order_manager \<Rightarrow> cme_order \<Rightarrow> FixMessage" where
  "createOrderCancelReplaceRequest42 q om ord =
     setHeader om (set_fields
       ([(Account, m_account om), (ClOrdID, o_cl_order_id ord), (OrderID, o_order_id ord),
         (HandlInst, char_text q CHR ''1''), (OrderQty, qty_text q (o_order_qty ord)),
         (OrdType, char_text q (o_order_type ord)), (OrigClOrdID, o_orig_cl_order_id ord),
         (Side, char_text q (o_side ord))] @
        (if o_time_in_force ord \<noteq> CHR 0x00
         then [(FIX_TimeInForce, char_text q (o_time_in_force ord))] else []) @
        (if o_min_qty ord \<noteq> 0 then [(MinQty, qty_text q (o_min_qty ord))] else []) @
        [(TransactTime, utc_now q), (SecurityDesc, o_security_desc ord),
         (SecurityType, m_security_type om),
         (CustomerOrFirm, int_text q (uint (m_customer_flag om))),
         (CtiCode, m_cti_code om), (CorrelationClOrdID, o_cl_order_id ord),
         (ManualOrderIndicator, manual_text om)] @
        (if o_order_type ord = CHR ''2'' \<or> o_order_type ord = CHR ''4''
         then [(FIX_Price, double_text q (o_px ord))] else []))
       (new_message ''G''))"

definition createOrderStatusRequest42 :: "quickfix \<Rightarrow> order_manager \<Rightarrow> cme_order \<Rightarrow> FixMessage" where
  "createOrderStatusRequest42 q om ord =
     setHeader om (set_fields
       [(ClOrdID, o_cl_order_id ord), (OrderID, o_order_id ord), (Side, char_text q (o_side ord)),
        (Symbol, o_symbol ord), (SecurityDesc, o_security_desc ord),
        (SecurityType, m_security_type om), (CorrelationClOrdID, o_cl_order_id ord),
        (ManualOrderIndicator, manual_text om), (TransactTime, utc_now q)]
       (new_message ''H''))"

definition createOrderMassStatusRequest42 ::
    "quickfix \<Rightarrow> order_manager \<Rightarrow> cme_mass_order \<Rightarrow> FixMessage" where
  "createOrderMassStatusRequest42 q om mo =
     setHeader om (set_fields
       ([(MassStatusReqID, mo_status_req_id mo),
         (MassStatusReqType, int_text q (uint (mo_status_req_type mo)))] @
        (if mo_status_req_type mo = 3 then [(Symbol, mo_symbol mo)] else []) @
        (if mo_status_req_type mo = 1 then [(SecurityDesc, mo_security_desc mo)] else []) @
        [(TransactTime, utc_now q), (ManualOrderIndicator, manual_text om)])
       (new_message ''AF''))"

definition createOrderMassActionRequest42 ::
    "quickfix \<Rightarrow> order_manager \<Rightarrow> cme_mass_order \<Rightarrow> FixMessage" where
  "createOrderMassActionRequest42 q om mo =
     setHeader om (set_fields
       ([(ClOrdID, mo_cl_order_id mo), (MassActionType, int_text q (uint (mo_action_type mo))),
         (MassActionScope, int_text q (uint (mo_action_scope mo))),
         (SecurityDesc, mo_security_desc mo), (TransactTime, utc_now q),
         (MassCancelRequestType, to_string_word (mo_cancel_req_type mo)),
         (Account, mo_account mo)] @
        (if mo_order_type mo \<noteq> CHR 0x00 then [(OrdType, [mo_order_type mo])] else []) @
        (if mo_time_in_force mo \<noteq> CHR 0x00 then [(FIX_TimeInForce, [mo_time_in_force mo])] else []) @
        [(ManualOrderIndicator, manual_text om)])
       (new_message ''CA''))"

text \<open>\<open>FIX::Session::sendToTarget\<close>: the result of sending is only logged; it throws when there is no
  session for the ids of the header.\<close>

definition fix_send :: "quickfix \<Rightarrow> FixMessage \<Rightarrow> FixMessage gateway_event list outcome" where
  "fix_send q m = bind_out (sendToTarget q m) (\<lambda>_. Inr [Sent m])"

definition sendLogout where
  "sendLogout q om text = fix_send q (createLogout42 om text)"

definition sendNewOrderSingleRequest where
  "sendNewOrderSingleRequest q om ord = fix_send q (createNewOrderSingle42 q om ord)"

definition sendOrderCancelRequest where
  "sendOrderCancelRequest q om ord = fix_send q (createOrderCancelRequest42 q om ord)"

definition sendOrderCancelReplaceRequest where
  "sendOrderCancelReplaceRequest q om ord = fix_send q (createOrderCancelReplaceRequest42 q om ord)"

definition sendOrderStatusRequest where
  "sendOrderStatusRequest q om ord = fix_send q (createOrderStatusRequest42 q om ord)"

definition sendOrderMassStatusRequest where
  "sendOrderMassStatusRequest q om mo = fix_send q (createOrderMassStatusRequest42 q om mo)"

definition sendOrderMassActionRequest where
  "sendOrderMassActionRequest q om mo = fix_send q (createOrderMassActionRequest42 q om mo)"

definition Mass_order_status ::
    "quickfix \<Rightarrow> u64 \<Rightarrow> order_manager \<Rightarrow> FixMessage gateway_event list outcome" where
  "Mass_order_status q now om =
     sendOrderMassStatusRequest q om
       (MassOrder_new\<lparr>mo_status_req_id := ''S'' @ to_string_word now, mo_status_req_type := 7\<rparr>)"

section \<open>Fields added to outgoing messages\<close>

definition setCurrentReceivedSeq ::
    "quickfix \<Rightarrow> FixMessage \<Rightarrow> string \<Rightarrow> order_manager \<Rightarrow> order_manager outcome" where
  "setCurrentReceivedSeq q m sid om =
     (case header m MsgSeqNum of
        None \<Rightarrow> Inl (Thrown (Runtime_error ''FieldNotFound''))
      | Some t \<Rightarrow>
          (case text_int q t of
             None \<Rightarrow> Inl (Thrown (Runtime_error ''IncorrectDataFormat''))
           | Some seq \<Rightarrow>
               Inr (om\<lparr>m_current_received_seq := (m_current_received_seq om)(sid \<mapsto> word_of_int seq)\<rparr>)))"

definition getCurrentReceivedSeq :: "string \<Rightarrow> order_manager \<Rightarrow> u32" where
  "getCurrentReceivedSeq sid om =
     (case m_current_received_seq om sid of None \<Rightarrow> 0 | Some seq \<Rightarrow> seq)"

definition appendLogonField :: "order_manager \<Rightarrow> FixMessage \<Rightarrow> FixMessage" where
  "appendLogonField om =
     set_fields [(RawDataLength, m_raw_data_length om), (RawData, m_raw_data om),
       (EncryptMethod, ''0''), (ResetSeqNumFlag, ''N''), (ApplicationSystemName, m_app_name om),
       (TradingSystemVersion, m_trading_ver om), (ApplicationSystemVendor, m_app_vendor om)]"

definition appendLogoutField :: "sessions \<Rightarrow> string \<Rightarrow> FixMessage \<Rightarrow> FixMessage outcome" where
  "appendLogoutField ss sid m =
     bind_out (Next_expected_seq_num ss sid) (\<lambda>n. Inr (set_fields [(NextExpectedMsgSeqNum, n)] m))"

definition MAX_RESEND_SIZE :: int where
  "MAX_RESEND_SIZE = 2500"

text \<open>\<open>int\<close> arithmetic: the difference of the two numbers overflows (undefined) only when one of them
  is no sequence number.\<close>

definition appendResendRequestField ::
    "quickfix \<Rightarrow> sessions \<Rightarrow> order_manager \<Rightarrow> string \<Rightarrow> FixMessage \<Rightarrow> FixMessage outcome" where
  "appendResendRequestField q ss om sid m =
     (case body m BeginSeqNo of
        None \<Rightarrow> Inl (Thrown (Runtime_error ''FieldNotFound''))
      | Some t \<Rightarrow>
          (case text_int q t of
             None \<Rightarrow> Inl (Thrown (Runtime_error ''IncorrectDataFormat''))
           | Some begin_no \<Rightarrow>
               let end_no = sint (getCurrentReceivedSeq sid om) in
               if end_no - begin_no < - (2 ^ 31) \<or> 2 ^ 31 \<le> end_no - begin_no
               then Inl (Thrown Undefined_behaviour)
               else
                 let m' = (if end_no - begin_no > MAX_RESEND_SIZE
                           then set_field EndSeqNo (int_text q (begin_no + MAX_RESEND_SIZE - 1)) m
                           else m)
                 in bind_out (Is_duplicate_resend_request ss sid)
                      (\<lambda>dup. Inr (if dup then set_header PossDupFlag ''Y'' m' else m'))))"

definition appendHeaderFieldForCME ::
    "sessions \<Rightarrow> order_manager \<Rightarrow> string \<Rightarrow> FixMessage \<Rightarrow> FixMessage outcome" where
  "appendHeaderFieldForCME ss om sid m =
     bind_out (Last_processed_seq_num ss sid) (\<lambda>n.
       Inr (set_headers [(SenderSubID, m_sender_sub_id om), (TargetSubID, m_target_sub_id om),
         (LastMsgSeqNumProcessed, n), (SenderLocationID, m_sender_location_id om)] m))"

definition toAdmin ::
    "quickfix \<Rightarrow> sessions \<Rightarrow> order_manager \<Rightarrow> string \<Rightarrow> FixMessage \<Rightarrow> FixMessage outcome" where
  "toAdmin q ss om sid m =
     (if \<not> Is_fix_session_exist ss sid then Inr m
      else bind_out
        (if msg_type m = ''A'' then Inr (appendLogonField om m)
         else if msg_type m = ''5'' then appendLogoutField ss sid m
         else if msg_type m = ''2'' then appendResendRequestField q ss om sid m
         else Inr m)
        (appendHeaderFieldForCME ss om sid))"

definition toApp :: "sessions \<Rightarrow> order_manager \<Rightarrow> string \<Rightarrow> FixMessage \<Rightarrow> FixMessage outcome" where
  "toApp ss om sid m = appendHeaderFieldForCME ss om sid m"

section \<open>Reports of incoming messages\<close>

text \<open>\<open>Try_pick_value\<close>: the value of a field that is present, read by its FIX type, else the
  default of the type; an unreadable value throws.  A quantity is read as a double and
  converted to an integer.\<close>

definition pick :: "(string \<Rightarrow> 'a option) \<Rightarrow> 'a \<Rightarrow> fix_field \<Rightarrow> FixMessage \<Rightarrow> 'a outcome" where
  "pick convert d f m =
     (case body m f of
        None \<Rightarrow> Inr d
      | Some t \<Rightarrow> (case convert t of None \<Rightarrow> Inl (Thrown (Runtime_error ''IncorrectDataFormat''))
                   | Some v \<Rightarrow> Inr v))"

definition pick_string :: "fix_field \<Rightarrow> FixMessage \<Rightarrow> string" where
  "pick_string f m = (case body m f of None \<Rightarrow> '''' | Some t \<Rightarrow> t)"

definition pick_char :: "quickfix \<Rightarrow> fix_field \<Rightarrow> FixMessage \<Rightarrow> char outcome" where
  "pick_char q = pick (text_char q) CHR 0x00"

definition pick_double :: "quickfix \<Rightarrow> fix_field \<Rightarrow> FixMessage \<Rightarrow> double outcome" where
  "pick_double q = pick (text_double q) 0"

definition pick_qty :: "quickfix \<Rightarrow> fix_field \<Rightarrow> FixMessage \<Rightarrow> u64 outcome" where
  "pick_qty q = pick (\<lambda>t. map_option (\<lambda>x. word_of_int (trunc_rat x)) (text_double q t)) 0"

definition pick_u8 :: "quickfix \<Rightarrow> fix_field \<Rightarrow> FixMessage \<Rightarrow> u8 outcome" where
  "pick_u8 q = pick (\<lambda>t. map_option word_of_int (text_int q t)) 0"

definition pick_u32 :: "quickfix \<Rightarrow> fix_field \<Rightarrow> FixMessage \<Rightarrow> u32 outcome" where
  "pick_u32 q = pick (\<lambda>t. map_option word_of_int (text_int q t)) 0"

text \<open>\<open>Try_pick_int\<close>: the text of the field through \<open>boost::lexical_cast\<close>; an absent or empty one
  is 0.\<close>

definition Try_pick_int :: "(string \<Rightarrow> ('w::len) word option) \<Rightarrow> fix_field \<Rightarrow> FixMessage \<Rightarrow> 'w word outcome" where
  "Try_pick_int convert f m =
     (case body m f of
        None \<Rightarrow> Inr 0
      | Some t \<Rightarrow> if t = [] then Inr 0
                   else case convert t of None \<Rightarrow> Inl (Thrown (Runtime_error ''bad_lexical_cast''))
                        | Some n \<Rightarrow> Inr n)"

definition processOrderResult :: "quickfix \<Rightarrow> FixMessage \<Rightarrow> SingleOrderReport outcome" where
  "processOrderResult q m =
     bind_out (pick_char q ExecType m) (\<lambda>exec_type.
     bind_out (pick_char q OrdStatus m) (\<lambda>order_status.
     bind_out (pick_char q OrdType m) (\<lambda>order_type.
     bind_out (pick_char q Side m) (\<lambda>side.
     bind_out (pick_char q CxlRejResponseTo m) (\<lambda>cancel_rej_response_to.
     bind_out (pick_char q FIX_TimeInForce m) (\<lambda>time_in_force.
     bind_out (Try_pick_int (lexical_u64 q) MinQty m) (\<lambda>min_qty.
     bind_out (pick_qty q CumQty m) (\<lambda>cum_qty.
     bind_out (pick_qty q LeavesQty m) (\<lambda>leaves_qty.
     bind_out (pick_qty q OrderQty m) (\<lambda>order_qty.
     bind_out (pick_double q FIX_Price m) (\<lambda>price.
     bind_out (pick_double q LastPx m) (\<lambda>last_px.
     bind_out (Try_pick_int (lexical_u64 q) LastQty m) (\<lambda>last_qty.
     bind_out (Try_pick_int (lexical_u32 q)
       (if msg_type m = ''9'' then CxlRejReason
        else if exec_type = CHR ''I'' then BusinessRejectReason else OrdRejReason) m) (\<lambda>rej_reason.
     Inr \<lparr>r_exec_type = exec_type, r_cl_order_id = pick_string ClOrdID m,
       r_account = pick_string Account m, r_order_id = pick_string OrderID m,
       r_mass_status_req_id = pick_string MassStatusReqID m, r_exec_id = pick_string ExecID m,
       r_orig_cl_order_id = pick_string OrigClOrdID m, r_order_status = order_status,
       r_order_type = order_type, r_side = side, r_symbol = pick_string Symbol m,
       r_security_id = pick_string SecurityID m, r_security_desc = pick_string SecurityDesc m,
       r_cancel_rej_response_to = cancel_rej_response_to, r_time_in_force = time_in_force,
       r_min_qty = min_qty, r_cum_qty = cum_qty, r_leaves_qty = leaves_qty,
       r_order_qty = order_qty, r_price = price, r_last_px = last_px, r_last_qty = last_qty,
       r_rej_reason = rej_reason, r_text = pick_string FIX_Text m,
       r_transact_time = pick_string TransactTime m, r_trade_date = pick_string TradeDate m\<rparr>))))))))))))))"

text \<open>\<open>getGroup\<close> throws when there are fewer entries than the count says, and \<open>get\<close> when an
  entry lacks the field.\<close>

definition affected_order :: "(fix_field \<Rightarrow> string option) list \<Rightarrow> nat \<Rightarrow> string outcome" where
  "affected_order gs i =
     (if i < length gs
      then case (gs ! i) OrigClOrdID of None \<Rightarrow> Inl (Thrown (Runtime_error ''FieldNotFound'')) | Some t \<Rightarrow> Inr t
      else Inl (Thrown (Runtime_error ''FieldNotFound'')))"

fun affected_orders :: "(fix_field \<Rightarrow> string option) list \<Rightarrow> nat list \<Rightarrow> string list outcome" where
  "affected_orders gs [] = Inr []"
| "affected_orders gs (i # is) =
     bind_out (affected_order gs i) (\<lambda>t. bind_out (affected_orders gs is) (\<lambda>ts. Inr (t # ts)))"

fun join :: "string list \<Rightarrow> string" where
  "join [] = ''''"
| "join [x] = x"
| "join (x # y # ys) = x @ ''^'' @ join (y # ys)"

definition processMassOrderResult :: "quickfix \<Rightarrow> FixMessage \<Rightarrow> MassOrderReport outcome" where
  "processMassOrderResult q m =
     bind_out (pick_u8 q MassActionResponse m) (\<lambda>response.
     bind_out (pick_u32 q TotalAffectedOrders m) (\<lambda>total_affected.
     bind_out (pick_u32 q NoAffectedOrders m) (\<lambda>no_affected.
     bind_out (affected_orders (groups m) [0..<unat no_affected]) (\<lambda>ids.
     Inr \<lparr>mr_cl_order_id = pick_string ClOrdID m, mr_action_response = response,
       mr_total_affected_orders = total_affected, mr_no_affected_orders = no_affected,
       mr_orig_cl_order_ids = join ids, mr_transact_time = pick_string TransactTime m,
       mr_text = pick_string FIX_Text m\<rparr>))))"

text \<open>\<open>crack\<close> calls the handler for the type of the message: execution reports, cancel rejects and
  mass action reports are reported, the other types the class handles are only logged, and for the
  remaining types of FIX 4.2 the inherited handler throws.\<close>

definition cracked :: "quickfix \<Rightarrow> FixMessage \<Rightarrow> OrderReport option outcome" where
  "cracked q m =
     (if msg_type m = ''8'' \<or> msg_type m = ''9''
      then bind_out (processOrderResult q m) (\<lambda>r. Inr (Some (Single_report (msg_type m) r)))
      else if msg_type m = ''BZ''
      then bind_out (processMassOrderResult q m) (\<lambda>r. Inr (Some (Mass_report r)))
      else if unsupported_type q (msg_type m)
      then Inl (Thrown (Runtime_error ''UnsupportedMessageType''))
      else Inr None)"

definition crack ::
    "quickfix \<Rightarrow> (OrderReport \<Rightarrow> 's \<Rightarrow> ('s \<times> 'e list) outcome) \<Rightarrow> FixMessage \<Rightarrow> 's \<Rightarrow>
     ('s \<times> 'e list) outcome" where
  "crack q m_processor m s =
     bind_out (cracked q m) (\<lambda>r. case r of None \<Rightarrow> Inr (s, []) | Some report \<Rightarrow> m_processor report s)"

text \<open>\<open>fromAdmin\<close> and \<open>fromApp\<close> have the same body.\<close>

definition fromApp ::
    "quickfix \<Rightarrow> (OrderReport \<Rightarrow> 's \<Rightarrow> ('s \<times> 'e list) outcome) \<Rightarrow> FixMessage \<Rightarrow> string \<Rightarrow>
     order_manager \<Rightarrow> 's \<Rightarrow> (order_manager \<times> 's \<times> 'e list) outcome" where
  "fromApp q m_processor m sid om s =
     bind_out (crack q m_processor m s) (\<lambda>(s', es).
       bind_out (setCurrentReceivedSeq q m sid om) (\<lambda>om'. Inr (om', s', es)))"

definition onLogon ::
    "quickfix \<Rightarrow> (OrderReport \<Rightarrow> 's \<Rightarrow> ('s \<times> FixMessage gateway_event list) outcome) \<Rightarrow> u64 \<Rightarrow>
     order_manager \<Rightarrow> 's \<Rightarrow> ('s \<times> FixMessage gateway_event list) outcome" where
  "onLogon q m_processor now om s =
     bind_out (m_processor Logged_on s) (\<lambda>(s', es).
       bind_out (Mass_order_status q now om) (\<lambda>es'. Inr (s', es @ es')))"

end
