(* ===== verification/Globex.thy ===== *)
theory Globex
  imports Fix_Manager
begin

text \<open>
  The gateway to CME Globex (cme/exchange/globex_communicator.cc): orders of the strategies
  become FIX orders, reports of the exchange become orders and fills for the strategies, and the
  start waits for the state of every initial order.
\<close>

section \<open>Conversions\<close>

definition Convert_tif_to :: "TimeInForce \<Rightarrow> char outcome" where
  "Convert_tif_to t =
     (case t of TIF_FAK \<Rightarrow> Inr CHR ''3'' | TIF_FOK \<Rightarrow> Inr CHR ''3'' | TIF_GFD \<Rightarrow> Inr CHR ''0''
      | TIF_GTC \<Rightarrow> Inr CHR ''1'' | TIF_None \<Rightarrow> Inl (InvalidOrder ''invalid tif''))"

definition Convert_tif_from :: "char \<Rightarrow> TimeInForce" where
  "Convert_tif_from c =
     (if c = CHR ''0'' then TIF_GFD else if c = CHR ''3'' then TIF_FAK
      else if c = CHR ''1'' then TIF_GTC else TIF_None)"

definition Convert_order_type_to :: "OrderType \<Rightarrow> char outcome" where
  "Convert_order_type_to t =
     (case t of OT_Limit \<Rightarrow> Inr CHR ''2'' | OT_Market \<Rightarrow> Inr CHR ''1''
      | OT_None \<Rightarrow> Inl (InvalidOrder ''invalid order type''))"

definition Convert_order_type_from :: "char \<Rightarrow> OrderType" where
  "Convert_order_type_from c =
     (if c = CHR ''2'' then OT_Limit else if c = CHR ''1'' then OT_Market else OT_None)"

definition Convert_buy_sell_to :: "BuySell \<Rightarrow> char outcome" where
  "Convert_buy_sell_to bs =
     (case bs of BS_Buy \<Rightarrow> Inr CHR ''1'' | BS_Sell \<Rightarrow> Inr CHR ''2''
      | BS_None \<Rightarrow> Inl (InvalidOrder ''invalid buy sell type''))"

definition Convert_buy_sell_from :: "char \<Rightarrow> BuySell" where
  "Convert_buy_sell_from c =
     (if c = CHR ''1'' then BS_Buy else if c = CHR ''2'' then BS_Sell else BS_None)"

definition Convert_order_status :: "char \<Rightarrow> OrderStatus" where
  "Convert_order_status c =
     (if c = CHR ''0'' then OS_Pending else if c = CHR ''1'' then OS_Working
      else if c = CHR ''2'' then OS_Filled else if c = CHR ''4'' then OS_Pending
      else if c = CHR ''5'' then OS_Pending else if c = CHR ''8'' then OS_Rejected
      else if c = CHR ''C'' then OS_Cancelled else if c = CHR ''H'' then OS_Cancelled
      else OS_None)"

section \<open>Orders\<close>

text \<open>An absent field is converted to 0 without an exception.\<close>

definition convert_present :: "('a \<Rightarrow> char outcome) \<Rightarrow> 'a option \<Rightarrow> char outcome" where
  "convert_present f x = (case x of None \<Rightarrow> Inr CHR 0x00 | Some v \<Rightarrow> f v)"

definition globex_Create_order :: "ems_order \<Rightarrow> cme_order outcome" where
  "globex_Create_order ord =
     bind_out (convert_present Convert_buy_sell_to (p_buy_sell ord)) (\<lambda>side.
     bind_out (lift_res (stod (get '''' (p_price ord)))) (\<lambda>price.
     bind_out (convert_present Convert_tif_to (p_tif ord)) (\<lambda>time_in_force.
     bind_out (convert_present Convert_order_type_to (p_order_type ord)) (\<lambda>order_type.
     Inr \<lparr>o_symbol = get '''' (p_contract ord), o_security_desc = get '''' (p_contract ord),
       o_cl_order_id = get '''' (p_client_order_id ord), o_side = side, o_order_type = order_type,
       o_order_qty = get 0 (p_quantity ord), o_px = price, o_time_in_force = time_in_force,
       o_min_qty = (if get TIF_None (p_tif ord) = TIF_FOK then get 0 (p_quantity ord)
                    else if get TIF_None (p_tif ord) = TIF_FAK then 1 else 0),
       o_order_id = get '''' (p_exchange_order_id ord),
       o_orig_cl_order_id = get '''' (p_client_order_id ord)\<rparr>))))"

text \<open>The first 20 bytes and the byte after them are read whatever the size.\<close>

definition Create_mass_order :: "string \<Rightarrow> cme_mass_order outcome" where
  "Create_mass_order data =
     (if length data < 21 then Inl (Thrown Undefined_behaviour)
      else
        let id = take 20 data; name = drop 21 data in
        Inr (MassOrder_new\<lparr>mo_cl_order_id := id, mo_action_type := 3, mo_action_scope := 1,
          mo_status_req_id := id, mo_status_req_type := of_char (data ! 20) - 48,
          mo_security_desc := name, mo_symbol := name\<rparr>))"

section \<open>State and requests\<close>

record globex =
  m_init_orders :: "ems_order list"
  m_order_manager :: order_manager

type_synonym globex_result = "(globex \<times> FixMessage gateway_event list) outcome"

definition globex_sent :: "globex \<Rightarrow> FixMessage gateway_event list outcome \<Rightarrow> globex_result" where
  "globex_sent g r = bind_out r (\<lambda>es. Inr (g, es))"

definition globex_Add :: "quickfix \<Rightarrow> ems_order \<Rightarrow> globex \<Rightarrow> globex_result" where
  "globex_Add q ord g =
     bind_out (globex_Create_order ord)
       (\<lambda>order_d. globex_sent g (sendNewOrderSingleRequest q (m_order_manager g) order_d))"

definition globex_Change :: "quickfix \<Rightarrow> ems_order \<Rightarrow> globex \<Rightarrow> globex_result" where
  "globex_Change q ord g =
     bind_out (globex_Create_order ord)
       (\<lambda>order_g. globex_sent g (sendOrderCancelReplaceRequest q (m_order_manager g) order_g))"

definition globex_Delete :: "quickfix \<Rightarrow> ems_order \<Rightarrow> globex \<Rightarrow> globex_result" where
  "globex_Delete q ord g =
     bind_out (globex_Create_order ord)
       (\<lambda>order_f. globex_sent g (sendOrderCancelRequest q (m_order_manager g) order_f))"

definition globex_Query :: "quickfix \<Rightarrow> ems_order \<Rightarrow> globex \<Rightarrow> globex_result" where
  "globex_Query q ord g =
     bind_out (globex_Create_order ord)
       (\<lambda>order_h. globex_sent g (sendOrderStatusRequest q (m_order_manager g) order_h))"

definition globex_Query_mass :: "quickfix \<Rightarrow> string \<Rightarrow> globex \<Rightarrow> globex_result" where
  "globex_Query_mass q data g =
     bind_out (Create_mass_order data)
       (\<lambda>mo. globex_sent g (sendOrderMassStatusRequest q (m_order_manager g) mo))"

definition globex_Delete_mass :: "quickfix \<Rightarrow> string \<Rightarrow> globex \<Rightarrow> globex_result" where
  "globex_Delete_mass q data g =
     bind_out (Create_mass_order data)
       (\<lambda>mo. globex_sent g (sendOrderMassActionRequest q (m_order_manager g) mo))"

definition GlobexCommunicator :: "quickfix \<Rightarrow> (globex, FixMessage) exchangeI" where
  "GlobexCommunicator q =
     \<lparr>ex_Add = globex_Add q, ex_Change = globex_Change q, ex_Delete = globex_Delete q,
      ex_Query = globex_Query q, ex_Query_mass = globex_Query_mass q,
      ex_Delete_mass = globex_Delete_mass q\<rparr>"

section \<open>Reports\<close>

text \<open>\<open>erase\<close> of the first order that \<open>std::find_if\<close> finds.\<close>

fun erase_first :: "string \<Rightarrow> ems_order list \<Rightarrow> ems_order list" where
  "erase_first i [] = []"
| "erase_first i (ord # ords) =
     (if get '''' (p_client_order_id ord) = i then ords else ord # erase_first i ords)"

definition On_order_status_sent :: "string \<Rightarrow> globex \<Rightarrow> globex" where
  "On_order_status_sent i g = g\<lparr>m_init_orders := erase_first i (m_init_orders g)\<rparr>"

definition report_fill :: "quickfix \<Rightarrow> SingleOrderReport \<Rightarrow> ems_fill outcome" where
  "report_fill q r =
     bind_out (To_pb_time (lexical_u32 q) (r_transact_time r)) (\<lambda>fill_time.
     Inr \<lparr>q_fill_id = r_exec_id r, q_fill_price = to_string_double (r_last_px r),
       q_fill_quantity = r_last_qty r, q_account = r_account r,
       q_client_order_id = r_cl_order_id r, q_exchange_order_id = r_order_id r,
       q_contract = r_security_desc r, q_buy_sell = Convert_buy_sell_from (r_side r),
       q_fill_time = fill_time, q_order_flag = None\<rparr>)"

definition report_tif :: "SingleOrderReport \<Rightarrow> TimeInForce" where
  "report_tif r =
     (let tif = Convert_tif_from (r_time_in_force r)
      in if tif = TIF_FAK \<and> r_order_qty r = r_min_qty r then TIF_FOK else tif)"

definition report_order :: "quickfix \<Rightarrow> SingleOrderReport \<Rightarrow> ems_order outcome" where
  "report_order q r =
     bind_out (To_pb_time (lexical_u32 q) (r_transact_time r)) (\<lambda>submit_time.
     Inr (ems_order_default\<lparr>p_client_order_id := Some (r_cl_order_id r),
       p_account := Some (r_account r), p_contract := Some (r_security_desc r),
       p_buy_sell := Some (Convert_buy_sell_from (r_side r)),
       p_price := Some (to_string_double (r_price r)), p_quantity := Some (r_order_qty r),
       p_tif := Some (report_tif r), p_order_type := Some (Convert_order_type_from (r_order_type r)),
       p_exchange_order_id := Some (r_order_id r),
       p_status := Some (Convert_order_status (r_order_status r)),
       p_working_price := Some (to_string_double (r_price r)),
       p_working_quantity := Some (r_leaves_qty r), p_filled_quantity := Some (r_cum_qty r),
       p_message := Some (r_text r), p_submit_time := submit_time\<rparr>))"

definition is_status_answer :: "string \<Rightarrow> SingleOrderReport \<Rightarrow> bool" where
  "is_status_answer t r \<longleftrightarrow> t = ''8'' \<and> r_exec_type r = CHR ''I''"

definition Order_response :: "quickfix \<Rightarrow> ems_codec \<Rightarrow> OrderReport \<Rightarrow> globex \<Rightarrow> globex_result" where
  "Order_response q codec report g =
     (case report of
        Logged_on \<Rightarrow> Inr (g, [])
      | Mass_report _ \<Rightarrow> Inr (g, [])
      | Single_report t r \<Rightarrow>
          if t = ''8'' \<and> r_order_status r = CHR ''H'' then Inr (g, [])
          else if t = ''8'' \<and> (r_order_status r = CHR ''1'' \<or> r_order_status r = CHR ''2'')
          then bind_out (report_fill q r) (\<lambda>fill. Inr (g, [strategy_OnFill codec fill]))
          else
            bind_out (report_order q r) (\<lambda>ord.
              Inr (if is_status_answer t r then On_order_status_sent (r_cl_order_id r) g else g,
                   [strategy_OnOrder codec ord])))"

text \<open>The gateway as the callbacks of QuickFIX drive it: \<open>fromApp\<close> (and \<open>fromAdmin\<close>) with
  \<open>Order_response\<close> as the callback of the order manager.\<close>

definition globex_fromApp :: "quickfix \<Rightarrow> ems_codec \<Rightarrow> FixMessage \<Rightarrow> string \<Rightarrow> globex \<Rightarrow> globex_result" where
  "globex_fromApp q codec m sid g =
     bind_out (fromApp q (Order_response q codec) m sid (m_order_manager g) g)
       (\<lambda>(om, g', es). Inr (g'\<lparr>m_order_manager := om\<rparr>, es))"

definition globex_onLogon :: "quickfix \<Rightarrow> ems_codec \<Rightarrow> u64 \<Rightarrow> globex \<Rightarrow> globex_result" where
  "globex_onLogon q codec now g = onLogon q (Order_response q codec) now (m_order_manager g) g"

text \<open>\<open>Start\<close> sets the initial orders and then polls until none is left.\<close>

definition globex_Start :: "ems_order list \<Rightarrow> globex \<Rightarrow> globex" where
  "globex_Start init_orders g = g\<lparr>m_init_orders := init_orders\<rparr>"

definition Start_returns :: "globex \<Rightarrow> bool" where
  "Start_returns g \<longleftrightarrow> m_init_orders g = []"

end
