(* ===== verification/Globex_Properties.thy ===== *)
theory Globex_Properties
  imports Globex "HOL-Library.Multiset"
begin

text \<open>
  What the CME gateway promises: requests are answered, orders come back from the exchange as
  they were sent, the start waits for the state of every initial order, and a request to resend
  stays within the limit of the exchange.
\<close>

section \<open>Requests\<close>

lemma convert_present_ok:
  "p_bs \<noteq> Some BS_None \<Longrightarrow> \<exists>c. convert_present Convert_buy_sell_to p_bs = Inr c"
  "p_tf \<noteq> Some TIF_None \<Longrightarrow> \<exists>c. convert_present Convert_tif_to p_tf = Inr c"
  "p_ty \<noteq> Some OT_None \<Longrightarrow> \<exists>c. convert_present Convert_order_type_to p_ty = Inr c"
  by (auto simp: convert_present_def Convert_buy_sell_to_def Convert_tif_to_def
      Convert_order_type_to_def split: option.splits BuySell.splits TimeInForce.splits OrderType.splits)

lemma Create_order_cases:
  assumes "strategy_Check_order ord = Inr ()" "length (get '''' (p_price ord)) \<le> 300"
  shows "p_tif ord \<noteq> Some TIF_None \<Longrightarrow> \<exists>o'. globex_Create_order ord = Inr o'"
    and "p_tif ord = Some TIF_None \<Longrightarrow> globex_Create_order ord = Inl (InvalidOrder ''invalid tif'')"
proof -
  obtain price where price: "p_price ord = Some price" "Is_price_valid price"
    using assms(1) by (auto simp: strategy_Check_order_OK)
  then obtain x where x: "stod price = Inr x" using valid_price_readable assms(2) by fastforce
  obtain side where side: "convert_present Convert_buy_sell_to (p_buy_sell ord) = Inr side"
    using assms(1) by (auto simp: strategy_Check_order_OK convert_present_def Convert_buy_sell_to_def)
  obtain ty where ty: "convert_present Convert_order_type_to (p_order_type ord) = Inr ty"
    using assms(1) by (auto simp: strategy_Check_order_OK convert_present_def Convert_order_type_to_def)
  show "\<exists>o'. globex_Create_order ord = Inr o'" if "p_tif ord \<noteq> Some TIF_None"
    using that price x side ty
    by (auto simp: globex_Create_order_def convert_present_def [of Convert_tif_to] Convert_tif_to_def
        split: option.splits TimeInForce.splits)
  show "globex_Create_order ord = Inl (InvalidOrder ''invalid tif'')" if "p_tif ord = Some TIF_None"
    using that price x side ty
    by (simp add: globex_Create_order_def convert_present_def [of Convert_tif_to] Convert_tif_to_def)
qed

definition globex_message :: "quickfix \<Rightarrow> request_kind \<Rightarrow> order_manager \<Rightarrow> cme_order \<Rightarrow> FixMessage" where
  "globex_message q k om o' =
     (case k of Add_kind \<Rightarrow> createNewOrderSingle42 q om o'
      | Change_kind \<Rightarrow> createOrderCancelReplaceRequest42 q om o'
      | Query_kind \<Rightarrow> createOrderStatusRequest42 q om o')"

lemma globex_operation:
  "ex_operation (GlobexCommunicator q) k ord g =
     bind_out (globex_Create_order ord)
       (\<lambda>o'. globex_sent g (fix_send q (globex_message q k (m_order_manager g) o')))"
  by (cases k)
    (simp_all add: ex_operation_def GlobexCommunicator_def globex_Add_def globex_Change_def
      globex_Query_def globex_message_def sendNewOrderSingleRequest_def
      sendOrderCancelReplaceRequest_def sendOrderStatusRequest_def)

text \<open>QuickFIX has a session for the ids of the gateway, so that sending does not throw.\<close>

definition session_open :: "quickfix \<Rightarrow> globex \<Rightarrow> bool" where
  "session_open q g \<longleftrightarrow>
     (\<forall>m. header m SenderCompID = Some (m_sender_comp_id (m_order_manager g)) \<longrightarrow>
          header m TargetCompID = Some (m_target_comp_id (m_order_manager g)) \<longrightarrow>
          (\<exists>b. sendToTarget q m = Inr b))"

lemma header_setHeader:
  "header (setHeader om m) SenderCompID = Some (m_sender_comp_id om)"
  "header (setHeader om m) TargetCompID = Some (m_target_comp_id om)"
  by (simp_all add: setHeader_def)

lemma fix_send_open:
  "session_open q g \<Longrightarrow> fix_send q (setHeader (m_order_manager g) m) =
     Inr [Sent (setHeader (m_order_manager g) m)]"
  using header_setHeader [of "m_order_manager g" m]
  unfolding session_open_def fix_send_def by (metis bind_out_simps(2))

lemma globex_message_sent:
  "session_open q g \<Longrightarrow>
     fix_send q (globex_message q k (m_order_manager g) o') =
       Inr [Sent (globex_message q k (m_order_manager g) o')]"
  by (cases k)
    (simp_all add: globex_message_def createNewOrderSingle42_def
      createOrderCancelReplaceRequest42_def createOrderStatusRequest42_def fix_send_open)

definition readable_length :: "ems_order \<Rightarrow> bool" where
  "readable_length ord \<longleftrightarrow> length (get '''' (p_price ord)) \<le> 300"

definition globex_sends :: "quickfix \<Rightarrow> request_kind \<Rightarrow> ems_order \<Rightarrow> globex \<Rightarrow> FixMessage \<Rightarrow> bool" where
  "globex_sends q k ord g x \<longleftrightarrow>
     (\<exists>o'. globex_Create_order ord = Inr o' \<and> x = globex_message q k (m_order_manager g) o')"

interpretation cme: exchange_port "GlobexCommunicator q" "session_open q" readable_length
    "\<lambda>ord. p_tif ord \<noteq> Some TIF_None" "globex_sends q" for q
proof
  fix g ord k
  assume *: "session_open q g" "strategy_Check_order ord = Inr ()" "readable_length ord"
  show "\<exists>x. globex_sends q k ord g x \<and> ex_operation (GlobexCommunicator q) k ord g = Inr (g, [Sent x])"
    if "p_tif ord \<noteq> Some TIF_None"
    using Create_order_cases(1) [OF *(2) _ that] *(1,3)
    by (auto simp: readable_length_def globex_sends_def globex_operation globex_sent_def globex_message_sent)
  show "\<exists>why. ex_operation (GlobexCommunicator q) k ord g = Inl (InvalidOrder why)"
    if "\<not> p_tif ord \<noteq> Some TIF_None"
    using Create_order_cases(2) [OF *(2)] that *(3) by (simp add: readable_length_def globex_operation)
qed

text \<open>
  Claim C31: a request to add, change or query an order that is readable, passes the check and
  names a time in force sends exactly one FIX message to the exchange, the one of that kind for
  that order; every other such request is answered by exactly one rejected order to the
  strategies.  Nothing else is emitted, nothing is thrown and the gateway is unchanged, as long
  as the session exists and the price has at most 300 characters.
\<close>
theorem strategy_requests_are_answered:
  assumes "session_open q g"
    and "\<And>ord. ParseFromArray codec data = Some ord \<Longrightarrow> readable_length ord"
  shows "if \<exists>ord. ParseFromArray codec data = Some ord \<and> strategy_Check_order ord = Inr () \<and>
             p_tif ord \<noteq> Some TIF_None
         then \<exists>ord o'. ParseFromArray codec data = Some ord \<and> globex_Create_order ord = Inr o' \<and>
             Order_request codec (GlobexCommunicator q) (request_letter k # data) g =
               Inr (g, [Sent (globex_message q k (m_order_manager g) o')])
         else \<exists>why. Order_request codec (GlobexCommunicator q) (request_letter k # data) g =
             Inr (g, [Reject_order codec
               (rejected (get ems_order_default (ParseFromArray codec data)) why)])"
proof (cases "\<exists>ord. ParseFromArray codec data = Some ord \<and> strategy_Check_order ord = Inr () \<and>
    p_tif ord \<noteq> Some TIF_None")
  case True
  then obtain ord where ord: "ParseFromArray codec data = Some ord"
    "strategy_Check_order ord = Inr ()" "p_tif ord \<noteq> Some TIF_None" by blast
  have "\<exists>x. globex_sends q k ord g x \<and>
      Order_request codec (GlobexCommunicator q) (request_letter k # data) g = Inr (g, [Sent x])"
    by (rule cme.request_accepted [OF assms(1) ord(1) assms(2) [OF ord(1)] ord(3,2)])
  then show ?thesis unfolding if_P [OF True] globex_sends_def using ord(1) by blast
next
  case False
  have "\<exists>why. Order_request codec (GlobexCommunicator q) (request_letter k # data) g =
      Inr (g, [Reject_order codec
        (rejected (get ems_order_default (ParseFromArray codec data)) why)])"
    by (rule cme.request_rejected [OF assms]) (use False in blast)+
  then show ?thesis by (simp only: if_not_P [OF False])
qed

section \<open>Sample QuickFIX\<close>

text \<open>Conversions for whole numbers, for the witnesses.\<close>

definition read_digits :: "string \<Rightarrow> int" where
  "read_digits s = digits_value (fst (span_digits s))"

definition sample_quickfix :: quickfix where
  "sample_quickfix = \<lparr>char_text = (\<lambda>c. [c]), text_char = (\<lambda>s. if length s = 1 then Some (hd s) else None),
     int_text = show_digits, text_int = (\<lambda>s. Some (read_digits s)),
     double_text = (\<lambda>x. show_digits \<lfloor>x\<rfloor>), text_double = (\<lambda>s. Some (of_int (read_digits s))),
     lexical_u64 = (\<lambda>s. Some (word_of_int (read_digits s))),
     lexical_u32 = (\<lambda>s. Some (word_of_int (read_digits s))),
     utc_now = ''20200102-03:04:05.678'', unsupported_type = (\<lambda>t. False),
     sendToTarget = (\<lambda>m. Inr True)\<rparr>"

definition sample_manager :: order_manager where
  "sample_manager = \<lparr>m_target_comp_id = ''CME'', m_target_sub_id = ''G'', m_sender_comp_id = ''ME'',
     m_sender_sub_id = ''X'', m_sender_location_id = ''CN'', m_raw_data = ''pw'',
     m_raw_data_length = ''2'', m_app_name = ''fix'', m_trading_ver = ''1'', m_app_vendor = ''fh'',
     m_account = ''acc'', m_manual_flag = False, m_security_type = ''FUT'', m_customer_flag = 1,
     m_cti_code = ''4'', m_current_received_seq = Map.empty\<rparr>"

definition sample_globex :: globex where
  "sample_globex = \<lparr>m_init_orders = [], m_order_manager = sample_manager\<rparr>"

text \<open>A codec under which every message is the same order.\<close>

definition sample_order :: ems_order where
  "sample_order = ems_order_default\<lparr>p_client_order_id := Some ''A1'', p_contract := Some ''1EHV8'',
     p_buy_sell := Some BS_Buy, p_price := Some ''398'', p_quantity := Some 20, p_tif := Some TIF_GFD,
     p_order_type := Some OT_Limit\<rparr>"

definition sample_codec :: "ems_order \<Rightarrow> ems_codec" where
  "sample_codec ord = \<lparr>ParseFromArray = (\<lambda>s. Some ord),
     order_SerializeAsString = (\<lambda>ord. get '''' (p_client_order_id ord) @ get '''' (p_message ord)),
     fill_SerializeAsString = q_fill_id\<rparr>"

lemma sample_session [simp]: "session_open sample_quickfix g"
  unfolding session_open_def sample_quickfix_def by simp blast

lemma sample_parse [simp]: "ParseFromArray (sample_codec ord) s = Some ord"
  by (simp add: sample_codec_def)

lemma sample_order_checked: "strategy_Check_order sample_order = Inr ()" "readable_length sample_order"
  by (simp_all add: sample_order_def strategy_Check_order_OK Is_price_valid_def is_digit_def
      digit_value_def readable_length_def ems_order_default_def)

lemma strategy_requests_are_answered_witness:
  "(\<exists>o'. globex_Create_order sample_order = Inr o' \<and>
     Order_request (sample_codec sample_order) (GlobexCommunicator sample_quickfix) ''1abc'' sample_globex =
       Inr (sample_globex, [Sent (createNewOrderSingle42 sample_quickfix sample_manager o')])) \<and>
   (\<exists>why. Order_request (sample_codec (sample_order\<lparr>p_price := Some ''3x8''\<rparr>))
       (GlobexCommunicator sample_quickfix) ''1abc'' sample_globex =
     Inr (sample_globex, [Published (''OA1'' @ why)]))"
proof -
  let ?bad = "sample_order\<lparr>p_price := Some ''3x8''\<rparr>"
  have good: "\<exists>ord. ParseFromArray (sample_codec sample_order) ''abc'' = Some ord \<and>
      strategy_Check_order ord = Inr () \<and> p_tif ord \<noteq> Some TIF_None"
    by (simp add: sample_order_checked) (simp add: sample_order_def)
  have bad: "\<not> (\<exists>ord. ParseFromArray (sample_codec ?bad) ''abc'' = Some ord \<and>
      strategy_Check_order ord = Inr () \<and> p_tif ord \<noteq> Some TIF_None)"
    by (simp add: sample_order_def strategy_Check_order_OK Is_price_valid_def is_digit_def
      digit_value_def)
  have short: "readable_length ?bad" by (simp add: readable_length_def)
  note accepted = strategy_requests_are_answered [of sample_quickfix sample_globex
      "sample_codec sample_order" "''abc''" Add_kind, unfolded if_P [OF good]]
  note refused = strategy_requests_are_answered [of sample_quickfix sample_globex
      "sample_codec ?bad" "''abc''" Add_kind, unfolded if_not_P [OF bad]]
  have pub: "Reject_order (sample_codec ?bad) (rejected ?bad why) =
      (Published (''OA1'' @ why) :: FixMessage gateway_event)" for why
    by (simp add: Reject_order_def rejected_def sample_codec_def sample_order_def)
  have man: "m_order_manager sample_globex = sample_manager" by (simp add: sample_globex_def)
  show ?thesis
    using accepted refused short sample_order_checked(2)
    by (simp add: request_letter_def globex_message_def pub man)
qed

text \<open>
  A request to cancel an order is not checked ("so that it succeeds"), and it reads
  the price all the same: a cancel request with a readable price is sent, and one without a
  price, which needs none, ends in an exception that is not caught.
\<close>
theorem cancel_needs_a_price:
  assumes "session_open q g" "ParseFromArray codec data = Some ord"
    and "p_buy_sell ord \<noteq> Some BS_None" "p_tif ord \<noteq> Some TIF_None" "p_order_type ord \<noteq> Some OT_None"
  shows "Order_request codec (GlobexCommunicator q) (CHR ''2'' # data) g =
      (case stod (get '''' (p_price ord)) of
         Inl e \<Rightarrow> Inl (Thrown e)
       | Inr x \<Rightarrow> Inr (g, [Sent (createOrderCancelRequest42 q (m_order_manager g)
                            (projr (globex_Create_order ord)))])) \<and>
    (p_price ord = None \<longrightarrow>
      Order_request codec (GlobexCommunicator q) (CHR ''2'' # data) g =
        Inl (Thrown (Invalid_argument ''stod'')))"
proof -
  obtain side where side: "convert_present Convert_buy_sell_to (p_buy_sell ord) = Inr side"
    using convert_present_ok(1) [OF assms(3)] by blast
  obtain tf where tf: "convert_present Convert_tif_to (p_tif ord) = Inr tf"
    using convert_present_ok(2) [OF assms(4)] by blast
  obtain ty where ty: "convert_present Convert_order_type_to (p_order_type ord) = Inr ty"
    using convert_present_ok(3) [OF assms(5)] by blast
  have send: "fix_send q (createOrderCancelRequest42 q (m_order_manager g) o') =
      Inr [Sent (createOrderCancelRequest42 q (m_order_manager g) o')]" for o'
    by (simp add: createOrderCancelRequest42_def fix_send_open assms(1))
  have all: "Order_request codec (GlobexCommunicator q) (CHR ''2'' # data) g =
    (case stod (get '''' (p_price ord)) of
       Inl e \<Rightarrow> Inl (Thrown e)
     | Inr x \<Rightarrow> Inr (g, [Sent (createOrderCancelRequest42 q (m_order_manager g)
                          (projr (globex_Create_order ord)))]))"
    by (cases "stod (get '''' (p_price ord))")
      (simp_all add: Order_request_def with_order_def strategy_Create_order_def assms(2)
        GlobexCommunicator_def globex_Delete_def globex_Create_order_def side tf ty globex_sent_def
        sendOrderCancelRequest_def send catch_InvalidOrder_def)
  have "stod '''' = Inl (Invalid_argument ''stod'')"
    by (simp add: stod_def read_sign_def)
  then show ?thesis unfolding all by simp
qed

lemma cancel_needs_a_price_witness:
  "Order_request (sample_codec (sample_order\<lparr>p_price := None\<rparr>)) (GlobexCommunicator sample_quickfix)
     ''2abc'' sample_globex = Inl (Thrown (Invalid_argument ''stod''))"
  by (rule cancel_needs_a_price [of sample_quickfix sample_globex _ _ "sample_order\<lparr>p_price := None\<rparr>",
        THEN conjunct2, THEN mp])
    (simp_all, simp_all add: sample_order_def)

section \<open>Orders come back as they were sent\<close>

text \<open>How QuickFIX writes and reads values: characters and whole numbers up to 15 digits survive.\<close>

definition quickfix_laws :: "quickfix \<Rightarrow> bool" where
  "quickfix_laws q \<longleftrightarrow>
     (\<forall>c. text_char q (char_text q c) = Some c) \<and>
     (\<forall>n. 0 \<le> n \<longrightarrow> n < 10 ^ 15 \<longrightarrow> double_text q (of_int n) \<noteq> [] \<and>
        text_double q (double_text q (of_int n)) = Some (of_int n) \<and>
        lexical_u64 q (double_text q (of_int n)) = Some (word_of_int n)) \<and>
     (\<forall>n. 0 \<le> n \<longrightarrow> n < 2 ^ 31 \<longrightarrow> text_int q (int_text q n) = Some n)"

lemma read_show_digits [simp]: "0 \<le> n \<Longrightarrow> read_digits (show_digits n) = n"
  using span_digits_append [of "show_digits n" "[]"] span_show_digits [of n]
  by (simp add: read_digits_def)

lemma sample_quickfix_laws: "quickfix_laws sample_quickfix"
  by (simp add: quickfix_laws_def sample_quickfix_def)

text \<open>The fields of an order message.\<close>

lemma body_setHeader [simp]: "body (setHeader om m) = body m"
  by (simp add: setHeader_def)

lemma body_new_message [simp]: "body (new_message t) = Map.empty"
  by (simp add: new_message_def)

lemma order_message_fields:
  assumes "x = globex_message q k om o'" "k \<noteq> Query_kind"
  shows "body x ClOrdID = Some (o_cl_order_id o')" "body x OrderQty = Some (qty_text q (o_order_qty o'))"
    "body x OrdType = Some (char_text q (o_order_type o'))" "body x Side = Some (char_text q (o_side o'))"
    "body x FIX_TimeInForce = (if o_time_in_force o' \<noteq> CHR 0x00 then Some (char_text q (o_time_in_force o')) else None)"
    "body x MinQty = (if o_min_qty o' \<noteq> 0 then Some (qty_text q (o_min_qty o')) else None)"
    "body x SecurityDesc = Some (o_security_desc o')"
  using assms(2) unfolding assms(1)
  by (cases k; simp add: globex_message_def createNewOrderSingle42_def
      createOrderCancelReplaceRequest42_def body_set_fields map_add_def)+

lemma processOrderResult_fields:
  assumes "processOrderResult q m = Inr r"
  shows "r_cl_order_id r = pick_string ClOrdID m" "r_security_desc r = pick_string SecurityDesc m"
    "pick_char q OrdStatus m = Inr (r_order_status r)" "pick_char q OrdType m = Inr (r_order_type r)"
    "pick_char q Side m = Inr (r_side r)" "pick_char q FIX_TimeInForce m = Inr (r_time_in_force r)"
    "Try_pick_int (lexical_u64 q) MinQty m = Inr (r_min_qty r)" "pick_qty q OrderQty m = Inr (r_order_qty r)"
  using assms by (auto simp: processOrderResult_def bind_out_Inr_iff)

definition order_fields :: "fix_field list" where
  "order_fields = [ClOrdID, OrderQty, OrdType, Side, FIX_TimeInForce, MinQty, SecurityDesc]"

text \<open>The report \<open>m\<close> repeats these fields of the order message \<open>x\<close>, and its order status is \<open>c\<close>.\<close>

definition acknowledges :: "quickfix \<Rightarrow> char \<Rightarrow> FixMessage \<Rightarrow> FixMessage \<Rightarrow> bool" where
  "acknowledges q c x m \<longleftrightarrow>
     msg_type m = ''8'' \<and> pick_char q OrdStatus m = Inr c \<and> (\<forall>f \<in> set order_fields. body m f = body x f)"

lemma word_of_double_of_int:
  assumes "0 \<le> n" "n < 10 ^ 15"
  shows "double_of_int n = of_int n" "trunc_rat (of_int n) = n"
proof -
  have "n < 2 ^ 53" using assms(2) by simp
  then show "double_of_int n = of_int n" by (simp add: double_of_int_def rnd_small_int assms(1))
  show "trunc_rat (of_int n) = n" using assms(1) by (simp add: trunc_rat_def)
qed

lemma echoed_quantity:
  assumes "quickfix_laws q" "uint n < 10 ^ 15" "body m f = Some (qty_text q n)"
  shows "pick_qty q f m = Inr n" "Try_pick_int (lexical_u64 q) f m = Inr n"
proof -
  define i where "i = uint n"
  have n: "n = word_of_int i" and i: "0 \<le> i" "i < 10 ^ 15"
    using assms(2) by (simp_all add: i_def)
  have t: "double_text q (of_int i) \<noteq> []" "text_double q (double_text q (of_int i)) = Some (of_int i)"
    "lexical_u64 q (double_text q (of_int i)) = Some (word_of_int i)"
    using assms(1) i by (simp_all add: quickfix_laws_def)
  have b: "body m f = Some (double_text q (of_int i))"
    using assms(3) word_of_double_of_int(1) [OF i] by (simp add: qty_text_def i_def)
  show "pick_qty q f m = Inr n"
    using word_of_double_of_int(2) [OF i] by (simp add: pick_qty_def pick_def b t n)
  show "Try_pick_int (lexical_u64 q) f m = Inr n"
    by (simp add: Try_pick_int_def b t n)
qed

lemma echoed_char:
  "quickfix_laws q \<Longrightarrow> body m f = Some (char_text q c) \<Longrightarrow> pick_char q f m = Inr c"
  by (simp add: pick_char_def pick_def quickfix_laws_def)

text \<open>The report read from a message that acknowledges the message of an order.\<close>

lemma acknowledged_report:
  assumes "quickfix_laws q" "acknowledges q c (globex_message q k om o') m" "k \<noteq> Query_kind"
    and "uint (o_order_qty o') < 10 ^ 15" "uint (o_min_qty o') < 10 ^ 15"
    and "processOrderResult q m = Inr r"
  shows "r_cl_order_id r = o_cl_order_id o'" "r_security_desc r = o_security_desc o'"
    "r_order_status r = c" "r_order_type r = o_order_type o'" "r_side r = o_side o'"
    "r_time_in_force r = o_time_in_force o'" "r_min_qty r = o_min_qty o'" "r_order_qty r = o_order_qty o'"
proof -
  have ack: "body m f = body (globex_message q k om o') f" if "f \<in> set order_fields" for f
    using assms(2) that by (simp add: acknowledges_def)
  note b = ack [unfolded order_fields_def]
  note f = order_message_fields [OF refl assms(3), of q om o']
  note p = processOrderResult_fields [OF assms(6)]
  show "r_cl_order_id r = o_cl_order_id o'" "r_security_desc r = o_security_desc o'"
    using p(1,2) by (simp_all add: pick_string_def b f)
  show "r_order_status r = c" using p(3) assms(2) by (simp add: acknowledges_def)
  show "r_order_type r = o_order_type o'"
    using p(4) echoed_char [OF assms(1), of m OrdType "o_order_type o'"] by (simp add: b f)
  show "r_side r = o_side o'"
    using p(5) echoed_char [OF assms(1), of m Side "o_side o'"] by (simp add: b f)
  show "r_time_in_force r = o_time_in_force o'"
    using p(6) echoed_char [OF assms(1), of m FIX_TimeInForce "o_time_in_force o'"]
    by (cases "o_time_in_force o' = CHR 0x00") (simp_all add: b f pick_char_def pick_def)
  show "r_min_qty r = o_min_qty o'"
    using p(7) echoed_quantity(2) [OF assms(1,5), of m MinQty]
    by (cases "o_min_qty o' = 0") (simp_all add: b f Try_pick_int_def)
  show "r_order_qty r = o_order_qty o'"
    using p(8) echoed_quantity(1) [OF assms(1,4), of m OrderQty] by (simp add: b f)
qed

text \<open>The time in force a strategy reads back: fill-and-kill and fill-or-kill are told apart by the
  minimum quantity alone.\<close>

definition tif_read_back :: "TimeInForce \<Rightarrow> u64 \<Rightarrow> TimeInForce" where
  "tif_read_back t n = (if t = TIF_FAK \<and> n = 1 then TIF_FOK else t)"


definition sample_fak :: ems_order where
  "sample_fak = sample_order\<lparr>p_quantity := Some 1, p_tif := Some TIF_FAK\<rparr>"

definition sample_report :: "char \<Rightarrow> char \<Rightarrow> FixMessage" where
  "sample_report exec c = set_header MsgSeqNum ''7'' (set_fields
     [(ClOrdID, ''A1''), (OrderQty, ''1''), (OrdType, ''2''), (Side, ''1''), (FIX_TimeInForce, ''3''),
      (MinQty, ''1''), (SecurityDesc, ''1EHV8''), (ExecType, [exec]), (OrdStatus, [c])]
     (new_message ''8''))"

lemma read_1 [simp]: "read_digits ''1'' = 1"
  by (simp add: read_digits_def digit_value_def digits_value_def)

lemma show_1 [simp]: "show_digits 1 = ''1''"
  by (subst show_digits.simps) (simp add: char_of_def)

lemma sample_picks [simp]:
  "pick_char sample_quickfix ExecType (sample_report e c) = Inr e"
  "pick_char sample_quickfix OrdStatus (sample_report e c) = Inr c"
  "pick_char sample_quickfix OrdType (sample_report e c) = Inr CHR ''2''"
  "pick_char sample_quickfix Side (sample_report e c) = Inr CHR ''1''"
  "pick_char sample_quickfix CxlRejResponseTo (sample_report e c) = Inr CHR 0x00"
  "pick_char sample_quickfix FIX_TimeInForce (sample_report e c) = Inr CHR ''3''"
  "Try_pick_int (lexical_u64 sample_quickfix) MinQty (sample_report e c) = Inr 1"
  "pick_qty sample_quickfix CumQty (sample_report e c) = Inr 0"
  "pick_qty sample_quickfix LeavesQty (sample_report e c) = Inr 0"
  "pick_qty sample_quickfix OrderQty (sample_report e c) = Inr 1"
  "pick_double sample_quickfix FIX_Price (sample_report e c) = Inr 0"
  "pick_double sample_quickfix LastPx (sample_report e c) = Inr 0"
  "Try_pick_int (lexical_u64 sample_quickfix) LastQty (sample_report e c) = Inr 0"
  "Try_pick_int (lexical_u32 sample_quickfix) OrdRejReason (sample_report e c) = Inr 0"
  "Try_pick_int (lexical_u32 sample_quickfix) BusinessRejectReason (sample_report e c) = Inr 0"
  "pick_string TransactTime (sample_report e c) = ''''"
  "pick_string ClOrdID (sample_report e c) = ''A1''"
  "msg_type (sample_report e c) = ''8''" "header (sample_report e c) MsgSeqNum = Some ''7''"
  by (simp_all add: sample_report_def pick_char_def pick_qty_def pick_double_def pick_def
      Try_pick_int_def pick_string_def sample_quickfix_def new_message_def trunc_rat_def)

lemma sample_report_read:
  "\<exists>r. processOrderResult sample_quickfix (sample_report e c) = Inr r \<and> r_exec_type r = e \<and>
     r_order_status r = c \<and> r_transact_time r = '''' \<and> r_cl_order_id r = ''A1''"
  by (cases "e = CHR ''I''") (simp_all add: processOrderResult_def)

lemma text_int_7: "text_int sample_quickfix ''7'' = Some 7"
  by (simp add: sample_quickfix_def read_digits_def digit_value_def digits_value_def)

lemma sample_fak_checked:
  "strategy_Check_order sample_fak = Inr ()" "readable_length sample_fak"
  "p_tif sample_fak = Some TIF_FAK" "p_quantity sample_fak = Some 1"
  using sample_order_checked
  by (simp_all add: sample_fak_def strategy_Check_order_OK readable_length_def)

lemma sample_acknowledges:
  assumes "globex_Create_order sample_fak = Inr o'"
  shows "acknowledges sample_quickfix c (globex_message sample_quickfix Add_kind om o') (sample_report e c)"
proof -
  have o': "o_cl_order_id o' = ''A1''" "o_order_qty o' = 1" "o_order_type o' = CHR ''2''"
    "o_side o' = CHR ''1''" "o_time_in_force o' = CHR ''3''" "o_min_qty o' = 1"
    "o_security_desc o' = ''1EHV8''"
    using assms
    by (auto simp: globex_Create_order_def bind_out_Inr_iff sample_fak_def sample_order_def
        convert_present_def Convert_buy_sell_to_def Convert_tif_to_def Convert_order_type_to_def)
  have one: "qty_text sample_quickfix 1 = ''1''"
    using word_of_double_of_int(1) [of 1] by (simp add: qty_text_def sample_quickfix_def)
  have ch: "char_text sample_quickfix ch = [ch]" for ch by (simp add: sample_quickfix_def)
  show ?thesis
    using order_message_fields [OF refl, of Add_kind sample_quickfix om o']
    by (simp add: acknowledges_def order_fields_def o' one ch) (simp add: sample_report_def)
qed


section \<open>Start\<close>

text \<open>The gateway handles the messages of a session one after the other.\<close>

fun receive_all ::
    "quickfix \<Rightarrow> ems_codec \<Rightarrow> string \<Rightarrow> FixMessage list \<Rightarrow> globex \<Rightarrow> globex_result" where
  "receive_all q codec sid [] g = Inr (g, [])"
| "receive_all q codec sid (m # ms) g =
     bind_out (globex_fromApp q codec m sid g) (\<lambda>(g', es).
       bind_out (receive_all q codec sid ms g') (\<lambda>(g'', es'). Inr (g'', es @ es')))"

text \<open>The ids that a message settles: the one of a status report, unless its order is partially
  filled, filled or cancelled by the exchange after a trade.\<close>

definition settles :: "quickfix \<Rightarrow> FixMessage \<Rightarrow> string list" where
  "settles q m =
     (case cracked q m of
        Inr (Some (Single_report t r)) \<Rightarrow>
          if is_status_answer t r \<and> r_order_status r \<notin> {CHR ''1'', CHR ''2'', CHR ''H''}
          then [r_cl_order_id r] else []
      | _ \<Rightarrow> [])"

definition order_ids :: "ems_order list \<Rightarrow> string multiset" where
  "order_ids ords = mset (map (\<lambda>ord. get '''' (p_client_order_id ord)) ords)"

lemma order_ids_erase_first: "order_ids (erase_first i ords) = order_ids ords - {#i#}"
  by (induction ords) (auto simp: order_ids_def)

lemma Order_response_settles:
  assumes "Order_response q codec report g = Inr (g', es)" "cracked q m = Inr (Some report)"
  shows "order_ids (m_init_orders g') = order_ids (m_init_orders g) - mset (settles q m)"
proof (cases report)
  case (Single_report t r)
  show ?thesis
  proof (cases "is_status_answer t r \<and> r_order_status r \<notin> {CHR ''1'', CHR ''2'', CHR ''H''}")
    case True
    then show ?thesis using assms Single_report
      by (auto simp: Order_response_def settles_def bind_out_Inr_iff On_order_status_sent_def
          order_ids_erase_first is_status_answer_def)
  next
    case False
    then have none: "settles q m = []" using assms(2) Single_report by (auto simp: settles_def)
    have "m_init_orders g' = m_init_orders g"
      using False assms(1) Single_report
      by (auto simp: Order_response_def bind_out_Inr_iff is_status_answer_def split: if_splits)
    then show ?thesis by (simp add: none)
  qed
qed (use assms in \<open>auto simp: Order_response_def settles_def\<close>)

lemma globex_fromApp_settles:
  assumes "globex_fromApp q codec m sid g = Inr (g', es)"
  shows "order_ids (m_init_orders g') = order_ids (m_init_orders g) - mset (settles q m)"
proof -
  obtain rep g1 es1 om where rep: "cracked q m = Inr rep"
    and resp: "(case rep of None \<Rightarrow> Inr (g, []) | Some r \<Rightarrow> Order_response q codec r g) = Inr (g1, es1)"
    and g': "g' = g1\<lparr>m_order_manager := om\<rparr>"
    using assms by (auto simp: globex_fromApp_def fromApp_def crack_def bind_out_Inr_iff)
  show ?thesis
  proof (cases rep)
    case None
    then show ?thesis using resp rep by (simp add: g' settles_def)
  next
    case (Some r)
    then show ?thesis using Order_response_settles [of q codec r g g1 es1 m] resp rep by (simp add: g')
  qed
qed

lemma receive_all_settles:
  "receive_all q codec sid ms g = Inr (g', es) \<Longrightarrow>
     order_ids (m_init_orders g') = order_ids (m_init_orders g) - mset (concat (map (settles q) ms))"
proof (induction ms arbitrary: g es)
  case (Cons m ms)
  then obtain g1 es1 es2 where "globex_fromApp q codec m sid g = Inr (g1, es1)"
    "receive_all q codec sid ms g1 = Inr (g', es2)"
    by (auto simp: bind_out_Inr_iff)
  then show ?case using globex_fromApp_settles [of q codec m sid g g1 es1] Cons.IH [of g1 es2]
    by (simp add: diff_diff_add_mset)
qed simp

text \<open>
  Claim C33: the start returns exactly when every initial order had its state reported, counting
  orders with the same id.  Reports on an order that is partially filled or filled pass as
  fills and do not count, so with such an order among the initial ones the start never returns.
\<close>
theorem start_waits_for_every_state:
  assumes "receive_all q codec sid ms (globex_Start init_orders g) = Inr (g', es)"
  shows "Start_returns g' \<longleftrightarrow> order_ids init_orders \<subseteq># mset (concat (map (settles q) ms))"
proof -
  have "Start_returns g' \<longleftrightarrow> order_ids (m_init_orders g') = {#}"
    by (simp add: Start_returns_def order_ids_def)
  then show ?thesis
    using receive_all_settles [OF assms] by (simp add: globex_Start_def Diff_eq_empty_iff_mset)
qed

lemma start_waits_for_every_state_witness:
  "(\<exists>g' es. receive_all sample_quickfix (sample_codec sample_order) ''s''
      [sample_report CHR ''I'' CHR ''0''] (globex_Start [sample_order] sample_globex) = Inr (g', es) \<and>
      Start_returns g') \<and>
   (\<exists>g' es. receive_all sample_quickfix (sample_codec sample_order) ''s''
      [sample_report CHR ''I'' CHR ''1''] (globex_Start [sample_order] sample_globex) = Inr (g', es) \<and>
      \<not> Start_returns g')"
proof -
  have run: "\<exists>g' es. receive_all sample_quickfix (sample_codec sample_order) ''s''
      [sample_report CHR ''I'' c] (globex_Start [sample_order] sample_globex) = Inr (g', es)"
    if "c \<noteq> CHR ''H''" for c
    using sample_report_read [of "CHR ''I''" c] that
    by (auto simp: globex_fromApp_def fromApp_def crack_def cracked_def Order_response_def
        report_order_def report_fill_def To_pb_time_def setCurrentReceivedSeq_def text_int_7)
  have id: "order_ids [sample_order] = {#''A1''#}"
    by (simp add: order_ids_def sample_order_def)
  have settled: "settles sample_quickfix (sample_report CHR ''I'' c) =
      (if c \<in> {CHR ''1'', CHR ''2'', CHR ''H''} then [] else [''A1''])" for c
    using sample_report_read [of "CHR ''I''" c]
    by (auto simp: settles_def cracked_def is_status_answer_def)
  from run [of "CHR ''0''"] obtain g1 es1 where 1: "receive_all sample_quickfix
      (sample_codec sample_order) ''s'' [sample_report CHR ''I'' CHR ''0'']
      (globex_Start [sample_order] sample_globex) = Inr (g1, es1)" by auto
  from run [of "CHR ''1''"] obtain g2 es2 where 2: "receive_all sample_quickfix
      (sample_codec sample_order) ''s'' [sample_report CHR ''I'' CHR ''1'']
      (globex_Start [sample_order] sample_globex) = Inr (g2, es2)" by auto
  show ?thesis
    using start_waits_for_every_state [OF 1] start_waits_for_every_state [OF 2] 1 2
    by (simp add: id settled)
qed

section \<open>Requests to resend\<close>

text \<open>The last message a resend request asks for: 0 stands for all, up to the last one received.\<close>

definition last_requested :: "quickfix \<Rightarrow> FixMessage \<Rightarrow> int \<Rightarrow> int" where
  "last_requested q m received =
     (case body m EndSeqNo of
        Some t \<Rightarrow> (case text_int q t of Some n \<Rightarrow> if n = 0 then received else n | None \<Rightarrow> received)
      | None \<Rightarrow> received)"

text \<open>
  A resend request for all messages from number b asks, of the messages received so
  far, for at most 2501, and for more than the 2500 the exchange allows exactly when it is 2501:
  the test compares the difference of the first and the last number, not their count.  A request
  that is cut asks for exactly 2500, and none asks beyond what was received.
\<close>
theorem resend_request_within_limit:
  assumes "quickfix_laws q" "body m BeginSeqNo = Some (int_text q b)"
    and "body m EndSeqNo = Some (int_text q 0)" "1 \<le> b" "b \<le> e" "e < 2 ^ 31"
    and "getCurrentReceivedSeq sid om = word_of_int e"
    and "appendResendRequestField q ss om sid m = Inr m'"
  shows "last_requested q m' e - b + 1 \<le> 2501 \<and> last_requested q m' e \<le> e \<and>
    (last_requested q m' e - b + 1 > 2500 \<longleftrightarrow> e - b = 2500) \<and>
    (last_requested q m' e \<noteq> e \<longrightarrow> last_requested q m' e - b + 1 = 2500)"
proof -
  have conv: "text_int q (int_text q n) = Some n" if "0 \<le> n" "n < 2 ^ 31" for n
    using assms(1) that by (simp add: quickfix_laws_def)
  have "sint (word_of_int e :: u32) = e"
    using assms(4-6) by (simp add: sint_sbintrunc' signed_take_bit_int_eq_self)
  then have m': "body m' EndSeqNo =
      (if e - b > 2500 then Some (int_text q (b + 2499)) else body m EndSeqNo)"
    using assms(8) conv [of b] assms(2,4-7)
    by (auto simp: appendResendRequestField_def Let_def bind_out_Inr_iff MAX_RESEND_SIZE_def
        algebra_simps split: if_splits)
  show ?thesis
  proof (cases "e - b > 2500")
    case True
    then have "last_requested q m' e = b + 2499"
      using conv [of "b + 2499"] assms(4,6) by (simp add: last_requested_def m')
    then show ?thesis using True by auto
  next
    case False
    then have "last_requested q m' e = e"
      using conv [of 0] by (simp add: last_requested_def m' assms(3))
    then show ?thesis using False by auto
  qed
qed

definition sample_resend :: FixMessage where
  "sample_resend = set_fields [(BeginSeqNo, int_text sample_quickfix 1), (EndSeqNo, int_text sample_quickfix 0)]
     (new_message ''2'')"

lemma resend_request_within_limit_witness:
  "\<exists>m'. appendResendRequestField sample_quickfix (\<lambda>s. Some \<lparr>getExpectedTargetNum = 1, resendRequested = True\<rparr>)
      (sample_manager\<lparr>m_current_received_seq := [''s'' \<mapsto> 2501]\<rparr>) ''s'' sample_resend = Inr m' \<and>
    last_requested sample_quickfix m' 2501 = 2501"
proof -
  let ?om = "sample_manager\<lparr>m_current_received_seq := [''s'' \<mapsto> 2501]\<rparr>"
  have b: "body sample_resend BeginSeqNo = Some (int_text sample_quickfix 1)"
    "body sample_resend EndSeqNo = Some (int_text sample_quickfix 0)"
    by (simp_all add: sample_resend_def)
  have e: "getCurrentReceivedSeq ''s'' ?om = word_of_int 2501"
    by (simp add: getCurrentReceivedSeq_def)
  have t: "text_int sample_quickfix (int_text sample_quickfix 1) = Some 1"
    using sample_quickfix_laws by (simp add: quickfix_laws_def)
  have s: "sint (word_of_int 2501 :: u32) = 2501"
    by (simp add: sint_sbintrunc' signed_take_bit_int_eq_self)
  obtain m' where m': "appendResendRequestField sample_quickfix
      (\<lambda>s. Some \<lparr>getExpectedTargetNum = 1, resendRequested = True\<rparr>) ?om ''s'' sample_resend = Inr m'"
    unfolding appendResendRequestField_def e s
    by (simp add: b t Is_duplicate_resend_request_def)
  show ?thesis
    using resend_request_within_limit [OF sample_quickfix_laws b _ _ _ e m'] m' by auto
qed

end
