(* ===== verification/Depth_Quotes.thy ===== *)
theory Depth_Quotes
  imports Listener
begin

text \<open>
  The market data gateways of the Chinese exchanges: each turns the depth quotes of its vendor
  library into events of the listener.  The code is written four times: for Femas
  (femas/market/femas_book_manager.cc), REM (rem/market/rem_book_manager.cc), CTP
  (ctp/market/custom_md_spi.cc) and the multicast feed of REM
  (rem/efhmarket/rem_efhmarket_manager.cc).  A quote carries the volume traded since the session
  began; a gateway keeps the last one of each instrument to report the volume in between.
  Strings of the vendor's structs are C strings without the terminator; the days are the raw
  characters of their arrays.  The conversion of a local time to seconds (strptime and mktime,
  in the time zone of the host) is the parameter \<open>str2stmp\<close>.
\<close>

definition DBL_MAX :: double where
  "DBL_MAX = (2 ^ 53 - 1) * 2 ^ 971"

text \<open>One of the five levels of a quote.\<close>

record depth_level =
  BidPrice :: double
  BidVolume :: i32
  AskPrice :: double
  AskVolume :: i32

text \<open>The fields the program reads; \<open>statistics\<close> are the prices it only passes to the database, by
  their names.\<close>

record depth_quote =
  InstrumentID :: string
  TradingDay :: string
  ActionDay :: string
  UpdateTime :: string
  UpdateMillisec :: i32
  LastPrice :: double
  Volume :: i32
  Turnover :: double
  level1 :: depth_level
  level2 :: depth_level
  level3 :: depth_level
  level4 :: depth_level
  level5 :: depth_level
  statistics :: "string \<Rightarrow> double"

section \<open>C strings\<close>

text \<open>The characters up to the terminator, and \<open>strcpy\<close> into an array of \<open>n\<close> characters.\<close>

definition c_string :: "string \<Rightarrow> string" where
  "c_string = takeWhile (\<lambda>c. c \<noteq> CHR 0x00)"

definition strcpy :: "nat \<Rightarrow> string \<Rightarrow> string res" where
  "strcpy n s = (if length s < n then Inr s else Inl Undefined_behaviour)"

section \<open>Traded volumes\<close>

record strade =
  mvolume :: i32
  mtime :: string

type_synonym trade_map = "string \<Rightarrow> strade option"

definition atoi :: "string \<Rightarrow> int" where
  "atoi s =
     (let (neg, s1) = read_sign (dropWhile is_blank s); (ds, _) = span_digits s1
      in if neg then - digits_value ds else digits_value ds)"

text \<open>The hour of a quote is after 18 and the hour of the last one before: a new session.\<close>

definition new_session :: "string \<Rightarrow> string \<Rightarrow> bool" where
  "new_session now before \<longleftrightarrow> 18 < atoi (take 2 now) \<and> atoi (take 2 before) < 18"

definition check_time :: "string \<Rightarrow> i32 \<Rightarrow> strade \<Rightarrow> strade" where
  "check_time time volume s =
     (if new_session time (mtime s) then \<lparr>mvolume = volume, mtime = time\<rparr> else s)"

text \<open>The difference of two \<open>int\<close> is undefined when it overflows.\<close>

definition int_minus :: "i32 \<Rightarrow> i32 \<Rightarrow> int res" where
  "int_minus a b =
     (let d = sint a - sint b
      in if d < - (2 ^ 31) \<or> 2 ^ 31 \<le> d then Inl Undefined_behaviour else Inr d)"

definition price_volume :: "string \<Rightarrow> string \<Rightarrow> i32 \<Rightarrow> trade_map \<Rightarrow> (int \<times> trade_map) res" where
  "price_volume i time volume m =
     (case m i of
        None \<Rightarrow> Inr (0, m(i \<mapsto> \<lparr>mvolume = volume, mtime = time\<rparr>))
      | Some s \<Rightarrow>
          bind_res (int_minus volume (mvolume (check_time time volume s))) (\<lambda>d.
            Inr (if 0 < d then d else 0, m(i \<mapsto> \<lparr>mvolume = volume, mtime = time\<rparr>))))"

definition femas_MakePriceVolume :: "depth_quote \<Rightarrow> trade_map \<Rightarrow> (int \<times> trade_map) res" where
  "femas_MakePriceVolume q = price_volume (InstrumentID q) (UpdateTime q) (Volume q)"

definition rem_MakePriceVolume :: "depth_quote \<Rightarrow> trade_map \<Rightarrow> (int \<times> trade_map) res" where
  "rem_MakePriceVolume q = price_volume (InstrumentID q) (UpdateTime q) (Volume q)"

definition ctp_MakePriceVolume :: "depth_quote \<Rightarrow> trade_map \<Rightarrow> (int \<times> trade_map) res" where
  "ctp_MakePriceVolume q = price_volume (InstrumentID q) (UpdateTime q) (Volume q)"

section \<open>Times\<close>

text \<open>\<open>strncpy\<close> of \<open>n\<close> characters: it stops at a NUL and fills up with NULs.\<close>

definition strncpy :: "string \<Rightarrow> nat \<Rightarrow> string" where
  "strncpy src n =
     (let t = takeWhile (\<lambda>c. c \<noteq> CHR 0x00) (take n src) in t @ replicate (n - length t) CHR 0x00)"

definition date_text :: "string \<Rightarrow> string" where
  "date_text day =
     takeWhile (\<lambda>c. c \<noteq> CHR 0x00)
       (strncpy day 4 @ ''-'' @ strncpy (drop 4 day) 2 @ ''-'' @ strncpy (drop 6 day) 2 @ '' '')"

definition update_time_int :: "(string \<Rightarrow> u64) \<Rightarrow> string \<Rightarrow> string \<Rightarrow> i32 \<Rightarrow> u64" where
  "update_time_int str2stmp day time millisec =
     (str2stmp (date_text day @ time) * 1000 + scast millisec) * 1000 * 1000"

definition femas_GetUpdateTimeInt :: "(string \<Rightarrow> u64) \<Rightarrow> depth_quote \<Rightarrow> u64" where
  "femas_GetUpdateTimeInt str2stmp q =
     update_time_int str2stmp (ActionDay q) (UpdateTime q) (UpdateMillisec q)"

definition rem_GetUpdateTimeInt :: "(string \<Rightarrow> u64) \<Rightarrow> depth_quote \<Rightarrow> u64" where
  "rem_GetUpdateTimeInt str2stmp q =
     update_time_int str2stmp (TradingDay q) (UpdateTime q) (UpdateMillisec q)"

definition ctp_GetUpdateTimeInt :: "(string \<Rightarrow> u64) \<Rightarrow> depth_quote \<Rightarrow> u64" where
  "ctp_GetUpdateTimeInt str2stmp q =
     update_time_int str2stmp (ActionDay q) (UpdateTime q) (UpdateMillisec q)"

definition show_i32 :: "i32 \<Rightarrow> string" where
  "show_i32 w = (if sint w < 0 then ''-'' @ show_digits (- sint w) else show_digits (sint w))"

text \<open>The readable times: Femas and REM know the half second only, CTP pads to three digits.\<close>

definition half_second_text :: "i32 \<Rightarrow> string" where
  "half_second_text millisec = (if millisec = 500 then show_i32 millisec else ''000'') @ ''000''"

definition femas_GetUpdateTimeStr :: "depth_quote \<Rightarrow> string" where
  "femas_GetUpdateTimeStr q =
     date_text (ActionDay q) @ UpdateTime q @ ''.'' @ half_second_text (UpdateMillisec q)"

definition rem_GetUpdateTimeStr :: "depth_quote \<Rightarrow> string" where
  "rem_GetUpdateTimeStr q =
     date_text (TradingDay q) @ UpdateTime q @ ''.'' @ half_second_text (UpdateMillisec q)"

definition ctp_GetUpdateTimeStr :: "depth_quote \<Rightarrow> string" where
  "ctp_GetUpdateTimeStr q =
     date_text (ActionDay q) @ UpdateTime q @ ''.'' @
     (if sint (UpdateMillisec q) < 10 then ''00'' else if sint (UpdateMillisec q) < 100 then ''0'' else '''') @
     show_i32 (UpdateMillisec q) @ ''000''"

section \<open>Events of a quote\<close>

definition no_level :: "double \<Rightarrow> i32 \<Rightarrow> bool" where
  "no_level px volume \<longleftrightarrow> px = DBL_MAX \<or> sint volume \<le> 0"

definition point_of :: "double \<Rightarrow> i32 \<Rightarrow> data_point" where
  "point_of px volume = \<lparr>price = px, dp_size = scast volume\<rparr>"

definition add_bid :: "depth_level \<Rightarrow> data_point list \<Rightarrow> data_point list" where
  "add_bid l ps =
     (if no_level (BidPrice l) (BidVolume l) then ps else ps @ [point_of (BidPrice l) (BidVolume l)])"

definition add_offer :: "depth_level \<Rightarrow> data_point list \<Rightarrow> data_point list" where
  "add_offer l ps =
     (if no_level (AskPrice l) (AskVolume l) then ps else ps @ [point_of (AskPrice l) (AskVolume l)])"

definition quote_levels :: "depth_quote \<Rightarrow> depth_level list" where
  "quote_levels q = [level1 q, level2 q, level3 q, level4 q, level5 q]"

definition quote_bids :: "depth_quote \<Rightarrow> data_point list" where
  "quote_bids q = fold add_bid (quote_levels q) []"

definition quote_offers :: "depth_quote \<Rightarrow> data_point list" where
  "quote_offers q = fold add_offer (quote_levels q) []"

definition best_prices :: "depth_quote \<Rightarrow> market_event list" where
  "best_prices q =
     (let l = level1 q; c = InstrumentID q;
          bid = point_of (BidPrice l) (BidVolume l); ask = point_of (AskPrice l) (AskVolume l)
      in if no_level (BidPrice l) (BidVolume l) \<and> no_level (AskPrice l) (AskVolume l) then []
         else if no_level (BidPrice l) (BidVolume l) then [OnOffer c ask]
         else if no_level (AskPrice l) (AskVolume l) then [OnBid c bid]
         else [OnBBO c bid ask])"

text \<open>An event with the text of the time field of its message, for trades and second-level quotes.\<close>

type_synonym timed_event = "market_event \<times> string"

definition quote_events :: "u64 \<Rightarrow> int \<Rightarrow> depth_quote \<Rightarrow> timed_event list" where
  "quote_events time volume q =
     map (\<lambda>e. (e, '''')) (best_prices q) @
     (if 0 < volume
      then [(OnTrade (InstrumentID q) \<lparr>price = LastPrice q, dp_size = word_of_int volume\<rparr>, to_string_word time)]
      else []) @
     [(OnTurnover (InstrumentID q) (scast (Volume q)) (Turnover q), ''''),
      (OnL2 (InstrumentID q) (quote_bids q) (quote_offers q), to_string_word time)]"

text \<open>\<open>None\<close> is a null pointer.\<close>

definition SendFemasmarketData ::
    "(string \<Rightarrow> u64) \<Rightarrow> depth_quote option \<Rightarrow> trade_map \<Rightarrow> (trade_map \<times> timed_event list) res" where
  "SendFemasmarketData str2stmp pMarketData m =
     (case pMarketData of
        None \<Rightarrow> Inr (m, [])
      | Some q \<Rightarrow> bind_res (femas_MakePriceVolume q m) (\<lambda>(volume, m').
          Inr (m', quote_events (femas_GetUpdateTimeInt str2stmp q) volume q)))"

definition SendRemmarketData ::
    "(string \<Rightarrow> u64) \<Rightarrow> depth_quote option \<Rightarrow> trade_map \<Rightarrow> (trade_map \<times> timed_event list) res" where
  "SendRemmarketData str2stmp pMarketData m =
     (case pMarketData of
        None \<Rightarrow> Inr (m, [])
      | Some q \<Rightarrow> bind_res (rem_MakePriceVolume q m) (\<lambda>(volume, m').
          Inr (m', quote_events (rem_GetUpdateTimeInt str2stmp q) volume q)))"

definition ctp_SendDepthMarketData ::
    "(string \<Rightarrow> u64) \<Rightarrow> depth_quote option \<Rightarrow> trade_map \<Rightarrow> (trade_map \<times> timed_event list) res" where
  "ctp_SendDepthMarketData str2stmp pMarketData m =
     (case pMarketData of
        None \<Rightarrow> Inr (m, [])
      | Some q \<Rightarrow> bind_res (ctp_MakePriceVolume q m) (\<lambda>(volume, m').
          Inr (m', quote_events (ctp_GetUpdateTimeInt str2stmp q) volume q)))"

section \<open>The multicast feed\<close>

record guava_udp_normal =
  m_symbol :: string
  m_update_time :: string
  m_millisecond :: i32
  m_last_px :: double
  m_last_share :: i32
  m_total_value :: double
  m_bid_px :: double
  m_bid_share :: i32
  m_ask_px :: double
  m_ask_share :: i32

definition efh_MakePriceVolume :: "guava_udp_normal \<Rightarrow> trade_map \<Rightarrow> (int \<times> trade_map) res" where
  "efh_MakePriceVolume q = price_volume (m_symbol q) (m_update_time q) (m_last_share q)"

text \<open>The day is the one of the host's clock, \<open>current\<close>.\<close>

definition efh_GetUpdateTimeInt :: "(string \<Rightarrow> u64) \<Rightarrow> string \<Rightarrow> guava_udp_normal \<Rightarrow> u64" where
  "efh_GetUpdateTimeInt str2stmp current q =
     update_time_int str2stmp current (m_update_time q) (m_millisecond q)"

definition efh_GetUpdateTimeStr :: "string \<Rightarrow> guava_udp_normal \<Rightarrow> string" where
  "efh_GetUpdateTimeStr current q =
     date_text current @ m_update_time q @ ''.'' @ show_i32 (m_millisecond q) @ ''000''"

text \<open>The bid of the best prices of both sides sets its price twice, the second time to the size,
  which stays unset.\<close>

definition efh_best_prices :: "guava_udp_normal \<Rightarrow> market_event list" where
  "efh_best_prices q =
     (let c = m_symbol q in
      if m_bid_px q = DBL_MAX \<and> m_ask_px q = DBL_MAX then []
      else if m_bid_px q = DBL_MAX then [OnOffer c (point_of (m_ask_px q) (m_ask_share q))]
      else if m_ask_px q = DBL_MAX then [OnBid c (point_of (m_bid_px q) (m_bid_share q))]
      else [OnBBO c \<lparr>price = double_of_int (sint (m_bid_share q)), dp_size = 0\<rparr>
              (point_of (m_ask_px q) (m_ask_share q))])"

definition efh_SendRemmarketData ::
    "(string \<Rightarrow> u64) \<Rightarrow> string \<Rightarrow> guava_udp_normal \<Rightarrow> trade_map \<Rightarrow> (trade_map \<times> timed_event list) res" where
  "efh_SendRemmarketData str2stmp current q m =
     bind_res (efh_MakePriceVolume q m) (\<lambda>(volume, m').
       let time = to_string_word (efh_GetUpdateTimeInt str2stmp current q) in
       Inr (m', map (\<lambda>e. (e, '''')) (efh_best_prices q) @
         (if 0 < volume
          then [(OnTrade (m_symbol q) \<lparr>price = m_last_px q, dp_size = word_of_int volume\<rparr>, time)]
          else []) @
         [(OnTurnover (m_symbol q) (scast (m_last_share q)) (m_total_value q), ''''),
          (OnL2 (m_symbol q)
             (if no_level (m_bid_px q) (m_bid_share q) then [] else [point_of (m_bid_px q) (m_bid_share q)])
             (if no_level (m_ask_px q) (m_ask_share q) then [] else [point_of (m_ask_px q) (m_ask_share q)]),
           time)]))"

end
