(* ===== verification/Depth_Properties.thy ===== *)
theory Depth_Properties
  imports Depth_Quotes Double_Facts
begin

text \<open>
  What the market data gateways of the Chinese exchanges report of the traded volume: over any
  run of quotes, the trades of an instrument add up to the steps of its volume.  The argument
  is made once, for the locale \<open>depth_gateway\<close>, which the four gateways interpret.
\<close>

section \<open>Steps of the volume\<close>

text \<open>The volume reported of an instrument by a list of events.\<close>

definition traded :: "string \<Rightarrow> timed_event list \<Rightarrow> int" where
  "traded c es =
     (\<Sum>(e, t) \<leftarrow> es. case e of OnTrade c' p \<Rightarrow> if c' = c then uint (dp_size p) else 0 | _ \<Rightarrow> 0)"

lemma traded_append [simp]: "traded c (xs @ ys) = traded c xs + traded c ys"
  by (simp add: traded_def)

text \<open>The steps of a volume that is seen at some times: none at the first sight and at the start of
  a session, and a decrease counts as no step.\<close>

fun volume_steps :: "strade option \<Rightarrow> (string \<times> i32) list \<Rightarrow> int" where
  "volume_steps s [] = 0"
| "volume_steps s ((t, v) # r) =
     (case s of None \<Rightarrow> 0
      | Some b \<Rightarrow> if new_session t (mtime b) then 0 else max 0 (sint v - sint (mvolume b))) +
     volume_steps (Some \<lparr>mvolume = v, mtime = t\<rparr>) r"

text \<open>Within one session, with a volume that never decreases.\<close>

fun continuous :: "(string \<times> i32) list \<Rightarrow> bool" where
  "continuous ((t, v) # (t', v') # r) \<longleftrightarrow>
     \<not> new_session t' t \<and> sint v \<le> sint v' \<and> continuous ((t', v') # r)"
| "continuous _ \<longleftrightarrow> True"

lemma volume_steps_continuous_from:
  "continuous ((t, v) # r) \<Longrightarrow>
     volume_steps (Some \<lparr>mvolume = v, mtime = t\<rparr>) r = sint (snd (last ((t, v) # r))) - sint v"
proof (induction r arbitrary: t v)
  case (Cons x r)
  then show ?case by (cases x) auto
qed simp

lemma volume_steps_continuous:
  "continuous h \<Longrightarrow> h \<noteq> [] \<Longrightarrow> volume_steps None h = sint (snd (last h)) - sint (snd (hd h))"
  by (cases h) (auto simp: volume_steps_continuous_from)

section \<open>A gateway\<close>

fun send_all ::
    "('q \<Rightarrow> trade_map \<Rightarrow> (trade_map \<times> timed_event list) res) \<Rightarrow> 'q list \<Rightarrow> trade_map \<Rightarrow>
     (trade_map \<times> timed_event list) res" where
  "send_all send [] m = Inr (m, [])"
| "send_all send (q # qs) m =
     bind_res (send q m) (\<lambda>(m', es). bind_res (send_all send qs m') (\<lambda>(m'', es'). Inr (m'', es @ es')))"

definition volumes_positive :: "trade_map \<Rightarrow> bool" where
  "volumes_positive m \<longleftrightarrow> (\<forall>i s. m i = Some s \<longrightarrow> 0 \<le> sint (mvolume s))"

lemma price_volume_ok:
  assumes "volumes_positive m" "0 \<le> sint v"
  shows "\<exists>d. price_volume i t v m = Inr (d, m(i \<mapsto> \<lparr>mvolume = v, mtime = t\<rparr>)) \<and> 0 \<le> d \<and> d < 2 ^ 31 \<and>
    d = (case m i of None \<Rightarrow> 0
         | Some b \<Rightarrow> if new_session t (mtime b) then 0 else max 0 (sint v - sint (mvolume b)))"
proof -
  have v: "sint v < 2 ^ 31" using sint_lt [of v] by simp
  show ?thesis
  proof (cases "m i")
    case None
    then show ?thesis by (simp add: price_volume_def)
  next
    case (Some s)
    then have s: "0 \<le> sint (mvolume s)" "sint (mvolume s) < 2 ^ 31"
      using assms(1) sint_lt [of "mvolume s"] by (auto simp: volumes_positive_def)
    show ?thesis
      using s v assms(2) Some
      by (auto simp: price_volume_def check_time_def int_minus_def Let_def)
  qed
qed

lemma volumes_positive_update:
  "volumes_positive m \<Longrightarrow> 0 \<le> sint v \<Longrightarrow> volumes_positive (m(i \<mapsto> \<lparr>mvolume = v, mtime = t\<rparr>))"
  by (simp add: volumes_positive_def)

locale depth_gateway =
  fixes send :: "'q \<Rightarrow> trade_map \<Rightarrow> (trade_map \<times> timed_event list) res"
    and instrument :: "'q \<Rightarrow> string" and time_of :: "'q \<Rightarrow> string" and volume_of :: "'q \<Rightarrow> i32"
  assumes send_law: "price_volume (instrument q) (time_of q) (volume_of q) m = Inr (d, m') \<Longrightarrow>
      0 \<le> d \<Longrightarrow> d < 2 ^ 31 \<Longrightarrow>
      \<exists>es. send q m = Inr (m', es) \<and> (\<forall>c. traded c es = (if c = instrument q then d else 0))"
begin

definition history :: "string \<Rightarrow> 'q list \<Rightarrow> (string \<times> i32) list" where
  "history c qs = map (\<lambda>q. (time_of q, volume_of q)) (filter (\<lambda>q. instrument q = c) qs)"

lemma trades_are_steps:
  assumes "volumes_positive m" "\<forall>q \<in> set qs. 0 \<le> sint (volume_of q)"
  shows "\<exists>m' es. send_all send qs m = Inr (m', es) \<and> (\<forall>c. traded c es = volume_steps (m c) (history c qs))"
  using assms
proof (induction qs arbitrary: m)
  case Nil
  then show ?case by (simp add: history_def traded_def)
next
  case (Cons q qs)
  let ?m = "m(instrument q \<mapsto> \<lparr>mvolume = volume_of q, mtime = time_of q\<rparr>)"
  obtain d where d: "price_volume (instrument q) (time_of q) (volume_of q) m = Inr (d, ?m)"
    "0 \<le> d" "d < 2 ^ 31" "d = (case m (instrument q) of None \<Rightarrow> 0
       | Some b \<Rightarrow> if new_session (time_of q) (mtime b) then 0 else max 0 (sint (volume_of q) - sint (mvolume b)))"
    using price_volume_ok [OF Cons.prems(1), of "volume_of q" "instrument q" "time_of q"] Cons.prems(2)
    by auto
  obtain es where es: "send q m = Inr (?m, es)" "\<forall>c. traded c es = (if c = instrument q then d else 0)"
    using send_law [OF d(1-3)] by blast
  have pos: "volumes_positive ?m" using volumes_positive_update Cons.prems by simp
  have "\<forall>q \<in> set qs. 0 \<le> sint (volume_of q)" using Cons.prems(2) by simp
  from Cons.IH [OF pos this] obtain m' es' where rest: "send_all send qs ?m = Inr (m', es')"
    "\<forall>c. traded c es' = volume_steps (?m c) (history c qs)" by blast
  have "traded c (es @ es') = volume_steps (m c) (history c (q # qs))" for c
    using es(2) rest(2) d(4) by (simp add: history_def)
  then show ?case using es(1) rest(1) by auto
qed

lemma trades_add_up:
  assumes "\<forall>q \<in> set qs. 0 \<le> sint (volume_of q)"
  shows "\<exists>m' es. send_all send qs Map.empty = Inr (m', es) \<and>
    (\<forall>c. traded c es = volume_steps None (history c qs) \<and>
      (continuous (history c qs) \<and> history c qs \<noteq> [] \<longrightarrow>
        traded c es = sint (snd (last (history c qs))) - sint (snd (hd (history c qs)))))"
  using trades_are_steps [of Map.empty qs] assms volume_steps_continuous
  by (fastforce simp: volumes_positive_def)

end

section \<open>The gateways\<close>

lemma traded_simps [simp]:
  "traded c [] = 0"
  "traded c ((e, t) # es) =
     (case e of OnTrade c' p \<Rightarrow> if c' = c then uint (dp_size p) else 0 | _ \<Rightarrow> 0) + traded c es"
  by (simp_all add: traded_def)

lemma traded_best_prices: "traded c (map (\<lambda>e. (e, '''')) (best_prices q)) = 0"
  by (simp add: best_prices_def Let_def)

lemma uint_small: "0 \<le> d \<Longrightarrow> d < 2 ^ 31 \<Longrightarrow> uint (word_of_int d :: u64) = d"
  by (simp add: uint_word_of_int)

lemma traded_quote_events:
  "0 \<le> d \<Longrightarrow> d < 2 ^ 31 \<Longrightarrow> traded c (quote_events time d q) = (if c = InstrumentID q then d else 0)"
  by (simp add: quote_events_def traded_best_prices uint_small)

interpretation femas: depth_gateway "\<lambda>q. SendFemasmarketData str2stmp (Some q)" InstrumentID UpdateTime Volume
  for str2stmp
  by unfold_locales (simp add: SendFemasmarketData_def femas_MakePriceVolume_def traded_quote_events)

interpretation rem: depth_gateway "\<lambda>q. SendRemmarketData str2stmp (Some q)" InstrumentID UpdateTime Volume
  for str2stmp
  by unfold_locales (simp add: SendRemmarketData_def rem_MakePriceVolume_def traded_quote_events)

interpretation ctp: depth_gateway "\<lambda>q. ctp_SendDepthMarketData str2stmp (Some q)" InstrumentID UpdateTime Volume
  for str2stmp
  by unfold_locales (simp add: ctp_SendDepthMarketData_def ctp_MakePriceVolume_def traded_quote_events)

lemma traded_efh_best_prices: "traded c (map (\<lambda>e. (e, '''')) (efh_best_prices q)) = 0"
  by (simp add: efh_best_prices_def Let_def)

interpretation efh: depth_gateway "efh_SendRemmarketData str2stmp current" m_symbol m_update_time m_last_share
  for str2stmp current
  by unfold_locales
    (simp add: efh_SendRemmarketData_def efh_MakePriceVolume_def traded_efh_best_prices uint_small Let_def)

text \<open>The quotes of an instrument, with the time and volume of each.\<close>

definition quote_history :: "string \<Rightarrow> depth_quote list \<Rightarrow> (string \<times> i32) list" where
  "quote_history c qs = map (\<lambda>q. (UpdateTime q, Volume q)) (filter (\<lambda>q. InstrumentID q = c) qs)"

text \<open>
  Claim C34: over any run of quotes with volumes that are not negative, each of the gateways for
  Femas, REM and CTP handles every quote, and the trades it reports of an instrument add up to
  the steps of its volume, however the instruments alternate.  Within a session in which the
  volume never decreases this is the volume of the last quote less the one of the first: what
  was traded before the first quote is not reported.
\<close>
theorem reported_trades_add_up:
  assumes "\<forall>q \<in> set qs. 0 \<le> sint (Volume q)"
    and "send \<in> {SendFemasmarketData str2stmp, SendRemmarketData str2stmp, ctp_SendDepthMarketData str2stmp}"
  shows "\<exists>m es. send_all (\<lambda>q. send (Some q)) qs Map.empty = Inr (m, es) \<and>
    (\<forall>c. traded c es = volume_steps None (quote_history c qs) \<and>
      (continuous (quote_history c qs) \<and> quote_history c qs \<noteq> [] \<longrightarrow>
        traded c es = sint (snd (last (quote_history c qs))) - sint (snd (hd (quote_history c qs)))))"
proof -
  have h: "femas.history = quote_history" "rem.history = quote_history" "ctp.history = quote_history"
    by (rule ext, rule ext, simp add: femas.history_def rem.history_def ctp.history_def quote_history_def)+
  show ?thesis
    using assms(2) femas.trades_add_up [OF assms(1), of str2stmp] rem.trades_add_up [OF assms(1), of str2stmp]
      ctp.trades_add_up [OF assms(1), of str2stmp]
    unfolding h by blast
qed

definition sample_level :: depth_level where
  "sample_level = \<lparr>BidPrice = 3999, BidVolume = 5, AskPrice = 4000, AskVolume = 7\<rparr>"

definition sample_quote :: "string \<Rightarrow> i32 \<Rightarrow> depth_quote" where
  "sample_quote t v = \<lparr>InstrumentID = ''rb1905'', TradingDay = ''20190102'', ActionDay = ''20190102'',
     UpdateTime = t, UpdateMillisec = 500, LastPrice = 4000, Volume = v, Turnover = 0,
     level1 = sample_level, level2 = sample_level, level3 = sample_level, level4 = sample_level,
     level5 = sample_level, statistics = (\<lambda>_. 0)\<rparr>"

lemma reported_trades_add_up_witness:
  "\<exists>m es. send_all (\<lambda>q. SendFemasmarketData (\<lambda>_. 0) (Some q))
      [sample_quote ''09:30:00'' 100, sample_quote ''09:30:01'' 130] Map.empty = Inr (m, es) \<and>
    traded ''rb1905'' es = 30"
proof -
  have h: "quote_history ''rb1905'' [sample_quote ''09:30:00'' 100, sample_quote ''09:30:01'' 130] =
      [(''09:30:00'', 100), (''09:30:01'', 130)]"
    by (simp add: quote_history_def sample_quote_def)
  have late: "\<not> new_session ''09:30:01'' ''09:30:00''"
    by (simp add: new_session_def atoi_def is_blank_def read_sign_def digit_value_def digits_value_def)
  have vol: "\<forall>q \<in> set [sample_quote ''09:30:00'' 100, sample_quote ''09:30:01'' 130]. 0 \<le> sint (Volume q)"
    by (simp add: sample_quote_def)
  have cont: "continuous [(''09:30:00'', 100), (''09:30:01'', 130 :: i32)]" by (simp add: late)
  have steps: "sint (snd (last [(''09:30:00'', 100), (''09:30:01'', 130 :: i32)])) -
      sint (snd (hd [(''09:30:00'', 100), (''09:30:01'', 130 :: i32)])) = 30" by simp
  show ?thesis
    using reported_trades_add_up [OF vol insertI1, of "\<lambda>_. 0"] cont steps h by (metis list.distinct(1))
qed

text \<open>
  On the multicast feed of REM the best prices of both sides carry the size of the
  bid as its price and no size at all, while the second-level quote sent for the same data has
  them right; the price a strategy sees for the best bid is the number of lots.
\<close>
theorem efh_best_bid_is_its_size:
  assumes "m_bid_px q \<noteq> DBL_MAX" "m_ask_px q \<noteq> DBL_MAX" "0 < sint (m_bid_share q)" "0 < sint (m_ask_share q)"
    and "efh_SendRemmarketData str2stmp current q m = Inr (m', es)"
  shows "(OnBBO (m_symbol q) \<lparr>price = of_int (sint (m_bid_share q)), dp_size = 0\<rparr>
        (point_of (m_ask_px q) (m_ask_share q)), '''') \<in> set es \<and>
    (\<exists>t. (OnL2 (m_symbol q) [point_of (m_bid_px q) (m_bid_share q)]
        [point_of (m_ask_px q) (m_ask_share q)], t) \<in> set es)"
proof -
  have "sint (m_bid_share q) < 2 ^ 53" using sint_lt [of "m_bid_share q"] by simp
  then have "double_of_int (sint (m_bid_share q)) = of_int (sint (m_bid_share q))"
    unfolding double_of_int_def by (intro rnd_small_int) (use assms(3) in simp_all)
  then show ?thesis
    using assms
    by (auto simp: efh_SendRemmarketData_def bind_res_Inr_iff efh_best_prices_def no_level_def Let_def)
qed

lemma efh_best_bid_is_its_size_witness:
  "\<exists>m' es. efh_SendRemmarketData (\<lambda>_. 0) ''20190102''
      \<lparr>m_symbol = ''IF1905'', m_update_time = ''09:30:00'', m_millisecond = 0, m_last_px = 4000,
       m_last_share = 1, m_total_value = 0, m_bid_px = 3999, m_bid_share = 5, m_ask_px = 4000,
       m_ask_share = 7\<rparr> Map.empty = Inr (m', es) \<and>
    (OnBBO ''IF1905'' \<lparr>price = 5, dp_size = 0\<rparr> (point_of 4000 7), '''') \<in> set es"
proof -
  let ?q = "\<lparr>m_symbol = ''IF1905'', m_update_time = ''09:30:00'', m_millisecond = 0, m_last_px = 4000,
    m_last_share = 1, m_total_value = 0, m_bid_px = 3999, m_bid_share = 5, m_ask_px = 4000,
    m_ask_share = 7\<rparr> :: guava_udp_normal"
  obtain m' es where run: "efh_SendRemmarketData (\<lambda>_. 0) ''20190102'' ?q Map.empty = Inr (m', es)"
    by (simp add: efh_SendRemmarketData_def efh_MakePriceVolume_def price_volume_def Let_def)
  show ?thesis
    using efh_best_bid_is_its_size [OF _ _ _ _ run] run by (simp add: DBL_MAX_def)
qed

end
