(* ===== verification/Depth_Convert.thy ===== *)
theory Depth_Convert
  imports Depth_Properties Replay_Feed
begin

text \<open>
  The recording of quotes and its conversion for the replay: a gateway stores every quote as a
  JSON document (\<open>StructToJSON\<close> in ctp/market/custom_md_spi.cc, femas/market/femas_market_manager.cc
  and rem/market/rem_market_manager.cc), and the converters (ctp/market/book_convert.cc,
  femas/market/convert/Femas_book_convert.cc, rem/market/convert/Rem_book_convert.cc) read the
  documents back, send the quotes through the code of the gateway and write a document for
  every event.  The JSON library is a parameter: the reader of \<open>Replay_Feed\<close>, and the
  constructors of \<open>bson_writer\<close>.
\<close>

section \<open>JSON documents\<close>

record 'd bson_writer =
  js_document :: "(string \<times> 'd) list \<Rightarrow> 'd"
  js_text :: "string \<Rightarrow> 'd"
  js_array :: "'d list \<Rightarrow> 'd"
  to_json :: "'d \<Rightarrow> string"

text \<open>What the code relies on: a written document is read back, the members of a document are
  found by their keys, and a member that is not there has no text.\<close>

definition bson_laws :: "'d bson \<Rightarrow> 'd bson_writer \<Rightarrow> bool" where
  "bson_laws js w \<longleftrightarrow>
     (\<forall>d. from_json js (to_json w d) = Inr d) \<and>
     (\<forall>kvs k v. map_of kvs k = Some v \<longrightarrow> sub js (js_document w kvs) k = v) \<and>
     (\<forall>kvs k. map_of kvs k = None \<longrightarrow> (\<exists>e. get_utf8 js (sub js (js_document w kvs) k) = Inl e)) \<and>
     (\<forall>s. get_utf8 js (js_text w s) = Inr s) \<and>
     (\<forall>ds. get_array js (js_array w ds) = Inr ds)"

definition text_document :: "'d bson_writer \<Rightarrow> (string \<times> string) list \<Rightarrow> 'd" where
  "text_document w kvs = js_document w (map (\<lambda>(k, t). (k, js_text w t)) kvs)"

section \<open>Recording\<close>

text \<open>The overloads of \<open>T\<close>: the text of a C string, a number and a double.  The days are read up to
  their terminator.\<close>

definition level_fields :: "string \<Rightarrow> depth_level \<Rightarrow> (string \<times> string) list" where
  "level_fields n l =
     [(''BidPrice'' @ n, to_string_double (BidPrice l)), (''BidVolume'' @ n, show_i32 (BidVolume l)),
      (''AskPrice'' @ n, to_string_double (AskPrice l)), (''AskVolume'' @ n, show_i32 (AskVolume l))]"

definition quote_fields :: "string list \<Rightarrow> depth_quote \<Rightarrow> (string \<times> string) list" where
  "quote_fields names q =
     [(''InstrumentID'', InstrumentID q), (''TradingDay'', c_string (TradingDay q)),
      (''UpdateTime'', UpdateTime q), (''UpdateMillisec'', show_i32 (UpdateMillisec q)),
      (''LastPrice'', to_string_double (LastPrice q)), (''Volume'', show_i32 (Volume q)),
      (''Turnover'', to_string_double (Turnover q))] @
     level_fields ''1'' (level1 q) @ level_fields ''2'' (level2 q) @ level_fields ''3'' (level3 q) @
     level_fields ''4'' (level4 q) @ level_fields ''5'' (level5 q) @
     map (\<lambda>k. (k, to_string_double (statistics q k))) names"

text \<open>The statistics every gateway records.  The vendors' other fields are recorded the same way and
  never read by the program's logic; they are left out.\<close>

definition statistics_names :: "string list" where
  "statistics_names =
     [''PreSettlementPrice'', ''PreClosePrice'', ''PreOpenInterest'', ''PreDelta'', ''OpenPrice'',
      ''HighestPrice'', ''LowestPrice'', ''ClosePrice'', ''UpperLimitPrice'', ''LowerLimitPrice'',
      ''SettlementPrice'', ''CurrDelta'', ''OpenInterest'']"

text \<open>The order of the members plays no role and is not kept.  \<open>now\<close> is the clock.\<close>

definition stored :: "'d bson_writer \<Rightarrow> string \<Rightarrow> u64 \<Rightarrow> u64 \<Rightarrow> string \<Rightarrow> string \<Rightarrow> 'd \<Rightarrow> market_event" where
  "stored w market now time time_str i body =
     OnOrginalMessage (to_json w (js_document w
       [(''market'', js_text w market), (''insertTime'', js_text w (to_string_word now)),
        (''sendingTime'', js_text w (to_string_word time)), (''sendingTimeStr'', js_text w time_str),
        (''receivedTime'', js_text w (to_string_word now)), (''InstrumentID'', js_text w i),
        (''message'', body)]))"

definition ctp_StructToJSON :: "'d bson_writer \<Rightarrow> (string \<Rightarrow> u64) \<Rightarrow> u64 \<Rightarrow> depth_quote \<Rightarrow> market_event" where
  "ctp_StructToJSON w str2stmp now q =
     stored w ''CTP'' now (ctp_GetUpdateTimeInt str2stmp q) (ctp_GetUpdateTimeStr q) (InstrumentID q)
       (text_document w (quote_fields statistics_names q @ [(''ActionDay'', c_string (ActionDay q))]))"

definition femas_StructToJSON :: "'d bson_writer \<Rightarrow> (string \<Rightarrow> u64) \<Rightarrow> u64 \<Rightarrow> depth_quote \<Rightarrow> market_event" where
  "femas_StructToJSON w str2stmp now q =
     stored w ''FEMAS'' now (femas_GetUpdateTimeInt str2stmp q) (femas_GetUpdateTimeStr q) (InstrumentID q)
       (text_document w (quote_fields statistics_names q @ [(''ActionDay'', c_string (ActionDay q))]))"

definition rem_StructToJSON :: "'d bson_writer \<Rightarrow> (string \<Rightarrow> u64) \<Rightarrow> u64 \<Rightarrow> depth_quote \<Rightarrow> market_event" where
  "rem_StructToJSON w str2stmp now q =
     stored w ''REM'' now (rem_GetUpdateTimeInt str2stmp q) (rem_GetUpdateTimeStr q) (InstrumentID q)
       (text_document w (quote_fields statistics_names q))"

text \<open>The handlers the vendor libraries call with a quote: its events, then the document.  The one for
  Femas checks its pointer, the others use it for the log first.\<close>

definition femas_OnRtnDepthMarketData ::
    "'d bson_writer \<Rightarrow> (string \<Rightarrow> u64) \<Rightarrow> u64 \<Rightarrow> depth_quote option \<Rightarrow> trade_map \<Rightarrow>
     (trade_map \<times> timed_event list) res" where
  "femas_OnRtnDepthMarketData w str2stmp now pMarketData m =
     (case pMarketData of
        None \<Rightarrow> Inr (m, [])
      | Some q \<Rightarrow> bind_res (SendFemasmarketData str2stmp (Some q) m) (\<lambda>(m', es).
          Inr (m', es @ [(femas_StructToJSON w str2stmp now q, '''')])))"

definition rem_OnQuoteUpdated ::
    "'d bson_writer \<Rightarrow> (string \<Rightarrow> u64) \<Rightarrow> u64 \<Rightarrow> depth_quote option \<Rightarrow> trade_map \<Rightarrow>
     (trade_map \<times> timed_event list) res" where
  "rem_OnQuoteUpdated w str2stmp now pDepthQuoteData m =
     (case pDepthQuoteData of
        None \<Rightarrow> Inl Undefined_behaviour
      | Some q \<Rightarrow> bind_res (SendRemmarketData str2stmp (Some q) m) (\<lambda>(m', es).
          Inr (m', es @ [(rem_StructToJSON w str2stmp now q, '''')])))"

definition ctp_OnRtnDepthMarketData ::
    "'d bson_writer \<Rightarrow> (string \<Rightarrow> u64) \<Rightarrow> u64 \<Rightarrow> depth_quote option \<Rightarrow> trade_map \<Rightarrow>
     (trade_map \<times> timed_event list) res" where
  "ctp_OnRtnDepthMarketData w str2stmp now pDepthMarketData m =
     (case pDepthMarketData of
        None \<Rightarrow> Inl Undefined_behaviour
      | Some q \<Rightarrow> bind_res (ctp_SendDepthMarketData str2stmp (Some q) m) (\<lambda>(m', es).
          Inr (m', es @ [(ctp_StructToJSON w str2stmp now q, '''')])))"

section \<open>Reading a recorded quote\<close>

text \<open>Strings are copied into arrays of \<open>n\<close> characters; a 64-bit number is put into an \<open>int\<close>.\<close>

definition read_string :: "'d bson \<Rightarrow> 'd \<Rightarrow> nat \<Rightarrow> string \<Rightarrow> string res" where
  "read_string js d n k = bind_res (GET_STR js d k) (strcpy n)"

definition read_i32 :: "'d bson \<Rightarrow> 'd \<Rightarrow> string \<Rightarrow> i32 res" where
  "read_i32 js d k = map_res (\<lambda>v. ucast v) (GET_INT js d k)"

definition read_level :: "'d bson \<Rightarrow> 'd \<Rightarrow> string \<Rightarrow> depth_level res" where
  "read_level js d n =
     bind_res (GET_DOUBLE js d (''BidPrice'' @ n)) (\<lambda>bp.
     bind_res (read_i32 js d (''BidVolume'' @ n)) (\<lambda>bv.
     bind_res (GET_DOUBLE js d (''AskPrice'' @ n)) (\<lambda>ap.
     bind_res (read_i32 js d (''AskVolume'' @ n)) (\<lambda>av.
     Inr \<lparr>BidPrice = bp, BidVolume = bv, AskPrice = ap, AskVolume = av\<rparr>))))"

text \<open>A field that is not read is 0 (\<open>memset\<close>).  \<open>volume_key\<close> is the member the volume is taken from.\<close>

definition read_quote :: "'d bson \<Rightarrow> string \<Rightarrow> bool \<Rightarrow> 'd \<Rightarrow> depth_quote res" where
  "read_quote js volume_key has_action_day d =
     bind_res (read_string js d 31 ''InstrumentID'') (\<lambda>i.
     bind_res (read_string js d 9 ''TradingDay'') (\<lambda>day.
     bind_res (traverse (\<lambda>k. map_res (Pair k) (GET_DOUBLE js d k)) statistics_names) (\<lambda>st.
     bind_res (GET_DOUBLE js d ''LastPrice'') (\<lambda>last.
     bind_res (read_i32 js d volume_key) (\<lambda>volume.
     bind_res (GET_DOUBLE js d ''Turnover'') (\<lambda>turnover.
     bind_res (read_level js d ''1'') (\<lambda>l1.
     bind_res (read_level js d ''2'') (\<lambda>l2.
     bind_res (read_level js d ''3'') (\<lambda>l3.
     bind_res (read_level js d ''4'') (\<lambda>l4.
     bind_res (read_level js d ''5'') (\<lambda>l5.
     bind_res (read_string js d 9 ''UpdateTime'') (\<lambda>time.
     bind_res (read_i32 js d ''UpdateMillisec'') (\<lambda>millisec.
     bind_res (if has_action_day then read_string js d 9 ''ActionDay'' else Inr '''') (\<lambda>action_day.
     Inr \<lparr>InstrumentID = i, TradingDay = day, ActionDay = action_day, UpdateTime = time,
       UpdateMillisec = millisec, LastPrice = last, Volume = volume, Turnover = turnover,
       level1 = l1, level2 = l2, level3 = l3, level4 = l4, level5 = l5,
       statistics = (\<lambda>k. case map_of st k of None \<Rightarrow> 0 | Some x \<Rightarrow> x)\<rparr>))))))))))))))"

definition CtpMarketData ::
    "'d bson \<Rightarrow> (string \<Rightarrow> u64) \<Rightarrow> 'd \<Rightarrow> trade_map \<Rightarrow> (trade_map \<times> timed_event list) res" where
  "CtpMarketData js str2stmp d m =
     bind_res (read_quote js ''Volume'' True d) (\<lambda>q. ctp_SendDepthMarketData str2stmp (Some q) m)"

definition FemasmarketData ::
    "'d bson \<Rightarrow> (string \<Rightarrow> u64) \<Rightarrow> 'd \<Rightarrow> trade_map \<Rightarrow> (trade_map \<times> timed_event list) res" where
  "FemasmarketData js str2stmp d m =
     bind_res (read_quote js ''Volume'' True d) (\<lambda>q. SendFemasmarketData str2stmp (Some q) m)"

text \<open>The converter for REM takes the volume from the pre-open interest.\<close>

definition RemmarketData ::
    "'d bson \<Rightarrow> (string \<Rightarrow> u64) \<Rightarrow> 'd \<Rightarrow> trade_map \<Rightarrow> (trade_map \<times> timed_event list) res" where
  "RemmarketData js str2stmp d m =
     bind_res (read_quote js ''PreOpenInterest'' False d) (\<lambda>q. SendRemmarketData str2stmp (Some q) m)"

section \<open>Converted documents\<close>

definition point_json :: "'d bson_writer \<Rightarrow> data_point \<Rightarrow> 'd" where
  "point_json w p =
     text_document w [(''price'', to_string_double (price p)), (''size'', to_string_word (dp_size p))]"

text \<open>The body of the document of an event, with its type; trades and quotes carry the time of the
  quote.\<close>

fun event_json :: "'d bson_writer \<Rightarrow> timed_event \<Rightarrow> (string \<times> 'd) option" where
  "event_json w (OnBid c bid, t) =
     Some (''bid'', js_document w [(''contract'', js_text w c), (''bid'', point_json w bid)])"
| "event_json w (OnOffer c ask, t) =
     Some (''offer'', js_document w [(''contract'', js_text w c), (''offer'', point_json w ask)])"
| "event_json w (OnBBO c bid ask, t) =
     Some (''bbo'', js_document w [(''contract'', js_text w c), (''bid'', point_json w bid),
       (''offer'', point_json w ask)])"
| "event_json w (OnTrade c p, t) =
     Some (''trade'', js_document w [(''contract'', js_text w c), (''last'', point_json w p),
       (''time'', js_text w t)])"
| "event_json w (OnTurnover c v x, t) =
     Some (''turnover'', js_document w [(''contract'', js_text w c),
       (''total_volume'', js_text w (to_string_word v)), (''turnover'', js_text w (to_string_double x))])"
| "event_json w (OnL2 c bid ask, t) =
     Some (''l2'', js_document w [(''contract'', js_text w c),
       (''bid'', js_array w (map (point_json w) bid)), (''offer'', js_array w (map (point_json w) ask)),
       (''time'', js_text w t)])"
| "event_json w _ = None"

text \<open>The document for an event.  The listener of the converter keeps the last event of each kind,
  and a quote has at most one of each.\<close>

definition converted :: "'d bson_writer \<Rightarrow> string \<Rightarrow> u64 \<Rightarrow> string \<Rightarrow> string \<Rightarrow> timed_event \<Rightarrow> string option" where
  "converted w market now se sestr e =
     map_option (\<lambda>(type, body). to_json w (js_document w
       [(''market'', js_text w market), (''type'', js_text w type),
        (''insertTime'', js_text w (to_string_word now)), (''sendingTime'', js_text w se),
        (''sendingTimeStr'', js_text w sestr), (''message'', body)]))
     (event_json w e)"

definition convert ::
    "'d bson \<Rightarrow> 'd bson_writer \<Rightarrow> string \<Rightarrow> u64 \<Rightarrow>
     ('d \<Rightarrow> trade_map \<Rightarrow> (trade_map \<times> timed_event list) res) \<Rightarrow> string \<Rightarrow> trade_map \<Rightarrow>
     (trade_map \<times> string list) res" where
  "convert js w market now market_data msg m =
     bind_res (from_json js msg) (\<lambda>json.
     bind_res (GET_STR js json ''InstrumentID'') (\<lambda>_.
     bind_res (GET_STR js json ''insertTime'') (\<lambda>_.
     bind_res (GET_STR js json ''sendingTime'') (\<lambda>se.
     bind_res (GET_STR js json ''sendingTimeStr'') (\<lambda>sestr.
     bind_res (market_data (sub js json ''message'') m) (\<lambda>(m', es).
     Inr (m', List.map_filter (converted w market now se sestr) es)))))))"

definition ctp_Convert where
  "ctp_Convert js w str2stmp now = convert js w ''CTP'' now (CtpMarketData js str2stmp)"

definition femas_Convert where
  "femas_Convert js w str2stmp now = convert js w ''FEMAS'' now (FemasmarketData js str2stmp)"

definition rem_Convert where
  "rem_Convert js w str2stmp now = convert js w ''REM'' now (RemmarketData js str2stmp)"

end
