(* ===== verification/Depth_Replay.thy ===== *)
theory Depth_Replay
  imports Depth_Convert
begin

text \<open>
  Recorded quotes on their way to the replay: a recorded quote that is converted gives a document
  for every event the gateway sent for it, and the body of each document is read back as that
  event; but the replay refuses every converted document.
\<close>

section \<open>Members of written documents\<close>

lemma bind_res_Inl [simp]: "bind_res (Inl e) f = Inl e"
  by (simp add: bind_res_def)

lemma document_member:
  "bson_laws js w \<Longrightarrow> map_of kvs k = Some v \<Longrightarrow> sub js (js_document w kvs) k = v"
  unfolding bson_laws_def by blast

lemma missing_member:
  "bson_laws js w \<Longrightarrow> map_of kvs k = None \<Longrightarrow> \<exists>e. GET_STR js (js_document w kvs) k = Inl e"
  unfolding bson_laws_def GET_STR_def by blast

lemma written_document_read [simp]: "bson_laws js w \<Longrightarrow> from_json js (to_json w d) = Inr d"
  unfolding bson_laws_def by blast

lemma text_read [simp]: "bson_laws js w \<Longrightarrow> get_utf8 js (js_text w t) = Inr t"
  unfolding bson_laws_def by blast

lemma array_read [simp]: "bson_laws js w \<Longrightarrow> get_array js (js_array w ds) = Inr ds"
  unfolding bson_laws_def by blast

lemma text_member:
  "bson_laws js w \<Longrightarrow> map_of kvs k = Some t \<Longrightarrow> GET_STR js (text_document w kvs) k = Inr t"
  unfolding GET_STR_def text_document_def
  by (subst document_member [where v = "js_text w t"]) (simp_all add: map_of_map)

section \<open>Numbers\<close>

definition written_back :: "double \<Rightarrow> bool" where
  "written_back x \<longleftrightarrow> stod (to_string_double x) = Inr x"

text \<open>Prices are nearest to numbers of few decimals, and an unset price is the largest double.\<close>

lemma decimals_written_back: "0 \<le> k \<Longrightarrow> k < 2 ^ 52 \<Longrightarrow> written_back (rnd (of_int k / 1000000))"
  by (simp add: written_back_def written_decimal_read)

lemma stol_show_i32: "stol (show_i32 w) = Inr (scast w)"
proof -
  have b: "- (2 ^ 31) \<le> sint w" "sint w < 2 ^ 31"
    using sint_ge [of w] sint_lt [of w] by simp_all
  have "word_of_int (sint w) = (scast w :: i64)" by (rule scast_eq [symmetric])
  then show ?thesis
    using b stol_show_digits [of "sint w"] stol_show_negative [of "- sint w"] by (simp add: show_i32_def)
qed

lemma stol_word: "uint w < 2 ^ 63 \<Longrightarrow> stol (to_string_word w) = Inr (ucast (w :: u64))"
  by (simp add: to_string_word_def stol_show_digits)

lemma ucast_scast_i32: "ucast (scast (w :: i32) :: i64) = w"
  by (rule bit_word_eqI) (simp add: bit_simps)

lemma text_int:
  "bson_laws js w \<Longrightarrow> map_of kvs k = Some (show_i32 v) \<Longrightarrow> GET_INT js (text_document w kvs) k = Inr (scast v)"
  unfolding GET_INT_def by (simp add: text_member stol_show_i32)

lemma text_word:
  "bson_laws js w \<Longrightarrow> map_of kvs k = Some (to_string_word v) \<Longrightarrow> uint v < 2 ^ 63 \<Longrightarrow>
     GET_INT js (text_document w kvs) k = Inr (ucast (v :: u64))"
  unfolding GET_INT_def by (simp add: text_member stol_word)

lemma text_double:
  "bson_laws js w \<Longrightarrow> map_of kvs k = Some (to_string_double x) \<Longrightarrow> written_back x \<Longrightarrow>
     GET_DOUBLE js (text_document w kvs) k = Inr x"
  unfolding GET_DOUBLE_def by (simp add: text_member written_back_def)

section \<open>Events\<close>

text \<open>What the replay does for an event.\<close>

definition replay_event ::
    "market_event \<Rightarrow> int \<Rightarrow> ReplayListener \<Rightarrow> (replay_output list \<times> ReplayListener) res" where
  "replay_event e volume_multiple l =
     (case e of
        OnL2 c bid ask \<Rightarrow> listener_OnL2 \<lparr>l2_contract = c, l2_bid = bid, l2_offer = ask\<rparr> volume_multiple l
      | OnTurnover c v x \<Rightarrow> map_res (\<lambda>l'. ([], l')) (On_turnover c v x l)
      | _ \<Rightarrow> Inr (pass_on e l, l))"

definition point_ok :: "data_point \<Rightarrow> bool" where
  "point_ok p \<longleftrightarrow> written_back (price p) \<and> uint (dp_size p) < 2 ^ 63"

definition event_ok :: "market_event \<Rightarrow> bool" where
  "event_ok e \<longleftrightarrow>
     (case e of
        OnBid c p \<Rightarrow> point_ok p
      | OnOffer c p \<Rightarrow> point_ok p
      | OnBBO c p p' \<Rightarrow> point_ok p \<and> point_ok p'
      | OnTrade c p \<Rightarrow> point_ok p
      | OnTurnover c v x \<Rightarrow> uint v < 2 ^ 63 \<and> written_back x
      | OnL2 c ps ps' \<Rightarrow> (\<forall>p \<in> set ps \<union> set ps'. point_ok p)
      | _ \<Rightarrow> False)"

lemma point_read:
  assumes "bson_laws js w" "point_ok p"
  shows "read_point js (point_json w p) = Inr p"
proof -
  let ?d = "[(''price'', to_string_double (price p)), (''size'', to_string_word (dp_size p))]"
  have "GET_DOUBLE js (text_document w ?d) ''price'' = Inr (price p)"
    by (rule text_double) (use assms in \<open>simp_all add: point_ok_def\<close>)
  moreover have "GET_INT js (text_document w ?d) ''size'' = Inr (ucast (dp_size p))"
    by (rule text_word) (use assms in \<open>simp_all add: point_ok_def\<close>)
  ultimately show ?thesis by (simp add: read_point_def point_json_def)
qed

lemma points_read:
  assumes "bson_laws js w" "\<forall>p \<in> set ps. point_ok p"
  shows "traverse (read_point js) (map (point_json w) ps) = Inr ps"
  using assms(2) by (induction ps) (simp_all add: point_read [OF assms(1)])

lemma member_text:
  "bson_laws js w \<Longrightarrow> map_of kvs k = Some (js_text w t) \<Longrightarrow> GET_STR js (js_document w kvs) k = Inr t"
  unfolding GET_STR_def by (simp add: document_member)

lemmas member_facts = member_text document_member

lemma event_read:
  assumes laws: "bson_laws js w" and ok: "event_ok e"
  shows "\<exists>ty body. event_json w (e, t) = Some (ty, body) \<and>
    (\<forall>vm l. consume_body js ty body vm l = replay_event e vm l)"
proof (cases e)
  case (OnBid c p)
  then show ?thesis
    using ok by (simp add: event_ok_def consume_body_def Parse_bid_def replay_event_def
        member_facts [OF laws] point_read [OF laws])
next
  case (OnOffer c p)
  then show ?thesis
    using ok by (simp add: event_ok_def consume_body_def Parse_offer_def replay_event_def
        member_facts [OF laws] point_read [OF laws])
next
  case (OnBBO c p p')
  then show ?thesis
    using ok by (simp add: event_ok_def consume_body_def Parse_bbo_def replay_event_def
        member_facts [OF laws] point_read [OF laws])
next
  case (OnTrade c p)
  then show ?thesis
    using ok by (simp add: event_ok_def consume_body_def Parse_trade_def replay_event_def
        member_facts [OF laws] point_read [OF laws])
next
  case (OnL2 c ps ps')
  then show ?thesis
    using ok by (simp add: event_ok_def consume_body_def Parse_l2_def replay_event_def
        member_facts [OF laws] points_read [OF laws] array_read [OF laws])
next
  case (OnTurnover c v x)
  then have ok: "uint v < 2 ^ 63" "written_back x" using ok by (simp_all add: event_ok_def)
  then show ?thesis
    using OnTurnover by (simp add: consume_body_def Parse_turnover_def replay_event_def GET_INT_def GET_DOUBLE_def
        member_facts [OF laws] stol_word written_back_def)
qed (use ok in \<open>simp_all add: event_ok_def\<close>)

section \<open>Recorded quotes\<close>

text \<open>A string of at most \<open>n\<close> characters, and a quote of which nothing is lost in its document.\<close>

definition clean :: "nat \<Rightarrow> string \<Rightarrow> bool" where
  "clean n s \<longleftrightarrow> length s \<le> n \<and> CHR 0x00 \<notin> set s"

definition level_ok :: "depth_level \<Rightarrow> bool" where
  "level_ok l \<longleftrightarrow> written_back (BidPrice l) \<and> written_back (AskPrice l)"

definition recordable :: "depth_quote \<Rightarrow> bool" where
  "recordable q \<longleftrightarrow>
     clean 30 (InstrumentID q) \<and> clean 8 (TradingDay q) \<and> clean 8 (ActionDay q) \<and> clean 8 (UpdateTime q) \<and>
     written_back (LastPrice q) \<and> written_back (Turnover q) \<and> 0 \<le> sint (Volume q) \<and>
     (\<forall>l \<in> set (quote_levels q). level_ok l) \<and> (\<forall>k \<in> set statistics_names. written_back (statistics q k))"

lemma clean_c_string: "clean n s \<Longrightarrow> c_string s = s"
  by (auto simp: clean_def c_string_def takeWhile_eq_all_conv)

lemma clean_strcpy: "clean n s \<Longrightarrow> n < m \<Longrightarrow> strcpy m s = Inr s"
  by (simp add: clean_def strcpy_def)

lemma text_i32:
  "bson_laws js w \<Longrightarrow> map_of kvs k = Some (show_i32 v) \<Longrightarrow> read_i32 js (text_document w kvs) k = Inr v"
  by (simp add: read_i32_def text_int ucast_scast_i32)

lemma text_string:
  "bson_laws js w \<Longrightarrow> map_of kvs k = Some s \<Longrightarrow> clean n s \<Longrightarrow> n < m \<Longrightarrow>
     read_string js (text_document w kvs) m k = Inr s"
  by (simp add: read_string_def text_member clean_strcpy)

lemma text_level:
  assumes "bson_laws js w" "level_ok l"
    and "map_of kvs (''BidPrice'' @ n) = Some (to_string_double (BidPrice l))"
      "map_of kvs (''BidVolume'' @ n) = Some (show_i32 (BidVolume l))"
      "map_of kvs (''AskPrice'' @ n) = Some (to_string_double (AskPrice l))"
      "map_of kvs (''AskVolume'' @ n) = Some (show_i32 (AskVolume l))"
  shows "read_level js (text_document w kvs) n = Inr l"
  using assms(2) text_double [OF assms(1,3)] text_double [OF assms(1,5)]
    text_i32 [OF assms(1,4)] text_i32 [OF assms(1,6)]
  by (simp add: read_level_def level_ok_def)

text \<open>The members of a recorded quote.\<close>

lemmas quote_members = quote_fields_def level_fields_def statistics_names_def

lemma text_statistics:
  assumes "bson_laws js w" "recordable q"
    and "\<forall>k \<in> set ks. written_back (statistics q k) \<and> map_of kvs k = Some (to_string_double (statistics q k))"
  shows "traverse (\<lambda>k. map_res (Pair k) (GET_DOUBLE js (text_document w kvs) k)) ks =
    Inr (map (\<lambda>k. (k, statistics q k)) ks)"
  using assms(3) by (induction ks) (simp_all add: text_double [OF assms(1)])

lemma quote_read:
  assumes laws: "bson_laws js w" and q: "recordable q"
  shows "\<exists>f. read_quote js ''Volume'' True
    (text_document w (quote_fields statistics_names q @ [(''ActionDay'', c_string (ActionDay q))])) =
    Inr (q\<lparr>statistics := f\<rparr>)"
proof -
  let ?kvs = "quote_fields statistics_names q @ [(''ActionDay'', c_string (ActionDay q))]"
  let ?d = "text_document w ?kvs"
  have ok: "clean 30 (InstrumentID q)" "clean 8 (TradingDay q)" "clean 8 (ActionDay q)" "clean 8 (UpdateTime q)"
    "written_back (LastPrice q)" "written_back (Turnover q)"
    "level_ok (level1 q)" "level_ok (level2 q)" "level_ok (level3 q)" "level_ok (level4 q)" "level_ok (level5 q)"
    using q by (simp_all add: recordable_def quote_levels_def)
  have i: "read_string js ?d 31 ''InstrumentID'' = Inr (InstrumentID q)"
    by (rule text_string [OF laws _ ok(1)]) (simp_all add: quote_members)
  have day: "read_string js ?d 9 ''TradingDay'' = Inr (TradingDay q)"
    by (rule text_string [OF laws _ ok(2)]) (simp_all add: quote_members clean_c_string [OF ok(2)])
  have time: "read_string js ?d 9 ''UpdateTime'' = Inr (UpdateTime q)"
    by (rule text_string [OF laws _ ok(4)]) (simp_all add: quote_members)
  have action: "read_string js ?d 9 ''ActionDay'' = Inr (ActionDay q)"
    by (rule text_string [OF laws _ ok(3)]) (simp_all add: quote_members clean_c_string [OF ok(3)])
  have last: "GET_DOUBLE js ?d ''LastPrice'' = Inr (LastPrice q)"
    by (rule text_double [OF laws _ ok(5)]) (simp add: quote_members)
  have turnover: "GET_DOUBLE js ?d ''Turnover'' = Inr (Turnover q)"
    by (rule text_double [OF laws _ ok(6)]) (simp add: quote_members)
  have volume: "read_i32 js ?d ''Volume'' = Inr (Volume q)" "read_i32 js ?d ''UpdateMillisec'' = Inr (UpdateMillisec q)"
    by (rule text_i32 [OF laws], simp add: quote_members)+
  have level: "read_level js ?d ''1'' = Inr (level1 q)" "read_level js ?d ''2'' = Inr (level2 q)"
      "read_level js ?d ''3'' = Inr (level3 q)" "read_level js ?d ''4'' = Inr (level4 q)"
      "read_level js ?d ''5'' = Inr (level5 q)"
    by (rule text_level [OF laws ok(7)], simp_all add: quote_members)
      (rule text_level [OF laws ok(8)], simp_all add: quote_members,
       rule text_level [OF laws ok(9)], simp_all add: quote_members,
       rule text_level [OF laws ok(10)], simp_all add: quote_members,
       rule text_level [OF laws ok(11)], simp_all add: quote_members)
  have stats: "traverse (\<lambda>k. map_res (Pair k) (GET_DOUBLE js ?d k)) statistics_names =
      Inr (map (\<lambda>k. (k, statistics q k)) statistics_names)"
  proof (rule text_statistics [OF laws q])
    have "map_of ?kvs k = Some (to_string_double (statistics q k))" if "k \<in> set statistics_names" for k
      using that unfolding statistics_names_def list.set insert_iff empty_iff
      by (elim disjE) (simp_all add: quote_members)
    then show "\<forall>k \<in> set statistics_names. written_back (statistics q k) \<and>
        map_of ?kvs k = Some (to_string_double (statistics q k))"
      using q by (simp add: recordable_def)
  qed
  have eta: "\<lparr>InstrumentID = InstrumentID q, TradingDay = TradingDay q, ActionDay = ActionDay q,
      UpdateTime = UpdateTime q, UpdateMillisec = UpdateMillisec q, LastPrice = LastPrice q,
      Volume = Volume q, Turnover = Turnover q, level1 = level1 q, level2 = level2 q, level3 = level3 q,
      level4 = level4 q, level5 = level5 q, statistics = f\<rparr> = q\<lparr>statistics := f\<rparr>" for f
    by simp
  show ?thesis
    unfolding read_quote_def i day time action last turnover volume level stats bind_res_simps if_True eta
    by blast
qed

section \<open>Converted quotes\<close>

lemma quote_events_statistics: "quote_events time v (q\<lparr>statistics := f\<rparr>) = quote_events time v q"
  by (simp add: quote_events_def best_prices_def quote_bids_def quote_offers_def quote_levels_def Let_def
      del: fold.simps)

lemma sends_ignore_statistics:
  "ctp_SendDepthMarketData str2stmp (Some (q\<lparr>statistics := f\<rparr>)) m = ctp_SendDepthMarketData str2stmp (Some q) m"
  "SendFemasmarketData str2stmp (Some (q\<lparr>statistics := f\<rparr>)) m = SendFemasmarketData str2stmp (Some q) m"
  by (simp_all add: ctp_SendDepthMarketData_def SendFemasmarketData_def ctp_MakePriceVolume_def
      femas_MakePriceVolume_def quote_events_statistics ctp_GetUpdateTimeInt_def femas_GetUpdateTimeInt_def)

lemma uint_scast_i32:
  assumes "0 \<le> sint (v :: i32)"
  shows "uint (scast v :: u64) = sint v"
proof -
  have "uint (scast v :: u64) = uint (word_of_int (sint v) :: u64)" by (simp only: scast_eq)
  also have "\<dots> = take_bit 64 (sint v)" unfolding uint_word_of_int_eq by simp
  also have "\<dots> = sint v" using assms sint_lt [of v] by (intro take_bit_int_eq_self) simp_all
  finally show ?thesis .
qed

lemma uint_scast_small: "0 \<le> sint (v :: i32) \<Longrightarrow> uint (scast v :: u64) < 2 ^ 63"
  using uint_scast_i32 [of v] sint_lt [of v] by simp

lemma point_of_ok: "written_back x \<Longrightarrow> \<not> no_level x v \<Longrightarrow> point_ok (point_of x v)"
  using uint_scast_small [of v] by (simp add: point_ok_def point_of_def no_level_def)

lemma add_point_ok:
  assumes "level_ok l" "\<forall>p \<in> set ps. point_ok p"
  shows "\<forall>p \<in> set (add_bid l ps). point_ok p" "\<forall>p \<in> set (add_offer l ps). point_ok p"
  using assms by (auto simp: add_bid_def add_offer_def level_ok_def point_of_ok)

lemma bids_ok:
  "\<forall>l \<in> set ls. level_ok l \<Longrightarrow> \<forall>p \<in> set ps. point_ok p \<Longrightarrow> \<forall>p \<in> set (fold add_bid ls ps). point_ok p"
proof (induction ls arbitrary: ps)
  case (Cons l ls)
  have "\<forall>p \<in> set (add_bid l ps). point_ok p" by (rule add_point_ok(1)) (use Cons.prems in simp_all)
  from Cons.IH [OF _ this] show ?case using Cons.prems(1) by simp
qed simp

lemma offers_ok:
  "\<forall>l \<in> set ls. level_ok l \<Longrightarrow> \<forall>p \<in> set ps. point_ok p \<Longrightarrow> \<forall>p \<in> set (fold add_offer ls ps). point_ok p"
proof (induction ls arbitrary: ps)
  case (Cons l ls)
  have "\<forall>p \<in> set (add_offer l ps). point_ok p" by (rule add_point_ok(2)) (use Cons.prems in simp_all)
  from Cons.IH [OF _ this] show ?case using Cons.prems(1) by simp
qed simp

lemma price_volume_bounds: "price_volume i t v m = Inr (d, m') \<Longrightarrow> 0 \<le> d \<and> d < 2 ^ 31"
  by (auto simp: price_volume_def int_minus_def Let_def bind_res_Inr_iff split: option.splits if_splits)

lemma quote_events_ok:
  assumes "recordable q" "0 \<le> d" "d < 2 ^ 31" "(e, t) \<in> set (quote_events time d q)"
  shows "event_ok e"
proof -
  have l: "level_ok (level1 q)" and ls: "\<forall>l \<in> set (quote_levels q). level_ok l"
    using assms(1) by (simp_all add: recordable_def quote_levels_def)
  have best: "event_ok e" if "e \<in> set (best_prices q)"
    using that l by (auto simp: best_prices_def Let_def event_ok_def level_ok_def point_of_ok split: if_splits)
  have l2: "\<forall>p \<in> set (quote_bids q) \<union> set (quote_offers q). point_ok p"
    using bids_ok [OF ls, of "[]"] offers_ok [OF ls, of "[]"]
    unfolding quote_bids_def quote_offers_def by (simp add: ball_Un del: fold.simps)
  show ?thesis
    using assms best l2 uint_small [of d] uint_scast_small [of "Volume q"]
    by (auto simp: quote_events_def event_ok_def point_ok_def recordable_def split: if_splits)
qed

lemma sent_events_ok:
  assumes q: "recordable q"
    and sent: "\<exists>d tm. price_volume i t v m = Inr (d, m') \<and> es = quote_events tm d q"
  shows "\<forall>(e, t) \<in> set es. event_ok e"
proof -
  obtain d tm where d: "price_volume i t v m = Inr (d, m')" "es = quote_events tm d q" using sent by blast
  show ?thesis
    using quote_events_ok [OF q] price_volume_bounds [OF d(1)] unfolding d(2) by blast
qed

text \<open>A converted document: its time, and a body that the replay reads as the event.\<close>

definition holds_event :: "'d bson \<Rightarrow> u64 \<Rightarrow> string \<Rightarrow> market_event \<Rightarrow> bool" where
  "holds_event js time doc e \<longleftrightarrow>
     (\<exists>d ty. from_json js doc = Inr d \<and> GET_STR js d ''type'' = Inr ty \<and>
        GET_STR js d ''sendingTime'' = Inr (to_string_word time) \<and>
        (\<forall>vm l. consume_body js ty (sub js d ''message'') vm l = replay_event e vm l))"

lemma converted_holds:
  assumes laws: "bson_laws js w" and ok: "event_ok e"
  shows "\<exists>doc. converted w market now (to_string_word time) sestr (e, t) = Some doc \<and> holds_event js time doc e"
proof -
  obtain ty body where b: "event_json w (e, t) = Some (ty, body)"
    "\<forall>vm l. consume_body js ty body vm l = replay_event e vm l"
    using event_read [OF laws ok] by blast
  show ?thesis
    using b(2) unfolding converted_def b(1) holds_event_def
    by (simp add: written_document_read [OF laws] member_facts [OF laws])
qed

lemma map_filter_all2:
  "\<forall>x \<in> set xs. \<exists>y. f x = Some y \<and> P y x \<Longrightarrow> list_all2 P (List.map_filter f xs) xs"
  by (induction xs) (auto simp: map_filter_simps)

lemma convert_stored:
  assumes laws: "bson_laws js w" and run: "market_data body m = Inr (m', es)" and ok: "\<forall>(e, t) \<in> set es. event_ok e"
  shows "\<exists>msg docs. stored w market now time sestr i body = OnOrginalMessage msg \<and>
    convert js w market now' market_data msg m = Inr (m', docs) \<and>
    list_all2 (\<lambda>doc (e, t). holds_event js time doc e) docs es"
proof -
  have "list_all2 (\<lambda>doc (e, t). holds_event js time doc e)
      (List.map_filter (converted w market now' (to_string_word time) sestr) es) es"
    using ok converted_holds [OF laws] by (intro map_filter_all2) fastforce
  then show ?thesis
    unfolding stored_def convert_def
    by (simp add: written_document_read [OF laws] member_facts [OF laws] run)
qed


text \<open>
  No converted document can be replayed: the replay reads the member VolumeMultiple of
  every document before it looks at its type, and none of the converters writes it, so that
  reading fails whatever was converted.
\<close>
theorem converted_documents_are_refused:
  assumes laws: "bson_laws js w"
    and conv: "conv \<in> {ctp_Convert js w str2stmp now, femas_Convert js w str2stmp now, rem_Convert js w str2stmp now}"
    and run: "conv msg m = Inr (m', docs)" and doc: "doc \<in> set docs"
  shows "\<exists>e. Consume js doc l = Inl e"
proof -
  obtain market se sestr e where "converted w market now se sestr e = Some doc"
    using conv run doc
    by (auto simp: ctp_Convert_def femas_Convert_def rem_Convert_def convert_def bind_res_Inr_iff
        List.map_filter_def)
  then obtain ty body where d: "doc = to_json w (js_document w
       [(''market'', js_text w market), (''type'', js_text w ty),
        (''insertTime'', js_text w (to_string_word now)), (''sendingTime'', js_text w se),
        (''sendingTimeStr'', js_text w sestr), (''message'', body)])"
    by (auto simp: converted_def)
  let ?d = "js_document w [(''market'', js_text w market), (''type'', js_text w ty),
        (''insertTime'', js_text w (to_string_word now)), (''sendingTime'', js_text w se),
        (''sendingTimeStr'', js_text w sestr), (''message'', body)]"
  obtain e where "GET_STR js ?d ''VolumeMultiple'' = Inl e"
    using missing_member [OF laws, of _ "''VolumeMultiple''"] by fastforce
  then show ?thesis
    unfolding d Consume_def written_document_read [OF laws]
    by (simp add: member_facts [OF laws] GET_INT_def)
qed

section \<open>A JSON library\<close>

text \<open>A small library that satisfies the laws, for the examples.\<close>

datatype json_value =
  J_missing | J_text string | J_member string json_value json_value | J_item json_value json_value

fun json_look :: "json_value \<Rightarrow> string \<Rightarrow> json_value" where
  "json_look (J_member k v r) x = (if k = x then v else json_look r x)"
| "json_look _ x = J_missing"

fun json_items :: "json_value \<Rightarrow> json_value list" where
  "json_items (J_item v r) = v # json_items r"
| "json_items _ = []"

definition print_text :: "string \<Rightarrow> string" where
  "print_text s = replicate (length s) CHR ''1'' @ CHR ''0'' # s"

fun ones :: "string \<Rightarrow> nat \<times> string" where
  "ones [] = (0, [])"
| "ones (c # s) = (if c = CHR ''1'' then apfst Suc (ones s) else (0, s))"

definition parse_text :: "string \<Rightarrow> string \<times> string" where
  "parse_text s = (let (n, r) = ones s in (take n r, drop n r))"

fun print_json :: "json_value \<Rightarrow> string" where
  "print_json J_missing = ''M''"
| "print_json (J_text t) = CHR ''T'' # print_text t"
| "print_json (J_member k v r) = CHR ''D'' # print_text k @ print_json v @ print_json r"
| "print_json (J_item v r) = CHR ''I'' # print_json v @ print_json r"

fun parse_json :: "nat \<Rightarrow> string \<Rightarrow> json_value \<times> string" where
  "parse_json (Suc n) (c # s) =
     (if c = CHR ''T'' then apfst J_text (parse_text s)
      else if c = CHR ''D'' then
        (let (k, s1) = parse_text s; (v, s2) = parse_json n s1; (r, s3) = parse_json n s2
         in (J_member k v r, s3))
      else if c = CHR ''I'' then
        (let (v, s2) = parse_json n s; (r, s3) = parse_json n s2 in (J_item v r, s3))
      else (J_missing, s))"
| "parse_json _ s = (J_missing, s)"

lemma parse_print_text [simp]: "parse_text (print_text s @ r) = (s, r)"
proof -
  have "ones (replicate n CHR ''1'' @ CHR ''0'' # x) = (n, x)" for n x
    by (induction n) simp_all
  then show ?thesis by (simp add: parse_text_def print_text_def)
qed

lemma parse_print_json: "length (print_json d) \<le> n \<Longrightarrow> parse_json n (print_json d @ r) = (d, r)"
proof (induction d arbitrary: n r)
  case (J_member k v d)
  then show ?case by (cases n) simp_all
next
  case (J_item v d)
  then show ?case by (cases n) simp_all
qed (case_tac n, simp_all)+

definition sample_bson :: "json_value bson" where
  "sample_bson = \<lparr>from_json = (\<lambda>s. Inr (fst (parse_json (length s) s))), sub = json_look,
     get_utf8 = (\<lambda>d. case d of J_text t \<Rightarrow> Inr t | _ \<Rightarrow> Inl (Invalid_argument ''bson'')),
     get_array = (\<lambda>d. Inr (json_items d))\<rparr>"

definition sample_writer :: "json_value bson_writer" where
  "sample_writer = \<lparr>js_document = (\<lambda>kvs. foldr (\<lambda>(k, v) r. J_member k v r) kvs J_missing),
     js_text = J_text, js_array = (\<lambda>ds. foldr J_item ds J_missing), to_json = print_json\<rparr>"

lemma sample_bson_laws: "bson_laws sample_bson sample_writer"
proof -
  have look: "json_look (foldr (\<lambda>(k, v) r. J_member k v r) kvs J_missing) x =
      (case map_of kvs x of None \<Rightarrow> J_missing | Some v \<Rightarrow> v)" for kvs x
    by (induction kvs) auto
  have items: "json_items (foldr J_item ds J_missing) = ds" for ds
    by (induction ds) simp_all
  have parse: "parse_json (length (print_json d)) (print_json d) = (d, [])" for d
    using parse_print_json [of d "length (print_json d)" "[]"] by simp
  show ?thesis
    by (simp add: bson_laws_def sample_bson_def sample_writer_def look items parse)
qed

lemma small_written_back: "0 \<le> i \<Longrightarrow> i < 2 ^ 32 \<Longrightarrow> written_back (of_int i)"
  using decimals_written_back [of "i * 1000000"] rnd_small_int [of i] by simp

lemma sample_quote_recordable: "recordable (sample_quote ''09:30:00'' 100)"
proof -
  have "written_back 3999" "written_back 4000" "written_back 0"
    using small_written_back [of 3999] small_written_back [of 4000] small_written_back [of 0] by simp_all
  then show ?thesis
    by (simp add: recordable_def sample_quote_def sample_level_def clean_def level_ok_def quote_levels_def)
qed


theorem converted_documents_are_refused_witness:
  "\<exists>msg m' docs e. ctp_Convert sample_bson sample_writer (\<lambda>_. 5) 2 msg Map.empty = Inr (m', docs) \<and> docs \<noteq> [] \<and>
     Consume sample_bson (hd docs) ReplayListener_new = Inl e"
proof -
  let ?q = "sample_quote ''09:30:00'' 100"
  obtain m' es where run: "ctp_SendDepthMarketData (\<lambda>_. 5) (Some ?q) Map.empty = Inr (m', es)" "es \<noteq> []"
    by (simp add: ctp_SendDepthMarketData_def ctp_MakePriceVolume_def price_volume_def quote_events_def
        sample_quote_def)
  let ?body = "text_document sample_writer (quote_fields statistics_names ?q @ [(''ActionDay'', c_string (ActionDay ?q))])"
  obtain f where f: "read_quote sample_bson ''Volume'' True ?body = Inr (?q\<lparr>statistics := f\<rparr>)"
    using quote_read [OF sample_bson_laws sample_quote_recordable] by blast
  have "CtpMarketData sample_bson (\<lambda>_. 5) ?body Map.empty = Inr (m', es)"
    using run by (simp add: CtpMarketData_def f sends_ignore_statistics)
  moreover have "\<forall>(e, t) \<in> set es. event_ok e"
    by (rule sent_events_ok [OF sample_quote_recordable])
      (use run in \<open>auto simp: ctp_SendDepthMarketData_def ctp_MakePriceVolume_def bind_res_Inr_iff\<close>)
  ultimately obtain msg docs where c: "ctp_Convert sample_bson sample_writer (\<lambda>_. 5) 2 msg Map.empty = Inr (m', docs)"
    "list_all2 (\<lambda>doc (e, t). holds_event sample_bson 0 doc e) docs es"
    using convert_stored [where market_data = "CtpMarketData sample_bson (\<lambda>_. 5)" and body = ?body, OF sample_bson_laws]
    unfolding ctp_Convert_def by blast
  have "docs \<noteq> []" using c(2) run(2) by auto
  then show ?thesis
    using converted_documents_are_refused [OF sample_bson_laws insertI1 c(1) hd_in_set] c(1) by blast
qed

end
