(* ===== verification/Trader_Orders.thy ===== *)
theory Trader_Orders
  imports Strategy Depth_Quotes
begin

text \<open>
  What the order gateways of the Chinese exchanges share (femas/exchange, rem/exchange,
  ctp/exchange): C integers and strings in the structs of the vendors' libraries, the reports
  those libraries call back with, how sides, flags and times are read from them, and the index
  that leads from the number of an order back to the strategy's name for it.  Each gateway
  calls its vendor's library with requests and its strategy with orders and fills; both are
  events, in the order of the calls.
\<close>

section \<open>Integers and strings of the structs\<close>

text \<open>\<open>atoi\<close> and \<open>atof\<close> of the C library: no number is 0, a value that cannot be represented is
  undefined.\<close>

definition atoi32 :: "string \<Rightarrow> i32 res" where
  "atoi32 s =
     (if atoi s < - (2 ^ 31) \<or> 2 ^ 31 \<le> atoi s then Inl Undefined_behaviour
      else Inr (word_of_int (atoi s)))"

definition atof :: "string \<Rightarrow> double res" where
  "atof s =
     (let (neg, s1) = read_sign (dropWhile is_blank s);
          (ip, s2) = span_digits s1;
          (fp, s3) = (case s2 of c # r \<Rightarrow> if c = CHR ''.'' then span_digits r else ([], s2)
                      | [] \<Rightarrow> ([], []));
          v = rnd (of_int (digits_value (ip @ fp)) / 10 ^ length fp * pow10 (read_exponent s3))
      in if ip = [] \<and> fp = [] then Inr 0
         else if 1024 \<le> ilog2 v then Inl Undefined_behaviour
         else Inr (if neg then - v else v))"

text \<open>The increment of an \<open>int\<close>.\<close>

definition int_succ :: "i32 \<Rightarrow> i32 res" where
  "int_succ w = (if sint w = 2 ^ 31 - 1 then Inl Undefined_behaviour else Inr (w + 1))"

text \<open>\<open>strncpy\<close> with the length of the source, into an array of \<open>n\<close> characters that are zero.  A
  source that fills the array leaves no terminator for those who read it.\<close>

definition strncpy_field :: "nat \<Rightarrow> string \<Rightarrow> string res" where
  "strncpy_field n s = (if length s < n then Inr (c_string s) else Inl Undefined_behaviour)"

definition strcpy_field :: "nat \<Rightarrow> string \<Rightarrow> string res" where
  "strcpy_field n s = strcpy n (c_string s)"

text \<open>The first character of a C string.\<close>

definition first_char :: "string \<Rightarrow> char" where
  "first_char s = (case s of [] \<Rightarrow> CHR 0x00 | c # _ \<Rightarrow> c)"

section \<open>Events\<close>

text \<open>\<open>pb::ems::Position\<close> with the fields that are set.\<close>

record ems_position =
  pos_account :: string
  pos_contract :: string
  pos_position :: i64
  pos_today_long :: "i64 option"
  pos_today_short :: "i64 option"

datatype ContractType = CT_None | CT_Futures | CT_Spread

record listed_contract =
  l_name :: string
  l_tick_size :: string
  l_tick_value :: string
  l_yesterday_close_price :: "string option"
  l_upper_limit :: "string option"
  l_lower_limit :: "string option"
  l_contract_type :: ContractType
  l_legA :: "string option"
  l_legB :: "string option"

datatype 'r trader_event =
    Request 'r
  | Order_report ems_order
  | Fill_report ems_fill
  | Position_report "ems_position list"
  | Contract_report listed_contract
  | Exchange_ready

type_synonym ('s, 'r) trader_result = "('s \<times> 'r trader_event list) outcome"

text \<open>What the strategy communicator makes of a call: positions and the announcement that the
  exchange is ready end in it.\<close>

definition publish :: "ems_codec \<Rightarrow> (listed_contract \<Rightarrow> string) \<Rightarrow> 'r trader_event \<Rightarrow> 'r gateway_event list" where
  "publish codec contract_text e =
     (case e of
        Request r \<Rightarrow> [Sent r]
      | Order_report ord \<Rightarrow> [strategy_OnOrder codec ord]
      | Fill_report fill \<Rightarrow> [strategy_OnFill codec fill]
      | Position_report _ \<Rightarrow> []
      | Contract_report c \<Rightarrow> [Published (''C'' @ contract_text c)]
      | Exchange_ready \<Rightarrow> [])"

text \<open>The rejection that a gateway reports itself.\<close>

definition local_reject :: "ems_order \<Rightarrow> ems_order" where
  "local_reject ord = ems_order_default\<lparr>
     p_client_order_id := Some (get '''' (p_client_order_id ord)),
     p_account := Some (get '''' (p_account ord)),
     p_contract := Some (get '''' (p_contract ord)), p_status := Some OS_Rejected\<rparr>"

section \<open>Reports of Femas and CTP\<close>

text \<open>The structs of the two libraries have the same fields under other names; the number of an
  order is \<open>UserOrderLocalID\<close> or \<open>OrderRef\<close>.  A field that a library does not have is not read for it.\<close>

record vendor_input =
  i_order_ref :: string
  i_OrderSysID :: string
  i_UserID :: string
  i_InvestorID :: string
  i_InstrumentID :: string
  i_OrderPriceType :: char
  i_Direction :: char
  i_OffsetFlag :: char
  i_LimitPrice :: double
  i_Volume :: i32
  i_ActionDay :: string

record vendor_order =
  o_order_ref :: string
  o_OrderSysID :: string
  o_OrderUserID :: string
  o_OrderLocalID :: string
  o_UserID :: string
  o_InstrumentID :: string
  o_OrderPriceType :: char
  o_Direction :: char
  o_OffsetFlag :: char
  o_TimeCondition :: char
  o_OrderStatus :: char
  o_LimitPrice :: double
  o_Volume :: i32
  o_VolumeRemain :: i32
  o_VolumeTraded :: i32
  o_ActionDay :: string
  o_InsertTime :: string

record vendor_trade =
  t_order_ref :: string
  t_OrderSysID :: string
  t_OrderUserID :: string
  t_TradeID :: string
  t_UserID :: string
  t_InstrumentID :: string
  t_Direction :: char
  t_OffsetFlag :: char
  t_TradePrice :: double
  t_TradeVolume :: i32
  t_ActionDay :: string
  t_TradeTime :: string

record vendor_action =
  a_order_ref :: string
  a_action_ref :: string
  a_OrderSysID :: string
  a_UserID :: string
  a_LimitPrice :: double
  a_VolumeChange :: i32
  a_ActionFlag :: char

record vendor_position =
  vp_InvestorID :: string
  vp_InstrumentID :: string
  vp_Direction :: char
  vp_Position :: i32

record vendor_instrument =
  vi_InstrumentID :: string
  vi_PriceTick :: double
  vi_VolumeMultiple :: i32
  vi_PreSettlementPrice :: double
  vi_UpperLimitPrice :: double
  vi_LowerLimitPrice :: double
  vi_InstrumentID_1 :: string
  vi_InstrumentID_2 :: string

definition side_of :: "char \<Rightarrow> BuySell" where
  "side_of c = (if c = CHR ''0'' then BS_Buy else BS_Sell)"

text \<open>The codes of the flags are those of both libraries.\<close>

definition flag_of :: "char \<Rightarrow> OrderFlag" where
  "flag_of c =
     (if c = CHR ''0'' then OF_Open else if c = CHR ''1'' then OF_Close
      else if c = CHR ''4'' then OF_YClose else if c = CHR ''3'' then OF_TClose else OF_None)"

text \<open>The price type of a report: any other code leaves it unset, or is a market order.\<close>

definition type_if_known :: "char \<Rightarrow> OrderType option" where
  "type_if_known c =
     (if c = CHR ''2'' then Some OT_Limit else if c = CHR ''1'' then Some OT_Market else None)"

definition type_or_market :: "char \<Rightarrow> OrderType" where
  "type_or_market c = (if c = CHR ''2'' then OT_Limit else OT_Market)"

definition report_time :: "(string \<Rightarrow> u32 option) \<Rightarrow> string \<Rightarrow> string \<Rightarrow> Timestamp option outcome" where
  "report_time cast day time = To_pb_time cast (day @ ''-'' @ time @ ''.000'')"

definition SetOrderStatus :: "char \<Rightarrow> char \<Rightarrow> OrderStatus" where
  "SetOrderStatus pending c =
     (if c = CHR ''0'' then OS_Filled else if c = CHR ''1'' then OS_Working
      else if c = CHR ''2'' then OS_Filled else if c = CHR ''3'' then OS_Working
      else if c = CHR ''4'' then OS_Rejected else if c = CHR ''5'' then OS_Cancelled
      else if c = pending then OS_Pending else OS_None)"

definition position_report :: "vendor_position \<Rightarrow> ems_position" where
  "position_report p =
     \<lparr>pos_account = vp_InvestorID p, pos_contract = vp_InstrumentID p,
      pos_position = scast (vp_Position p),
      pos_today_long = (if vp_Direction p = CHR ''0'' then Some (scast (vp_Position p)) else None),
      pos_today_short =
        (if vp_Direction p = CHR ''1'' then Some (scast (vp_Position p)) else None)\<rparr>"

definition tick_value :: "double \<Rightarrow> i32 \<Rightarrow> string" where
  "tick_value tick multiple = to_string_double (double_mult tick (double_of_int (sint multiple)))"

text \<open>The substitute for an unknown id.\<close>

definition join_bars :: "string list \<Rightarrow> string" where
  "join_bars parts = hd parts @ concat (map (\<lambda>p. ''|'' @ p) (tl parts))"

section \<open>The index of orders\<close>

text \<open>An index that keeps the first name it is given for a number.\<close>

definition add_first :: "'k \<Rightarrow> 'i \<Rightarrow> ('k \<Rightarrow> 'i option) \<Rightarrow> 'k \<Rightarrow> 'i option" where
  "add_first k i m = (if m k = None then m(k \<mapsto> i) else m)"

locale order_index =
  fixes add :: "'k \<Rightarrow> 'i \<Rightarrow> 's \<Rightarrow> 's" and look :: "'k \<Rightarrow> 's \<Rightarrow> 'i option"
  assumes look_add:
    "look k' (add k i s) = (if k' = k \<and> look k s = None then Some i else look k' s)"
begin

lemma first_wins: "look k s = Some i \<Longrightarrow> look k (add k' j s) = Some i"
  by (auto simp: look_add)

lemma look_added: "look k (add k i s) = Some (case look k s of None \<Rightarrow> i | Some j \<Rightarrow> j)"
  by (simp add: look_add split: option.splits)

lemma look_fold:
  "look k (fold (\<lambda>(k, i). add k i) kis s) =
     (case look k s of None \<Rightarrow> map_of kis k | Some i \<Rightarrow> Some i)"
proof (induction kis arbitrary: s)
  case (Cons ki kis)
  then show ?case by (cases ki) (auto simp: look_add split: option.splits)
qed (simp split: option.splits)

end

interpretation first_index: order_index add_first "\<lambda>k m. m k"
  by unfold_locales (simp add: add_first_def)

section \<open>Numbers and their texts\<close>

lemma atoi_show_digits: "0 \<le> n \<Longrightarrow> atoi (show_digits n) = n"
  using show_digits_unsigned [of n "[]"] span_show [of n] span_show_digits [of n]
  by (simp add: atoi_def Let_def)

lemma atoi_show_negative: "0 \<le> n \<Longrightarrow> atoi (CHR ''-'' # show_digits n) = - n"
  using span_show [of n] span_show_digits [of n]
  by (simp add: atoi_def Let_def read_sign_def is_blank_def)

lemma atoi_show_i32 [simp]: "atoi (show_i32 w) = sint w"
  by (simp add: show_i32_def atoi_show_digits atoi_show_negative)

lemma sint_i32_range: "- (2 ^ 31) \<le> sint (w :: i32)" "sint (w :: i32) < 2 ^ 31"
  using sint_ge [of w] sint_lt [of w] by simp_all

lemma atoi32_show_i32 [simp]: "atoi32 (show_i32 w) = Inr w"
  using sint_i32_range [of w] by (simp add: atoi32_def)

lemma int_succ_Inr: "int_succ w = Inr v \<longleftrightarrow> sint w \<noteq> 2 ^ 31 - 1 \<and> v = w + 1"
  by (auto simp: int_succ_def)

lemma sint_succ:
  assumes "int_succ w = Inr v"
  shows "sint v = sint w + 1"
proof -
  have "sint w < 2 ^ 31 - 1" using assms sint_i32_range(2) [of w] by (simp add: int_succ_Inr)
  then have "signed_take_bit 31 (sint w + 1) = sint w + 1"
    using sint_i32_range(1) [of w] by (intro signed_take_bit_int_eq_self) simp_all
  then show ?thesis using assms by (simp add: int_succ_Inr sint_word_ariths)
qed

section \<open>What the strategies can expect of an order gateway\<close>

text \<open>A gateway answers a new order that passed the check of the communicator with exactly one call,
  and does nothing on a request to change an order.\<close>

locale trader_port =
  fixes codec :: ems_codec
    and ex :: "('s, 'x) exchangeI"
    and ready :: "'s \<Rightarrow> bool"
    and good :: "ems_order \<Rightarrow> bool"
    and answers :: "ems_order \<Rightarrow> 's \<Rightarrow> 's \<Rightarrow> 'x gateway_event list \<Rightarrow> bool"
  assumes added: "ready s \<Longrightarrow> strategy_Check_order ord = Inr () \<Longrightarrow> good ord \<Longrightarrow>
      \<exists>s' es. ex_Add ex ord s = Inr (s', es) \<and> answers ord s s' es"
    and unchanged: "ex_Change ex ord s = Inr (s, [])"
begin

lemma new_order_answered:
  assumes "ready s" "ParseFromArray codec data = Some ord" "good ord"
    "strategy_Check_order ord = Inr ()"
  shows "\<exists>s' es. Order_request codec ex (CHR ''1'' # data) s = Inr (s', es) \<and> answers ord s s' es"
proof -
  obtain s' es where "ex_Add ex ord s = Inr (s', es)" "answers ord s s' es"
    using added [OF assms(1,4,3)] by blast
  then show ?thesis using assms(2,4)
    by (simp add: Order_request_def with_order_def strategy_Create_order_def catch_InvalidOrder_def)
qed

lemma change_unanswered:
  assumes "ParseFromArray codec data = Some ord" "strategy_Check_order ord = Inr ()"
  shows "Order_request codec ex (CHR ''3'' # data) s = Inr (s, [])"
  using assms unchanged
  by (simp add: Order_request_def with_order_def strategy_Create_order_def catch_InvalidOrder_def)

end

text \<open>The events of a request as the communicator's socket and the library see them; no request reports
  a contract, so its text does not matter.\<close>

definition published ::
    "ems_codec \<Rightarrow> ('s, 'r) trader_result \<Rightarrow> ('s \<times> 'r gateway_event list) outcome" where
  "published codec r =
     bind_out r (\<lambda>(s, es). Inr (s, concat (map (publish codec (\<lambda>_. '''')) es)))"

lemma published_simps [simp]:
  "published codec (Inr (s, [])) = Inr (s, [])"
  "published codec (Inr (s, [Request r])) = Inr (s, [Sent r])"
  "published codec (Inr (s, [Order_report ord])) = Inr (s, [strategy_OnOrder codec ord])"
  "published codec (Inl e) = Inl e"
  by (simp_all add: published_def publish_def)

section \<open>Prices the gateways read\<close>

lemma atof_stod: "stod s = Inr x \<Longrightarrow> atof s = Inr x"
  by (auto simp: stod_def atof_def Let_def split: prod.splits if_splits list.splits)

lemma valid_price_atof: "Is_price_valid s \<Longrightarrow> length s \<le> 300 \<Longrightarrow> \<exists>x. atof s = Inr x"
  using valid_price_readable [of s] atof_stod by blast

lemma strncpy_field_fits: "length s < n \<Longrightarrow> strncpy_field n s = Inr (c_string s)"
  by (simp add: strncpy_field_def)

lemma strcpy_field_fits: "length s < n \<Longrightarrow> strcpy_field n s = Inr (c_string s)"
  using length_takeWhile_le [of "\<lambda>c. c \<noteq> CHR 0x00" s]
  by (simp add: strcpy_field_def strcpy_def c_string_def)

section \<open>Orders and the reports on them\<close>

definition client_id :: "ems_order \<Rightarrow> string" where
  "client_id ord = get '''' (p_client_order_id ord)"

fun reported_id :: "'r trader_event \<Rightarrow> string option" where
  "reported_id (Order_report r) = p_client_order_id r"
| "reported_id (Fill_report f) = Some (q_client_order_id f)"
| "reported_id e = None"

text \<open>An order and a report on it agree, but for the flag.\<close>

definition same_order :: "ems_order \<Rightarrow> ems_order \<Rightarrow> bool" where
  "same_order ord rep \<longleftrightarrow>
     p_client_order_id rep = Some (client_id ord) \<and>
     p_account rep = Some (get '''' (p_account ord)) \<and> p_contract rep = p_contract ord \<and>
     p_buy_sell rep = p_buy_sell ord \<and> p_quantity rep = p_quantity ord \<and>
     p_order_type rep = p_order_type ord \<and>
     (\<exists>px. atof (get '''' (p_price ord)) = Inr px \<and> p_price rep = Some (to_string_double px))"

text \<open>Text without NUL characters, and a quantity that an \<open>int\<close> holds.\<close>

definition plain_order :: "ems_order \<Rightarrow> bool" where
  "plain_order ord \<longleftrightarrow>
     c_string (get '''' (p_account ord)) = get '''' (p_account ord) \<and>
     c_string (get '''' (p_contract ord)) = get '''' (p_contract ord) \<and>
     uint (get 0 (p_quantity ord)) < 2 ^ 31"

lemma lift_res_Inr_iff: "lift_res r = Inr x \<longleftrightarrow> r = Inr x"
  by (cases r) simp_all

lemma quantity_back:
  assumes "uint (q :: u64) < 2 ^ 31"
  shows "scast (ucast q :: i32) = q"
proof -
  have "take_bit 32 (uint q) = uint q" using assms by (intro take_bit_int_eq_self) simp_all
  moreover have "- (2 ^ 31) \<le> uint q" by (rule order_trans [OF _ uint_ge_0]) simp
  ultimately have "signed_take_bit 31 (uint q) = uint q"
    using assms by (intro signed_take_bit_int_eq_self) simp_all
  then have "sint (ucast q :: i32) = uint q" by (simp add: signed_ucast_eq)
  then show ?thesis by (simp add: scast_eq)
qed

end
