(* ===== verification/Femas_Trader.thy ===== *)
theory Femas_Trader
  imports Trader_Orders
begin

text \<open>
  The order gateway of Femas: the communicator that turns requests of the strategies into calls
  of the vendor's library (femas/exchange/communicator.cc) and the manager the library calls
  back (femas/exchange/FemasUstpFtdcTraderManger.cc).  Every call of the library takes the next
  number; the manager keeps the client's id for the number of each order.  The settings file is
  the parameter \<open>Get\<close>; a null pointer from the library is \<open>None\<close>.
\<close>

section \<open>State and requests\<close>

record femas_trader =
  f_IConnet :: int
  f_MaxOrderLocalID :: i32
  f_InitQueryNum :: nat
  f_ordermap :: "i32 \<Rightarrow> string option"
  f_startfinish :: bool
  f_strategy :: bool

definition femas_trader_new :: femas_trader where
  "femas_trader_new = \<lparr>f_IConnet = -1, f_MaxOrderLocalID = 0, f_InitQueryNum = 0,
     f_ordermap = (\<lambda>_. None), f_startfinish = False, f_strategy = False\<rparr>"

definition femas_SetStrategy :: "femas_trader \<Rightarrow> femas_trader" where
  "femas_SetStrategy s = s\<lparr>f_strategy := True\<rparr>"

record femas_input =
  fi_UserOrderLocalID :: string
  fi_BrokerID :: string
  fi_UserID :: string
  fi_InstrumentID :: string
  fi_InvestorID :: string
  fi_ExchangeID :: string
  fi_Direction :: char
  fi_OffsetFlag :: char
  fi_HedgeFlag :: char
  fi_LimitPrice :: double
  fi_Volume :: i32
  fi_TimeCondition :: char
  fi_IsAutoSuspend :: i32
  fi_OrderPriceType :: char
  fi_VolumeCondition :: char
  fi_ForceCloseReason :: char

record femas_action =
  fa_OrderSysID :: string
  fa_UserOrderLocalID :: string
  fa_UserOrderActionLocalID :: string
  fa_ExchangeID :: string
  fa_BrokerID :: string
  fa_UserID :: string
  fa_InvestorID :: string
  fa_ActionFlag :: char

text \<open>The structs of the queries, with the fields that are set.\<close>

record femas_query =
  fq_ExchangeID :: string
  fq_BrokerID :: string
  fq_UserID :: string
  fq_InvestorID :: string
  fq_OrderSysID :: string
  fq_OrderStatus :: char
  fq_InstrumentID :: string

datatype femas_request =
    Femas_ReqUserLogin string string string
  | Femas_ReqUserLogout string string i32
  | Femas_ReqOrderInsert femas_input i32
  | Femas_ReqOrderAction femas_action i32
  | Femas_ReqQryOrder femas_query i32
  | Femas_ReqQryTrade femas_query i32
  | Femas_ReqQryInvestorPosition femas_query i32
  | Femas_ReqQryInstrument string i32

type_synonym femas_result = "(femas_trader, femas_request) trader_result"

section \<open>The index of orders\<close>

definition femas_AddOrderId :: "string \<Rightarrow> i32 \<Rightarrow> femas_trader \<Rightarrow> femas_trader" where
  "femas_AddOrderId cl_orderid i_key s =
     (let k = (if i_key \<noteq> -1 then i_key else f_MaxOrderLocalID s)
      in if f_ordermap s k = None then s\<lparr>f_ordermap := (f_ordermap s)(k \<mapsto> cl_orderid)\<rparr> else s)"

definition femas_GetOrderId :: "i32 \<Rightarrow> femas_trader \<Rightarrow> string" where
  "femas_GetOrderId i_key s = (case f_ordermap s i_key of None \<Rightarrow> '''' | Some i \<Rightarrow> i)"

section \<open>Requests of the strategies\<close>

definition femas_Direction :: "BuySell \<Rightarrow> char" where
  "femas_Direction b =
     (if b = BS_Buy then CHR ''0'' else if b = BS_Sell then CHR ''1'' else CHR 0x00)"

definition femas_OffsetFlag :: "OrderFlag \<Rightarrow> char" where
  "femas_OffsetFlag f =
     (case f of OF_Open \<Rightarrow> CHR ''0'' | OF_Close \<Rightarrow> CHR ''1'' | OF_TClose \<Rightarrow> CHR ''3''
      | OF_YClose \<Rightarrow> CHR ''4'' | OF_None \<Rightarrow> CHR ''9'')"

definition femas_OrderPriceType :: "OrderType \<Rightarrow> char" where
  "femas_OrderPriceType t =
     (case t of OT_Limit \<Rightarrow> CHR ''2'' | OT_Market \<Rightarrow> CHR ''1'' | OT_None \<Rightarrow> CHR 0x00)"

text \<open>The call of the library takes the current number and counts it up.\<close>

definition femas_send :: "(i32 \<Rightarrow> femas_request) \<Rightarrow> femas_trader \<Rightarrow> femas_result" where
  "femas_send r s =
     bind_out (lift_res (int_succ (f_MaxOrderLocalID s))) (\<lambda>n.
       Inr (s\<lparr>f_MaxOrderLocalID := n\<rparr>, [Request (r (f_MaxOrderLocalID s))]))"

definition femas_input_order ::
    "(string \<Rightarrow> string) \<Rightarrow> ems_order \<Rightarrow> i32 \<Rightarrow> femas_input outcome" where
  "femas_input_order Get ord n =
     bind_out (lift_res (strncpy_field 11 (Get ''femas-user.BrokerID''))) (\<lambda>broker.
     bind_out (lift_res (strncpy_field 16 (get '''' (p_account ord)))) (\<lambda>user.
     bind_out (lift_res (strncpy_field 31 (get '''' (p_contract ord)))) (\<lambda>instrument.
     bind_out (lift_res (strcpy_field 19 (Get ''femas-exchange.InvestorID''))) (\<lambda>investor.
     bind_out (lift_res (atof (get '''' (p_price ord)))) (\<lambda>px.
       Inr \<lparr>fi_UserOrderLocalID = show_i32 n, fi_BrokerID = broker, fi_UserID = user,
         fi_InstrumentID = instrument, fi_InvestorID = investor, fi_ExchangeID = '''',
         fi_Direction = femas_Direction (get BS_None (p_buy_sell ord)),
         fi_OffsetFlag = femas_OffsetFlag (get OF_None (p_order_flag ord)),
         fi_HedgeFlag = first_char (Get ''femas-exchange.HedgeFlag''),
         fi_LimitPrice = px, fi_Volume = ucast (get 0 (p_quantity ord)),
         fi_TimeCondition = CHR 0x00, fi_IsAutoSuspend = 0, fi_OrderPriceType = CHR 0x00,
         fi_VolumeCondition = CHR 0x00, fi_ForceCloseReason = CHR 0x00\<rparr>)))))"

text \<open>The part after the check of price and volume.\<close>

definition femas_complete_order ::
    "(string \<Rightarrow> string) \<Rightarrow> ems_order \<Rightarrow> femas_input \<Rightarrow> femas_input outcome" where
  "femas_complete_order Get ord i =
     bind_out (lift_res (atoi32 (Get ''femas-exchange.IsAutoSuspend''))) (\<lambda>suspend.
     bind_out (lift_res (strcpy_field 11 (Get ''femas-exchange.ExchangeID''))) (\<lambda>exchange.
       Inr (i\<lparr>fi_TimeCondition := first_char (Get ''femas-exchange.TimeCondition''),
         fi_IsAutoSuspend := suspend, fi_ExchangeID := exchange,
         fi_OrderPriceType := femas_OrderPriceType (get OT_None (p_order_type ord)),
         fi_VolumeCondition := first_char (Get ''femas-exchange.VolumeCondition''),
         fi_ForceCloseReason := first_char (Get ''femas-exchange.ForceCloseReason'')\<rparr>)))"

definition femas_Add :: "(string \<Rightarrow> string) \<Rightarrow> ems_order \<Rightarrow> femas_trader \<Rightarrow> femas_result" where
  "femas_Add Get ord s =
     (let s1 = femas_AddOrderId (get '''' (p_client_order_id ord)) (-1) s in
      bind_out (femas_input_order Get ord (f_MaxOrderLocalID s)) (\<lambda>i.
        if fi_LimitPrice i \<le> 0 \<or> sint (fi_Volume i) \<le> 0
        then if f_strategy s then Inr (s1, [Order_report (local_reject ord)])
             else Inl (Thrown Undefined_behaviour)
        else bind_out (femas_complete_order Get ord i) (\<lambda>i'.
               femas_send (Femas_ReqOrderInsert i') s1)))"

definition femas_Change :: "ems_order \<Rightarrow> femas_trader \<Rightarrow> femas_result" where
  "femas_Change ord s = Inr (s, [])"

definition femas_Delete :: "(string \<Rightarrow> string) \<Rightarrow> ems_order \<Rightarrow> femas_trader \<Rightarrow> femas_result" where
  "femas_Delete Get ord s =
     (let s1 = femas_AddOrderId (get '''' (p_client_order_id ord)) (-1) s in
      bind_out (lift_res (strncpy_field 31 (get '''' (p_exchange_order_id ord)))) (\<lambda>sys.
      bind_out (lift_res (strncpy_field 21 (get '''' (p_client_order_id ord)))) (\<lambda>local.
      bind_out (lift_res (strcpy_field 11 (Get ''femas-exchange.ExchangeID''))) (\<lambda>exchange.
      bind_out (lift_res (strncpy_field 11 (Get ''femas-user.BrokerID''))) (\<lambda>broker.
      bind_out (lift_res (strncpy_field 16 (get '''' (p_account ord)))) (\<lambda>user.
      bind_out (lift_res (strcpy_field 19 (Get ''femas-exchange.InvestorID''))) (\<lambda>investor.
        femas_send (Femas_ReqOrderAction
          \<lparr>fa_OrderSysID = sys, fa_UserOrderLocalID = local,
           fa_UserOrderActionLocalID = show_i32 (f_MaxOrderLocalID s), fa_ExchangeID = exchange,
           fa_BrokerID = broker, fa_UserID = user, fa_InvestorID = investor,
           fa_ActionFlag = CHR ''0''\<rparr>) s1)))))))"

definition femas_query_status :: "OrderStatus \<Rightarrow> char" where
  "femas_query_status st =
     (case st of OS_Cancelled \<Rightarrow> CHR ''5'' | OS_Filled \<Rightarrow> CHR ''0'' | OS_Rejected \<Rightarrow> CHR ''4''
      | OS_Working \<Rightarrow> CHR ''3'' | OS_Pending \<Rightarrow> CHR ''6'' | OS_None \<Rightarrow> CHR 0x00)"

definition femas_Query :: "(string \<Rightarrow> string) \<Rightarrow> ems_order \<Rightarrow> femas_trader \<Rightarrow> femas_result" where
  "femas_Query Get ord s =
     (let s1 = femas_AddOrderId (get '''' (p_client_order_id ord)) (-1) s in
      bind_out (lift_res (strcpy_field 11 (Get ''femas-exchange.ExchangeID''))) (\<lambda>exchange.
      bind_out (lift_res (strncpy_field 11 (Get ''femas-user.BrokerID''))) (\<lambda>broker.
      bind_out (lift_res (strncpy_field 16 (get '''' (p_account ord)))) (\<lambda>user.
      bind_out (lift_res (strcpy_field 19 (Get ''femas-exchange.InvestorID''))) (\<lambda>investor.
      bind_out (lift_res (strcpy_field 31 (get '''' (p_exchange_order_id ord)))) (\<lambda>sys.
        femas_send (Femas_ReqQryOrder
          \<lparr>fq_ExchangeID = exchange, fq_BrokerID = broker, fq_UserID = user,
           fq_InvestorID = investor, fq_OrderSysID = sys,
           fq_OrderStatus = femas_query_status (get OS_None (p_status ord)),
           fq_InstrumentID = ''''\<rparr>) s1))))))"

definition femas_Query_mass :: "string \<Rightarrow> femas_trader \<Rightarrow> femas_result" where
  "femas_Query_mass data s = Inr (s, [])"

definition femas_Delete_mass :: "string \<Rightarrow> femas_trader \<Rightarrow> femas_result" where
  "femas_Delete_mass data s = Inr (s, [])"

section \<open>Login and logout\<close>

text \<open>The strings are copied into arrays that are not cleared before; what a C string holds after the
  copy is the same.\<close>

definition femas_OnFrontConnected :: "(string \<Rightarrow> string) \<Rightarrow> femas_trader \<Rightarrow> femas_result" where
  "femas_OnFrontConnected Get s =
     bind_out (lift_res (strcpy_field 11 (Get ''femas-user.BrokerID''))) (\<lambda>broker.
     bind_out (lift_res (strcpy_field 16 (Get ''femas-user.UserID''))) (\<lambda>user.
     bind_out (lift_res (strcpy_field 41 (Get ''femas-user.Password''))) (\<lambda>password.
       Inr (s, [Request (Femas_ReqUserLogin broker user password)]))))"

text \<open>The error code and the greatest number the exchange knows.\<close>

definition femas_OnRspUserLogin ::
    "string option \<Rightarrow> i32 option \<Rightarrow> femas_trader \<Rightarrow> femas_result" where
  "femas_OnRspUserLogin pRspUserLogin pRspInfo s =
     (case (pRspUserLogin, pRspInfo) of
        (Some max_local, Some ErrorID) \<Rightarrow>
          if ErrorID \<noteq> 0 then Inr (s\<lparr>f_IConnet := 1\<rparr>, [])
          else bind_out (lift_res (bind_res (atoi32 max_local) int_succ)) (\<lambda>n.
                 Inr (s\<lparr>f_MaxOrderLocalID := n, f_IConnet := 0\<rparr>, []))
      | _ \<Rightarrow> Inr (s, []))"

definition femas_Stop :: "(string \<Rightarrow> string) \<Rightarrow> femas_trader \<Rightarrow> femas_result" where
  "femas_Stop Get s =
     bind_out (lift_res (strcpy_field 11 (Get ''femas-user.BrokerID''))) (\<lambda>broker.
     bind_out (lift_res (strcpy_field 16 (Get ''femas-user.UserID''))) (\<lambda>user.
       femas_send (Femas_ReqUserLogout broker user) s))"

section \<open>Reports\<close>

text \<open>The client's id for a number, or the parts given joined by bars.\<close>

definition femas_client_id :: "string \<Rightarrow> string list \<Rightarrow> femas_trader \<Rightarrow> string outcome" where
  "femas_client_id ref parts s =
     bind_out (lift_res (atoi32 ref)) (\<lambda>k.
       Inr (let i = femas_GetOrderId k s in
            if i = '''' then join_bars parts else i))"

text \<open>The flag in the answer to an insert: the two kinds of closing are exchanged there.\<close>

definition femas_insert_flag :: "char \<Rightarrow> OrderFlag" where
  "femas_insert_flag c =
     (if c = CHR ''0'' then OF_Open else if c = CHR ''1'' then OF_Close
      else if c = CHR ''4'' then OF_TClose else if c = CHR ''3'' then OF_YClose else OF_None)"

definition femas_OnInsertOrder ::
    "(string \<Rightarrow> u32 option) \<Rightarrow> vendor_input \<Rightarrow> i32 \<Rightarrow> femas_trader \<Rightarrow> femas_result" where
  "femas_OnInsertOrder cast i ErrorID s =
     (if \<not> f_strategy s then Inr (s, [])
      else
        bind_out (femas_client_id (i_order_ref i) [i_order_ref i, i_OrderSysID i] s) (\<lambda>cl.
        bind_out (report_time cast (i_ActionDay i) ''00:00:00'') (\<lambda>time.
          Inr (s, [Order_report (ems_order_default\<lparr>
            p_client_order_id := Some cl, p_account := Some (i_UserID i),
            p_contract := Some (i_InstrumentID i), p_buy_sell := Some (side_of (i_Direction i)),
            p_price := Some (to_string_double (i_LimitPrice i)),
            p_quantity := Some (scast (i_Volume i)), p_tif := Some TIF_GFD,
            p_order_type := type_if_known (i_OrderPriceType i),
            p_exchange_order_id := Some (i_OrderSysID i),
            p_status := (if ErrorID \<noteq> 0 then Some OS_Rejected else None),
            p_submit_time := time,
            p_order_flag := Some (femas_insert_flag (i_OffsetFlag i))\<rparr>)]))))"

text \<open>An order as the exchange has it; \<open>parts\<close> and \<open>otype\<close> are what the two callers differ in.\<close>

definition femas_order_report ::
    "(string \<Rightarrow> u32 option) \<Rightarrow> string list \<Rightarrow> OrderType option \<Rightarrow> vendor_order \<Rightarrow> femas_trader \<Rightarrow>
     ems_order outcome" where
  "femas_order_report cast parts otype r s =
     bind_out (femas_client_id (o_order_ref r) parts s) (\<lambda>cl.
     bind_out (report_time cast (o_ActionDay r) (o_InsertTime r)) (\<lambda>time.
       Inr (ems_order_default\<lparr>
         p_client_order_id := Some cl, p_account := Some (o_UserID r),
         p_contract := Some (o_InstrumentID r), p_buy_sell := Some (side_of (o_Direction r)),
         p_price := Some (to_string_double (o_LimitPrice r)),
         p_quantity := Some (scast (o_Volume r)), p_tif := Some TIF_GFD,
         p_order_type := otype, p_exchange_order_id := Some (o_OrderSysID r),
         p_status := Some (SetOrderStatus (CHR ''6'') (o_OrderStatus r)),
         p_working_price := Some (to_string_double (o_LimitPrice r)),
         p_working_quantity := Some (scast (o_VolumeRemain r)),
         p_filled_quantity := Some (scast (o_VolumeTraded r)),
         p_submit_time := time, p_order_flag := Some (flag_of (o_OffsetFlag r))\<rparr>)))"

definition femas_OnOrder ::
    "(string \<Rightarrow> u32 option) \<Rightarrow> vendor_order \<Rightarrow> femas_trader \<Rightarrow> femas_result" where
  "femas_OnOrder cast r s =
     (if \<not> f_strategy s then Inr (s, [])
      else bind_out (femas_order_report cast [o_order_ref r, o_OrderSysID r, o_OrderUserID r]
               (type_if_known (o_OrderPriceType r)) r s) (\<lambda>ord. Inr (s, [Order_report ord])))"

definition femas_OnQryOrder ::
    "(string \<Rightarrow> u32 option) \<Rightarrow> vendor_order \<Rightarrow> femas_trader \<Rightarrow> femas_result" where
  "femas_OnQryOrder cast r s =
     (if \<not> f_strategy s then Inr (s, [])
      else bind_out (femas_order_report cast [o_order_ref r, o_OrderUserID r, o_OrderLocalID r]
               (Some (type_or_market (o_OrderPriceType r))) r s) (\<lambda>ord. Inr (s, [Order_report ord])))"

definition femas_OnFill ::
    "(string \<Rightarrow> u32 option) \<Rightarrow> vendor_trade \<Rightarrow> femas_trader \<Rightarrow> femas_result" where
  "femas_OnFill cast t s =
     (if \<not> f_strategy s then Inr (s, [])
      else
        bind_out (femas_client_id (t_order_ref t) [t_OrderUserID t, t_OrderSysID t, t_order_ref t] s) (\<lambda>cl.
        bind_out (report_time cast (t_ActionDay t) (t_TradeTime t)) (\<lambda>time.
          Inr (s, [Fill_report \<lparr>q_fill_id = t_TradeID t,
            q_fill_price = to_string_double (t_TradePrice t),
            q_fill_quantity = scast (t_TradeVolume t), q_account = t_UserID t,
            q_client_order_id = cl, q_exchange_order_id = t_OrderSysID t,
            q_contract = t_InstrumentID t, q_buy_sell = side_of (t_Direction t),
            q_fill_time = time, q_order_flag = Some (flag_of (t_OffsetFlag t))\<rparr>]))))"

definition femas_OnQryTrade ::
    "(string \<Rightarrow> u32 option) \<Rightarrow> vendor_trade \<Rightarrow> bool \<Rightarrow> femas_trader \<Rightarrow> femas_result" where
  "femas_OnQryTrade cast t bIsLast s =
     bind_out
       (if \<not> f_strategy s then Inr []
        else
          bind_out (femas_client_id (t_order_ref t) [t_order_ref t, t_OrderSysID t, t_OrderUserID t] s) (\<lambda>cl.
          bind_out (report_time cast (t_ActionDay t) (t_TradeTime t)) (\<lambda>time.
            Inr [Order_report (ems_order_default\<lparr>
              p_client_order_id := Some cl, p_account := Some (t_UserID t),
              p_contract := Some (t_InstrumentID t), p_buy_sell := Some (side_of (t_Direction t)),
              p_price := Some (to_string_double (t_TradePrice t)),
              p_quantity := Some (scast (t_TradeVolume t)), p_tif := Some TIF_GFD,
              p_exchange_order_id := Some (t_OrderSysID t), p_status := Some OS_Filled,
              p_working_price := Some (to_string_double (t_TradePrice t)),
              p_working_quantity := Some 0, p_filled_quantity := Some (scast (t_TradeVolume t)),
              p_submit_time := time, p_order_flag := Some (flag_of (t_OffsetFlag t))\<rparr>)])))
       (\<lambda>es. Inr (if bIsLast then s\<lparr>f_startfinish := True\<rparr> else s, es))"

text \<open>The answer to a request to cancel; whether it says that the request failed is not looked at.\<close>

definition femas_OnActionOrder :: "vendor_action \<Rightarrow> i32 \<Rightarrow> femas_trader \<Rightarrow> femas_result" where
  "femas_OnActionOrder a ErrorID s =
     (if \<not> f_strategy s then Inr (s, [])
      else
        bind_out (femas_client_id (a_action_ref a) [a_order_ref a, a_action_ref a, a_OrderSysID a] s) (\<lambda>cl.
          Inr (s, [Order_report (ems_order_default\<lparr>
            p_client_order_id := Some cl, p_account := Some (a_UserID a),
            p_price := Some (to_string_double (a_LimitPrice a)),
            p_quantity := Some (scast (a_VolumeChange a)),
            p_exchange_order_id := Some (a_OrderSysID a),
            p_status := (if a_ActionFlag a = CHR ''0'' then Some OS_Cancelled
                         else if a_ActionFlag a = CHR ''1'' then Some OS_Pending
                         else if a_ActionFlag a = CHR ''2'' \<or> a_ActionFlag a = CHR ''3''
                         then Some OS_Working else None)\<rparr>)])))"

definition femas_OnQryInvestorPosition ::
    "vendor_position \<Rightarrow> bool \<Rightarrow> femas_trader \<Rightarrow> femas_result" where
  "femas_OnQryInvestorPosition p bIsLast s =
     Inr (if bIsLast then s\<lparr>f_startfinish := True\<rparr> else s,
       if f_strategy s then [Position_report [position_report p]] else [])"

text \<open>The contract of an instrument; its document for the database is left out.\<close>

definition femas_OnQryInstrument :: "vendor_instrument \<Rightarrow> femas_trader \<Rightarrow> femas_result" where
  "femas_OnQryInstrument i s =
     (if \<not> f_strategy s then Inr (s, [])
      else Inr (s, [Contract_report
        \<lparr>l_name = vi_InstrumentID i, l_tick_size = to_string_double (vi_PriceTick i),
         l_tick_value = tick_value (vi_PriceTick i) (vi_VolumeMultiple i),
         l_yesterday_close_price = Some (to_string_double (vi_PreSettlementPrice i)),
         l_upper_limit = Some (to_string_double (vi_UpperLimitPrice i)),
         l_lower_limit = Some (to_string_double (vi_LowerLimitPrice i)),
         l_contract_type = CT_Futures, l_legA = Some (vi_InstrumentID_1 i),
         l_legB = Some (vi_InstrumentID_2 i)\<rparr>]))"

section \<open>The functions the library calls\<close>

definition femas_OnRspOrderInsert ::
    "(string \<Rightarrow> u32 option) \<Rightarrow> vendor_input option \<Rightarrow> i32 option \<Rightarrow> femas_trader \<Rightarrow> femas_result" where
  "femas_OnRspOrderInsert cast pInputOrder pRspInfo s =
     (case (pInputOrder, pRspInfo) of
        (Some i, Some ErrorID) \<Rightarrow> femas_OnInsertOrder cast i ErrorID s | _ \<Rightarrow> Inr (s, []))"

definition femas_OnRtnOrder ::
    "(string \<Rightarrow> u32 option) \<Rightarrow> vendor_order option \<Rightarrow> femas_trader \<Rightarrow> femas_result" where
  "femas_OnRtnOrder cast pOrder s =
     (case pOrder of None \<Rightarrow> Inr (s, []) | Some r \<Rightarrow> femas_OnOrder cast r s)"

definition femas_OnRtnTrade ::
    "(string \<Rightarrow> u32 option) \<Rightarrow> vendor_trade option \<Rightarrow> femas_trader \<Rightarrow> femas_result" where
  "femas_OnRtnTrade cast pTrade s =
     (case pTrade of None \<Rightarrow> Inr (s, []) | Some t \<Rightarrow> femas_OnFill cast t s)"

text \<open>Errors of orders and cancels that the exchange finds later are logged only.\<close>

definition femas_OnErrRtnOrderInsert ::
    "vendor_input option \<Rightarrow> i32 option \<Rightarrow> femas_trader \<Rightarrow> femas_result" where
  "femas_OnErrRtnOrderInsert pInputOrder pRspInfo s = Inr (s, [])"

definition femas_OnErrRtnOrderAction ::
    "vendor_action option \<Rightarrow> i32 option \<Rightarrow> femas_trader \<Rightarrow> femas_result" where
  "femas_OnErrRtnOrderAction pOrderAction pRspInfo s = Inr (s, [])"

definition femas_OnRspOrderAction ::
    "vendor_action option \<Rightarrow> i32 option \<Rightarrow> femas_trader \<Rightarrow> femas_result" where
  "femas_OnRspOrderAction pOrderAction pRspInfo s =
     (case (pOrderAction, pRspInfo) of
        (Some a, Some ErrorID) \<Rightarrow> femas_OnActionOrder a ErrorID s | _ \<Rightarrow> Inr (s, []))"

definition femas_OnRspQryOrder ::
    "(string \<Rightarrow> u32 option) \<Rightarrow> vendor_order option \<Rightarrow> i32 option \<Rightarrow> femas_trader \<Rightarrow> femas_result" where
  "femas_OnRspQryOrder cast pOrder pRspInfo s =
     (case (pOrder, pRspInfo) of
        (Some r, Some _) \<Rightarrow> femas_OnQryOrder cast r (s\<lparr>f_InitQueryNum := f_InitQueryNum s - 1\<rparr>)
      | _ \<Rightarrow> Inr (s, []))"

definition femas_OnRspQryTrade ::
    "(string \<Rightarrow> u32 option) \<Rightarrow> vendor_trade option \<Rightarrow> i32 option \<Rightarrow> bool \<Rightarrow> femas_trader \<Rightarrow>
     femas_result" where
  "femas_OnRspQryTrade cast pTrade pRspInfo bIsLast s =
     (case (pTrade, pRspInfo) of
        (Some t, Some _) \<Rightarrow> femas_OnQryTrade cast t bIsLast s | _ \<Rightarrow> Inr (s, []))"

definition femas_OnRspQryInvestorPosition ::
    "vendor_position option \<Rightarrow> i32 option \<Rightarrow> bool \<Rightarrow> femas_trader \<Rightarrow> femas_result" where
  "femas_OnRspQryInvestorPosition pPosition pRspInfo bIsLast s =
     (case (pPosition, pRspInfo) of
        (Some p, Some _) \<Rightarrow> femas_OnQryInvestorPosition p bIsLast s | _ \<Rightarrow> Inr (s, []))"

text \<open>The check of the pointers does not return: the end is noted, and an absent instrument is read.\<close>

definition femas_OnRspQryInstrument ::
    "vendor_instrument option \<Rightarrow> i32 option \<Rightarrow> bool \<Rightarrow> femas_trader \<Rightarrow> femas_result" where
  "femas_OnRspQryInstrument pInstrument pRspInfo bIsLast s =
     (let s1 = (if bIsLast then s\<lparr>f_startfinish := True\<rparr> else s)
      in case pInstrument of
           None \<Rightarrow> Inl (Thrown Undefined_behaviour)
         | Some i \<Rightarrow> femas_OnQryInstrument i s1)"

end
