(* ===== verification/Rem_Trader.thy ===== *)
theory Rem_Trader
  imports Trader_Orders
begin

text \<open>
  The order gateway of REM: the communicator (rem/exchange/rem_communicator.cc) and the manager
  the vendor's library calls back (rem/exchange/RemEESTraderApiManger.cc).  An order has a
  client token, which the gateway chooses, and a market token of 64 bits, which REM chooses; the
  manager keeps the client's id for each client token and the client token for each market
  token, both under an \<open>int\<close>.  Parameters: the settings \<open>Get\<close>, the text \<open>To_time_str\<close> of a time
  (boost), \<open>boost::lexical_cast\<close> as \<open>cast\<close>, and the answer \<open>max_token\<close> of the library's GetMaxToken.
\<close>

section \<open>State and requests\<close>

record rem_trader =
  r_IConnet :: int
  r_MaxOrderLocalID :: i32
  r_InitQueryNum :: nat
  r_ordermap :: "i32 \<Rightarrow> string option"
  r_orderTokenmap :: "i32 \<Rightarrow> i32 option"
  r_startfinish :: bool
  r_strategy :: bool

definition rem_trader_new :: rem_trader where
  "rem_trader_new = \<lparr>r_IConnet = -1, r_MaxOrderLocalID = 0, r_InitQueryNum = 0,
     r_ordermap = (\<lambda>_. None), r_orderTokenmap = (\<lambda>_. None), r_startfinish = False,
     r_strategy = False\<rparr>"

definition rem_SetStrategy :: "rem_trader \<Rightarrow> rem_trader" where
  "rem_SetStrategy s = s\<lparr>r_strategy := True\<rparr>"

record rem_enter =
  re_Account :: string
  re_Side :: u8
  re_Exchange :: u8
  re_Symbol :: string
  re_SecType :: u8
  re_Price :: double
  re_Qty :: u32
  re_ClientOrderToken :: u32
  re_Tif :: u32
  re_HedgeFlag :: u8

record rem_cancel =
  rc_Account :: string
  rc_Quantity :: u32
  rc_MarketOrderToken :: i64

datatype rem_request =
    Rem_UserLogon string string
  | Rem_DisConnServer
  | Rem_EnterOrder rem_enter
  | Rem_CancelOrder rem_cancel
  | Rem_QueryAccountOrder string
  | Rem_QueryAccountOrderExecution string
  | Rem_QueryAccountPosition string i32
  | Rem_QuerySymbolList

type_synonym rem_result = "(rem_trader, rem_request) trader_result"

section \<open>The indices\<close>

definition rem_AddOrderToken :: "i32 \<Rightarrow> i32 \<Rightarrow> rem_trader \<Rightarrow> rem_trader" where
  "rem_AddOrderToken MarketOrderToken i_key s =
     (if r_orderTokenmap s i_key = None
      then s\<lparr>r_orderTokenmap := (r_orderTokenmap s)(i_key \<mapsto> MarketOrderToken)\<rparr> else s)"

definition rem_AddOrderId :: "string \<Rightarrow> i32 \<Rightarrow> rem_trader \<Rightarrow> rem_trader" where
  "rem_AddOrderId cl_orderid i_key s =
     (if r_ordermap s i_key = None
      then s\<lparr>r_ordermap := (r_ordermap s)(i_key \<mapsto> cl_orderid)\<rparr> else s)"

definition rem_GetOrderToken :: "i32 \<Rightarrow> rem_trader \<Rightarrow> i32" where
  "rem_GetOrderToken i_key s = (case r_orderTokenmap s i_key of None \<Rightarrow> -1 | Some t \<Rightarrow> t)"

definition rem_GetOrderId :: "i32 \<Rightarrow> rem_trader \<Rightarrow> string" where
  "rem_GetOrderId i_key s = (case r_ordermap s i_key of None \<Rightarrow> '''' | Some i \<Rightarrow> i)"

section \<open>Requests of the strategies\<close>

definition rem_Tif :: "TimeInForce \<Rightarrow> u32" where
  "rem_Tif t = (if t = TIF_FAK \<or> t = TIF_FOK then 0 else 99998)"

definition rem_Side :: "BuySell \<Rightarrow> OrderFlag \<Rightarrow> u8" where
  "rem_Side b f =
     (case b of
        BS_Buy \<Rightarrow> (case f of OF_Open \<Rightarrow> 1 | OF_Close \<Rightarrow> 3 | OF_YClose \<Rightarrow> 5 | OF_TClose \<Rightarrow> 3 | OF_None \<Rightarrow> 0)
      | BS_Sell \<Rightarrow> (case f of OF_Open \<Rightarrow> 4 | OF_Close \<Rightarrow> 2 | OF_YClose \<Rightarrow> 6 | OF_TClose \<Rightarrow> 2 | OF_None \<Rightarrow> 0)
      | BS_None \<Rightarrow> 0)"

definition rem_enter_order ::
    "(string \<Rightarrow> string) \<Rightarrow> ems_order \<Rightarrow> u32 \<Rightarrow> rem_enter outcome" where
  "rem_enter_order Get ord token =
     bind_out (lift_res (atoi32 (Get ''rem-exchange.HedgeFlag''))) (\<lambda>hedge.
     bind_out (lift_res (atoi32 (Get ''rem-exchange.SecType''))) (\<lambda>sec_type.
     bind_out (lift_res (atoi32 (Get ''rem-exchange.ExchangeID''))) (\<lambda>exchange.
     bind_out (lift_res (strncpy_field 17 (get '''' (p_account ord)))) (\<lambda>account.
     bind_out (lift_res (strncpy_field 9 (get '''' (p_contract ord)))) (\<lambda>symbol.
     bind_out (lift_res (atof (get '''' (p_price ord)))) (\<lambda>px.
       Inr \<lparr>re_Account = account,
         re_Side = rem_Side (get BS_None (p_buy_sell ord)) (get OF_None (p_order_flag ord)),
         re_Exchange = ucast exchange, re_Symbol = symbol, re_SecType = ucast sec_type,
         re_Price = px, re_Qty = ucast (get 0 (p_quantity ord)), re_ClientOrderToken = token,
         re_Tif = rem_Tif (get TIF_None (p_tif ord)), re_HedgeFlag = ucast hedge\<rparr>))))))"

text \<open>The token of the struct is set after the check of price and quantity.\<close>

definition rem_Add :: "(string \<Rightarrow> string) \<Rightarrow> u32 \<Rightarrow> ems_order \<Rightarrow> rem_trader \<Rightarrow> rem_result" where
  "rem_Add Get max_token ord s =
     bind_out (rem_enter_order Get ord (max_token + 1)) (\<lambda>o_field.
       if re_Price o_field \<le> 0 \<or> re_Qty o_field \<le> 0
       then if r_strategy s then Inr (s, [Order_report (local_reject ord)])
            else Inl (Thrown Undefined_behaviour)
       else Inr (rem_AddOrderId (get '''' (p_client_order_id ord)) (re_ClientOrderToken o_field) s,
              [Request (Rem_EnterOrder o_field)]))"

definition rem_Change :: "ems_order \<Rightarrow> rem_trader \<Rightarrow> rem_result" where
  "rem_Change ord s = Inr (s, [])"

text \<open>The market token is read back from the order's id with \<open>atoi\<close>.\<close>

definition rem_Delete :: "ems_order \<Rightarrow> rem_trader \<Rightarrow> rem_result" where
  "rem_Delete ord s =
     bind_out (lift_res (strncpy_field 17 (get '''' (p_account ord)))) (\<lambda>account.
     bind_out (lift_res (atoi32 (get '''' (p_exchange_order_id ord)))) (\<lambda>token.
       Inr (s, [Request (Rem_CancelOrder \<lparr>rc_Account = account,
         rc_Quantity = ucast (get 0 (p_quantity ord)), rc_MarketOrderToken = scast token\<rparr>)])))"

definition rem_Query :: "ems_order \<Rightarrow> rem_trader \<Rightarrow> rem_result" where
  "rem_Query ord s = Inr (s, [Request (Rem_QueryAccountOrder (get '''' (p_account ord)))])"

definition rem_Query_mass :: "string \<Rightarrow> rem_trader \<Rightarrow> rem_result" where
  "rem_Query_mass data s = Inr (s, [])"

definition rem_Delete_mass :: "string \<Rightarrow> rem_trader \<Rightarrow> rem_result" where
  "rem_Delete_mass data s = Inr (s, [])"

definition rem_Stop :: "rem_trader \<Rightarrow> rem_result" where
  "rem_Stop s = Inr (s, [Request Rem_DisConnServer])"

section \<open>Reports of the library\<close>

record rem_accept =
  ra_ClientOrderToken :: u32
  ra_MarketOrderToken :: i64
  ra_OrderState :: u8
  ra_UserID :: i32
  ra_AcceptTime :: i64
  ra_Side :: u8
  ra_Symbol :: string
  ra_Price :: double
  ra_Qty :: u32
  ra_Tif :: u32

record rem_market_accept =
  rm_Account :: string
  rm_MarketOrderToken :: i64
  rm_MarketOrderId :: string
  rm_MarketTime :: i64

record rem_reject =
  rj_Userid :: i32
  rj_Timestamp :: i64
  rj_ClientOrderToken :: u32

record rem_market_reject =
  rk_Account :: string
  rk_MarketOrderToken :: i64
  rk_MarketTimestamp :: i64

record rem_execution =
  rx_Userid :: i32
  rx_Timestamp :: i64
  rx_ClientOrderToken :: u32
  rx_MarketOrderToken :: i64
  rx_Quantity :: u32
  rx_Price :: double
  rx_MarketExecID :: string

record rem_cxled =
  rl_Userid :: i32
  rl_Timestamp :: i64
  rl_ClientOrderToken :: u32
  rl_MarketOrderToken :: i64

record rem_cxl_reject =
  rn_account :: string
  rn_MarketOrderToken :: i64

record rem_query_order =
  rq_Userid :: i32
  rq_Timestamp :: i64
  rq_ClientOrderToken :: u32
  rq_MarketOrderToken :: i64
  rq_MarketOrderId :: string
  rq_SideType :: u8
  rq_Quantity :: u32
  rq_symbol :: string
  rq_Price :: double
  rq_OrderStatus :: u8

record rem_position =
  rp_actId :: string
  rp_Symbol :: string
  rp_PosiDirection :: i32
  rp_TodayQty :: u32

record rem_symbol =
  rs_symbol :: string
  rs_PriceTick :: double
  rs_VolumeMultiple :: u32

text \<open>\<open>std::to_string\<close> of a \<open>long long\<close>.\<close>

definition show_i64 :: "i64 \<Rightarrow> string" where
  "show_i64 w = (if sint w < 0 then ''-'' @ show_digits (- sint w) else show_digits (sint w))"

text \<open>The side and the flag of a report; of other sides neither is set.\<close>

definition rem_side_of :: "u8 \<Rightarrow> (BuySell \<times> OrderFlag) option" where
  "rem_side_of c =
     (if c = 1 then Some (BS_Buy, OF_Open) else if c = 3 then Some (BS_Buy, OF_Close)
      else if c = 5 then Some (BS_Buy, OF_YClose) else if c = 4 then Some (BS_Sell, OF_Open)
      else if c = 2 then Some (BS_Sell, OF_Close) else if c = 6 then Some (BS_Sell, OF_YClose)
      else None)"

text \<open>The status of a queried order is a set of bits; it is compared as a whole.\<close>

definition rem_order_status :: "u8 \<Rightarrow> OrderStatus option" where
  "rem_order_status c =
     (if c = 0x10 then Some OS_Cancelled else if c = 0x20 then Some OS_Working
      else if c = 0x01 then Some OS_Rejected else if c = 0x40 then Some OS_Pending
      else if c = 0x80 then Some OS_Pending else if c = 0x08 then Some OS_Cancelled else None)"

definition rem_time ::
    "(string \<Rightarrow> u32 option) \<Rightarrow> (u64 \<Rightarrow> string) \<Rightarrow> i64 \<Rightarrow> Timestamp option outcome" where
  "rem_time cast To_time_str t = To_pb_time cast (To_time_str t)"

text \<open>The client's id for a client token, or the parts joined by bars.  Where the id is known the
  client token is kept for the market token.\<close>

definition rem_client_id :: "u32 \<Rightarrow> string list \<Rightarrow> rem_trader \<Rightarrow> string" where
  "rem_client_id token parts s =
     (if rem_GetOrderId token s = '''' then join_bars parts else rem_GetOrderId token s)"

definition rem_note_token :: "u32 \<Rightarrow> i64 \<Rightarrow> rem_trader \<Rightarrow> rem_trader" where
  "rem_note_token token market s =
     (if rem_GetOrderId token s = '''' then s else rem_AddOrderToken token (ucast market) s)"

text \<open>The id of a report that has the market token only: the parts if the token is unknown, and
  nothing if it is known.\<close>

definition rem_market_id :: "i64 \<Rightarrow> string list \<Rightarrow> rem_trader \<Rightarrow> string" where
  "rem_market_id market parts s =
     (if rem_GetOrderToken (ucast market) s = -1 then join_bars parts else '''')"

definition SendOrderAccept ::
    "(string \<Rightarrow> u32 option) \<Rightarrow> (u64 \<Rightarrow> string) \<Rightarrow> rem_accept \<Rightarrow> rem_trader \<Rightarrow> rem_result" where
  "SendOrderAccept cast To_time_str a s =
     (if \<not> r_strategy s then Inr (s, [])
      else bind_out (rem_time cast To_time_str (ra_AcceptTime a)) (\<lambda>time.
        Inr (rem_note_token (ra_ClientOrderToken a) (ra_MarketOrderToken a) s,
          [Order_report (ems_order_default\<lparr>
            p_client_order_id := Some (rem_client_id (ra_ClientOrderToken a)
              [to_string_word (ra_ClientOrderToken a), show_i64 (ra_MarketOrderToken a)] s),
            p_account := Some (show_i32 (ra_UserID a)),
            p_exchange_order_id := Some (show_i64 (ra_MarketOrderToken a)),
            p_status := Some (if ra_OrderState a = 2 then OS_Rejected else OS_Pending),
            p_buy_sell := map_option fst (rem_side_of (ra_Side a)),
            p_order_flag := map_option snd (rem_side_of (ra_Side a)),
            p_contract := Some (ra_Symbol a), p_price := Some (to_string_double (ra_Price a)),
            p_quantity := Some (ucast (ra_Qty a)),
            p_working_price := Some (to_string_double (ra_Price a)),
            p_working_quantity := Some (ucast (ra_Qty a)),
            p_tif := Some (if ra_Tif a = 0 then TIF_FOK else TIF_GFD),
            p_submit_time := time\<rparr>)])))"

definition SendOrderMarketAccept ::
    "(string \<Rightarrow> u32 option) \<Rightarrow> (u64 \<Rightarrow> string) \<Rightarrow> rem_market_accept \<Rightarrow> rem_trader \<Rightarrow> rem_result" where
  "SendOrderMarketAccept cast To_time_str a s =
     (if \<not> r_strategy s then Inr (s, [])
      else bind_out (rem_time cast To_time_str (rm_MarketTime a)) (\<lambda>time.
        Inr (s, [Order_report (ems_order_default\<lparr>
          p_client_order_id := Some (rem_market_id (rm_MarketOrderToken a)
            [show_i64 (rm_MarketOrderToken a), rm_MarketOrderId a] s),
          p_account := Some (rm_Account a),
          p_exchange_order_id := Some (show_i64 (rm_MarketOrderToken a)),
          p_status := Some OS_Working, p_submit_time := time\<rparr>)])))"

definition SendOrderReject ::
    "(string \<Rightarrow> u32 option) \<Rightarrow> (u64 \<Rightarrow> string) \<Rightarrow> rem_reject \<Rightarrow> rem_trader \<Rightarrow> rem_result" where
  "SendOrderReject cast To_time_str j s =
     (if \<not> r_strategy s then Inr (s, [])
      else bind_out (rem_time cast To_time_str (rj_Timestamp j)) (\<lambda>time.
        Inr (s, [Order_report (ems_order_default\<lparr>
          p_account := Some (show_i32 (rj_Userid j)),
          p_client_order_id := Some (rem_client_id (rj_ClientOrderToken j)
            [show_i32 (rj_Userid j), to_string_word (rj_ClientOrderToken j)] s),
          p_status := Some OS_Rejected, p_submit_time := time\<rparr>)])))"

definition SendOrderMarketReject ::
    "(string \<Rightarrow> u32 option) \<Rightarrow> (u64 \<Rightarrow> string) \<Rightarrow> rem_market_reject \<Rightarrow> rem_trader \<Rightarrow> rem_result" where
  "SendOrderMarketReject cast To_time_str j s =
     (if \<not> r_strategy s then Inr (s, [])
      else bind_out (rem_time cast To_time_str (rk_MarketTimestamp j)) (\<lambda>time.
        Inr (s, [Order_report (ems_order_default\<lparr>
          p_account := Some (rk_Account j),
          p_client_order_id := Some (rem_market_id (rk_MarketOrderToken j)
            [rk_Account j, show_i64 (rk_MarketOrderToken j)] s),
          p_exchange_order_id := Some (show_i64 (rk_MarketOrderToken j)),
          p_status := Some OS_Rejected, p_submit_time := time\<rparr>)])))"

definition SendOrderExecution ::
    "(string \<Rightarrow> u32 option) \<Rightarrow> (u64 \<Rightarrow> string) \<Rightarrow> rem_execution \<Rightarrow> rem_trader \<Rightarrow> rem_result" where
  "SendOrderExecution cast To_time_str x s =
     (if \<not> r_strategy s then Inr (s, [])
      else bind_out (rem_time cast To_time_str (rx_Timestamp x)) (\<lambda>time.
        Inr (rem_note_token (rx_ClientOrderToken x) (rx_MarketOrderToken x) s,
          [Fill_report \<lparr>q_fill_id = rx_MarketExecID x,
            q_fill_price = to_string_double (rx_Price x),
            q_fill_quantity = ucast (rx_Quantity x), q_account = show_i32 (rx_Userid x),
            q_client_order_id = rem_client_id (rx_ClientOrderToken x)
              [to_string_word (rx_ClientOrderToken x), show_i64 (rx_MarketOrderToken x),
               rx_MarketExecID x] s,
            q_exchange_order_id = show_i64 (rx_MarketOrderToken x), q_contract = '''',
            q_buy_sell = BS_None, q_fill_time = time, q_order_flag = None\<rparr>])))"

definition SendOrderCxled ::
    "(string \<Rightarrow> u32 option) \<Rightarrow> (u64 \<Rightarrow> string) \<Rightarrow> rem_cxled \<Rightarrow> rem_trader \<Rightarrow> rem_result" where
  "SendOrderCxled cast To_time_str c s =
     (if \<not> r_strategy s then Inr (s, [])
      else bind_out (rem_time cast To_time_str (rl_Timestamp c)) (\<lambda>time.
        Inr (rem_note_token (rl_ClientOrderToken c) (rl_MarketOrderToken c) s,
          [Order_report (ems_order_default\<lparr>
            p_client_order_id := Some (rem_client_id (rl_ClientOrderToken c)
              [to_string_word (rl_ClientOrderToken c), show_i64 (rl_MarketOrderToken c)] s),
            p_account := Some (show_i32 (rl_Userid c)),
            p_exchange_order_id := Some (show_i64 (rl_MarketOrderToken c)),
            p_status := Some OS_Cancelled, p_submit_time := time\<rparr>)])))"

definition SendCxlOrderReject :: "rem_cxl_reject \<Rightarrow> rem_trader \<Rightarrow> rem_result" where
  "SendCxlOrderReject j s =
     (if \<not> r_strategy s then Inr (s, [])
      else Inr (s, [Order_report (ems_order_default\<lparr>
        p_account := Some (rn_account j),
        p_client_order_id := Some (rem_market_id (rn_MarketOrderToken j)
          [rn_account j, show_i64 (rn_MarketOrderToken j)] s),
        p_exchange_order_id := Some (show_i64 (rn_MarketOrderToken j)),
        p_status := Some OS_Rejected\<rparr>)]))"

definition SendQueryTradeOrder ::
    "(string \<Rightarrow> u32 option) \<Rightarrow> (u64 \<Rightarrow> string) \<Rightarrow> rem_query_order \<Rightarrow> rem_trader \<Rightarrow> rem_result" where
  "SendQueryTradeOrder cast To_time_str r s =
     (if \<not> r_strategy s then Inr (s, [])
      else bind_out (rem_time cast To_time_str (rq_Timestamp r)) (\<lambda>time.
        Inr (rem_note_token (rq_ClientOrderToken r) (rq_MarketOrderToken r) s,
          [Order_report (ems_order_default\<lparr>
            p_client_order_id := Some (rem_client_id (rq_ClientOrderToken r)
              [to_string_word (rq_ClientOrderToken r), show_i64 (rq_MarketOrderToken r),
               rq_MarketOrderId r] s),
            p_account := Some (show_i32 (rq_Userid r)),
            p_exchange_order_id := Some (show_i64 (rq_MarketOrderToken r)),
            p_status := rem_order_status (rq_OrderStatus r),
            p_buy_sell := map_option fst (rem_side_of (rq_SideType r)),
            p_order_flag := map_option snd (rem_side_of (rq_SideType r)),
            p_contract := Some (rq_symbol r), p_price := Some (to_string_double (rq_Price r)),
            p_quantity := Some (ucast (rq_Quantity r)), p_submit_time := time\<rparr>)])))"

definition SendQueryTradeOrderExec ::
    "(string \<Rightarrow> u32 option) \<Rightarrow> (u64 \<Rightarrow> string) \<Rightarrow> rem_execution \<Rightarrow> bool \<Rightarrow> rem_trader \<Rightarrow>
     rem_result" where
  "SendQueryTradeOrderExec cast To_time_str x bFinish s =
     bind_out
       (if \<not> r_strategy s then Inr []
        else bind_out (rem_time cast To_time_str (rx_Timestamp x)) (\<lambda>time.
          Inr [Order_report (ems_order_default\<lparr>
            p_client_order_id := Some (rem_client_id (rx_ClientOrderToken x)
              [to_string_word (rx_ClientOrderToken x), show_i64 (rx_MarketOrderToken x),
               rx_MarketExecID x] s),
            p_account := Some (show_i32 (rx_Userid x)),
            p_exchange_order_id := Some (show_i64 (rx_MarketOrderToken x)),
            p_status := Some OS_Filled, p_price := Some (to_string_double (rx_Price x)),
            p_quantity := Some (ucast (rx_Quantity x)),
            p_working_price := Some (to_string_double (rx_Price x)),
            p_working_quantity := Some 0, p_filled_quantity := Some (ucast (rx_Quantity x)),
            p_submit_time := time\<rparr>)]))
       (\<lambda>es. Inr (if bFinish then s\<lparr>r_startfinish := True\<rparr> else s, es))"

text \<open>No function calls this one.\<close>

definition SendQueryAccountPosition :: "rem_position \<Rightarrow> bool \<Rightarrow> rem_trader \<Rightarrow> rem_result" where
  "SendQueryAccountPosition p bFinish s =
     Inr (if bFinish then s\<lparr>r_startfinish := True\<rparr> else s,
       if r_strategy s
       then [Position_report [\<lparr>pos_account = rp_actId p, pos_contract = rp_Symbol p,
               pos_position = ucast (rp_TodayQty p),
               pos_today_long = (if rp_PosiDirection p = 1 then Some (ucast (rp_TodayQty p)) else None),
               pos_today_short =
                 (if rp_PosiDirection p = 5 then Some (ucast (rp_TodayQty p)) else None)\<rparr>]]
       else [])"

text \<open>The contract of a symbol; its document for the database is left out.\<close>

definition SendQuerySymbol :: "rem_symbol \<Rightarrow> rem_trader \<Rightarrow> rem_result" where
  "SendQuerySymbol y s =
     (if \<not> r_strategy s then Inr (s, [])
      else Inr (s, [Contract_report
        \<lparr>l_name = rs_symbol y, l_tick_size = to_string_double (rs_PriceTick y),
         l_tick_value = to_string_double
           (double_mult (rs_PriceTick y) (double_of_int (uint (rs_VolumeMultiple y)))),
         l_yesterday_close_price = None, l_upper_limit = None, l_lower_limit = None,
         l_contract_type = CT_Futures, l_legA = None, l_legB = None\<rparr>]))"

section \<open>The functions the library calls\<close>

definition rem_OnConnection :: "(string \<Rightarrow> string) \<Rightarrow> rem_trader \<Rightarrow> rem_result" where
  "rem_OnConnection Get s =
     Inr (s, [Request (Rem_UserLogon (Get ''rem-user.LogID'') (Get ''rem-user.Password''))])"

text \<open>The result of the login and the greatest client token.\<close>

definition rem_OnUserLogon :: "(i32 \<times> u32) option \<Rightarrow> rem_trader \<Rightarrow> rem_result" where
  "rem_OnUserLogon pLogon s =
     (case pLogon of
        None \<Rightarrow> Inr (s, [])
      | Some (result, max_token) \<Rightarrow>
          if result \<noteq> 0 then Inr (s, [])
          else Inr (s\<lparr>r_IConnet := 0, r_MaxOrderLocalID := max_token + 1\<rparr>, []))"

definition rem_OnQueryAccountPosition :: "rem_position option \<Rightarrow> bool \<Rightarrow> rem_trader \<Rightarrow> rem_result" where
  "rem_OnQueryAccountPosition p bFinish s = Inr (s, [])"

definition rem_OnQuerySymbol :: "rem_symbol option \<Rightarrow> bool \<Rightarrow> rem_trader \<Rightarrow> rem_result" where
  "rem_OnQuerySymbol pSymbol bFinish s =
     (case pSymbol of
        None \<Rightarrow> Inr (s, [])
      | Some y \<Rightarrow> SendQuerySymbol y (if bFinish then s\<lparr>r_startfinish := True\<rparr> else s))"

text \<open>The other handlers check their pointer and pass it on.\<close>

definition if_given :: "('a \<Rightarrow> rem_trader \<Rightarrow> rem_result) \<Rightarrow> 'a option \<Rightarrow> rem_trader \<Rightarrow> rem_result" where
  "if_given f p s = (case p of None \<Rightarrow> Inr (s, []) | Some x \<Rightarrow> f x s)"

definition rem_OnOrderAccept ::
    "(string \<Rightarrow> u32 option) \<Rightarrow> (u64 \<Rightarrow> string) \<Rightarrow> rem_accept option \<Rightarrow> rem_trader \<Rightarrow> rem_result" where
  "rem_OnOrderAccept cast To_time_str = if_given (SendOrderAccept cast To_time_str)"

definition rem_OnOrderMarketAccept ::
    "(string \<Rightarrow> u32 option) \<Rightarrow> (u64 \<Rightarrow> string) \<Rightarrow> rem_market_accept option \<Rightarrow> rem_trader \<Rightarrow> rem_result" where
  "rem_OnOrderMarketAccept cast To_time_str = if_given (SendOrderMarketAccept cast To_time_str)"

definition rem_OnOrderReject ::
    "(string \<Rightarrow> u32 option) \<Rightarrow> (u64 \<Rightarrow> string) \<Rightarrow> rem_reject option \<Rightarrow> rem_trader \<Rightarrow> rem_result" where
  "rem_OnOrderReject cast To_time_str = if_given (SendOrderReject cast To_time_str)"

definition rem_OnOrderMarketReject ::
    "(string \<Rightarrow> u32 option) \<Rightarrow> (u64 \<Rightarrow> string) \<Rightarrow> rem_market_reject option \<Rightarrow> rem_trader \<Rightarrow> rem_result" where
  "rem_OnOrderMarketReject cast To_time_str = if_given (SendOrderMarketReject cast To_time_str)"

definition rem_OnOrderExecution ::
    "(string \<Rightarrow> u32 option) \<Rightarrow> (u64 \<Rightarrow> string) \<Rightarrow> rem_execution option \<Rightarrow> rem_trader \<Rightarrow> rem_result" where
  "rem_OnOrderExecution cast To_time_str = if_given (SendOrderExecution cast To_time_str)"

definition rem_OnOrderCxled ::
    "(string \<Rightarrow> u32 option) \<Rightarrow> (u64 \<Rightarrow> string) \<Rightarrow> rem_cxled option \<Rightarrow> rem_trader \<Rightarrow> rem_result" where
  "rem_OnOrderCxled cast To_time_str = if_given (SendOrderCxled cast To_time_str)"

definition rem_OnCxlOrderReject :: "rem_cxl_reject option \<Rightarrow> rem_trader \<Rightarrow> rem_result" where
  "rem_OnCxlOrderReject = if_given SendCxlOrderReject"

definition rem_OnQueryTradeOrder ::
    "(string \<Rightarrow> u32 option) \<Rightarrow> (u64 \<Rightarrow> string) \<Rightarrow> rem_query_order option \<Rightarrow> rem_trader \<Rightarrow> rem_result" where
  "rem_OnQueryTradeOrder cast To_time_str =
     if_given (\<lambda>r s. SendQueryTradeOrder cast To_time_str r
       (s\<lparr>r_InitQueryNum := r_InitQueryNum s - 1\<rparr>))"

definition rem_OnQueryTradeOrderExec ::
    "(string \<Rightarrow> u32 option) \<Rightarrow> (u64 \<Rightarrow> string) \<Rightarrow> rem_execution option \<Rightarrow> bool \<Rightarrow> rem_trader \<Rightarrow>
     rem_result" where
  "rem_OnQueryTradeOrderExec cast To_time_str p bFinish =
     if_given (\<lambda>x. SendQueryTradeOrderExec cast To_time_str x bFinish) p"

end
