(* ===== verification/Ctp_Trader.thy ===== *)
theory Ctp_Trader
  imports Trader_Orders Ordered_Map
begin

text \<open>
  The order gateway of CTP: the trader (ctp/exchange/ctp_trader_spi.cc), which the vendor's
  library calls back, the queue of commands to that library (CommandQueue.cc and the *Command.cc
  files) and the communicator in front of them (ctpcommunicator.cc).  Every order gets the next
  reference, which the trader writes with an \<open>itoa\<close> of its own and reads with \<open>atoi\<close>; the
  client's id is kept for each reference.  A command is put on the queue, and a thread executes
  the first one until the library accepts it.  The settings are a record; a null pointer from
  the library is \<open>None\<close>.
\<close>

section \<open>The decimal text of a reference\<close>

text \<open>The loop over the digits, last digit first; it need not end for a radix below 2, where the
  result is \<open>None\<close> (a radix of 0 is undefined in C).\<close>

definition itoa_digit :: "u32 \<Rightarrow> char" where
  "itoa_digit digval =
     (if 9 < digval then char_of (uint (digval - 10 + 97)) else char_of (uint (digval + 48)))"

partial_function (option) itoa_digits :: "u32 \<Rightarrow> u32 \<Rightarrow> string option" where
  "itoa_digits radix val =
     (if 0 < sint (val div radix)
      then Option.bind (itoa_digits radix (val div radix)) (\<lambda>ds. Some (itoa_digit (val mod radix) # ds))
      else Some [itoa_digit (val mod radix)])"

text \<open>The loop that exchanges the first and the last digit, until the pointers meet.\<close>

function itoa_swap :: "nat \<Rightarrow> nat \<Rightarrow> string \<Rightarrow> string" where
  "itoa_swap firstdig p buf =
     (let buf' = buf[p := buf ! firstdig, firstdig := buf ! p]
      in if firstdig + 1 < p - 1 then itoa_swap (firstdig + 1) (p - 1) buf' else buf')"
  by pat_completeness auto
termination
  by (relation "measure (\<lambda>(firstdig, p, buf). p - firstdig)") auto

declare itoa_swap.simps [simp del]

definition itoa :: "i32 \<Rightarrow> u32 \<Rightarrow> string option" where
  "itoa val radix =
     Option.bind (itoa_digits radix (if sint val < 0 then - val else val)) (\<lambda>ds.
       Some ((if sint val < 0 then ''-'' else '''') @ itoa_swap 0 (length ds - 1) ds))"

section \<open>State and commands\<close>

record ctp_account =
  acc_BrokerID :: string
  acc_InvestorID :: string
  acc_ExchangeID :: string
  acc_UserID :: string
  acc_Password :: string

record ctp_input =
  ci_BrokerID :: string
  ci_InvestorID :: string
  ci_InstrumentID :: string
  ci_OrderRef :: string
  ci_OrderPriceType :: char
  ci_LimitPrice :: double
  ci_Direction :: char
  ci_CombOffsetFlag :: char
  ci_VolumeTotalOriginal :: i32
  ci_CombHedgeFlag :: char
  ci_TimeCondition :: char
  ci_VolumeCondition :: char
  ci_MinVolume :: i32
  ci_ContingentCondition :: char
  ci_ForceCloseReason :: char

record ctp_action =
  ca_BrokerID :: string
  ca_InvestorID :: string
  ca_ExchangeID :: string
  ca_OrderRef :: string
  ca_ActionFlag :: char

record ctp_query =
  cq_BrokerID :: string
  cq_InvestorID :: string
  cq_ExchangeID :: string
  cq_InstrumentID :: string

datatype ctp_command =
    LoginCommand string string string
  | LoginOutCommand string string
  | ComfirmSettlementCommand string string
  | ReqQryInstrumentCommand
  | InsertOrderCommand ctp_input
  | WithdrawOrderCommand ctp_action
  | QueryOrderCommand ctp_query
  | ReqQryTradeCommand ctp_query
  | QueryPositionCommand ctp_query

text \<open>\<open>maxOrderRef\<close> is not set before the login.\<close>

record ctp_trader =
  c_InitQueryNum :: nat
  c_requestID :: i32
  c_tradable :: bool
  c_maxOrderRef :: "i32 option"
  c_client_orders_index :: "(i32 \<times> string) list"
  c_commandQueue :: "ctp_command list"
  c_strategy :: bool

definition ctp_trader_new :: "bool \<Rightarrow> ctp_trader" where
  "ctp_trader_new strategy = \<lparr>c_InitQueryNum = 0, c_requestID = 0, c_tradable = False,
     c_maxOrderRef = None, c_client_orders_index = [], c_commandQueue = [], c_strategy = strategy\<rparr>"

text \<open>A call of the library: the command and the request id, which is read when it is executed.\<close>

datatype ctp_request = Ctp_call ctp_command i32

type_synonym ctp_result = "(ctp_trader, ctp_request) trader_result"

section \<open>The queue of commands\<close>

text \<open>The constructor of a command counts the request ids; \<open>addCommand\<close> puts it at the end.\<close>

definition addCommand :: "ctp_command \<Rightarrow> ctp_trader \<Rightarrow> ctp_trader outcome" where
  "addCommand c s =
     bind_out (lift_res (int_succ (c_requestID s))) (\<lambda>n.
       Inr (s\<lparr>c_requestID := n, c_commandQueue := c_commandQueue s @ [c]\<rparr>))"

text \<open>One pass of the thread: the first command is executed, and leaves the queue if the library's
  \<open>result\<close> is 0.  The thread tests for an empty queue before it takes the lock, but no other
  thread takes commands off.\<close>

definition run_once :: "i32 \<Rightarrow> ctp_trader \<Rightarrow> ctp_trader \<times> ctp_request trader_event list" where
  "run_once result s =
     (case c_commandQueue s of
        [] \<Rightarrow> (s, [])
      | c # cs \<Rightarrow> (if result = 0 then s\<lparr>c_commandQueue := cs\<rparr> else s,
                  [Request (Ctp_call c (c_requestID s))]))"

section \<open>The index of orders\<close>

definition ref_less :: "i32 \<Rightarrow> i32 \<Rightarrow> bool" where
  "ref_less a b \<longleftrightarrow> sint a < sint b"

definition find_ref :: "string \<Rightarrow> (i32 \<times> string) list \<Rightarrow> i32 option" where
  "find_ref cl index = map_option fst (find (\<lambda>(k, i). i = cl) index)"

section \<open>Requests\<close>

definition ctp_Direction :: "BuySell \<Rightarrow> char" where
  "ctp_Direction b = (if b = BS_Buy then CHR ''0'' else CHR ''1'')"

definition ctp_CombOffsetFlag :: "OrderFlag \<Rightarrow> char" where
  "ctp_CombOffsetFlag f =
     (case f of OF_Open \<Rightarrow> CHR ''0'' | OF_Close \<Rightarrow> CHR ''1'' | OF_YClose \<Rightarrow> CHR ''4''
      | OF_TClose \<Rightarrow> CHR ''3'' | OF_None \<Rightarrow> CHR 0x00)"

text \<open>The text of a reference; the loops end (\<open>None\<close> stands for a loop that does not).\<close>

definition ref_text :: "i32 \<Rightarrow> string outcome" where
  "ref_text ref = (case itoa ref 10 of None \<Rightarrow> Inl (Thrown Undefined_behaviour) | Some t \<Rightarrow> Inr t)"

definition reqOrderInsert :: "ctp_account \<Rightarrow> ems_order \<Rightarrow> ctp_trader \<Rightarrow> ctp_trader outcome" where
  "reqOrderInsert acc ord s =
     bind_out (lift_res (strcpy_field 11 (acc_BrokerID acc))) (\<lambda>broker.
     bind_out (lift_res (strcpy_field 13 (acc_InvestorID acc))) (\<lambda>investor.
     bind_out (lift_res (strcpy_field 31 (get '''' (p_contract ord)))) (\<lambda>instrument.
     case c_maxOrderRef s of
       None \<Rightarrow> Inl (Thrown Undefined_behaviour)
     | Some ref \<Rightarrow>
         bind_out (ref_text ref) (\<lambda>t.
         bind_out (lift_res (int_succ ref)) (\<lambda>next_ref.
         bind_out (if p_order_type ord = Some OT_Limit
                   then lift_res (atof (get '''' (p_price ord))) else Inr 0) (\<lambda>px.
           addCommand (InsertOrderCommand
               \<lparr>ci_BrokerID = broker, ci_InvestorID = investor, ci_InstrumentID = instrument,
                ci_OrderRef = t,
                ci_OrderPriceType = (if p_order_type ord = Some OT_Limit then CHR ''2'' else CHR ''1''),
                ci_LimitPrice = px,
                ci_Direction = ctp_Direction (get BS_None (p_buy_sell ord)),
                ci_CombOffsetFlag = ctp_CombOffsetFlag (get OF_None (p_order_flag ord)),
                ci_VolumeTotalOriginal = ucast (get 0 (p_quantity ord)),
                ci_CombHedgeFlag = CHR ''1'', ci_TimeCondition = CHR ''3'',
                ci_VolumeCondition = CHR ''1'', ci_MinVolume = 1,
                ci_ContingentCondition = CHR ''1'', ci_ForceCloseReason = CHR ''0''\<rparr>)
             (s\<lparr>c_client_orders_index :=
                  om_put ref_less ref (get '''' (p_client_order_id ord)) (c_client_orders_index s),
                c_maxOrderRef := Some next_ref\<rparr>)))))))"

text \<open>Cancels and queries need the client's id in the index; otherwise they are logged only.\<close>

definition reqOrderAction :: "ctp_account \<Rightarrow> ems_order \<Rightarrow> ctp_trader \<Rightarrow> ctp_trader outcome" where
  "reqOrderAction acc ord s =
     bind_out (lift_res (strcpy_field 11 (acc_BrokerID acc))) (\<lambda>broker.
     bind_out (lift_res (strcpy_field 13 (acc_InvestorID acc))) (\<lambda>investor.
     bind_out (lift_res (strcpy_field 9 (acc_ExchangeID acc))) (\<lambda>exchange.
     case find_ref (get '''' (p_client_order_id ord)) (c_client_orders_index s) of
       None \<Rightarrow> Inr s
     | Some ref \<Rightarrow> bind_out (ref_text ref) (\<lambda>t.
         addCommand (WithdrawOrderCommand
           \<lparr>ca_BrokerID = broker, ca_InvestorID = investor, ca_ExchangeID = exchange,
            ca_OrderRef = t, ca_ActionFlag = CHR ''0''\<rparr>) s))))"

definition ctp_query_fields :: "ctp_account \<Rightarrow> string \<Rightarrow> string \<Rightarrow> ctp_query outcome" where
  "ctp_query_fields acc exchange name =
     bind_out (lift_res (strcpy_field 11 (acc_BrokerID acc))) (\<lambda>broker.
     bind_out (lift_res (strcpy_field 13 (acc_InvestorID acc))) (\<lambda>investor.
     bind_out (lift_res (strcpy_field 9 exchange)) (\<lambda>exch.
     bind_out (lift_res (strcpy_field 31 name)) (\<lambda>instrument.
       Inr \<lparr>cq_BrokerID = broker, cq_InvestorID = investor, cq_ExchangeID = exch,
            cq_InstrumentID = instrument\<rparr>))))"

definition reqQryOrder :: "ctp_account \<Rightarrow> ems_order \<Rightarrow> ctp_trader \<Rightarrow> ctp_trader outcome" where
  "reqQryOrder acc ord s =
     (case find_ref (get '''' (p_client_order_id ord)) (c_client_orders_index s) of
        None \<Rightarrow> Inr s
      | Some _ \<Rightarrow>
          bind_out (ctp_query_fields acc (acc_ExchangeID acc) (get '''' (p_contract ord)))
            (\<lambda>q. addCommand (QueryOrderCommand q) s))"

fun reqQryTrade :: "ctp_account \<Rightarrow> ems_order list \<Rightarrow> ctp_trader \<Rightarrow> ctp_trader outcome" where
  "reqQryTrade acc [] s = Inr s"
| "reqQryTrade acc (ord # ords) s =
     (case find_ref (get '''' (p_client_order_id ord)) (c_client_orders_index s) of
        None \<Rightarrow> reqQryTrade acc ords s
      | Some _ \<Rightarrow>
          bind_out (ctp_query_fields acc (acc_ExchangeID acc) (get '''' (p_contract ord)))
            (\<lambda>q. bind_out (addCommand (ReqQryTradeCommand q) s) (reqQryTrade acc ords)))"

fun queryPosition :: "ctp_account \<Rightarrow> ems_order list \<Rightarrow> ctp_trader \<Rightarrow> ctp_trader outcome" where
  "queryPosition acc [] s = Inr s"
| "queryPosition acc (ord # ords) s =
     bind_out (ctp_query_fields acc '''' (get '''' (p_contract ord)))
       (\<lambda>q. bind_out (addCommand (QueryPositionCommand q) s) (queryPosition acc ords))"

definition reqQueryInstrument :: "ctp_trader \<Rightarrow> ctp_trader outcome" where
  "reqQueryInstrument = addCommand ReqQryInstrumentCommand"

definition ctp_login :: "ctp_account \<Rightarrow> ctp_trader \<Rightarrow> ctp_trader outcome" where
  "ctp_login acc s =
     bind_out (lift_res (strcpy_field 11 (acc_BrokerID acc))) (\<lambda>broker.
     bind_out (lift_res (strcpy_field 16 (acc_UserID acc))) (\<lambda>user.
     bind_out (lift_res (strcpy_field 41 (acc_Password acc))) (\<lambda>password.
       addCommand (LoginCommand broker user password) s)))"

definition comfirmSettlement :: "ctp_account \<Rightarrow> ctp_trader \<Rightarrow> ctp_trader outcome" where
  "comfirmSettlement acc s =
     bind_out (lift_res (strcpy_field 11 (acc_BrokerID acc))) (\<lambda>broker.
     bind_out (lift_res (strcpy_field 13 (acc_UserID acc))) (\<lambda>investor.
       addCommand (ComfirmSettlementCommand broker investor) s))"

definition reqUserLogout :: "ctp_account \<Rightarrow> ctp_trader \<Rightarrow> ctp_trader outcome" where
  "reqUserLogout acc s =
     bind_out (lift_res (strcpy_field 11 (acc_BrokerID acc))) (\<lambda>broker.
     bind_out (lift_res (strcpy_field 16 (acc_UserID acc))) (\<lambda>user.
       addCommand (LoginOutCommand broker user) s))"

section \<open>Reports\<close>

text \<open>The client's id of a reference, or the parts joined by bars.\<close>

definition ctp_client_id :: "string \<Rightarrow> string list \<Rightarrow> ctp_trader \<Rightarrow> string outcome" where
  "ctp_client_id ref parts s =
     bind_out (lift_res (atoi32 ref)) (\<lambda>k.
       Inr (case om_find ref_less k (c_client_orders_index s) of None \<Rightarrow> join_bars parts | Some i \<Rightarrow> i))"

definition ctp_OnInsertOrder :: "vendor_input \<Rightarrow> i32 \<Rightarrow> ctp_trader \<Rightarrow> ctp_result" where
  "ctp_OnInsertOrder i ErrorID s =
     (if \<not> c_strategy s then Inr (s, [])
      else bind_out (ctp_client_id (i_order_ref i) [i_order_ref i] s) (\<lambda>cl.
        Inr (s, [Order_report (ems_order_default\<lparr>
          p_client_order_id := Some cl, p_account := Some (i_InvestorID i),
          p_contract := Some (i_InstrumentID i), p_buy_sell := Some (side_of (i_Direction i)),
          p_price := Some (to_string_double (i_LimitPrice i)),
          p_quantity := Some (scast (i_Volume i)), p_tif := Some TIF_GFD,
          p_order_type := type_if_known (i_OrderPriceType i),
          p_status := (if ErrorID \<noteq> 0 then Some OS_Rejected else None),
          p_order_flag := Some (flag_of (i_OffsetFlag i))\<rparr>)])))"

definition ctp_OnActionOrder :: "vendor_action \<Rightarrow> ctp_trader \<Rightarrow> ctp_result" where
  "ctp_OnActionOrder a s =
     (if \<not> c_strategy s then Inr (s, [])
      else bind_out (ctp_client_id (a_order_ref a) [a_order_ref a, a_OrderSysID a] s) (\<lambda>cl.
        Inr (s, [Order_report (ems_order_default\<lparr>
          p_client_order_id := Some cl, p_price := Some (to_string_double (a_LimitPrice a)),
          p_quantity := Some (scast (a_VolumeChange a)),
          p_exchange_order_id := Some (a_OrderSysID a),
          p_status := (if a_ActionFlag a = CHR ''0'' then Some OS_Cancelled
                       else if a_ActionFlag a = CHR ''3'' then Some OS_Working else None)\<rparr>)])))"

text \<open>The time in force of a report is the code of CTP minus that of '0', as a number of the
  program's enumeration (whose setter asserts that it is one).\<close>

definition tif_of_code :: "char \<Rightarrow> TimeInForce outcome" where
  "tif_of_code c =
     (let n = (of_char c :: int) - 48 in
      if n = 0 then Inr TIF_None else if n = 1 then Inr TIF_FAK else if n = 2 then Inr TIF_FOK
      else if n = 3 then Inr TIF_GFD else if n = 4 then Inr TIF_GTC
      else Inl (Thrown Undefined_behaviour))"

definition ctp_OnOrder ::
    "(string \<Rightarrow> u32 option) \<Rightarrow> vendor_order \<Rightarrow> ctp_trader \<Rightarrow> ctp_result" where
  "ctp_OnOrder cast r s =
     (if \<not> c_strategy s then Inr (s, [])
      else bind_out (ctp_client_id (o_order_ref r) [o_order_ref r, o_OrderSysID r] s) (\<lambda>cl.
        bind_out (tif_of_code (o_TimeCondition r)) (\<lambda>t.
        bind_out (report_time cast (o_ActionDay r) (o_InsertTime r)) (\<lambda>time.
          Inr (s, [Order_report (ems_order_default\<lparr>
            p_client_order_id := Some cl, p_account := Some (o_UserID r),
            p_contract := Some (o_InstrumentID r), p_buy_sell := Some (side_of (o_Direction r)),
            p_price := Some (to_string_double (o_LimitPrice r)),
            p_quantity := Some (scast (o_Volume r)), p_tif := Some t,
            p_order_type := type_if_known (o_OrderPriceType r),
            p_exchange_order_id := Some (o_OrderSysID r),
            p_status := Some (SetOrderStatus (CHR ''a'') (o_OrderStatus r)),
            p_working_price := Some (to_string_double (o_LimitPrice r)),
            p_working_quantity := Some (scast (o_VolumeRemain r)),
            p_filled_quantity := Some (scast (o_VolumeTraded r)),
            p_submit_time := time, p_order_flag := Some (flag_of (o_OffsetFlag r))\<rparr>)])))))"

definition ctp_OnQryOrder ::
    "(string \<Rightarrow> u32 option) \<Rightarrow> vendor_order \<Rightarrow> ctp_trader \<Rightarrow> ctp_result" where
  "ctp_OnQryOrder cast r s =
     (if \<not> c_strategy s then Inr (s, [])
      else bind_out (ctp_client_id (o_order_ref r) [o_order_ref r, o_OrderSysID r] s) (\<lambda>cl.
        bind_out (report_time cast (o_ActionDay r) (o_InsertTime r)) (\<lambda>time.
          Inr (s, [Order_report (ems_order_default\<lparr>
            p_client_order_id := Some cl, p_account := Some (o_UserID r),
            p_contract := Some (o_InstrumentID r), p_buy_sell := Some (side_of (o_Direction r)),
            p_price := Some (to_string_double (o_LimitPrice r)),
            p_quantity := Some (scast (o_Volume r)), p_tif := Some TIF_GFD,
            p_order_type := Some (type_or_market (o_OrderPriceType r)),
            p_exchange_order_id := Some (o_OrderSysID r),
            p_status := Some (SetOrderStatus (CHR ''a'') (o_OrderStatus r)),
            p_working_price := Some (to_string_double (o_LimitPrice r)),
            p_working_quantity := Some (scast (o_VolumeRemain r)),
            p_filled_quantity := Some (scast (o_VolumeTraded r)),
            p_submit_time := time, p_order_flag := Some (flag_of (o_OffsetFlag r))\<rparr>)]))))"

text \<open>An order whose id is empty is named by the exchange's number and the reference.\<close>

definition ctp_OnFill ::
    "(string \<Rightarrow> u32 option) \<Rightarrow> vendor_trade \<Rightarrow> ctp_trader \<Rightarrow> ctp_result" where
  "ctp_OnFill cast t s =
     (if \<not> c_strategy s then Inr (s, [])
      else bind_out (ctp_client_id (t_order_ref t) [t_order_ref t, t_OrderSysID t] s) (\<lambda>cl.
        bind_out (report_time cast (t_ActionDay t) (t_TradeTime t)) (\<lambda>time.
          Inr (s, [Fill_report \<lparr>q_fill_id = t_TradeID t,
            q_fill_price = to_string_double (t_TradePrice t),
            q_fill_quantity = scast (t_TradeVolume t), q_account = t_UserID t,
            q_client_order_id =
              (if cl = '''' then join_bars [t_OrderSysID t, t_order_ref t] else cl),
            q_exchange_order_id = t_OrderSysID t, q_contract = t_InstrumentID t,
            q_buy_sell = side_of (t_Direction t), q_fill_time = time,
            q_order_flag = Some (flag_of (t_OffsetFlag t))\<rparr>]))))"

definition ctp_OnQryTrade ::
    "(string \<Rightarrow> u32 option) \<Rightarrow> vendor_trade \<Rightarrow> ctp_trader \<Rightarrow> ctp_result" where
  "ctp_OnQryTrade cast t s =
     (if \<not> c_strategy s then Inr (s, [])
      else bind_out (ctp_client_id (t_order_ref t) [t_order_ref t, t_OrderSysID t] s) (\<lambda>cl.
        bind_out (report_time cast (t_ActionDay t) (t_TradeTime t)) (\<lambda>time.
          Inr (s, [Order_report (ems_order_default\<lparr>
            p_client_order_id := Some cl, p_account := Some (t_UserID t),
            p_contract := Some (t_InstrumentID t), p_buy_sell := Some (side_of (t_Direction t)),
            p_price := Some (to_string_double (t_TradePrice t)),
            p_quantity := Some (scast (t_TradeVolume t)), p_tif := Some TIF_GFD,
            p_exchange_order_id := Some (t_OrderSysID t), p_status := Some OS_Filled,
            p_working_price := Some (to_string_double (t_TradePrice t)),
            p_working_quantity := Some 0, p_filled_quantity := Some (scast (t_TradeVolume t)),
            p_submit_time := time, p_order_flag := Some (flag_of (t_OffsetFlag t))\<rparr>)]))))"

definition ctp_OnQryInvestorPosition :: "vendor_position \<Rightarrow> ctp_trader \<Rightarrow> ctp_result" where
  "ctp_OnQryInvestorPosition p s =
     Inr (s, if c_strategy s then [Position_report [position_report p]] else [])"

text \<open>The contract of an instrument; its document for the database and the line in the file are left
  out.\<close>

definition ctp_OnQryInstrument :: "vendor_instrument \<Rightarrow> ctp_trader \<Rightarrow> ctp_result" where
  "ctp_OnQryInstrument i s =
     (if \<not> c_strategy s then Inr (s, [])
      else Inr (s, [Contract_report
        \<lparr>l_name = vi_InstrumentID i, l_tick_size = to_string_double (vi_PriceTick i),
         l_tick_value = tick_value (vi_PriceTick i) (vi_VolumeMultiple i),
         l_yesterday_close_price = None, l_upper_limit = None, l_lower_limit = None,
         l_contract_type = CT_Futures, l_legA = None, l_legB = None\<rparr>]))"

section \<open>The functions the library calls\<close>

text \<open>A null pointer that is read is undefined behaviour; most of them are not checked.\<close>

definition deref_ptr :: "'a option \<Rightarrow> ('a \<Rightarrow> 'b outcome) \<Rightarrow> 'b outcome" where
  "deref_ptr p f = (case p of None \<Rightarrow> Inl (Thrown Undefined_behaviour) | Some x \<Rightarrow> f x)"

definition quiet :: "ctp_trader outcome \<Rightarrow> ctp_result" where
  "quiet r = bind_out r (\<lambda>s. Inr (s, []))"

definition ctp_OnFrontConnected :: "ctp_account \<Rightarrow> ctp_trader \<Rightarrow> ctp_result" where
  "ctp_OnFrontConnected acc s = quiet (ctp_login acc s)"

definition no_error :: "i32 option \<Rightarrow> bool" where
  "no_error pRspInfo \<longleftrightarrow> pRspInfo = None \<or> pRspInfo = Some 0"

definition ctp_OnRspUserLogin ::
    "ctp_account \<Rightarrow> string option \<Rightarrow> i32 option \<Rightarrow> ctp_trader \<Rightarrow> ctp_result" where
  "ctp_OnRspUserLogin acc pRspUserLogin pRspInfo s =
     deref_ptr pRspUserLogin (\<lambda>max_ref.
       if no_error pRspInfo
       then bind_out (lift_res (bind_res (atoi32 max_ref) int_succ)) (\<lambda>n.
              quiet (comfirmSettlement acc (s\<lparr>c_maxOrderRef := Some n\<rparr>)))
       else Inr (s, []))"

definition ctp_OnRspSettlementInfoConfirm :: "unit option \<Rightarrow> i32 option \<Rightarrow> ctp_trader \<Rightarrow> ctp_result" where
  "ctp_OnRspSettlementInfoConfirm pConfirm pRspInfo s =
     deref_ptr pConfirm (\<lambda>_.
       if no_error pRspInfo then quiet (reqQueryInstrument (s\<lparr>c_tradable := True\<rparr>))
       else Inr (s, []))"

definition ctp_OnRspOrderInsert :: "vendor_input option \<Rightarrow> i32 option \<Rightarrow> ctp_trader \<Rightarrow> ctp_result" where
  "ctp_OnRspOrderInsert pInputOrder pRspInfo s =
     deref_ptr pRspInfo (\<lambda>e.
       if c_strategy s then deref_ptr pInputOrder (\<lambda>i. ctp_OnInsertOrder i e s) else Inr (s, []))"

definition ctp_OnRspOrderAction :: "vendor_action option \<Rightarrow> i32 option \<Rightarrow> ctp_trader \<Rightarrow> ctp_result" where
  "ctp_OnRspOrderAction pOrderAction pRspInfo s =
     (if c_strategy s then deref_ptr pOrderAction (\<lambda>a. ctp_OnActionOrder a s) else Inr (s, []))"

definition ctp_OnRtnOrder ::
    "(string \<Rightarrow> u32 option) \<Rightarrow> vendor_order option \<Rightarrow> ctp_trader \<Rightarrow> ctp_result" where
  "ctp_OnRtnOrder cast pOrder s = deref_ptr pOrder (\<lambda>r. ctp_OnOrder cast r s)"

definition ctp_OnRtnTrade ::
    "(string \<Rightarrow> u32 option) \<Rightarrow> vendor_trade option \<Rightarrow> ctp_trader \<Rightarrow> ctp_result" where
  "ctp_OnRtnTrade cast pTrade s = deref_ptr pTrade (\<lambda>t. ctp_OnFill cast t s)"

definition ctp_OnRspQryInvestorPosition ::
    "vendor_position option \<Rightarrow> i32 option \<Rightarrow> ctp_trader \<Rightarrow> ctp_result" where
  "ctp_OnRspQryInvestorPosition pPosition pRspInfo s =
     (if no_error pRspInfo \<and> c_strategy s
      then deref_ptr pPosition (\<lambda>p. ctp_OnQryInvestorPosition p s) else Inr (s, []))"

definition ctp_OnErrRtnOrderInsert ::
    "vendor_input option \<Rightarrow> i32 option \<Rightarrow> ctp_trader \<Rightarrow> ctp_result" where
  "ctp_OnErrRtnOrderInsert pInputOrder pRspInfo s = deref_ptr pRspInfo (\<lambda>_. Inr (s, []))"

definition ctp_OnErrRtnOrderAction ::
    "vendor_action option \<Rightarrow> i32 option \<Rightarrow> ctp_trader \<Rightarrow> ctp_result" where
  "ctp_OnErrRtnOrderAction pOrderAction pRspInfo s = Inr (s, [])"

definition ctp_OnRspQryInstrument :: "vendor_instrument option \<Rightarrow> ctp_trader \<Rightarrow> ctp_result" where
  "ctp_OnRspQryInstrument pInstrument s = deref_ptr pInstrument (\<lambda>i. ctp_OnQryInstrument i s)"

definition ctp_OnRspQryOrder ::
    "(string \<Rightarrow> u32 option) \<Rightarrow> vendor_order option \<Rightarrow> i32 option \<Rightarrow> ctp_trader \<Rightarrow> ctp_result" where
  "ctp_OnRspQryOrder cast pOrder pRspInfo s =
     (case (pOrder, pRspInfo) of
        (Some r, Some _) \<Rightarrow> ctp_OnQryOrder cast r (s\<lparr>c_InitQueryNum := c_InitQueryNum s - 1\<rparr>)
      | _ \<Rightarrow> Inr (s, []))"

definition ctp_OnRspQryTrade ::
    "(string \<Rightarrow> u32 option) \<Rightarrow> vendor_trade option \<Rightarrow> i32 option \<Rightarrow> ctp_trader \<Rightarrow> ctp_result" where
  "ctp_OnRspQryTrade cast pTrade pRspInfo s =
     (case (pTrade, pRspInfo) of
        (Some t, Some _) \<Rightarrow> ctp_OnQryTrade cast t s | _ \<Rightarrow> Inr (s, []))"

section \<open>The communicator\<close>

definition ctp_Add :: "ctp_account \<Rightarrow> ems_order \<Rightarrow> ctp_trader \<Rightarrow> ctp_result" where
  "ctp_Add acc ord s = quiet (reqOrderInsert acc ord s)"

definition ctp_Change :: "ems_order \<Rightarrow> ctp_trader \<Rightarrow> ctp_result" where
  "ctp_Change ord s = Inr (s, [])"

definition ctp_Delete :: "ctp_account \<Rightarrow> ems_order \<Rightarrow> ctp_trader \<Rightarrow> ctp_result" where
  "ctp_Delete acc ord s = quiet (reqOrderAction acc ord s)"

definition ctp_Query :: "ctp_account \<Rightarrow> ems_order \<Rightarrow> ctp_trader \<Rightarrow> ctp_result" where
  "ctp_Query acc ord s = quiet (reqQryOrder acc ord s)"

definition ctp_Query_mass :: "string \<Rightarrow> ctp_trader \<Rightarrow> ctp_result" where
  "ctp_Query_mass data s = Inr (s, [])"

definition ctp_Delete_mass :: "string \<Rightarrow> ctp_trader \<Rightarrow> ctp_result" where
  "ctp_Delete_mass data s = Inr (s, [])"

definition ctp_Stop :: "ctp_account \<Rightarrow> ctp_trader \<Rightarrow> ctp_result" where
  "ctp_Stop acc s = quiet (reqUserLogout acc s)"


end
