(* ===== verification/Trader_Start.thy ===== *)
theory Trader_Start
  imports Femas_Trader Rem_Trader Ctp_Trader
begin

text \<open>
  How the three order gateways start (\<open>Start\<close> in femas/exchange/communicator.cc,
  rem/exchange/rem_communicator.cc and ctp/exchange/ctpcommunicator.cc).  The starting thread
  polls what the vendor's thread sets by its callbacks, so that a start is a state machine: a
  phase for each place where it polls, sends or resets, one step of it at a time, between the
  callbacks.  Whether the time of a wait has run out is an argument of the step.
\<close>

section \<open>The phases\<close>

text \<open>\<open>Asking q\<close> is before the question \<open>q\<close> is sent, \<open>Asked q\<close> after it is sent and before the flag of
  the answer is reset, and \<open>Awaiting q\<close> is the loop that polls the flag.\<close>

datatype 'q start_phase =
    Connecting
  | Connect_timeout
  | Querying "ems_order list"
  | Awaiting_states
  | Asking 'q
  | Asked 'q
  | Awaiting 'q
  | Started bool

type_synonym ('q, 's, 'r) start_result =
  "('q start_phase \<times> 's \<times> 'r trader_event list) outcome"

definition send_then :: "'q start_phase \<Rightarrow> ('s, 'r) trader_result \<Rightarrow> ('q, 's, 'r) start_result" where
  "send_then p r = bind_out r (\<lambda>(s, es). Inr (p, s, es))"

section \<open>Femas\<close>

text \<open>What is left to ask: the trades and the positions for each initial order, and the instruments.\<close>

datatype femas_question = F_trades "ems_order list" | F_positions "ems_order list" | F_instruments

definition femas_query_fields ::
    "(string \<Rightarrow> string) \<Rightarrow> ems_order \<Rightarrow> string \<Rightarrow> femas_query outcome" where
  "femas_query_fields Get ord instrument =
     bind_out (lift_res (strcpy_field 11 (Get ''femas-exchange.ExchangeID''))) (\<lambda>exchange.
     bind_out (lift_res (strncpy_field 11 (Get ''femas-user.BrokerID''))) (\<lambda>broker.
     bind_out (lift_res (strcpy_field 19 (Get ''femas-exchange.InvestorID''))) (\<lambda>investor.
     bind_out (lift_res (strcpy_field 16 (get '''' (p_account ord)))) (\<lambda>user.
     bind_out (lift_res (strncpy_field 31 instrument)) (\<lambda>name.
       Inr \<lparr>fq_ExchangeID = exchange, fq_BrokerID = broker, fq_UserID = user,
            fq_InvestorID = investor, fq_OrderSysID = '''', fq_OrderStatus = CHR 0x00,
            fq_InstrumentID = name\<rparr>)))))"

definition femas_ReqQryTrade_of ::
    "(string \<Rightarrow> string) \<Rightarrow> ems_order \<Rightarrow> femas_trader \<Rightarrow> femas_result" where
  "femas_ReqQryTrade_of Get ord s =
     bind_out (femas_query_fields Get ord '''') (\<lambda>f. femas_send (Femas_ReqQryTrade f) s)"

definition femas_ReqQryInvestorPosition_of ::
    "(string \<Rightarrow> string) \<Rightarrow> ems_order \<Rightarrow> femas_trader \<Rightarrow> femas_result" where
  "femas_ReqQryInvestorPosition_of Get ord s =
     bind_out (femas_query_fields Get ord (get '''' (p_contract ord))) (\<lambda>f.
       femas_send (Femas_ReqQryInvestorPosition f) s)"

definition femas_ReqQryInstrument_all :: "(string \<Rightarrow> string) \<Rightarrow> femas_trader \<Rightarrow> femas_result" where
  "femas_ReqQryInstrument_all Get s =
     bind_out (lift_res (strcpy_field 11 (Get ''femas-exchange.ExchangeID''))) (\<lambda>exchange.
       femas_send (Femas_ReqQryInstrument exchange) s)"

fun femas_ask ::
    "(string \<Rightarrow> string) \<Rightarrow> ems_order list \<Rightarrow> femas_question \<Rightarrow> femas_trader \<Rightarrow>
     (femas_question, femas_trader, femas_request) start_result" where
  "femas_ask Get init_orders (F_trades []) s = Inr (Asking (F_positions init_orders), s, [])"
| "femas_ask Get init_orders (F_trades (ord # ords)) s =
     send_then (Asked (F_trades ords)) (femas_ReqQryTrade_of Get ord s)"
| "femas_ask Get init_orders (F_positions []) s = Inr (Asking F_instruments, s, [])"
| "femas_ask Get init_orders (F_positions (ord # ords)) s =
     send_then (Asked (F_positions ords)) (femas_ReqQryInvestorPosition_of Get ord s)"
| "femas_ask Get init_orders F_instruments s =
     send_then (Asked F_instruments) (femas_ReqQryInstrument_all Get s)"

fun femas_start_step ::
    "(string \<Rightarrow> string) \<Rightarrow> ems_order list \<Rightarrow> bool \<Rightarrow> femas_question start_phase \<Rightarrow> femas_trader \<Rightarrow>
     (femas_question, femas_trader, femas_request) start_result" where
  "femas_start_step Get init_orders timeout Connecting s =
     (if f_IConnet s = 0
      then Inr (Querying init_orders, s\<lparr>f_InitQueryNum := length init_orders\<rparr>, [])
      else Inr (if timeout then Connect_timeout else Connecting, s, []))"
| "femas_start_step Get init_orders timeout Connect_timeout s =
     (if f_IConnet s \<noteq> 0 then Inr (Started False, s, [])
      else Inr (Querying init_orders, s\<lparr>f_InitQueryNum := length init_orders\<rparr>, []))"
| "femas_start_step Get init_orders timeout (Querying []) s = Inr (Awaiting_states, s, [])"
| "femas_start_step Get init_orders timeout (Querying (ord # ords)) s =
     send_then (Querying ords) (femas_Query Get ord s)"
| "femas_start_step Get init_orders timeout Awaiting_states s =
     (if f_InitQueryNum s = 0 then Inr (Asking (F_trades init_orders), s, [])
      else Inr (if timeout then Started False else Awaiting_states, s, []))"
| "femas_start_step Get init_orders timeout (Asking q) s = femas_ask Get init_orders q s"
| "femas_start_step Get init_orders timeout (Asked q) s =
     Inr (Awaiting q, s\<lparr>f_startfinish := False\<rparr>, [])"
| "femas_start_step Get init_orders timeout (Awaiting q) s =
     (if f_startfinish s
      then if q = F_instruments then Inr (Started True, s, [Exchange_ready]) else Inr (Asking q, s, [])
      else Inr (if timeout then Started False else Awaiting q, s, []))"
| "femas_start_step Get init_orders timeout (Started r) s = Inr (Started r, s, [])"

section \<open>REM\<close>

text \<open>The account that was asked for last, and the orders whose accounts are left.\<close>

datatype rem_question =
    R_executions string "ems_order list" | R_positions string "ems_order list" | R_symbols

definition rem_new_account :: "string \<Rightarrow> ems_order \<Rightarrow> bool" where
  "rem_new_account oldaccount ord \<longleftrightarrow> oldaccount = '''' \<or> oldaccount \<noteq> get '''' (p_account ord)"

fun rem_ask ::
    "ems_order list \<Rightarrow> rem_question \<Rightarrow> rem_trader \<Rightarrow> (rem_question, rem_trader, rem_request) start_result" where
  "rem_ask init_orders (R_executions oldaccount []) s = Inr (Asking (R_positions '''' init_orders), s, [])"
| "rem_ask init_orders (R_executions oldaccount (ord # ords)) s =
     (if rem_new_account oldaccount ord
      then Inr (Asked (R_executions (get '''' (p_account ord)) ords), s,
             [Request (Rem_QueryAccountOrderExecution (get '''' (p_account ord)))])
      else Inr (Asking (R_executions oldaccount ords), s, []))"
| "rem_ask init_orders (R_positions oldaccount []) s = Inr (Asking R_symbols, s, [])"
| "rem_ask init_orders (R_positions oldaccount (ord # ords)) s =
     (if rem_new_account oldaccount ord
      then bind_out (lift_res (int_succ (r_MaxOrderLocalID s))) (\<lambda>n.
             Inr (Asked (R_positions (get '''' (p_account ord)) ords), s\<lparr>r_MaxOrderLocalID := n\<rparr>,
               [Request (Rem_QueryAccountPosition (get '''' (p_account ord)) (r_MaxOrderLocalID s))]))
      else Inr (Asking (R_positions oldaccount ords), s, []))"
| "rem_ask init_orders R_symbols s = Inr (Asked R_symbols, s, [Request Rem_QuerySymbolList])"

fun rem_start_step ::
    "ems_order list \<Rightarrow> bool \<Rightarrow> rem_question start_phase \<Rightarrow> rem_trader \<Rightarrow>
     (rem_question, rem_trader, rem_request) start_result" where
  "rem_start_step init_orders timeout Connecting s =
     (if r_IConnet s = 0
      then Inr (Querying init_orders, s\<lparr>r_InitQueryNum := length init_orders\<rparr>, [])
      else Inr (if timeout then Connect_timeout else Connecting, s, []))"
| "rem_start_step init_orders timeout Connect_timeout s =
     (if r_IConnet s \<noteq> 0 then Inr (Started False, s, [])
      else Inr (Querying init_orders, s\<lparr>r_InitQueryNum := length init_orders\<rparr>, []))"
| "rem_start_step init_orders timeout (Querying []) s = Inr (Awaiting_states, s, [])"
| "rem_start_step init_orders timeout (Querying (ord # ords)) s =
     send_then (Querying ords) (rem_Query ord s)"
| "rem_start_step init_orders timeout Awaiting_states s =
     (if r_InitQueryNum s = 0 then Inr (Asking (R_executions '''' init_orders), s, [])
      else Inr (if timeout then Started False else Awaiting_states, s, []))"
| "rem_start_step init_orders timeout (Asking q) s = rem_ask init_orders q s"
| "rem_start_step init_orders timeout (Asked q) s = Inr (Awaiting q, s\<lparr>r_startfinish := False\<rparr>, [])"
| "rem_start_step init_orders timeout (Awaiting q) s =
     (if r_startfinish s
      then if q = R_symbols then Inr (Started True, s, [Exchange_ready]) else Inr (Asking q, s, [])
      else Inr (if timeout then Started False else Awaiting q, s, []))"
| "rem_start_step init_orders timeout (Started r) s = Inr (Started r, s, [])"

section \<open>CTP\<close>

text \<open>Trades and positions are asked for without a wait, so there is nothing to await an answer of.\<close>

fun ctp_start_step ::
    "ctp_account \<Rightarrow> ems_order list \<Rightarrow> bool \<Rightarrow> unit start_phase \<Rightarrow> ctp_trader \<Rightarrow>
     (unit, ctp_trader, ctp_request) start_result" where
  "ctp_start_step acc init_orders timeout Connecting s =
     (if c_tradable s
      then Inr (Querying init_orders, s\<lparr>c_InitQueryNum := length init_orders\<rparr>, [])
      else Inr (if timeout then Connect_timeout else Connecting, s, []))"
| "ctp_start_step acc init_orders timeout Connect_timeout s =
     (if \<not> c_tradable s then Inr (Started False, s, [])
      else Inr (Querying init_orders, s\<lparr>c_InitQueryNum := length init_orders\<rparr>, []))"
| "ctp_start_step acc init_orders timeout (Querying []) s = Inr (Awaiting_states, s, [])"
| "ctp_start_step acc init_orders timeout (Querying (ord # ords)) s =
     send_then (Querying ords) (ctp_Query acc ord s)"
| "ctp_start_step acc init_orders timeout Awaiting_states s =
     (if c_InitQueryNum s = 0 then Inr (Asking (), s, [])
      else Inr (if timeout then Started False else Awaiting_states, s, []))"
| "ctp_start_step acc init_orders timeout (Asking q) s =
     bind_out (bind_out (reqQryTrade acc init_orders s) (queryPosition acc init_orders)) (\<lambda>s'.
       Inr (Started True, s', [Exchange_ready]))"
| "ctp_start_step acc init_orders timeout (Asked q) s = Inr (Asked q, s, [])"
| "ctp_start_step acc init_orders timeout (Awaiting q) s = Inr (Awaiting q, s, [])"
| "ctp_start_step acc init_orders timeout (Started r) s = Inr (Started r, s, [])"

section \<open>A start between the callbacks\<close>

datatype 'e start_event = Thread bool | Callback 'e

fun start_run ::
    "(bool \<Rightarrow> 'q start_phase \<Rightarrow> 's \<Rightarrow> ('q, 's, 'r) start_result) \<Rightarrow> ('e \<Rightarrow> 's \<Rightarrow> ('s, 'r) trader_result) \<Rightarrow>
     'e start_event list \<Rightarrow> 'q start_phase \<Rightarrow> 's \<Rightarrow> ('q, 's, 'r) start_result" where
  "start_run step handle [] p s = Inr (p, s, [])"
| "start_run step handle (Thread timeout # vs) p s =
     bind_out (step timeout p s) (\<lambda>(p1, s1, es1).
     bind_out (start_run step handle vs p1 s1) (\<lambda>(p2, s2, es2). Inr (p2, s2, es1 @ es2)))"
| "start_run step handle (Callback v # vs) p s =
     bind_out (handle v s) (\<lambda>(s1, es1).
     bind_out (start_run step handle vs p s1) (\<lambda>(p2, s2, es2). Inr (p2, s2, es1 @ es2)))"

end
