(* ===== verification/Femas_Properties.thy ===== *)
theory Femas_Properties
  imports Femas_Trader
begin

text \<open>
  What the order gateway of Femas promises: a new order is answered, an order comes back from the
  exchange as it was sent, and reports carry the id of the first request that was made under
  their number - which is the id of another order when that order was refused by the gateway.
\<close>

section \<open>The gateway as a sequence of calls\<close>

datatype femas_event =
    Femas_Add ems_order
  | Femas_Change ems_order
  | Femas_Delete ems_order
  | Femas_Query ems_order
  | Femas_Login "string option" "i32 option"
  | Femas_RspOrderInsert "vendor_input option" "i32 option"
  | Femas_RtnOrder "vendor_order option"
  | Femas_RtnTrade "vendor_trade option"
  | Femas_RspOrderAction "vendor_action option" "i32 option"
  | Femas_RspQryOrder "vendor_order option" "i32 option"
  | Femas_RspQryTrade "vendor_trade option" "i32 option" bool
  | Femas_RspQryInvestorPosition "vendor_position option" "i32 option" bool
  | Femas_RspQryInstrument "vendor_instrument option" "i32 option" bool

fun femas_handle ::
    "(string \<Rightarrow> string) \<Rightarrow> (string \<Rightarrow> u32 option) \<Rightarrow> femas_event \<Rightarrow> femas_trader \<Rightarrow> femas_result" where
  "femas_handle Get cast (Femas_Add ord) s = femas_Add Get ord s"
| "femas_handle Get cast (Femas_Change ord) s = femas_Change ord s"
| "femas_handle Get cast (Femas_Delete ord) s = femas_Delete Get ord s"
| "femas_handle Get cast (Femas_Query ord) s = femas_Query Get ord s"
| "femas_handle Get cast (Femas_Login l e) s = femas_OnRspUserLogin l e s"
| "femas_handle Get cast (Femas_RspOrderInsert i e) s = femas_OnRspOrderInsert cast i e s"
| "femas_handle Get cast (Femas_RtnOrder r) s = femas_OnRtnOrder cast r s"
| "femas_handle Get cast (Femas_RtnTrade t) s = femas_OnRtnTrade cast t s"
| "femas_handle Get cast (Femas_RspOrderAction a e) s = femas_OnRspOrderAction a e s"
| "femas_handle Get cast (Femas_RspQryOrder r e) s = femas_OnRspQryOrder cast r e s"
| "femas_handle Get cast (Femas_RspQryTrade t e l) s = femas_OnRspQryTrade cast t e l s"
| "femas_handle Get cast (Femas_RspQryInvestorPosition p e l) s =
     femas_OnRspQryInvestorPosition p e l s"
| "femas_handle Get cast (Femas_RspQryInstrument i e l) s = femas_OnRspQryInstrument i e l s"

fun femas_run ::
    "(string \<Rightarrow> string) \<Rightarrow> (string \<Rightarrow> u32 option) \<Rightarrow> femas_event list \<Rightarrow> femas_trader \<Rightarrow>
     femas_result" where
  "femas_run Get cast [] s = Inr (s, [])"
| "femas_run Get cast (v # vs) s =
     bind_out (femas_handle Get cast v s) (\<lambda>(s1, es1).
     bind_out (femas_run Get cast vs s1) (\<lambda>(s2, es2). Inr (s2, es1 @ es2)))"

section \<open>The index of orders\<close>

interpretation femas_index: order_index
  "\<lambda>k i s. s\<lparr>f_ordermap := add_first k i (f_ordermap s)\<rparr>" "\<lambda>k s. f_ordermap s k"
  by unfold_locales (simp add: add_first_def)

lemma femas_AddOrderId_eq:
  "femas_AddOrderId i (-1) s =
     s\<lparr>f_ordermap := add_first (f_MaxOrderLocalID s) i (f_ordermap s)\<rparr>"
  by (simp add: femas_AddOrderId_def add_first_def Let_def)

lemma femas_AddOrderId_simps [simp]:
  "f_MaxOrderLocalID (femas_AddOrderId i (-1) s) = f_MaxOrderLocalID s"
  "f_strategy (femas_AddOrderId i (-1) s) = f_strategy s"
  by (simp_all add: femas_AddOrderId_eq)

text \<open>What one call does to the index: nothing, or the client's id under the current number.\<close>

lemma femas_send_Inr:
  "femas_send r s = Inr (s', es) \<longleftrightarrow>
     (\<exists>n. int_succ (f_MaxOrderLocalID s) = Inr n \<and> s' = s\<lparr>f_MaxOrderLocalID := n\<rparr> \<and>
       es = [Request (r (f_MaxOrderLocalID s))])"
  by (cases "int_succ (f_MaxOrderLocalID s)") (auto simp: femas_send_def)

lemma femas_Add_Inr:
  assumes "femas_Add Get ord s = Inr (s', es)"
  obtains (refused) i where "femas_input_order Get ord (f_MaxOrderLocalID s) = Inr i"
      "fi_LimitPrice i \<le> 0 \<or> sint (fi_Volume i) \<le> 0" "f_strategy s"
      "s' = femas_AddOrderId (get '''' (p_client_order_id ord)) (-1) s"
      "es = [Order_report (local_reject ord)]"
    | (sent) i i' n where "femas_input_order Get ord (f_MaxOrderLocalID s) = Inr i"
      "0 < fi_LimitPrice i" "0 < sint (fi_Volume i)" "femas_complete_order Get ord i = Inr i'"
      "int_succ (f_MaxOrderLocalID s) = Inr n"
      "s' = (femas_AddOrderId (get '''' (p_client_order_id ord)) (-1) s)\<lparr>f_MaxOrderLocalID := n\<rparr>"
      "es = [Request (Femas_ReqOrderInsert i' (f_MaxOrderLocalID s))]"
proof -
  obtain i where i: "femas_input_order Get ord (f_MaxOrderLocalID s) = Inr i"
    using assms by (auto simp: femas_Add_def Let_def bind_out_Inr_iff)
  show ?thesis
  proof (cases "fi_LimitPrice i \<le> 0 \<or> sint (fi_Volume i) \<le> 0")
    case True
    then show ?thesis using assms i
      by (intro refused [OF i True]) (auto simp: femas_Add_def Let_def split: if_splits)
  next
    case False
    then obtain i' where i': "femas_complete_order Get ord i = Inr i'"
      using assms i by (auto simp: femas_Add_def Let_def bind_out_Inr_iff)
    then obtain n where "int_succ (f_MaxOrderLocalID s) = Inr n"
      "s' = (femas_AddOrderId (get '''' (p_client_order_id ord)) (-1) s)\<lparr>f_MaxOrderLocalID := n\<rparr>"
      "es = [Request (Femas_ReqOrderInsert i' (f_MaxOrderLocalID s))]"
      using assms i False by (auto simp: femas_Add_def Let_def femas_send_Inr)
    with i i' False show ?thesis by (intro sent) auto
  qed
qed

lemma femas_input_order_number:
  "femas_input_order Get ord n = Inr i \<Longrightarrow> femas_complete_order Get ord i = Inr i' \<Longrightarrow>
     fi_UserOrderLocalID i' = show_i32 n"
  by (auto simp: femas_input_order_def femas_complete_order_def bind_out_Inr_iff)

lemma femas_Add_map:
  assumes "femas_Add Get ord s = Inr (s', es)"
  shows "f_ordermap s' = f_ordermap (femas_AddOrderId (get '''' (p_client_order_id ord)) (-1) s)"
  using assms by (cases rule: femas_Add_Inr) simp_all

lemma femas_Delete_map:
  assumes "femas_Delete Get ord s = Inr (s', es)"
  shows "f_ordermap s' = f_ordermap (femas_AddOrderId (get '''' (p_client_order_id ord)) (-1) s)"
  using assms by (auto simp: femas_Delete_def Let_def bind_out_Inr_iff femas_send_Inr)

lemma femas_Query_map:
  assumes "femas_Query Get ord s = Inr (s', es)"
  shows "f_ordermap s' = f_ordermap (femas_AddOrderId (get '''' (p_client_order_id ord)) (-1) s)"
  using assms by (auto simp: femas_Query_def Let_def bind_out_Inr_iff femas_send_Inr)

lemmas femas_report_defs =
  femas_OnRspUserLogin_def femas_OnRspOrderInsert_def femas_OnRtnOrder_def femas_OnRtnTrade_def
  femas_OnRspOrderAction_def femas_OnRspQryOrder_def femas_OnRspQryTrade_def
  femas_OnRspQryInvestorPosition_def femas_OnRspQryInstrument_def femas_OnInsertOrder_def
  femas_OnOrder_def femas_OnQryOrder_def femas_OnFill_def femas_OnQryTrade_def
  femas_OnActionOrder_def femas_OnQryInvestorPosition_def femas_OnQryInstrument_def

lemma femas_report_keeps_map:
  assumes "femas_handle Get cast v s = Inr (s', es)"
    and "\<nexists>ord. v = Femas_Add ord \<or> v = Femas_Delete ord \<or> v = Femas_Query ord"
  shows "f_ordermap s' = f_ordermap s"
  using assms
  by (cases v) (auto simp: femas_report_defs femas_Change_def Let_def bind_out_Inr_iff
      split: option.splits if_splits)

lemma femas_request_map:
  assumes "femas_handle Get cast v s = Inr (s', es)"
    and "v = Femas_Add ord \<or> v = Femas_Delete ord \<or> v = Femas_Query ord"
  shows "f_ordermap s' = f_ordermap (femas_AddOrderId (get '''' (p_client_order_id ord)) (-1) s)"
  using assms(2)
proof (elim disjE)
  assume "v = Femas_Add ord"
  then show ?thesis using assms(1) by (intro femas_Add_map) simp
next
  assume "v = Femas_Delete ord"
  then show ?thesis using assms(1) by (intro femas_Delete_map) simp
next
  assume "v = Femas_Query ord"
  then show ?thesis using assms(1) by (intro femas_Query_map) simp
qed

lemma femas_handle_keeps_id:
  assumes "femas_handle Get cast v s = Inr (s', es)" "f_ordermap s k = Some i"
  shows "f_ordermap s' k = Some i"
proof (cases "\<exists>ord. v = Femas_Add ord \<or> v = Femas_Delete ord \<or> v = Femas_Query ord")
  case True
  then obtain ord where "v = Femas_Add ord \<or> v = Femas_Delete ord \<or> v = Femas_Query ord" by blast
  from femas_request_map [OF assms(1) this] show ?thesis
    using femas_index.first_wins [OF assms(2)] by (simp add: femas_AddOrderId_eq)
next
  case False
  then have "f_ordermap s' = f_ordermap s" by (intro femas_report_keeps_map [OF assms(1)])
  then show ?thesis using assms(2) by simp
qed

lemma femas_run_keeps_id:
  "femas_run Get cast vs s = Inr (s', es) \<Longrightarrow> f_ordermap s k = Some i \<Longrightarrow>
     f_ordermap s' k = Some i"
proof (induction vs arbitrary: s es)
  case (Cons v vs)
  then show ?case by (auto simp: bind_out_Inr_iff dest: femas_handle_keeps_id)
qed simp

lemma femas_handle_keeps_strategy:
  assumes "femas_handle Get cast v s = Inr (s', es)"
  shows "f_strategy s' = f_strategy s"
proof (cases v)
  case (Femas_Add ord)
  then have "femas_Add Get ord s = Inr (s', es)" using assms by simp
  then show ?thesis by (cases rule: femas_Add_Inr) simp_all
next
  case (Femas_Delete ord)
  then show ?thesis using assms
    by (auto simp: femas_Delete_def Let_def bind_out_Inr_iff femas_send_Inr)
next
  case (Femas_Query ord)
  then show ?thesis using assms
    by (auto simp: femas_Query_def Let_def bind_out_Inr_iff femas_send_Inr)
qed (use assms in \<open>auto simp: femas_report_defs femas_Change_def Let_def bind_out_Inr_iff
       split: option.splits if_splits\<close>)

lemma femas_run_keeps_strategy:
  "femas_run Get cast vs s = Inr (s', es) \<Longrightarrow> f_strategy s' = f_strategy s"
proof (induction vs arbitrary: s es)
  case (Cons v vs)
  then show ?case by (auto simp: bind_out_Inr_iff dest: femas_handle_keeps_strategy)
qed simp

section \<open>Whose id a report carries\<close>

text \<open>Orders that the gateway refuses do not count the number up.\<close>

lemma femas_refused_run:
  assumes "femas_run Get cast (map Femas_Add refused) s = Inr (s', es)"
    and "\<forall>e \<in> set es. \<exists>r. e = Order_report r"
  shows "f_MaxOrderLocalID s' = f_MaxOrderLocalID s \<and>
    f_ordermap s' = fold (\<lambda>i. add_first (f_MaxOrderLocalID s) i) (map client_id refused) (f_ordermap s)"
  using assms
proof (induction refused arbitrary: s es)
  case (Cons ord refused)
  then obtain s1 es1 es2 where run: "femas_Add Get ord s = Inr (s1, es1)"
    "femas_run Get cast (map Femas_Add refused) s1 = Inr (s', es2)" "es = es1 @ es2"
    by (auto simp: bind_out_Inr_iff)
  have "s1 = femas_AddOrderId (client_id ord) (-1) s"
    using run(1) Cons.prems(2) run(3) unfolding client_id_def
    by (cases rule: femas_Add_Inr) auto
  moreover have "\<forall>e \<in> set es2. \<exists>r. e = Order_report r" using Cons.prems(2) run(3) by simp
  ultimately show ?case using Cons.IH [OF run(2)] by (simp add: femas_AddOrderId_eq)
qed simp

lemma fold_add_first:
  "m k = None \<Longrightarrow> fold (\<lambda>i. add_first k i) (i # is) m k = Some i"
proof -
  assume m: "m k = None"
  have "fold (\<lambda>i. add_first k i) js m' k = Some i" if "m' k = Some i" for js m'
    using that by (induction js arbitrary: m') (simp_all add: first_index.first_wins)
  then show ?thesis using m by (simp add: add_first_def)
qed

fun report_ref :: "femas_event \<Rightarrow> string option" where
  "report_ref (Femas_RtnOrder (Some r)) = Some (o_order_ref r)"
| "report_ref (Femas_RtnTrade (Some t)) = Some (t_order_ref t)"
| "report_ref (Femas_RspOrderInsert (Some i) (Some e)) = Some (i_order_ref i)"
| "report_ref (Femas_RspQryOrder (Some r) (Some e)) = Some (o_order_ref r)"
| "report_ref (Femas_RspQryTrade (Some t) (Some e) l) = Some (t_order_ref t)"
| "report_ref v = None"

lemma femas_client_id_known:
  "f_ordermap s k = Some i \<Longrightarrow> i \<noteq> '''' \<Longrightarrow> femas_client_id (show_i32 k) parts s = Inr i"
  by (simp add: femas_client_id_def femas_GetOrderId_def)

lemma femas_report_of_known:
  assumes "report_ref v = Some (show_i32 k)" "femas_handle Get cast v s = Inr (s', es)"
    and "f_strategy s" "f_ordermap s k = Some i" "i \<noteq> ''''"
  shows "\<exists>e. es = [e] \<and> reported_id e = Some i"
  using assms(1)
  by (cases v rule: report_ref.cases)
    (use assms(2-5) in \<open>auto simp: femas_report_defs femas_order_report_def bind_out_Inr_iff
       femas_client_id_known split: if_splits\<close>)

text \<open>
  Claim C37: every report of the exchange on a sent order - its state, its fills, the answer to the
  insert or to a query, however many calls later - carries the id of the client who was the
  first to ask under the order's number.  Without refused orders in between that is the client
  of the order; but an order that the gateway refuses for its price or volume has left its id
  under the number, which the next order takes: the reports on that order then carry the id
  of the refused one.
\<close>

theorem femas_reports_carry_the_first_id:
  assumes "f_strategy s" "f_ordermap s (f_MaxOrderLocalID s) = None"
    and "femas_run Get cast (map Femas_Add refused) s = Inr (s1, es1)"
    and "\<forall>e \<in> set es1. \<exists>r. e = Order_report r"
    and "femas_Add Get ord s1 = Inr (s2, [Request (Femas_ReqOrderInsert i n)])"
    and "femas_run Get cast later s2 = Inr (s3, es3)"
    and "femas_handle Get cast v s3 = Inr (s4, es4)" "report_ref v = Some (fi_UserOrderLocalID i)"
    and "client_id (hd (refused @ [ord])) \<noteq> ''''"
  shows "\<exists>e. es4 = [e] \<and> reported_id e = Some (client_id (hd (refused @ [ord])))"
proof -
  let ?k = "f_MaxOrderLocalID s" and ?ids = "map client_id (refused @ [ord])"
  have s1: "f_MaxOrderLocalID s1 = ?k"
    "f_ordermap s1 = fold (\<lambda>i. add_first ?k i) (map client_id refused) (f_ordermap s)"
    using femas_refused_run [OF assms(3,4)] by simp_all
  have i: "fi_UserOrderLocalID i = show_i32 ?k" and
    "f_ordermap s2 = f_ordermap (femas_AddOrderId (client_id ord) (-1) s1)"
    using assms(5) s1(1) unfolding client_id_def
    by (cases rule: femas_Add_Inr; auto dest: femas_input_order_number)+
  then have "f_ordermap s2 = fold (\<lambda>i. add_first ?k i) ?ids (f_ordermap s)"
    by (simp add: femas_AddOrderId_eq s1)
  moreover have "?ids = client_id (hd (refused @ [ord])) # tl ?ids"
    by (cases refused) simp_all
  ultimately have "f_ordermap s2 ?k = Some (client_id (hd (refused @ [ord])))"
    using fold_add_first [of "f_ordermap s" ?k, OF assms(2)] by metis
  then have "f_ordermap s3 ?k = Some (client_id (hd (refused @ [ord])))"
    by (rule femas_run_keeps_id [OF assms(6)])
  moreover have "f_strategy s3"
    using femas_run_keeps_strategy [OF assms(3)] femas_run_keeps_strategy [OF assms(6)] assms(1,5)
      femas_handle_keeps_strategy [of Get cast "Femas_Add ord" s1] by simp
  ultimately show ?thesis
    using femas_report_of_known [OF _ assms(7), of ?k] assms(8,9) i by simp
qed

definition femas_sample_settings :: "string \<Rightarrow> string" where
  "femas_sample_settings k = ''1''"

definition femas_sample_order :: "string \<Rightarrow> string \<Rightarrow> ems_order" where
  "femas_sample_order cl px = ems_order_default\<lparr>p_client_order_id := Some cl,
     p_account := Some ''acc'', p_contract := Some ''IF1709'', p_buy_sell := Some BS_Buy,
     p_price := Some px, p_quantity := Some 2, p_order_type := Some OT_Limit,
     p_order_flag := Some OF_TClose\<rparr>"

definition femas_sample_state :: femas_trader where
  "femas_sample_state = femas_trader_new\<lparr>f_IConnet := 0, f_MaxOrderLocalID := 8, f_strategy := True\<rparr>"

definition femas_sample_input :: "double \<Rightarrow> femas_input" where
  "femas_sample_input px =
     \<lparr>fi_UserOrderLocalID = ''8'', fi_BrokerID = ''1'', fi_UserID = ''acc'',
      fi_InstrumentID = ''IF1709'', fi_InvestorID = ''1'', fi_ExchangeID = ''1'',
      fi_Direction = CHR ''0'', fi_OffsetFlag = CHR ''3'', fi_HedgeFlag = CHR ''1'',
      fi_LimitPrice = px, fi_Volume = 2, fi_TimeCondition = CHR ''1'', fi_IsAutoSuspend = 1,
      fi_OrderPriceType = CHR ''2'', fi_VolumeCondition = CHR ''1'', fi_ForceCloseReason = CHR ''1''\<rparr>"

definition femas_sample_report :: vendor_order where
  "femas_sample_report = \<lparr>o_order_ref = ''8'', o_OrderSysID = ''77'', o_OrderUserID = '''',
     o_OrderLocalID = '''', o_UserID = ''acc'', o_InstrumentID = ''IF1709'',
     o_OrderPriceType = CHR ''2'', o_Direction = CHR ''0'', o_OffsetFlag = CHR ''3'',
     o_TimeCondition = CHR ''3'', o_OrderStatus = CHR ''3'', o_LimitPrice = 5, o_Volume = 2,
     o_VolumeRemain = 2, o_VolumeTraded = 0, o_ActionDay = '''', o_InsertTime = ''''\<rparr>"

lemma show_i32_8: "show_i32 8 = ''8''"
  by code_simp

lemma femas_sample_prices: "atof ''0'' = Inr 0" "atof ''5'' = Inr 5" "atoi32 ''1'' = Inr 1"
  by code_simp+

lemmas femas_sample_defs =
  femas_sample_settings_def femas_sample_order_def femas_sample_state_def femas_sample_input_def
  femas_trader_new_def femas_Add_def femas_input_order_def femas_complete_order_def femas_send_def
  femas_AddOrderId_def strncpy_field_def strcpy_field_def strcpy_def c_string_def first_char_def
  femas_Direction_def femas_OffsetFlag_def femas_OrderPriceType_def ems_order_default_def
  femas_sample_prices show_i32_8 int_succ_def

lemma femas_sample_refused:
  "femas_Add femas_sample_settings (femas_sample_order ''a'' ''0'') femas_sample_state =
     Inr (femas_sample_state\<lparr>f_ordermap := [8 \<mapsto> ''a'']\<rparr>,
          [Order_report (local_reject (femas_sample_order ''a'' ''0''))])"
  by (simp add: femas_sample_defs Let_def)

lemma femas_sample_sent:
  "femas_Add femas_sample_settings (femas_sample_order ''b'' ''5'')
       (femas_sample_state\<lparr>f_ordermap := [8 \<mapsto> ''a'']\<rparr>) =
     Inr (femas_sample_state\<lparr>f_ordermap := [8 \<mapsto> ''a''], f_MaxOrderLocalID := 9\<rparr>,
          [Request (Femas_ReqOrderInsert (femas_sample_input 5) 8)])"
  by (simp add: femas_sample_defs Let_def)

theorem femas_reports_carry_the_first_id_witness:
  "\<exists>s4 e. femas_OnRtnOrder (\<lambda>_. None) (Some femas_sample_report)
       (femas_sample_state\<lparr>f_ordermap := [8 \<mapsto> ''a''], f_MaxOrderLocalID := 9\<rparr>) = Inr (s4, [e]) \<and>
     reported_id e = Some ''a''"
proof -
  let ?a = "femas_sample_order ''a'' ''0''" and ?b = "femas_sample_order ''b'' ''5''"
  let ?s2 = "femas_sample_state\<lparr>f_ordermap := [8 \<mapsto> ''a''], f_MaxOrderLocalID := 9\<rparr>"
  let ?v = "Femas_RtnOrder (Some femas_sample_report)"
  obtain s4 es4 where handled: "femas_handle femas_sample_settings (\<lambda>_. None) ?v ?s2 = Inr (s4, es4)"
    by (auto simp: femas_report_defs femas_order_report_def femas_sample_report_def
        femas_sample_state_def femas_client_id_def report_time_def To_pb_time_def
        show_i32_8 [symmetric])
  have start: "f_strategy femas_sample_state"
    "f_ordermap femas_sample_state (f_MaxOrderLocalID femas_sample_state) = None"
    by (simp_all add: femas_sample_state_def femas_trader_new_def)
  have refused: "femas_run femas_sample_settings (\<lambda>_. None) (map Femas_Add [?a]) femas_sample_state =
      Inr (femas_sample_state\<lparr>f_ordermap := [8 \<mapsto> ''a'']\<rparr>, [Order_report (local_reject ?a)])"
    by (simp add: femas_sample_refused)
  have v: "report_ref ?v = Some (fi_UserOrderLocalID (femas_sample_input 5))"
    by (simp add: femas_sample_report_def femas_sample_input_def)
  have "\<exists>e. es4 = [e] \<and> reported_id e = Some (client_id (hd ([?a] @ [?b])))"
    by (rule femas_reports_carry_the_first_id [OF start refused _ femas_sample_sent, where later = "[]",
          OF _ _ handled v]) (simp_all add: client_id_def femas_sample_order_def)
  then show ?thesis using handled by (auto simp: client_id_def femas_sample_order_def)
qed

section \<open>Orders come back\<close>

text \<open>What an accepted order becomes.\<close>

definition femas_describes :: "ems_order \<Rightarrow> i32 \<Rightarrow> femas_input \<Rightarrow> bool" where
  "femas_describes ord n i \<longleftrightarrow>
     fi_UserOrderLocalID i = show_i32 n \<and>
     fi_UserID i = c_string (get '''' (p_account ord)) \<and>
     fi_InstrumentID i = c_string (get '''' (p_contract ord)) \<and>
     fi_Direction i = femas_Direction (get BS_None (p_buy_sell ord)) \<and>
     fi_OffsetFlag i = femas_OffsetFlag (get OF_None (p_order_flag ord)) \<and>
     fi_OrderPriceType i = femas_OrderPriceType (get OT_None (p_order_type ord)) \<and>
     atof (get '''' (p_price ord)) = Inr (fi_LimitPrice i) \<and>
     fi_Volume i = ucast (get 0 (p_quantity ord)) \<and>
     0 < fi_LimitPrice i \<and> 0 < sint (fi_Volume i)"

lemma femas_Add_describes:
  assumes "femas_Add Get ord s = Inr (s', [Request (Femas_ReqOrderInsert i n)])"
  shows "n = f_MaxOrderLocalID s \<and> femas_describes ord n i \<and>
    f_ordermap s' = f_ordermap (femas_AddOrderId (client_id ord) (-1) s) \<and> f_strategy s' = f_strategy s"
  using assms unfolding client_id_def
  by (cases rule: femas_Add_Inr)
    (auto simp: femas_describes_def femas_input_order_def femas_complete_order_def
      bind_out_Inr_iff lift_res_Inr_iff strncpy_field_def split: if_splits)

text \<open>The exchange's reports repeat the fields of the insert.\<close>

definition femas_order_echoes :: "femas_input \<Rightarrow> vendor_order \<Rightarrow> bool" where
  "femas_order_echoes i r \<longleftrightarrow>
     o_order_ref r = fi_UserOrderLocalID i \<and> o_UserID r = fi_UserID i \<and>
     o_InstrumentID r = fi_InstrumentID i \<and> o_Direction r = fi_Direction i \<and>
     o_OffsetFlag r = fi_OffsetFlag i \<and> o_OrderPriceType r = fi_OrderPriceType i \<and>
     o_LimitPrice r = fi_LimitPrice i \<and> o_Volume r = fi_Volume i"

definition femas_input_echoes :: "femas_input \<Rightarrow> vendor_input \<Rightarrow> bool" where
  "femas_input_echoes i j \<longleftrightarrow>
     i_order_ref j = fi_UserOrderLocalID i \<and> i_UserID j = fi_UserID i \<and>
     i_InstrumentID j = fi_InstrumentID i \<and> i_Direction j = fi_Direction i \<and>
     i_OffsetFlag j = fi_OffsetFlag i \<and> i_OrderPriceType j = fi_OrderPriceType i \<and>
     i_LimitPrice j = fi_LimitPrice i \<and> i_Volume j = fi_Volume i"

text \<open>The kinds of closing as the answer to an insert calls them.\<close>

fun closings_exchanged :: "OrderFlag \<Rightarrow> OrderFlag" where
  "closings_exchanged OF_YClose = OF_TClose"
| "closings_exchanged OF_TClose = OF_YClose"
| "closings_exchanged f = f"

lemma femas_flags:
  "flag_of (femas_OffsetFlag f) = f" "femas_insert_flag (femas_OffsetFlag f) = closings_exchanged f"
  by (cases f; simp add: flag_of_def femas_OffsetFlag_def femas_insert_flag_def)+

lemma femas_sides: "b = BS_Buy \<or> b = BS_Sell \<Longrightarrow> side_of (femas_Direction b) = b"
  by (auto simp: side_of_def femas_Direction_def)

lemma femas_types:
  "t = OT_Limit \<or> t = OT_Market \<Longrightarrow> type_if_known (femas_OrderPriceType t) = Some t"
  by (auto simp: type_if_known_def femas_OrderPriceType_def)

lemma femas_report_same:
  assumes "femas_describes ord n i" "femas_order_echoes i r" "plain_order ord"
    and "strategy_Check_order ord = Inr ()" "f_strategy s"
    and "f_ordermap s n = Some (client_id ord)" "client_id ord \<noteq> ''''"
    and "femas_OnRtnOrder cast (Some r) s = Inr (s', es)"
  shows "\<exists>rep. es = [Order_report rep] \<and> same_order ord rep \<and>
    p_order_flag rep = Some (get OF_None (p_order_flag ord))"
proof -
  have known: "p_contract ord \<noteq> None" "p_quantity ord \<noteq> None" "p_order_type ord \<noteq> None"
    "p_buy_sell ord = Some BS_Buy \<or> p_buy_sell ord = Some BS_Sell"
    "p_order_type ord = Some OT_Limit \<or> p_order_type ord = Some OT_Market"
    using assms(4) by (auto simp: strategy_Check_order_OK)
  show ?thesis
    using assms known
    by (auto simp: femas_report_defs femas_order_report_def bind_out_Inr_iff femas_client_id_known
        femas_describes_def femas_order_echoes_def plain_order_def same_order_def femas_flags
        femas_sides femas_types quantity_back split: if_splits)
qed

lemma femas_answer_same:
  assumes "femas_describes ord n i" "femas_input_echoes i j" "plain_order ord"
    and "strategy_Check_order ord = Inr ()" "f_strategy s"
    and "f_ordermap s n = Some (client_id ord)" "client_id ord \<noteq> ''''"
    and "femas_OnRspOrderInsert cast (Some j) (Some e) s = Inr (s', es)"
  shows "\<exists>rep. es = [Order_report rep] \<and> same_order ord rep \<and>
    p_order_flag rep = Some (closings_exchanged (get OF_None (p_order_flag ord)))"
proof -
  have known: "p_contract ord \<noteq> None" "p_quantity ord \<noteq> None" "p_order_type ord \<noteq> None"
    "p_buy_sell ord = Some BS_Buy \<or> p_buy_sell ord = Some BS_Sell"
    "p_order_type ord = Some OT_Limit \<or> p_order_type ord = Some OT_Market"
    using assms(4) by (auto simp: strategy_Check_order_OK)
  show ?thesis
    using assms known
    by (auto simp: femas_report_defs bind_out_Inr_iff femas_client_id_known
        femas_describes_def femas_input_echoes_def plain_order_def same_order_def femas_flags
        femas_sides femas_types quantity_back split: if_splits)
qed

text \<open>
  Claim C36: an accepted order comes back as it was sent.  When the exchange's reports repeat the
  fields of the insert, the report on the order, however many calls later, has its client's id,
  account, contract, side, quantity, type, price (as the text of the same double) and flag.  The
  answer to the insert has them as well, except that it calls closing today's position closing
  yesterday's and the other way round.
\<close>

theorem femas_orders_come_back:
  assumes "f_strategy s" "f_ordermap s (f_MaxOrderLocalID s) = None"
    and "strategy_Check_order ord = Inr ()" "plain_order ord" "client_id ord \<noteq> ''''"
    and "femas_Add Get ord s = Inr (s1, [Request (Femas_ReqOrderInsert i n)])"
    and "femas_run Get cast later s1 = Inr (s2, es2)"
    and "femas_order_echoes i r" "femas_OnRtnOrder cast (Some r) s2 = Inr (s3, es3)"
    and "femas_input_echoes i j" "femas_OnRspOrderInsert cast (Some j) (Some e) s2 = Inr (s4, es4)"
  shows "(\<exists>rep. es3 = [Order_report rep] \<and> same_order ord rep \<and>
      p_order_flag rep = Some (get OF_None (p_order_flag ord))) \<and>
    (\<exists>rep. es4 = [Order_report rep] \<and> same_order ord rep \<and>
      p_order_flag rep = Some (closings_exchanged (get OF_None (p_order_flag ord))))"
proof -
  have sent: "n = f_MaxOrderLocalID s" "femas_describes ord n i" "f_strategy s1"
    "f_ordermap s1 = f_ordermap (femas_AddOrderId (client_id ord) (-1) s)"
    using femas_Add_describes [OF assms(6)] assms(1) by auto
  then have "f_ordermap s1 n = Some (client_id ord)"
    using assms(2) by (simp add: femas_AddOrderId_eq add_first_def)
  then have "f_ordermap s2 n = Some (client_id ord)" by (rule femas_run_keeps_id [OF assms(7)])
  moreover have "f_strategy s2" using femas_run_keeps_strategy [OF assms(7)] sent(3) by simp
  ultimately show ?thesis
    using femas_report_same [OF sent(2) assms(8,4,3) _ _ assms(5,9)]
      femas_answer_same [OF sent(2) assms(10,4,3) _ _ assms(5,11)] by blast
qed

lemma femas_sample_only:
  "femas_Add femas_sample_settings (femas_sample_order ''b'' ''5'') femas_sample_state =
     Inr (femas_sample_state\<lparr>f_ordermap := [8 \<mapsto> ''b''], f_MaxOrderLocalID := 9\<rparr>,
          [Request (Femas_ReqOrderInsert (femas_sample_input 5) 8)])"
  by (simp add: femas_sample_defs Let_def)

definition femas_sample_answer :: vendor_input where
  "femas_sample_answer = \<lparr>i_order_ref = ''8'', i_OrderSysID = ''77'', i_UserID = ''acc'',
     i_InvestorID = ''1'', i_InstrumentID = ''IF1709'', i_OrderPriceType = CHR ''2'',
     i_Direction = CHR ''0'', i_OffsetFlag = CHR ''3'', i_LimitPrice = 5, i_Volume = 2,
     i_ActionDay = ''''\<rparr>"

theorem femas_orders_come_back_witness:
  "\<exists>s3 s4 rep ans.
     femas_OnRtnOrder (\<lambda>_. None) (Some femas_sample_report)
       (femas_sample_state\<lparr>f_ordermap := [8 \<mapsto> ''b''], f_MaxOrderLocalID := 9\<rparr>) =
       Inr (s3, [Order_report rep]) \<and> p_order_flag rep = Some OF_TClose \<and>
     femas_OnRspOrderInsert (\<lambda>_. None) (Some femas_sample_answer) (Some 0)
       (femas_sample_state\<lparr>f_ordermap := [8 \<mapsto> ''b''], f_MaxOrderLocalID := 9\<rparr>) =
       Inr (s4, [Order_report ans]) \<and> p_order_flag ans = Some OF_YClose"
proof -
  let ?b = "femas_sample_order ''b'' ''5''"
  let ?s2 = "femas_sample_state\<lparr>f_ordermap := [8 \<mapsto> ''b''], f_MaxOrderLocalID := 9\<rparr>"
  obtain s3 es3 where r: "femas_OnRtnOrder (\<lambda>_. None) (Some femas_sample_report) ?s2 = Inr (s3, es3)"
    by (auto simp: femas_report_defs femas_order_report_def femas_sample_report_def
        femas_sample_state_def femas_client_id_def report_time_def To_pb_time_def
        show_i32_8 [symmetric])
  obtain s4 es4 where j:
    "femas_OnRspOrderInsert (\<lambda>_. None) (Some femas_sample_answer) (Some 0) ?s2 = Inr (s4, es4)"
    by (auto simp: femas_report_defs femas_sample_answer_def
        femas_sample_state_def femas_client_id_def report_time_def To_pb_time_def
        show_i32_8 [symmetric])
  have start: "f_strategy femas_sample_state"
    "f_ordermap femas_sample_state (f_MaxOrderLocalID femas_sample_state) = None"
    by (simp_all add: femas_sample_state_def femas_trader_new_def)
  have ok: "strategy_Check_order ?b = Inr ()" "plain_order ?b" "client_id ?b \<noteq> ''''"
    by (simp_all add: strategy_Check_order_OK femas_sample_order_def ems_order_default_def
        Is_price_valid_def is_digit_def digit_value_def plain_order_def c_string_def client_id_def)
  have echo: "femas_order_echoes (femas_sample_input 5) femas_sample_report"
    "femas_input_echoes (femas_sample_input 5) femas_sample_answer"
    by (simp_all add: femas_order_echoes_def femas_input_echoes_def femas_sample_input_def
        femas_sample_report_def femas_sample_answer_def)
  have idle: "femas_run femas_sample_settings (\<lambda>_. None) [] ?s2 = Inr (?s2, [])" by simp
  have flag: "get OF_None (p_order_flag ?b) = OF_TClose"
    by (simp add: femas_sample_order_def)
  show ?thesis
    using femas_orders_come_back [where later = "[]", OF start ok femas_sample_only idle
      echo(1) r echo(2) j] r j
    unfolding flag by auto
qed

section \<open>The gateway as an exchange\<close>

definition femas_exchange ::
    "ems_codec \<Rightarrow> (string \<Rightarrow> string) \<Rightarrow> (femas_trader, femas_request) exchangeI" where
  "femas_exchange codec Get =
     \<lparr>ex_Add = (\<lambda>ord s. published codec (femas_Add Get ord s)),
      ex_Change = (\<lambda>ord s. published codec (femas_Change ord s)),
      ex_Delete = (\<lambda>ord s. published codec (femas_Delete Get ord s)),
      ex_Query = (\<lambda>ord s. published codec (femas_Query Get ord s)),
      ex_Query_mass = (\<lambda>data s. published codec (femas_Query_mass data s)),
      ex_Delete_mass = (\<lambda>data s. published codec (femas_Delete_mass data s))\<rparr>"

text \<open>The settings fit the arrays they are copied to, the numbers have not run out, and so do the
  texts of the order.\<close>

definition femas_ready :: "(string \<Rightarrow> string) \<Rightarrow> femas_trader \<Rightarrow> bool" where
  "femas_ready Get s \<longleftrightarrow>
     f_strategy s \<and> sint (f_MaxOrderLocalID s) < 2 ^ 31 - 1 \<and>
     length (Get ''femas-user.BrokerID'') < 11 \<and> length (Get ''femas-exchange.InvestorID'') < 19 \<and>
     length (Get ''femas-exchange.ExchangeID'') < 11 \<and>
     (\<exists>n. atoi32 (Get ''femas-exchange.IsAutoSuspend'') = Inr n)"

definition femas_fits :: "ems_order \<Rightarrow> bool" where
  "femas_fits ord \<longleftrightarrow>
     length (get '''' (p_account ord)) < 16 \<and> length (get '''' (p_contract ord)) < 31 \<and>
     length (get '''' (p_price ord)) \<le> 300"

text \<open>The answer to a new order: the insert under the next number, or the rejection if its price is
  0 or its quantity does not fit an \<open>int\<close>.\<close>

definition femas_answers ::
    "ems_codec \<Rightarrow> ems_order \<Rightarrow> femas_trader \<Rightarrow> femas_trader \<Rightarrow> femas_request gateway_event list \<Rightarrow> bool" where
  "femas_answers codec ord s s' es \<longleftrightarrow>
     (\<exists>i n. es = [Sent (Femas_ReqOrderInsert i n)] \<and> n = f_MaxOrderLocalID s \<and>
        femas_describes ord n i \<and> f_MaxOrderLocalID s' = n + 1) \<or>
     es = [strategy_OnOrder codec (local_reject ord)] \<and>
     (\<exists>px. atof (get '''' (p_price ord)) = Inr px \<and>
        (px \<le> 0 \<or> sint (ucast (get 0 (p_quantity ord)) :: i32) \<le> 0))"

lemma femas_input_order_fits:
  assumes "femas_ready Get s" "femas_fits ord" "strategy_Check_order ord = Inr ()"
  shows "\<exists>i px. femas_input_order Get ord n = Inr i \<and> atof (get '''' (p_price ord)) = Inr px \<and>
    fi_LimitPrice i = px \<and> fi_Volume i = ucast (get 0 (p_quantity ord))"
proof -
  have "Is_price_valid (get '''' (p_price ord))"
    using assms(3) by (auto simp: strategy_Check_order_OK)
  then obtain px where "atof (get '''' (p_price ord)) = Inr px"
    using valid_price_atof assms(2) unfolding femas_fits_def by blast
  then show ?thesis using assms(1,2)
    by (simp add: femas_input_order_def femas_ready_def femas_fits_def strncpy_field_fits
        strcpy_field_fits)
qed

lemma femas_complete_order_ready:
  assumes "femas_ready Get s"
  shows "\<exists>i'. femas_complete_order Get ord i = Inr i'"
  using assms by (auto simp: femas_ready_def femas_complete_order_def strcpy_field_fits)

lemma femas_Add_served:
  assumes "femas_ready Get s" "strategy_Check_order ord = Inr ()" "femas_fits ord"
  shows "\<exists>s' es. published codec (femas_Add Get ord s) = Inr (s', es) \<and> femas_answers codec ord s s' es"
proof -
  obtain i px where i: "femas_input_order Get ord (f_MaxOrderLocalID s) = Inr i"
    "atof (get '''' (p_price ord)) = Inr px" "fi_LimitPrice i = px"
    "fi_Volume i = ucast (get 0 (p_quantity ord))"
    using femas_input_order_fits [OF assms(1,3,2)] by blast
  have s: "f_strategy s" "int_succ (f_MaxOrderLocalID s) = Inr (f_MaxOrderLocalID s + 1)"
    using assms(1) by (simp_all add: femas_ready_def int_succ_def)
  show ?thesis
  proof (cases "px \<le> 0 \<or> sint (fi_Volume i) \<le> 0")
    case True
    then show ?thesis using i s by (auto simp: femas_Add_def Let_def femas_answers_def)
  next
    case False
    obtain i' where i': "femas_complete_order Get ord i = Inr i'"
      using femas_complete_order_ready [OF assms(1)] by blast
    let ?s' = "(femas_AddOrderId (client_id ord) (-1) s)\<lparr>f_MaxOrderLocalID := f_MaxOrderLocalID s + 1\<rparr>"
    have add: "femas_Add Get ord s =
        Inr (?s', [Request (Femas_ReqOrderInsert i' (f_MaxOrderLocalID s))])"
      using False i(1,3) i' s(2) by (simp add: femas_Add_def Let_def femas_send_def client_id_def)
    then show ?thesis using femas_Add_describes [OF add] by (auto simp: femas_answers_def)
  qed
qed

interpretation femas_port: trader_port codec "femas_exchange codec Get" "femas_ready Get" femas_fits
  "femas_answers codec" for codec Get
  by unfold_locales (simp_all add: femas_exchange_def femas_Add_served femas_Change_def)

end
