(* ===== verification/Rem_Properties.thy ===== *)
theory Rem_Properties
  imports Rem_Trader
begin

text \<open>
  What the order gateway of REM promises: a new order is answered, an accepted order comes back
  with its client's id and can be cancelled as long as REM's token fits an \<open>int\<close>, and the
  reports that name an order by REM's token alone lose the client's id once it is known.
\<close>

section \<open>The gateway as a sequence of calls\<close>

datatype rem_event =
    Rem_Add u32 ems_order
  | Rem_Change ems_order
  | Rem_Delete ems_order
  | Rem_Query ems_order
  | Rem_UserLogon_answer "(i32 \<times> u32) option"
  | Rem_OrderAccept "rem_accept option"
  | Rem_OrderMarketAccept "rem_market_accept option"
  | Rem_OrderReject "rem_reject option"
  | Rem_OrderMarketReject "rem_market_reject option"
  | Rem_OrderExecution "rem_execution option"
  | Rem_OrderCxled "rem_cxled option"
  | Rem_CxlOrderReject "rem_cxl_reject option"
  | Rem_QueryTradeOrder "rem_query_order option"
  | Rem_QueryTradeOrderExec "rem_execution option" bool
  | Rem_AccountPosition "rem_position option" bool
  | Rem_QuerySymbol "rem_symbol option" bool

fun rem_handle ::
    "(string \<Rightarrow> string) \<Rightarrow> (string \<Rightarrow> u32 option) \<Rightarrow> (u64 \<Rightarrow> string) \<Rightarrow> rem_event \<Rightarrow> rem_trader \<Rightarrow>
     rem_result" where
  "rem_handle Get cast tt (Rem_Add max_token ord) s = rem_Add Get max_token ord s"
| "rem_handle Get cast tt (Rem_Change ord) s = rem_Change ord s"
| "rem_handle Get cast tt (Rem_Delete ord) s = rem_Delete ord s"
| "rem_handle Get cast tt (Rem_Query ord) s = rem_Query ord s"
| "rem_handle Get cast tt (Rem_UserLogon_answer l) s = rem_OnUserLogon l s"
| "rem_handle Get cast tt (Rem_OrderAccept a) s = rem_OnOrderAccept cast tt a s"
| "rem_handle Get cast tt (Rem_OrderMarketAccept a) s = rem_OnOrderMarketAccept cast tt a s"
| "rem_handle Get cast tt (Rem_OrderReject j) s = rem_OnOrderReject cast tt j s"
| "rem_handle Get cast tt (Rem_OrderMarketReject j) s = rem_OnOrderMarketReject cast tt j s"
| "rem_handle Get cast tt (Rem_OrderExecution x) s = rem_OnOrderExecution cast tt x s"
| "rem_handle Get cast tt (Rem_OrderCxled c) s = rem_OnOrderCxled cast tt c s"
| "rem_handle Get cast tt (Rem_CxlOrderReject j) s = rem_OnCxlOrderReject j s"
| "rem_handle Get cast tt (Rem_QueryTradeOrder r) s = rem_OnQueryTradeOrder cast tt r s"
| "rem_handle Get cast tt (Rem_QueryTradeOrderExec x l) s = rem_OnQueryTradeOrderExec cast tt x l s"
| "rem_handle Get cast tt (Rem_AccountPosition p l) s = rem_OnQueryAccountPosition p l s"
| "rem_handle Get cast tt (Rem_QuerySymbol y l) s = rem_OnQuerySymbol y l s"

fun rem_run ::
    "(string \<Rightarrow> string) \<Rightarrow> (string \<Rightarrow> u32 option) \<Rightarrow> (u64 \<Rightarrow> string) \<Rightarrow> rem_event list \<Rightarrow>
     rem_trader \<Rightarrow> rem_result" where
  "rem_run Get cast tt [] s = Inr (s, [])"
| "rem_run Get cast tt (v # vs) s =
     bind_out (rem_handle Get cast tt v s) (\<lambda>(s1, es1).
     bind_out (rem_run Get cast tt vs s1) (\<lambda>(s2, es2). Inr (s2, es1 @ es2)))"

section \<open>The indices\<close>

interpretation rem_ids: order_index "\<lambda>k i. rem_AddOrderId i k" "\<lambda>k s. r_ordermap s k"
  by unfold_locales (simp add: rem_AddOrderId_def)

interpretation rem_tokens: order_index "\<lambda>k t. rem_AddOrderToken t k" "\<lambda>k s. r_orderTokenmap s k"
  by unfold_locales (simp add: rem_AddOrderToken_def)

lemma rem_index_simps [simp]:
  "r_orderTokenmap (rem_AddOrderId i k s) = r_orderTokenmap s"
  "r_ordermap (rem_AddOrderToken t k s) = r_ordermap s"
  "r_strategy (rem_AddOrderId i k s) = r_strategy s"
  "r_strategy (rem_AddOrderToken t k s) = r_strategy s"
  "r_ordermap (rem_note_token token market s) = r_ordermap s"
  "r_strategy (rem_note_token token market s) = r_strategy s"
  by (simp_all add: rem_AddOrderId_def rem_AddOrderToken_def rem_note_token_def)

lemma rem_note_token_keeps:
  "r_orderTokenmap s k = Some t \<Longrightarrow> r_orderTokenmap (rem_note_token token market s) k = Some t"
  by (simp add: rem_note_token_def rem_tokens.first_wins)

lemmas rem_report_defs =
  rem_Change_def rem_Delete_def rem_Query_def rem_OnUserLogon_def rem_OnOrderAccept_def
  rem_OnOrderMarketAccept_def rem_OnOrderReject_def rem_OnOrderMarketReject_def
  rem_OnOrderExecution_def rem_OnOrderCxled_def rem_OnCxlOrderReject_def
  rem_OnQueryTradeOrder_def rem_OnQueryTradeOrderExec_def rem_OnQueryAccountPosition_def
  rem_OnQuerySymbol_def if_given_def SendOrderAccept_def SendOrderMarketAccept_def
  SendOrderReject_def SendOrderMarketReject_def SendOrderExecution_def SendOrderCxled_def
  SendCxlOrderReject_def SendQueryTradeOrder_def SendQueryTradeOrderExec_def SendQuerySymbol_def

lemma rem_handle_keeps:
  assumes "rem_handle Get cast tt v s = Inr (s', es)"
  shows "r_ordermap s k = Some i \<Longrightarrow> r_ordermap s' k = Some i"
    and "r_orderTokenmap s k = Some t \<Longrightarrow> r_orderTokenmap s' k = Some t"
    and "r_strategy s' = r_strategy s"
proof -
  have "(r_ordermap s k = Some i \<longrightarrow> r_ordermap s' k = Some i) \<and>
    (r_orderTokenmap s k = Some t \<longrightarrow> r_orderTokenmap s' k = Some t) \<and> r_strategy s' = r_strategy s"
  proof (cases "\<exists>m ord. v = Rem_Add m ord")
    case True
    then show ?thesis using assms
      by (auto simp: rem_Add_def bind_out_Inr_iff rem_ids.first_wins split: if_splits)
  next
    case False
    then show ?thesis using assms
      by (cases v) (auto simp: rem_report_defs bind_out_Inr_iff rem_note_token_keeps Let_def
          split: option.splits if_splits prod.splits)
  qed
  then show "r_ordermap s k = Some i \<Longrightarrow> r_ordermap s' k = Some i"
    "r_orderTokenmap s k = Some t \<Longrightarrow> r_orderTokenmap s' k = Some t"
    "r_strategy s' = r_strategy s" by blast+
qed

lemma rem_run_keeps:
  "rem_run Get cast tt vs s = Inr (s', es) \<Longrightarrow> r_ordermap s k = Some i \<Longrightarrow> r_ordermap s' k = Some i"
  "rem_run Get cast tt vs s = Inr (s', es) \<Longrightarrow> r_orderTokenmap s k = Some t \<Longrightarrow>
     r_orderTokenmap s' k = Some t"
  "rem_run Get cast tt vs s = Inr (s', es) \<Longrightarrow> r_strategy s' = r_strategy s"
proof -
  show "rem_run Get cast tt vs s = Inr (s', es) \<Longrightarrow> r_ordermap s k = Some i \<Longrightarrow> r_ordermap s' k = Some i"
    by (induction vs arbitrary: s es) (auto simp: bind_out_Inr_iff dest: rem_handle_keeps(1))
  show "rem_run Get cast tt vs s = Inr (s', es) \<Longrightarrow> r_orderTokenmap s k = Some t \<Longrightarrow>
     r_orderTokenmap s' k = Some t"
    by (induction vs arbitrary: s es) (auto simp: bind_out_Inr_iff dest: rem_handle_keeps(2))
  show "rem_run Get cast tt vs s = Inr (s', es) \<Longrightarrow> r_strategy s' = r_strategy s"
    by (induction vs arbitrary: s es) (auto simp: bind_out_Inr_iff dest: rem_handle_keeps(3))
qed

section \<open>Whose id a report carries\<close>

lemma rem_time_unset: "\<forall>t. length (tt t) = 26 \<Longrightarrow> rem_time cast tt t = Inr None"
  by (simp add: rem_time_def To_pb_time_def)

lemma rem_client_id_known:
  "r_ordermap s token = Some i \<Longrightarrow> i \<noteq> '''' \<Longrightarrow> rem_client_id token parts s = i"
  by (simp add: rem_client_id_def rem_GetOrderId_def)

lemma rem_note_token_known:
  "r_ordermap s token = Some i \<Longrightarrow> i \<noteq> '''' \<Longrightarrow> r_orderTokenmap s (ucast market) = None \<Longrightarrow>
     r_orderTokenmap (rem_note_token token market s) (ucast market) = Some token"
  by (simp add: rem_note_token_def rem_GetOrderId_def rem_tokens.look_added)

lemma rem_market_id_known:
  "r_orderTokenmap s (ucast market) = Some token \<Longrightarrow> token \<noteq> -1 \<Longrightarrow> rem_market_id market parts s = ''''"
  by (simp add: rem_market_id_def rem_GetOrderToken_def)

text \<open>
  Once REM has accepted an order, its executions and its cancellation are reported with
  the client's id, however many calls later; but the market's acceptance, the market's rejection
  and the rejection of a cancel, which name the order by REM's token alone, are reported with an
  empty id - because the token is known.  (boost writes a time with 26 characters.)
\<close>

theorem rem_market_reports_lose_the_id:
  assumes "\<forall>t. length (tt t) = 26" "r_strategy s"
    and "r_ordermap s (ra_ClientOrderToken a) = Some i" "i \<noteq> ''''" "ra_ClientOrderToken a \<noteq> -1"
    and "r_orderTokenmap s (ucast (ra_MarketOrderToken a)) = None"
    and "rem_OnOrderAccept cast tt (Some a) s = Inr (s1, es1)"
    and "rem_run Get cast tt later s1 = Inr (s2, es2)"
  shows "(\<exists>rep. es1 = [Order_report rep] \<and> p_client_order_id rep = Some i) \<and>
    (\<forall>x. rx_ClientOrderToken x = ra_ClientOrderToken a \<longrightarrow>
       (\<exists>s3 fill. rem_OnOrderExecution cast tt (Some x) s2 = Inr (s3, [Fill_report fill]) \<and>
          q_client_order_id fill = i)) \<and>
    (\<forall>c. rl_ClientOrderToken c = ra_ClientOrderToken a \<longrightarrow>
       (\<exists>s3 rep. rem_OnOrderCxled cast tt (Some c) s2 = Inr (s3, [Order_report rep]) \<and>
          p_client_order_id rep = Some i)) \<and>
    (\<forall>m. rm_MarketOrderToken m = ra_MarketOrderToken a \<longrightarrow>
       (\<exists>rep. rem_OnOrderMarketAccept cast tt (Some m) s2 = Inr (s2, [Order_report rep]) \<and>
          p_client_order_id rep = Some '''')) \<and>
    (\<forall>j. rk_MarketOrderToken j = ra_MarketOrderToken a \<longrightarrow>
       (\<exists>rep. rem_OnOrderMarketReject cast tt (Some j) s2 = Inr (s2, [Order_report rep]) \<and>
          p_client_order_id rep = Some '''')) \<and>
    (\<forall>j. rn_MarketOrderToken j = ra_MarketOrderToken a \<longrightarrow>
       (\<exists>rep. rem_OnCxlOrderReject (Some j) s2 = Inr (s2, [Order_report rep]) \<and>
          p_client_order_id rep = Some ''''))"
proof -
  note unset = rem_time_unset [OF assms(1)]
  let ?k = "ra_ClientOrderToken a" and ?m = "ucast (ra_MarketOrderToken a) :: i32"
  have s1: "s1 = rem_note_token ?k (ra_MarketOrderToken a) s"
    and accepted: "\<exists>rep. es1 = [Order_report rep] \<and> p_client_order_id rep = Some i"
    using assms(2,7) by (auto simp: rem_report_defs unset rem_client_id_known [OF assms(3,4)])
  then have kept: "r_ordermap s2 ?k = Some i" "r_orderTokenmap s2 ?m = Some ?k" "r_strategy s2"
    using rem_run_keeps [OF assms(8)] assms(2,3) rem_note_token_known [OF assms(3,4,6)] by simp_all
  show ?thesis
    using accepted kept(3) rem_client_id_known [OF kept(1) assms(4)]
      rem_market_id_known [OF kept(2) assms(5)]
    by (auto simp: rem_report_defs unset)
qed

definition rem_sample_accept :: "i64 \<Rightarrow> rem_accept" where
  "rem_sample_accept market = \<lparr>ra_ClientOrderToken = 4, ra_MarketOrderToken = market,
     ra_OrderState = 1, ra_UserID = 9, ra_AcceptTime = 0, ra_Side = 3, ra_Symbol = ''IF1709'',
     ra_Price = 5, ra_Qty = 2, ra_Tif = 99998\<rparr>"

definition rem_sample_state :: rem_trader where
  "rem_sample_state = rem_trader_new\<lparr>r_IConnet := 0, r_MaxOrderLocalID := 4, r_strategy := True,
     r_ordermap := [4 \<mapsto> ''b'']\<rparr>"

definition rem_sample_time :: "u64 \<Rightarrow> string" where
  "rem_sample_time t = ''2017-06-01 09:30:00.000000''"

theorem rem_market_reports_lose_the_id_witness:
  "\<exists>s1 rep lost.
     rem_OnOrderAccept (\<lambda>_. None) rem_sample_time (Some (rem_sample_accept 70)) rem_sample_state =
       Inr (s1, [Order_report rep]) \<and> p_client_order_id rep = Some ''b'' \<and>
     rem_OnOrderMarketAccept (\<lambda>_. None) rem_sample_time
       (Some \<lparr>rm_Account = ''acc'', rm_MarketOrderToken = 70, rm_MarketOrderId = ''x'', rm_MarketTime = 0\<rparr>)
       s1 = Inr (s1, [Order_report lost]) \<and> p_client_order_id lost = Some ''''"
proof -
  let ?a = "rem_sample_accept 70"
  have time: "\<forall>t. length (rem_sample_time t) = 26" by (simp add: rem_sample_time_def)
  obtain s1 es1 where accept:
    "rem_OnOrderAccept (\<lambda>_. None) rem_sample_time (Some ?a) rem_sample_state = Inr (s1, es1)"
    by (auto simp: rem_report_defs rem_time_unset [OF time] rem_sample_state_def)
  have state: "r_strategy rem_sample_state"
    "r_ordermap rem_sample_state (ra_ClientOrderToken ?a) = Some ''b''" "''b'' \<noteq> ''''"
    "ra_ClientOrderToken ?a \<noteq> -1"
    "r_orderTokenmap rem_sample_state (ucast (ra_MarketOrderToken ?a)) = None"
    by (simp_all add: rem_sample_state_def rem_trader_new_def rem_sample_accept_def)
  have idle: "rem_run (\<lambda>_. '''') (\<lambda>_. None) rem_sample_time [] s1 = Inr (s1, [])" by simp
  have "ra_MarketOrderToken ?a = 70" by (simp add: rem_sample_accept_def)
  then show ?thesis
    using rem_market_reports_lose_the_id [OF time state accept idle] accept by fastforce
qed

section \<open>Orders come back and can be cancelled\<close>

definition rem_echoes :: "rem_enter \<Rightarrow> rem_accept \<Rightarrow> bool" where
  "rem_echoes e a \<longleftrightarrow>
     ra_ClientOrderToken a = re_ClientOrderToken e \<and> ra_Side a = re_Side e \<and>
     ra_Symbol a = re_Symbol e \<and> ra_Price a = re_Price e \<and> ra_Qty a = re_Qty e \<and>
     ra_Tif a = re_Tif e"

text \<open>The flag and the time in force that come back: REM has one way to close today's position and
  one kind of immediate order.\<close>

definition rem_flag_back :: "OrderFlag \<Rightarrow> OrderFlag" where
  "rem_flag_back f = (if f = OF_TClose then OF_Close else f)"

definition rem_tif_back :: "TimeInForce \<Rightarrow> TimeInForce" where
  "rem_tif_back t = (if t = TIF_FAK \<or> t = TIF_FOK then TIF_FOK else TIF_GFD)"

lemma rem_sides:
  "b = BS_Buy \<or> b = BS_Sell \<Longrightarrow> f \<noteq> OF_None \<Longrightarrow>
     rem_side_of (rem_Side b f) = Some (b, rem_flag_back f)"
  by (cases b; cases f) (simp_all add: rem_side_of_def rem_Side_def rem_flag_back_def)

lemma rem_tifs: "(if rem_Tif t = 0 then TIF_FOK else TIF_GFD) = rem_tif_back t"
  by (simp add: rem_Tif_def rem_tif_back_def)

lemma quantity_back_unsigned:
  assumes "uint (q :: u64) < 2 ^ 31"
  shows "ucast (ucast q :: u32) = q"
proof -
  have "take_bit 32 (uint q) = uint q" using assms by (intro take_bit_int_eq_self) simp_all
  then have "uint (ucast q :: u32) = uint q" by (simp add: uint_up_ucast unsigned_ucast_eq)
  then show ?thesis by (metis word_of_int_uint ucast_eq)
qed

lemma atoi_show_i64: "atoi (show_i64 w) = sint w"
  by (simp add: show_i64_def atoi_show_digits atoi_show_negative)

lemma token_back:
  assumes "- (2 ^ 31) \<le> sint (m :: i64)" "sint m < 2 ^ 31"
  shows "scast (word_of_int (sint m) :: i32) = m"
proof -
  have "signed_take_bit 31 (sint m) = sint m"
    using assms by (intro signed_take_bit_int_eq_self) simp_all
  then have "sint (scast m :: i32) = sint m" by (simp add: signed_scast_eq)
  then have "scast (scast m :: i32) = m" by (simp only: scast_eq [of "scast m :: i32"]) simp
  then show ?thesis by simp
qed

lemma rem_Delete_token:
  assumes "p_exchange_order_id c = Some (show_i64 m)" "length (get '''' (p_account c)) < 17"
  shows "rem_Delete c s =
    (if - (2 ^ 31) \<le> sint m \<and> sint m < 2 ^ 31
     then Inr (s, [Request (Rem_CancelOrder \<lparr>rc_Account = c_string (get '''' (p_account c)),
       rc_Quantity = ucast (get 0 (p_quantity c)), rc_MarketOrderToken = m\<rparr>)])
     else Inl (Thrown Undefined_behaviour))"
  using assms token_back [of m]
  by (auto simp: rem_Delete_def strncpy_field_fits atoi32_def atoi_show_i64)

lemma rem_Add_sent:
  assumes "rem_Add Get max_token ord s = Inr (s', [Request (Rem_EnterOrder e)])"
  shows "s' = rem_AddOrderId (client_id ord) (re_ClientOrderToken e) s \<and>
    re_ClientOrderToken e = max_token + 1 \<and>
    re_Side e = rem_Side (get BS_None (p_buy_sell ord)) (get OF_None (p_order_flag ord)) \<and>
    re_Symbol e = c_string (get '''' (p_contract ord)) \<and>
    atof (get '''' (p_price ord)) = Inr (re_Price e) \<and>
    re_Qty e = ucast (get 0 (p_quantity ord)) \<and> re_Tif e = rem_Tif (get TIF_None (p_tif ord))"
  using assms
  by (auto simp: rem_Add_def rem_enter_order_def bind_out_Inr_iff lift_res_Inr_iff
      strncpy_field_def client_id_def split: if_splits)


definition rem_sample_order :: ems_order where
  "rem_sample_order = ems_order_default\<lparr>p_client_order_id := Some ''b'',
     p_account := Some ''acc'', p_contract := Some ''IF1709'', p_buy_sell := Some BS_Buy,
     p_price := Some ''5'', p_quantity := Some 2, p_tif := Some TIF_GFD,
     p_order_type := Some OT_Limit, p_order_flag := Some OF_TClose\<rparr>"

definition rem_sample_enter :: rem_enter where
  "rem_sample_enter = \<lparr>re_Account = ''acc'', re_Side = 3, re_Exchange = 1, re_Symbol = ''IF1709'',
     re_SecType = 1, re_Price = 5, re_Qty = 2, re_ClientOrderToken = 4, re_Tif = 99998,
     re_HedgeFlag = 1\<rparr>"

lemma rem_sample_sent:
  "rem_Add (\<lambda>_. ''1'') 3 rem_sample_order (rem_sample_state\<lparr>r_ordermap := Map.empty\<rparr>) =
     Inr (rem_sample_state, [Request (Rem_EnterOrder rem_sample_enter)])"
proof -
  have "atof ''5'' = Inr 5" "atoi32 ''1'' = Inr 1" by code_simp+
  then show ?thesis
    by (simp add: rem_Add_def rem_enter_order_def rem_sample_order_def rem_sample_enter_def
        rem_sample_state_def rem_trader_new_def strncpy_field_def c_string_def rem_Side_def
        rem_Tif_def rem_AddOrderId_def ems_order_default_def)
qed


section \<open>The gateway as an exchange\<close>

text \<open>\<open>max_token\<close> is what the library answers when it is asked.\<close>

definition rem_exchange ::
    "ems_codec \<Rightarrow> (string \<Rightarrow> string) \<Rightarrow> u32 \<Rightarrow> (rem_trader, rem_request) exchangeI" where
  "rem_exchange codec Get max_token =
     \<lparr>ex_Add = (\<lambda>ord s. published codec (rem_Add Get max_token ord s)),
      ex_Change = (\<lambda>ord s. published codec (rem_Change ord s)),
      ex_Delete = (\<lambda>ord s. published codec (rem_Delete ord s)),
      ex_Query = (\<lambda>ord s. published codec (rem_Query ord s)),
      ex_Query_mass = (\<lambda>data s. published codec (rem_Query_mass data s)),
      ex_Delete_mass = (\<lambda>data s. published codec (rem_Delete_mass data s))\<rparr>"

definition rem_ready :: "(string \<Rightarrow> string) \<Rightarrow> rem_trader \<Rightarrow> bool" where
  "rem_ready Get s \<longleftrightarrow> r_strategy s \<and>
     (\<exists>n. atoi32 (Get ''rem-exchange.HedgeFlag'') = Inr n) \<and>
     (\<exists>n. atoi32 (Get ''rem-exchange.SecType'') = Inr n) \<and>
     (\<exists>n. atoi32 (Get ''rem-exchange.ExchangeID'') = Inr n)"

definition rem_fits :: "ems_order \<Rightarrow> bool" where
  "rem_fits ord \<longleftrightarrow>
     length (get '''' (p_account ord)) < 17 \<and> length (get '''' (p_contract ord)) < 9 \<and>
     length (get '''' (p_price ord)) \<le> 300"

definition rem_answers ::
    "ems_codec \<Rightarrow> u32 \<Rightarrow> ems_order \<Rightarrow> rem_trader \<Rightarrow> rem_trader \<Rightarrow> rem_request gateway_event list \<Rightarrow> bool" where
  "rem_answers codec max_token ord s s' es \<longleftrightarrow>
     (\<exists>e. es = [Sent (Rem_EnterOrder e)] \<and> re_ClientOrderToken e = max_token + 1 \<and>
        atof (get '''' (p_price ord)) = Inr (re_Price e) \<and> 0 < re_Price e \<and>
        re_Qty e = ucast (get 0 (p_quantity ord)) \<and> re_Qty e \<noteq> 0) \<or>
     s' = s \<and> es = [strategy_OnOrder codec (local_reject ord)] \<and>
     (\<exists>px. atof (get '''' (p_price ord)) = Inr px \<and>
        (px \<le> 0 \<or> (ucast (get 0 (p_quantity ord)) :: u32) = 0))"

lemma rem_Add_served:
  assumes "rem_ready Get s" "strategy_Check_order ord = Inr ()" "rem_fits ord"
  shows "\<exists>s' es. published codec (rem_Add Get max_token ord s) = Inr (s', es) \<and>
    rem_answers codec max_token ord s s' es"
proof -
  have "Is_price_valid (get '''' (p_price ord))"
    using assms(2) by (auto simp: strategy_Check_order_OK)
  then obtain px where "atof (get '''' (p_price ord)) = Inr px"
    using valid_price_atof assms(3) unfolding rem_fits_def by blast
  then show ?thesis using assms(1,3)
    by (auto simp: rem_Add_def rem_enter_order_def rem_ready_def rem_fits_def strncpy_field_fits
        rem_answers_def word_le_0_iff)
qed

interpretation rem_port: trader_port codec "rem_exchange codec Get max_token" "rem_ready Get" rem_fits
  "rem_answers codec max_token" for codec Get max_token
  by unfold_locales (simp_all add: rem_exchange_def rem_Add_served rem_Change_def)

end
