(* ===== verification/Ctp_Properties.thy ===== *)
theory Ctp_Properties
  imports Ctp_Trader
begin

text \<open>
  What the order gateway of CTP promises: its \<open>itoa\<close> writes the decimal text of every \<open>int\<close>, so
  that orders come back with their client's id and a cancel finds its order, and its commands
  reach the library once and in order.
\<close>

section \<open>The text of a reference\<close>

lemma itoa_swap_rev:
  "length ys = Suc n \<Longrightarrow>
     itoa_swap (length a) (length a + n) (a @ ys @ b) = a @ rev ys @ b"
proof (induction n arbitrary: a ys b rule: less_induct)
  case (less n)
  obtain x ys' where ys: "ys = x # ys'" "length ys' = n" using less.prems by (cases ys) auto
  show ?case
  proof (cases n)
    case 0
    then show ?thesis using ys
      by (subst itoa_swap.simps) (auto simp: Let_def list_update_append nth_append)
  next
    case (Suc m)
    then obtain mid y where ys': "ys' = mid @ [y]" "length mid = m"
      using ys(2) by (cases ys' rule: rev_cases) auto
    have swapped: "(a @ ys @ b)[length a + n := (a @ ys @ b) ! length a,
        length a := (a @ ys @ b) ! (length a + n)] = (a @ [y]) @ mid @ (x # b)"
      by (simp add: ys(1) ys' Suc list_update_append nth_append)
    show ?thesis
    proof (cases "1 < m")
      case True
      then obtain k where k: "m = Suc k" by (cases m) auto
      have "itoa_swap (length (a @ [y])) (length (a @ [y]) + k) ((a @ [y]) @ mid @ (x # b)) =
          (a @ [y]) @ rev mid @ (x # b)"
        by (rule less.IH) (simp_all add: k Suc ys')
      then show ?thesis using True swapped
        by (subst itoa_swap.simps) (simp add: Let_def Suc k ys(1) ys'(1))
    next
      case False
      then have "rev mid = mid" using ys'(2) by (cases mid; cases "tl mid") auto
      then show ?thesis using False swapped
        by (subst itoa_swap.simps) (simp add: Let_def Suc ys(1) ys'(1))
    qed
  qed
qed

lemma itoa_swap_all: "ds \<noteq> [] \<Longrightarrow> itoa_swap 0 (length ds - 1) ds = rev ds"
  using itoa_swap_rev [of ds "length ds - 1" "[]" "[]"] by (cases ds) auto

lemma itoa_digit_decimal: "itoa_digit (val mod 10) = char_of (48 + uint val mod 10)"
proof -
  have m: "uint (val mod 10) = uint val mod 10" by (simp add: uint_mod)
  then have "\<not> 9 < val mod 10" by (simp add: word_less_alt)
  moreover have "uint (val mod 10 + 48) = 48 + uint val mod 10"
    using m by (simp add: uint_word_ariths)
  ultimately show ?thesis by (simp add: itoa_digit_def)
qed

lemma itoa_digits_10: "itoa_digits 10 val = Some (rev (show_digits (uint val)))"
proof (induction "unat val" arbitrary: val rule: less_induct)
  case less
  have d: "uint (val div 10) = uint val div 10" by (simp add: uint_div)
  have "uint val < 2 ^ 32" using uint_bounded [of val] by simp
  then have "uint val div 10 < 2 ^ 31" "- (2 ^ 31) \<le> uint val div 10"
    using uint_ge_0 [of val] by (simp_all del: uint_ge_0 unsigned_greater_eq)
  then have s: "sint (val div 10) = uint val div 10"
    unfolding sint_uint d by (intro signed_take_bit_int_eq_self) simp_all
  show ?case
  proof (cases "uint val < 10")
    case True
    then have "\<not> 0 < sint (val div 10)" unfolding s by simp
    then show ?thesis using True
      by (subst itoa_digits.simps, subst show_digits.simps) (simp add: itoa_digit_decimal)
  next
    case False
    then have "0 < sint (val div 10)" unfolding s by simp
    moreover have "itoa_digits 10 (val div 10) = Some (rev (show_digits (uint (val div 10))))"
    proof (rule less)
      have "uint val div 10 < uint val" using False by simp
      then show "unat (val div 10) < unat val" by (simp add: d unat_eq_nat_uint [of "val div 10"]
          nat_less_iff)
    qed
    ultimately show ?thesis using False
      by (subst itoa_digits.simps, subst show_digits.simps) (simp add: itoa_digit_decimal d)
  qed
qed

lemma uint_nonneg:
  assumes "0 \<le> sint (w :: i32)"
  shows "uint w = sint w"
proof -
  have "take_bit 32 (sint w) = sint w"
    using assms sint_i32_range(2) [of w] by (intro take_bit_int_eq_self) simp_all
  moreover have "uint (word_of_int (sint w) :: i32) = take_bit 32 (sint w)"
    by (simp only: uint_word_of_int_eq) simp
  moreover have "word_of_int (sint w) = w" by simp
  ultimately show ?thesis by metis
qed

lemma uint_negative:
  assumes "sint (w :: i32) < 0"
  shows "uint (- w) = - sint w"
proof -
  have "take_bit 32 (- sint w) = - sint w"
    using assms sint_i32_range(1) [of w] by (intro take_bit_int_eq_self) simp_all
  moreover have "uint (word_of_int (- sint w) :: i32) = take_bit 32 (- sint w)"
    by (simp only: uint_word_of_int_eq) simp
  moreover have "word_of_int (- sint w) = - w" by simp
  ultimately show ?thesis by metis
qed

lemma itoa_writes_decimal_aux: "itoa val 10 = Some (show_i32 val)"
proof -
  have "Suc 0 \<le> length (show_digits n)" for n by (cases "show_digits n") simp_all
  then have "itoa_swap 0 (length (show_digits n) - 1) (rev (show_digits n)) = show_digits n" for n
    using itoa_swap_all [of "rev (show_digits n)"] by simp
  then show ?thesis
    by (simp add: itoa_def itoa_digits_10 show_i32_def uint_nonneg uint_negative)
qed

text \<open>
  Claim C39: the trader's own \<open>itoa\<close> - the loop that divides out the digits and the loop that
  exchanges them from both ends - ends for radix 10 and writes the decimal text of every \<open>int\<close>,
  the smallest one included.
\<close>

theorem itoa_writes_decimal: "itoa val 10 = Some (show_i32 val)"
  by (rule itoa_writes_decimal_aux)

lemma ref_text_decimal [simp]: "ref_text ref = Inr (show_i32 ref)"
  by (simp add: ref_text_def itoa_writes_decimal_aux)

section \<open>The gateway as a sequence of calls\<close>

text \<open>\<open>Ctp_pass\<close> is a pass of the thread of the queue, with the result of the library.\<close>

datatype ctp_event =
    Ctp_Add ems_order
  | Ctp_Change ems_order
  | Ctp_Delete ems_order
  | Ctp_Query ems_order
  | Ctp_pass i32
  | Ctp_FrontConnected
  | Ctp_RspUserLogin "string option" "i32 option"
  | Ctp_RspSettlementInfoConfirm "unit option" "i32 option"
  | Ctp_RspOrderInsert "vendor_input option" "i32 option"
  | Ctp_RspOrderAction "vendor_action option" "i32 option"
  | Ctp_RtnOrder "vendor_order option"
  | Ctp_RtnTrade "vendor_trade option"
  | Ctp_ErrRtnOrderInsert "vendor_input option" "i32 option"
  | Ctp_RspQryOrder "vendor_order option" "i32 option"
  | Ctp_RspQryTrade "vendor_trade option" "i32 option"
  | Ctp_RspQryInvestorPosition "vendor_position option" "i32 option"
  | Ctp_RspQryInstrument "vendor_instrument option"

fun ctp_handle ::
    "ctp_account \<Rightarrow> (string \<Rightarrow> u32 option) \<Rightarrow> ctp_event \<Rightarrow> ctp_trader \<Rightarrow> ctp_result" where
  "ctp_handle acc cast (Ctp_Add ord) s = ctp_Add acc ord s"
| "ctp_handle acc cast (Ctp_Change ord) s = ctp_Change ord s"
| "ctp_handle acc cast (Ctp_Delete ord) s = ctp_Delete acc ord s"
| "ctp_handle acc cast (Ctp_Query ord) s = ctp_Query acc ord s"
| "ctp_handle acc cast (Ctp_pass result) s = Inr (run_once result s)"
| "ctp_handle acc cast Ctp_FrontConnected s = ctp_OnFrontConnected acc s"
| "ctp_handle acc cast (Ctp_RspUserLogin l e) s = ctp_OnRspUserLogin acc l e s"
| "ctp_handle acc cast (Ctp_RspSettlementInfoConfirm c e) s = ctp_OnRspSettlementInfoConfirm c e s"
| "ctp_handle acc cast (Ctp_RspOrderInsert i e) s = ctp_OnRspOrderInsert i e s"
| "ctp_handle acc cast (Ctp_RspOrderAction a e) s = ctp_OnRspOrderAction a e s"
| "ctp_handle acc cast (Ctp_RtnOrder r) s = ctp_OnRtnOrder cast r s"
| "ctp_handle acc cast (Ctp_RtnTrade t) s = ctp_OnRtnTrade cast t s"
| "ctp_handle acc cast (Ctp_ErrRtnOrderInsert i e) s = ctp_OnErrRtnOrderInsert i e s"
| "ctp_handle acc cast (Ctp_RspQryOrder r e) s = ctp_OnRspQryOrder cast r e s"
| "ctp_handle acc cast (Ctp_RspQryTrade t e) s = ctp_OnRspQryTrade cast t e s"
| "ctp_handle acc cast (Ctp_RspQryInvestorPosition p e) s = ctp_OnRspQryInvestorPosition p e s"
| "ctp_handle acc cast (Ctp_RspQryInstrument i) s = ctp_OnRspQryInstrument i s"

fun ctp_run ::
    "ctp_account \<Rightarrow> (string \<Rightarrow> u32 option) \<Rightarrow> ctp_event list \<Rightarrow> ctp_trader \<Rightarrow> ctp_result" where
  "ctp_run acc cast [] s = Inr (s, [])"
| "ctp_run acc cast (v # vs) s =
     bind_out (ctp_handle acc cast v s) (\<lambda>(s1, es1).
     bind_out (ctp_run acc cast vs s1) (\<lambda>(s2, es2). Inr (s2, es1 @ es2)))"

section \<open>The index of orders\<close>

interpretation ref_order: map_order ref_less "\<lambda>_. True"
  by unfold_locales (auto simp: ref_less_def intro: signed_word_eqI)

text \<open>References only grow, so the index grows at its end.\<close>

definition refs_below :: "ctp_trader \<Rightarrow> bool" where
  "refs_below s \<longleftrightarrow>
     ref_order.keys_ok (c_client_orders_index s) \<and>
     (\<forall>k \<in> fst ` set (c_client_orders_index s). \<forall>ref. c_maxOrderRef s = Some ref \<longrightarrow> ref_less k ref)"

lemma put_at_end:
  "(\<forall>k \<in> fst ` set m. ref_less k ref) \<Longrightarrow> om_put ref_less ref i m = m @ [(ref, i)]"
  by (induction m) auto

lemma find_ref_append:
  "find_ref cl (m @ [(ref, i)]) =
     (case find_ref cl m of None \<Rightarrow> if i = cl then Some ref else None | Some k \<Rightarrow> Some k)"
  by (induction m) (auto simp: find_ref_def)

lemma find_ref_longer: "find_ref cl m = Some k \<Longrightarrow> find_ref cl (m @ later) = Some k"
  by (induction m) (auto simp: find_ref_def split: if_splits)

lemma find_ref_known: "cl \<in> snd ` set m \<Longrightarrow> \<exists>k. find_ref cl m = Some k"
  by (induction m) (auto simp: find_ref_def)

lemma find_ref_unknown: "cl \<notin> snd ` set m \<Longrightarrow> find_ref cl m = None"
  by (induction m) (auto simp: find_ref_def)

text \<open>What one call does: the commands it queues and the orders it notes.\<close>

definition only_queues :: "ctp_trader \<Rightarrow> ctp_trader \<Rightarrow> bool" where
  "only_queues s s' \<longleftrightarrow>
     (\<exists>cs. c_commandQueue s' = c_commandQueue s @ cs) \<and> c_maxOrderRef s' = c_maxOrderRef s \<and>
     c_client_orders_index s' = c_client_orders_index s \<and> c_strategy s' = c_strategy s \<and>
     c_tradable s' = c_tradable s \<and> c_InitQueryNum s' = c_InitQueryNum s"

lemma only_queues_refl [simp]: "only_queues s s"
  by (simp add: only_queues_def)

lemma addCommand_Inr:
  "addCommand c s = Inr s' \<longleftrightarrow>
     (\<exists>n. int_succ (c_requestID s) = Inr n \<and>
        s' = s\<lparr>c_requestID := n, c_commandQueue := c_commandQueue s @ [c]\<rparr>)"
  by (auto simp: addCommand_def bind_out_Inr_iff lift_res_Inr_iff)

lemma quiet_Inr: "quiet r = Inr (s, es) \<longleftrightarrow> r = Inr s \<and> es = []"
  by (auto simp: quiet_def bind_out_Inr_iff)

lemma ctp_Add_Inr:
  assumes "ctp_Add acc ord s = Inr (s', es)"
  obtains ref next_ref i n where "es = []" "c_maxOrderRef s = Some ref" "int_succ ref = Inr next_ref"
    "c_commandQueue s' = c_commandQueue s @ [InsertOrderCommand i]" "c_maxOrderRef s' = Some next_ref"
    "c_client_orders_index s' = om_put ref_less ref (client_id ord) (c_client_orders_index s)"
    "c_strategy s' = c_strategy s" "c_InitQueryNum s' = c_InitQueryNum s"
    "ci_OrderRef i = show_i32 ref" "ci_InstrumentID i = c_string (get '''' (p_contract ord))"
    "ci_OrderPriceType i = (if p_order_type ord = Some OT_Limit then CHR ''2'' else CHR ''1'')"
    "(if p_order_type ord = Some OT_Limit then atof (get '''' (p_price ord)) else Inr 0) =
       Inr (ci_LimitPrice i)"
    "ci_Direction i = ctp_Direction (get BS_None (p_buy_sell ord))"
    "ci_CombOffsetFlag i = ctp_CombOffsetFlag (get OF_None (p_order_flag ord))"
    "ci_VolumeTotalOriginal i = ucast (get 0 (p_quantity ord))" "ci_TimeCondition i = CHR ''3''"
proof -
  have "reqOrderInsert acc ord s = Inr s'" "es = []" using assms by (simp_all add: ctp_Add_def quiet_Inr)
  then show ?thesis
    by (auto simp: reqOrderInsert_def bind_out_Inr_iff lift_res_Inr_iff addCommand_Inr client_id_def
        strcpy_field_def strcpy_def split: option.splits if_splits intro!: that)
qed

lemma ctp_requests_queue:
  "ctp_Delete acc ord s = Inr (s', es) \<Longrightarrow> only_queues s s' \<and> es = []"
  "ctp_Query acc ord s = Inr (s', es) \<Longrightarrow> only_queues s s' \<and> es = []"
  by (auto simp: ctp_Delete_def ctp_Query_def quiet_Inr reqOrderAction_def reqQryOrder_def
      bind_out_Inr_iff addCommand_Inr only_queues_def split: option.splits)

lemmas ctp_report_defs =
  deref_ptr_def ctp_OnRspOrderInsert_def ctp_OnRspOrderAction_def ctp_OnRtnOrder_def ctp_OnRtnTrade_def
  ctp_OnErrRtnOrderInsert_def ctp_OnRspQryTrade_def ctp_OnRspQryInvestorPosition_def
  ctp_OnRspQryInstrument_def ctp_OnInsertOrder_def ctp_OnActionOrder_def ctp_OnOrder_def
  ctp_OnFill_def ctp_OnQryTrade_def ctp_OnQryInvestorPosition_def ctp_OnQryInstrument_def
  ctp_Change_def

lemma ctp_OnQryOrder_state:
  "ctp_OnQryOrder cast r s = Inr (s', es) \<Longrightarrow> s' = s"
  by (auto simp: ctp_OnQryOrder_def bind_out_Inr_iff split: if_splits)

text \<open>The callbacks that only report leave the state as it is.\<close>

fun reports_only :: "ctp_event \<Rightarrow> bool" where
  "reports_only (Ctp_Add ord) = False"
| "reports_only (Ctp_Delete ord) = False"
| "reports_only (Ctp_Query ord) = False"
| "reports_only (Ctp_pass result) = False"
| "reports_only Ctp_FrontConnected = False"
| "reports_only (Ctp_RspUserLogin l e) = False"
| "reports_only (Ctp_RspSettlementInfoConfirm c e) = False"
| "reports_only (Ctp_RspQryOrder r e) = False"
| "reports_only v = True"

lemma reports_only_state:
  assumes "ctp_handle acc cast v s = Inr (s', es)" "reports_only v"
  shows "s' = s"
  using assms
  by (cases v) (auto simp: ctp_report_defs bind_out_Inr_iff split: option.splits if_splits)

lemma ctp_handle_cases:
  assumes "ctp_handle acc cast v s = Inr (s', es)" "\<nexists>l e. v = Ctp_RspUserLogin l e"
    "\<nexists>ord. v = Ctp_Add ord"
  shows "c_client_orders_index s' = c_client_orders_index s" "c_maxOrderRef s' = c_maxOrderRef s"
    "c_strategy s' = c_strategy s"
proof -
  have "c_client_orders_index s' = c_client_orders_index s \<and> c_maxOrderRef s' = c_maxOrderRef s \<and>
    c_strategy s' = c_strategy s"
  proof (cases v)
    case (Ctp_Delete ord)
    then show ?thesis using assms(1) ctp_requests_queue(1) [of acc ord s s' es] by (simp add: only_queues_def)
  next
    case (Ctp_Query ord)
    then show ?thesis using assms(1) ctp_requests_queue(2) [of acc ord s s' es] by (simp add: only_queues_def)
  next
    case (Ctp_pass result)
    then show ?thesis using assms(1) by (auto simp: run_once_def split: list.splits if_splits)
  next
    case Ctp_FrontConnected
    then show ?thesis using assms(1)
      by (auto simp: ctp_OnFrontConnected_def quiet_Inr ctp_login_def bind_out_Inr_iff addCommand_Inr)
  next
    case (Ctp_RspSettlementInfoConfirm c e)
    then show ?thesis using assms(1)
      by (auto simp: ctp_OnRspSettlementInfoConfirm_def deref_ptr_def quiet_Inr reqQueryInstrument_def
          addCommand_Inr split: option.splits if_splits)
  next
    case (Ctp_RspQryOrder r e)
    then show ?thesis using assms(1)
      by (auto simp: ctp_OnRspQryOrder_def dest!: ctp_OnQryOrder_state split: option.splits)
  qed (use assms reports_only_state [OF assms(1)] in auto)
  then show "c_client_orders_index s' = c_client_orders_index s" "c_maxOrderRef s' = c_maxOrderRef s"
    "c_strategy s' = c_strategy s" by blast+
qed

lemma ref_less_succ: "int_succ ref = Inr n \<Longrightarrow> ref_less ref n"
  by (simp add: ref_less_def sint_succ)

lemma ctp_Add_notes:
  assumes "ctp_Add acc ord s = Inr (s', es)" "refs_below s" "c_maxOrderRef s = Some ref"
  shows "c_client_orders_index s' = c_client_orders_index s @ [(ref, client_id ord)] \<and> refs_below s'"
proof -
  obtain n where n: "int_succ ref = Inr n" "c_maxOrderRef s' = Some n"
    "c_client_orders_index s' = om_put ref_less ref (client_id ord) (c_client_orders_index s)"
    using assms(1,3) by (auto elim!: ctp_Add_Inr)
  have below: "\<forall>k \<in> fst ` set (c_client_orders_index s). ref_less k ref"
    using assms(2,3) by (simp add: refs_below_def)
  have app: "c_client_orders_index s' = c_client_orders_index s @ [(ref, client_id ord)]"
    using n put_at_end [OF below] by simp
  have "ref_order.keys_ok (om_put ref_less ref (client_id ord) (c_client_orders_index s))"
    using assms(2) by (intro ref_order.keys_ok_put) (simp_all add: refs_below_def)
  then have ok: "ref_order.keys_ok (c_client_orders_index s')"
    using n(3) by simp
  have "\<forall>k \<in> fst ` set (c_client_orders_index s'). ref_less k n"
    using below ref_less_succ [OF n(1)] unfolding app by (auto simp: ref_less_def)
  then have "refs_below s'" using ok n(2) by (simp add: refs_below_def)
  then show ?thesis using app by simp
qed

lemma ctp_handle_keeps:
  assumes "ctp_handle acc cast v s = Inr (s', es)" "\<nexists>l e. v = Ctp_RspUserLogin l e" "refs_below s"
  shows "refs_below s' \<and> (\<exists>more. c_client_orders_index s' = c_client_orders_index s @ more) \<and>
    c_strategy s' = c_strategy s"
proof (cases "\<exists>ord. v = Ctp_Add ord")
  case True
  then obtain ord where add: "ctp_Add acc ord s = Inr (s', es)" using assms(1) by auto
  then obtain ref where "c_maxOrderRef s = Some ref" "c_strategy s' = c_strategy s"
    by (cases rule: ctp_Add_Inr) blast
  then show ?thesis using ctp_Add_notes [OF add assms(3)] by blast
next
  case False
  then show ?thesis using ctp_handle_cases [OF assms(1,2)] assms(3) by (simp add: refs_below_def)
qed

lemma ctp_run_keeps:
  "ctp_run acc cast vs s = Inr (s', es) \<Longrightarrow> \<nexists>l e. Ctp_RspUserLogin l e \<in> set vs \<Longrightarrow> refs_below s \<Longrightarrow>
     refs_below s' \<and> (\<exists>more. c_client_orders_index s' = c_client_orders_index s @ more) \<and>
     c_strategy s' = c_strategy s"
proof (induction vs arbitrary: s es)
  case (Cons v vs)
  then obtain s1 es1 es2 where run: "ctp_handle acc cast v s = Inr (s1, es1)"
    "ctp_run acc cast vs s1 = Inr (s', es2)" by (auto simp: bind_out_Inr_iff)
  have "\<nexists>l e. v = Ctp_RspUserLogin l e" "\<nexists>l e. Ctp_RspUserLogin l e \<in> set vs" using Cons.prems(2) by auto
  from ctp_handle_keeps [OF run(1) this(1) Cons.prems(3)] Cons.IH [OF run(2) this(2)]
  show ?case by auto
qed simp

section \<open>Orders come back and can be cancelled\<close>

definition ctp_order_echoes :: "ctp_input \<Rightarrow> vendor_order \<Rightarrow> bool" where
  "ctp_order_echoes i r \<longleftrightarrow>
     o_order_ref r = ci_OrderRef i \<and> o_InstrumentID r = ci_InstrumentID i \<and>
     o_Direction r = ci_Direction i \<and> o_OffsetFlag r = ci_CombOffsetFlag i \<and>
     o_OrderPriceType r = ci_OrderPriceType i \<and> o_LimitPrice r = ci_LimitPrice i \<and>
     o_Volume r = ci_VolumeTotalOriginal i \<and> o_TimeCondition r = ci_TimeCondition i"

lemma ctp_flags: "flag_of (ctp_CombOffsetFlag f) = f"
  by (cases f) (simp_all add: flag_of_def ctp_CombOffsetFlag_def)

lemma ctp_sides: "b = BS_Buy \<or> b = BS_Sell \<Longrightarrow> side_of (ctp_Direction b) = b"
  by (auto simp: side_of_def ctp_Direction_def)

lemma ctp_client_id_known:
  assumes "refs_below s" "(ref, i) \<in> set (c_client_orders_index s)"
  shows "ctp_client_id (show_i32 ref) parts s = Inr i"
  using assms ref_order.set_find [of "c_client_orders_index s" ref i]
  by (simp add: ctp_client_id_def refs_below_def)

text \<open>A report on an order, but for the account, which the trader does not send.\<close>

definition ctp_same_order :: "ems_order \<Rightarrow> ems_order \<Rightarrow> bool" where
  "ctp_same_order ord rep \<longleftrightarrow>
     p_client_order_id rep = Some (client_id ord) \<and> p_contract rep = p_contract ord \<and>
     p_buy_sell rep = p_buy_sell ord \<and> p_quantity rep = p_quantity ord \<and>
     p_order_type rep = p_order_type ord \<and> p_tif rep = Some TIF_GFD \<and>
     p_order_flag rep = Some (get OF_None (p_order_flag ord)) \<and>
     (\<exists>px. (if p_order_type ord = Some OT_Limit then atof (get '''' (p_price ord)) else Inr 0) = Inr px \<and>
        p_price rep = Some (to_string_double px))"

lemma ctp_report_same:
  assumes "ctp_Add acc ord s = Inr (s1, es1)" "c_maxOrderRef s = Some ref"
    and "c_commandQueue s1 = c_commandQueue s @ [InsertOrderCommand i]"
    and "strategy_Check_order ord = Inr ()" "plain_order ord" "ctp_order_echoes i r"
    and "refs_below s2" "(ref, client_id ord) \<in> set (c_client_orders_index s2)" "c_strategy s2"
    and "ctp_OnRtnOrder cast (Some r) s2 = Inr (s3, es3)"
  shows "s3 = s2 \<and> ci_OrderRef i = show_i32 ref \<and> (\<exists>rep. es3 = [Order_report rep] \<and> ctp_same_order ord rep)"
proof -
  obtain c q b where known: "p_contract ord = Some c" "p_quantity ord = Some q"
    "p_buy_sell ord = Some b" "b = BS_Buy \<or> b = BS_Sell"
    "p_order_type ord = Some OT_Limit \<or> p_order_type ord = Some OT_Market"
    using assms(4) by (auto simp: strategy_Check_order_OK)
  have i: "ci_OrderRef i = show_i32 ref" "ci_InstrumentID i = c"
    "type_if_known (ci_OrderPriceType i) = p_order_type ord"
    "(if p_order_type ord = Some OT_Limit then atof (get '''' (p_price ord)) else Inr 0) =
       Inr (ci_LimitPrice i)"
    "side_of (ci_Direction i) = b" "flag_of (ci_CombOffsetFlag i) = get OF_None (p_order_flag ord)"
    "scast (ci_VolumeTotalOriginal i) = q" "ci_TimeCondition i = CHR ''3''"
    using assms(1)
    by (cases rule: ctp_Add_Inr; use assms(2,3,5) known in
      \<open>auto simp: plain_order_def ctp_flags ctp_sides type_if_known_def quantity_back\<close>)+
  have tif: "tif_of_code (CHR ''3'') = Inr TIF_GFD" by (simp add: tif_of_code_def)
  show ?thesis
    using assms(6,9,10) i known(1-3) ctp_client_id_known [OF assms(7,8)]
    by (auto simp: ctp_OnRtnOrder_def deref_ptr_def ctp_OnOrder_def bind_out_Inr_iff tif
        ctp_order_echoes_def ctp_same_order_def)
qed

lemma ctp_cancel_finds:
  assumes "find_ref (client_id c) (c_client_orders_index s) = Some ref"
    and "ctp_Delete acc c s = Inr (s', es)"
  shows "\<exists>a. c_commandQueue s' = c_commandQueue s @ [WithdrawOrderCommand a] \<and>
    ca_OrderRef a = show_i32 ref"
  using assms
  by (auto simp: ctp_Delete_def quiet_Inr reqOrderAction_def bind_out_Inr_iff addCommand_Inr
      client_id_def)


section \<open>Commands reach the library in order\<close>

text \<open>The commands that the library accepted in the course of a run.\<close>

fun accepted_calls ::
    "ctp_account \<Rightarrow> (string \<Rightarrow> u32 option) \<Rightarrow> ctp_event list \<Rightarrow> ctp_trader \<Rightarrow> ctp_command list" where
  "accepted_calls acc cast [] s = []"
| "accepted_calls acc cast (v # vs) s =
     (if v = Ctp_pass 0 then take 1 (c_commandQueue s) else []) @
     (case ctp_handle acc cast v s of Inl e \<Rightarrow> [] | Inr (s', es) \<Rightarrow> accepted_calls acc cast vs s')"

lemma run_once_queue:
  "run_once result s = (s', es) \<Longrightarrow>
     c_commandQueue s' = (if result = 0 then drop 1 (c_commandQueue s) else c_commandQueue s)"
  by (auto simp: run_once_def split: list.splits if_splits)

lemma ctp_handle_queue:
  assumes "ctp_handle acc cast v s = Inr (s', es)" "\<nexists>result. v = Ctp_pass result"
  shows "\<exists>cs. c_commandQueue s' = c_commandQueue s @ cs"
proof (cases v)
  case (Ctp_Add ord)
  then have "ctp_Add acc ord s = Inr (s', es)" using assms(1) by simp
  then show ?thesis by (cases rule: ctp_Add_Inr) blast
next
  case (Ctp_Delete ord)
  then show ?thesis using assms(1) ctp_requests_queue(1) [of acc ord s s' es] by (simp add: only_queues_def)
next
  case (Ctp_Query ord)
  then show ?thesis using assms(1) ctp_requests_queue(2) [of acc ord s s' es] by (simp add: only_queues_def)
next
  case Ctp_FrontConnected
  then show ?thesis using assms(1)
    by (auto simp: ctp_OnFrontConnected_def quiet_Inr ctp_login_def bind_out_Inr_iff addCommand_Inr)
next
  case (Ctp_RspUserLogin l e)
  then show ?thesis using assms(1)
    by (auto simp: ctp_OnRspUserLogin_def deref_ptr_def quiet_Inr comfirmSettlement_def bind_out_Inr_iff
        addCommand_Inr split: option.splits if_splits)
next
  case (Ctp_RspSettlementInfoConfirm c e)
  then show ?thesis using assms(1)
    by (auto simp: ctp_OnRspSettlementInfoConfirm_def deref_ptr_def quiet_Inr reqQueryInstrument_def
        addCommand_Inr split: option.splits if_splits)
next
  case (Ctp_RspQryOrder r e)
  then show ?thesis using assms(1)
    by (auto simp: ctp_OnRspQryOrder_def dest!: ctp_OnQryOrder_state split: option.splits)
qed (use assms reports_only_state [OF assms(1)] in auto)

lemma ctp_run_queue:
  "ctp_run acc cast vs s = Inr (s', es) \<Longrightarrow>
     \<exists>added. accepted_calls acc cast vs s @ c_commandQueue s' = c_commandQueue s @ added"
proof (induction vs arbitrary: s es)
  case (Cons v vs)
  then obtain s1 es1 es2 where run: "ctp_handle acc cast v s = Inr (s1, es1)"
    "ctp_run acc cast vs s1 = Inr (s', es2)" by (auto simp: bind_out_Inr_iff)
  obtain added where added:
    "accepted_calls acc cast vs s1 @ c_commandQueue s' = c_commandQueue s1 @ added"
    using Cons.IH [OF run(2)] by blast
  obtain cs where cs: "(if v = Ctp_pass 0 then take 1 (c_commandQueue s) else []) @ c_commandQueue s1 =
      c_commandQueue s @ cs"
  proof (cases "\<exists>result. v = Ctp_pass result")
    case True
    then show ?thesis using run(1) run_once_queue that [of "[]"] by auto
  next
    case False
    then show ?thesis using ctp_handle_queue [OF run(1) False] that by auto
  qed
  have "accepted_calls acc cast (v # vs) s @ c_commandQueue s' = c_commandQueue s @ (cs @ added)"
    using added arg_cong [OF cs, of "\<lambda>q. q @ added"] run(1) by simp
  then show ?case by blast
qed simp

lemma passes_empty_queue:
  "\<exists>s'. ctp_run acc cast (replicate (length (c_commandQueue s)) (Ctp_pass 0)) s =
     Inr (s', map (\<lambda>c. Request (Ctp_call c (c_requestID s))) (c_commandQueue s)) \<and>
   c_commandQueue s' = []"
proof (induction "c_commandQueue s" arbitrary: s)
  case (Cons c cs)
  let ?s = "s\<lparr>c_commandQueue := cs\<rparr>"
  obtain s' where "ctp_run acc cast (replicate (length cs) (Ctp_pass 0)) ?s =
      Inr (s', map (\<lambda>c. Request (Ctp_call c (c_requestID s))) cs)" "c_commandQueue s' = []"
    using Cons.hyps(1) [of ?s] by auto
  then show ?case using Cons.hyps(2) [symmetric] by (simp add: run_once_def)
qed simp



section \<open>The properties on a concrete gateway\<close>

definition ctp_sample_account :: ctp_account where
  "ctp_sample_account = \<lparr>acc_BrokerID = ''1'', acc_InvestorID = ''2'', acc_ExchangeID = ''3'',
     acc_UserID = ''4'', acc_Password = ''5''\<rparr>"

definition ctp_sample_order :: ems_order where
  "ctp_sample_order = ems_order_default\<lparr>p_client_order_id := Some ''a'',
     p_account := Some ''acc'', p_contract := Some ''IF1709'', p_buy_sell := Some BS_Buy,
     p_price := Some ''5'', p_quantity := Some 2, p_order_type := Some OT_Limit,
     p_order_flag := Some OF_TClose\<rparr>"

definition ctp_sample_state :: ctp_trader where
  "ctp_sample_state = (ctp_trader_new True)\<lparr>c_maxOrderRef := Some 8\<rparr>"

definition ctp_sample_input :: ctp_input where
  "ctp_sample_input =
     \<lparr>ci_BrokerID = ''1'', ci_InvestorID = ''2'', ci_InstrumentID = ''IF1709'', ci_OrderRef = ''8'',
      ci_OrderPriceType = CHR ''2'', ci_LimitPrice = 5, ci_Direction = CHR ''0'',
      ci_CombOffsetFlag = CHR ''3'', ci_VolumeTotalOriginal = 2, ci_CombHedgeFlag = CHR ''1'',
      ci_TimeCondition = CHR ''3'', ci_VolumeCondition = CHR ''1'', ci_MinVolume = 1,
      ci_ContingentCondition = CHR ''1'', ci_ForceCloseReason = CHR ''0''\<rparr>"

definition ctp_sample_action :: ctp_action where
  "ctp_sample_action = \<lparr>ca_BrokerID = ''1'', ca_InvestorID = ''2'', ca_ExchangeID = ''3'',
     ca_OrderRef = ''8'', ca_ActionFlag = CHR ''0''\<rparr>"

definition ctp_sample_added :: ctp_trader where
  "ctp_sample_added = ctp_sample_state\<lparr>c_client_orders_index := [(8, ''a'')],
     c_maxOrderRef := Some 9, c_requestID := 1,
     c_commandQueue := [InsertOrderCommand ctp_sample_input]\<rparr>"

definition ctp_sample_report :: vendor_order where
  "ctp_sample_report = \<lparr>o_order_ref = ''8'', o_OrderSysID = ''77'', o_OrderUserID = '''',
     o_OrderLocalID = '''', o_UserID = ''u'', o_InstrumentID = ''IF1709'',
     o_OrderPriceType = CHR ''2'', o_Direction = CHR ''0'', o_OffsetFlag = CHR ''3'',
     o_TimeCondition = CHR ''3'', o_OrderStatus = CHR ''3'', o_LimitPrice = 5, o_Volume = 2,
     o_VolumeRemain = 2, o_VolumeTraded = 0, o_ActionDay = '''', o_InsertTime = ''''\<rparr>"

lemma ctp_sample_numbers: "show_i32 8 = ''8''" "atof ''5'' = Inr 5" "atoi32 ''8'' = Inr 8"
  by code_simp+

lemmas ctp_sample_defs =
  ctp_sample_account_def ctp_sample_order_def ctp_sample_state_def ctp_sample_input_def
  ctp_sample_added_def ctp_sample_action_def ctp_trader_new_def quiet_def strcpy_field_def strcpy_def
  c_string_def ctp_Direction_def ctp_CombOffsetFlag_def ems_order_default_def addCommand_def
  int_succ_def ctp_sample_numbers

lemma ctp_sample_Add:
  "ctp_Add ctp_sample_account ctp_sample_order ctp_sample_state = Inr (ctp_sample_added, [])"
  by (simp add: ctp_Add_def reqOrderInsert_def ctp_sample_defs)

lemma ctp_sample_Delete:
  "ctp_Delete ctp_sample_account ctp_sample_order ctp_sample_added =
     Inr (ctp_sample_added\<lparr>c_requestID := 2,
            c_commandQueue := [InsertOrderCommand ctp_sample_input,
              WithdrawOrderCommand ctp_sample_action]\<rparr>, [])"
  by (simp add: ctp_Delete_def reqOrderAction_def find_ref_def ctp_sample_defs)

lemma ctp_sample_OnRtnOrder:
  "\<exists>e. ctp_OnRtnOrder (\<lambda>_. None) (Some ctp_sample_report) ctp_sample_added =
     Inr (ctp_sample_added, [e])"
  by (simp add: ctp_OnRtnOrder_def deref_ptr_def ctp_OnOrder_def ctp_client_id_def tif_of_code_def
      report_time_def To_pb_time_def ctp_sample_report_def ctp_sample_defs)




section \<open>The states a start waits for\<close>

lemma run_once_only:
  "run_once result s = (s', es) \<Longrightarrow> \<exists>cs. s' = s\<lparr>c_commandQueue := cs\<rparr>"
  by (auto simp: run_once_def split: list.splits if_splits)
    (metis (mono_tags) ctp_trader.surjective ctp_trader.update_convs(6))+

lemma ctp_handle_waits:
  assumes "ctp_handle acc cast v s = Inr (s', es)" "\<nexists>r e. v = Ctp_RspQryOrder r e"
  shows "c_InitQueryNum s' = c_InitQueryNum s"
proof (cases v)
  case (Ctp_Add ord)
  then have "ctp_Add acc ord s = Inr (s', es)" using assms(1) by simp
  then show ?thesis by (cases rule: ctp_Add_Inr) blast
next
  case (Ctp_Delete ord)
  then show ?thesis using assms(1) ctp_requests_queue(1) [of acc ord s s' es] by (simp add: only_queues_def)
next
  case (Ctp_Query ord)
  then show ?thesis using assms(1) ctp_requests_queue(2) [of acc ord s s' es] by (simp add: only_queues_def)
next
  case (Ctp_pass result)
  then show ?thesis using assms(1) run_once_only [of result s s' es] by auto
next
  case Ctp_FrontConnected
  then show ?thesis using assms(1)
    by (auto simp: ctp_OnFrontConnected_def quiet_Inr ctp_login_def bind_out_Inr_iff addCommand_Inr)
next
  case (Ctp_RspUserLogin l e)
  then show ?thesis using assms(1)
    by (auto simp: ctp_OnRspUserLogin_def deref_ptr_def quiet_Inr comfirmSettlement_def bind_out_Inr_iff
        addCommand_Inr split: option.splits if_splits)
next
  case (Ctp_RspSettlementInfoConfirm c e)
  then show ?thesis using assms(1)
    by (auto simp: ctp_OnRspSettlementInfoConfirm_def deref_ptr_def quiet_Inr reqQueryInstrument_def
        addCommand_Inr split: option.splits if_splits)
qed (use assms reports_only_state [OF assms(1)] in auto)

section \<open>The gateway as an exchange\<close>

definition ctp_exchange :: "ems_codec \<Rightarrow> ctp_account \<Rightarrow> (ctp_trader, ctp_request) exchangeI" where
  "ctp_exchange codec acc =
     \<lparr>ex_Add = (\<lambda>ord s. published codec (ctp_Add acc ord s)),
      ex_Change = (\<lambda>ord s. published codec (ctp_Change ord s)),
      ex_Delete = (\<lambda>ord s. published codec (ctp_Delete acc ord s)),
      ex_Query = (\<lambda>ord s. published codec (ctp_Query acc ord s)),
      ex_Query_mass = (\<lambda>data s. published codec (ctp_Query_mass data s)),
      ex_Delete_mass = (\<lambda>data s. published codec (ctp_Delete_mass data s))\<rparr>"

text \<open>The login is over, the settings fit the arrays they are copied to, and neither the references nor
  the request ids have run out.\<close>

definition ctp_ready :: "ctp_account \<Rightarrow> ctp_trader \<Rightarrow> bool" where
  "ctp_ready acc s \<longleftrightarrow>
     (\<exists>ref. c_maxOrderRef s = Some ref \<and> sint ref < 2 ^ 31 - 1) \<and> sint (c_requestID s) < 2 ^ 31 - 1 \<and>
     length (acc_BrokerID acc) < 11 \<and> length (acc_InvestorID acc) < 13"

definition ctp_fits :: "ems_order \<Rightarrow> bool" where
  "ctp_fits ord \<longleftrightarrow>
     length (get '''' (p_contract ord)) < 31 \<and> length (get '''' (p_price ord)) \<le> 300"

text \<open>The answer to a new order: nothing is published, and its insert is the last of the queue.\<close>

definition ctp_answers ::
    "ems_order \<Rightarrow> ctp_trader \<Rightarrow> ctp_trader \<Rightarrow> ctp_request gateway_event list \<Rightarrow> bool" where
  "ctp_answers ord s s' es \<longleftrightarrow>
     es = [] \<and>
     (\<exists>ref i. c_maxOrderRef s = Some ref \<and> c_maxOrderRef s' = Some (ref + 1) \<and>
        c_commandQueue s' = c_commandQueue s @ [InsertOrderCommand i] \<and> ci_OrderRef i = show_i32 ref \<and>
        ci_InstrumentID i = c_string (get '''' (p_contract ord)) \<and>
        ci_VolumeTotalOriginal i = ucast (get 0 (p_quantity ord)))"

lemma ctp_Add_served:
  assumes "ctp_ready acc s" "strategy_Check_order ord = Inr ()" "ctp_fits ord"
  shows "\<exists>s' es. published codec (ctp_Add acc ord s) = Inr (s', es) \<and> ctp_answers ord s s' es"
proof -
  have "Is_price_valid (get '''' (p_price ord))" if "p_order_type ord = Some OT_Limit"
    using assms(2) that by (auto simp: strategy_Check_order_OK)
  then have px: "\<exists>px. (if p_order_type ord = Some OT_Limit then lift_res (atof (get '''' (p_price ord)))
      else Inr 0) = Inr px"
    using valid_price_atof assms(3) unfolding ctp_fits_def by (auto simp: lift_res_Inr_iff)
  obtain ref where ref: "c_maxOrderRef s = Some ref" "int_succ ref = Inr (ref + 1)"
    "int_succ (c_requestID s) = Inr (c_requestID s + 1)"
    using assms(1) by (auto simp: ctp_ready_def int_succ_def)
  obtain s' where add: "ctp_Add acc ord s = Inr (s', [])"
    using px ref assms(1,3)
    by (auto simp: ctp_Add_def reqOrderInsert_def quiet_def addCommand_def ctp_ready_def ctp_fits_def
        strcpy_field_fits)
  then show ?thesis
    by (cases rule: ctp_Add_Inr) (use ref in \<open>auto simp: ctp_answers_def add\<close>)
qed

interpretation ctp_port: trader_port codec "ctp_exchange codec acc" "ctp_ready acc" ctp_fits ctp_answers
  for codec acc
  by unfold_locales (simp_all add: ctp_exchange_def ctp_Add_served ctp_Change_def)

end
