(* ===== verification/Trader_Gateways.thy ===== *)
theory Trader_Gateways
  imports Femas_Properties Rem_Properties Ctp_Properties
begin

text \<open>
  The three order gateways behind the strategy's socket: what a request of a strategy, a letter and
  the bytes of an order, becomes at each of them.
\<close>

text \<open>
  Claim C19: at each of the three gateways a request for a new order that is readable and passes
  the check, with settings and texts that fit their arrays, is answered: by the insert under the
  next number of the gateway, or, at Femas and REM, by the rejected order if its price is 0 or its
  quantity does not fit.  A request to change an order is not served by any of them: nothing is
  sent and nothing is reported, so the strategy waits for an answer that does not come.
\<close>

theorem trader_requests_are_answered:
  assumes "ParseFromArray codec data = Some ord" "strategy_Check_order ord = Inr ()"
  shows "(femas_ready Get fs \<longrightarrow> femas_fits ord \<longrightarrow>
      (\<exists>s' es. Order_request codec (femas_exchange codec Get) (CHR ''1'' # data) fs = Inr (s', es) \<and>
         femas_answers codec ord fs s' es)) \<and>
    (rem_ready Get rs \<longrightarrow> rem_fits ord \<longrightarrow>
      (\<exists>s' es. Order_request codec (rem_exchange codec Get max_token) (CHR ''1'' # data) rs = Inr (s', es) \<and>
         rem_answers codec max_token ord rs s' es)) \<and>
    (ctp_ready acc cs \<longrightarrow> ctp_fits ord \<longrightarrow>
      (\<exists>s' es. Order_request codec (ctp_exchange codec acc) (CHR ''1'' # data) cs = Inr (s', es) \<and>
         ctp_answers ord cs s' es)) \<and>
    Order_request codec (femas_exchange codec Get) (CHR ''3'' # data) fs = Inr (fs, []) \<and>
    Order_request codec (rem_exchange codec Get max_token) (CHR ''3'' # data) rs = Inr (rs, []) \<and>
    Order_request codec (ctp_exchange codec acc) (CHR ''3'' # data) cs = Inr (cs, [])"
  using femas_port.new_order_answered [OF _ assms(1) _ assms(2)]
    rem_port.new_order_answered [OF _ assms(1) _ assms(2)]
    ctp_port.new_order_answered [OF _ assms(1) _ assms(2)]
    femas_port.change_unanswered [OF assms] rem_port.change_unanswered [OF assms]
    ctp_port.change_unanswered [OF assms]
  by simp

definition trader_sample_codec :: ems_codec where
  "trader_sample_codec = \<lparr>ParseFromArray = (\<lambda>_. Some ctp_sample_order),
     order_SerializeAsString = (\<lambda>_. ''''), fill_SerializeAsString = (\<lambda>_. '''')\<rparr>"

theorem trader_requests_are_answered_witness:
  "\<exists>s' es s'' es'' t es3.
     Order_request trader_sample_codec (ctp_exchange trader_sample_codec ctp_sample_account)
       ''1abc'' ctp_sample_state = Inr (s', es) \<and>
     ctp_answers ctp_sample_order ctp_sample_state s' es \<and>
     Order_request trader_sample_codec (femas_exchange trader_sample_codec (\<lambda>_. ''1''))
       ''1abc'' femas_sample_state = Inr (s'', es'') \<and>
     femas_answers trader_sample_codec ctp_sample_order femas_sample_state s'' es'' \<and>
     Order_request trader_sample_codec (rem_exchange trader_sample_codec (\<lambda>_. ''1'') 5)
       ''1abc'' rem_sample_state = Inr (t, es3) \<and>
     rem_answers trader_sample_codec 5 ctp_sample_order rem_sample_state t es3"
proof -
  have parsed: "ParseFromArray trader_sample_codec ''abc'' = Some ctp_sample_order"
    by (simp add: trader_sample_codec_def)
  have checked: "strategy_Check_order ctp_sample_order = Inr ()"
    by (simp add: strategy_Check_order_OK ctp_sample_order_def ems_order_default_def
        Is_price_valid_def is_digit_def digit_value_def)
  have ready: "femas_ready (\<lambda>_. ''1'') femas_sample_state" "rem_ready (\<lambda>_. ''1'') rem_sample_state"
    "ctp_ready ctp_sample_account ctp_sample_state"
    by (simp_all add: femas_ready_def rem_ready_def ctp_ready_def femas_sample_state_def
        femas_trader_new_def rem_sample_state_def rem_trader_new_def ctp_sample_defs
        femas_sample_prices(3))
  have fits: "femas_fits ctp_sample_order" "rem_fits ctp_sample_order" "ctp_fits ctp_sample_order"
    by (simp_all add: femas_fits_def rem_fits_def ctp_fits_def ctp_sample_order_def)
  show ?thesis
    using trader_requests_are_answered [OF parsed checked, of "\<lambda>_. ''1''" femas_sample_state
        rem_sample_state 5 ctp_sample_account ctp_sample_state] ready fits
    by blast
qed

end
