(* ===== verification/Start_Properties.thy ===== *)
theory Start_Properties
  imports Trader_Start Trader_Gateways
begin

text \<open>
  What the starts of the three order gateways promise, under every interleaving of the starting
  thread and the callbacks: the exchange is announced to be ready at most once, when the start
  succeeds and every initial order had its state reported; an answer that arrives before its
  flag is reset is lost, and the start does not succeed without another one.
\<close>

section \<open>What the starts have in common\<close>

fun callbacks :: "'e start_event list \<Rightarrow> 'e list" where
  "callbacks [] = []"
| "callbacks (Thread timeout # vs) = callbacks vs"
| "callbacks (Callback v # vs) = v # callbacks vs"

text \<open>Of \<open>need\<close> states, \<open>got\<close> were reported: until the wait for them is over, the others are missing.\<close>

fun awaited :: "('s \<Rightarrow> nat) \<Rightarrow> nat \<Rightarrow> nat \<Rightarrow> 'q start_phase \<Rightarrow> 's \<Rightarrow> bool" where
  "awaited missing need got Connecting s = True"
| "awaited missing need got Connect_timeout s = True"
| "awaited missing need got (Querying ords) s = (need \<le> missing s + got)"
| "awaited missing need got Awaiting_states s = (need \<le> missing s + got)"
| "awaited missing need got (Started False) s = True"
| "awaited missing need got (Started True) s = (need \<le> got)"
| "awaited missing need got (Asking q) s = (need \<le> got)"
| "awaited missing need got (Asked q) s = (need \<le> got)"
| "awaited missing need got (Awaiting q) s = (need \<le> got)"

text \<open>A start that announces the exchange when it is over.\<close>

locale announcing_start =
  fixes step :: "bool \<Rightarrow> 'q start_phase \<Rightarrow> 's \<Rightarrow> ('q, 's, 'r) start_result"
    and handle :: "'e \<Rightarrow> 's \<Rightarrow> ('s, 'r) trader_result"
    and missing :: "'s \<Rightarrow> nat"
    and reports :: "'e \<Rightarrow> bool"
    and need :: nat
  assumes handled: "handle v s = Inr (s', es) \<Longrightarrow>
      Exchange_ready \<notin> set es \<and> missing s \<le> missing s' + (if reports v then 1 else 0)"
    and stepped: "step t p s = Inr (p', s', es) \<Longrightarrow> \<forall>r. p \<noteq> Started r \<Longrightarrow>
      count_list es Exchange_ready = (if p' = Started True then 1 else 0) \<and>
      (awaited missing need got p s \<longrightarrow> awaited missing need got p' s')"
    and over: "step t (Started r) s = Inr (Started r, s, [])"
begin

lemma announced:
  "start_run step handle vs p s = Inr (p', s', es) \<Longrightarrow>
     count_list es Exchange_ready = (if p' = Started True \<and> p \<noteq> Started True then 1 else 0) \<and>
     (p = Started True \<longrightarrow> p' = Started True)"
proof (induction vs arbitrary: p s es)
  case Nil
  then show ?case by simp
next
  case (Cons v vs)
  show ?case
  proof (cases v)
    case (Callback c)
    then obtain s1 es1 es2 where run: "handle c s = Inr (s1, es1)"
      "start_run step handle vs p s1 = Inr (p', s', es2)" "es = es1 @ es2"
      using Cons.prems by (auto simp: bind_out_Inr_iff)
    have "count_list es1 Exchange_ready = 0" using handled [OF run(1)] by simp
    then show ?thesis using Cons.IH [OF run(2)] run(3) by simp
  next
    case (Thread t)
    then obtain p1 s1 es1 es2 where run: "step t p s = Inr (p1, s1, es1)"
      "start_run step handle vs p1 s1 = Inr (p', s', es2)" "es = es1 @ es2"
      using Cons.prems by (auto simp: bind_out_Inr_iff)
    show ?thesis
    proof (cases "\<exists>r. p = Started r")
      case True
      then show ?thesis using run(1,3) Cons.IH [OF run(2)] over by auto
    next
      case False
      then show ?thesis
        using stepped [OF run(1), of need] Cons.IH [OF run(2)] run(3) by (auto split: if_splits)
    qed
  qed
qed

lemma awaited_more: "awaited missing need got p s \<Longrightarrow> missing s \<le> missing s' + k \<Longrightarrow>
    awaited missing need (got + k) p s'"
  by (cases "(missing, need, got, p, s)" rule: awaited.cases) auto

lemma states_reported:
  "start_run step handle vs p s = Inr (p', s', es) \<Longrightarrow> awaited missing need got p s \<Longrightarrow>
     awaited missing need (got + length (filter reports (callbacks vs))) p' s'"
proof (induction vs arbitrary: p s es got)
  case Nil
  then show ?case by simp
next
  case (Cons v vs)
  show ?case
  proof (cases v)
    case (Callback c)
    then obtain s1 es1 es2 where run: "handle c s = Inr (s1, es1)"
      "start_run step handle vs p s1 = Inr (p', s', es2)"
      using Cons.prems(1) by (auto simp: bind_out_Inr_iff)
    have "awaited missing need (got + (if reports c then 1 else 0)) p s1"
      using handled [OF run(1)] awaited_more [OF Cons.prems(2)] by blast
    from Cons.IH [OF run(2) this] show ?thesis by (simp add: Callback split: if_splits)
  next
    case (Thread t)
    then obtain p1 s1 es1 es2 where run: "step t p s = Inr (p1, s1, es1)"
      "start_run step handle vs p1 s1 = Inr (p', s', es2)"
      using Cons.prems(1) by (auto simp: bind_out_Inr_iff)
    have "awaited missing need got p1 s1"
      using Cons.prems(2) run(1) stepped [OF run(1), of got] over by (cases "\<exists>r. p = Started r") auto
    from Cons.IH [OF run(2) this] show ?thesis by (simp add: Thread)
  qed
qed

lemma ready_once:
  assumes "start_run step handle vs Connecting s = Inr (p', s', es)"
  shows "count_list es Exchange_ready = (if p' = Started True then 1 else 0)"
    and "p' = Started True \<Longrightarrow> need \<le> length (filter reports (callbacks vs))"
  using announced [OF assms] states_reported [OF assms, of 0] by auto

end

text \<open>A start that polls a flag for the answers to its questions.\<close>

locale polling_start = announcing_start +
  fixes finished :: "'b \<Rightarrow> bool"
    and finishes :: "'d \<Rightarrow> bool"
  assumes resets: "step t (Asked q) s = Inr (p', s', es) \<Longrightarrow> p' = Awaiting q \<and> \<not> finished s'"
    and waits: "step t (Awaiting q) s = Inr (p', s', es) \<Longrightarrow> \<not> finished s \<Longrightarrow>
      (p' = Awaiting q \<or> p' = Started False) \<and> s' = s"
    and unanswered: "handle v s = Inr (s', es) \<Longrightarrow> \<not> finishes v \<Longrightarrow> finished s' = finished s"
begin

lemma polls_on:
  "start_run step handle vs p s = Inr (p', s', es) \<Longrightarrow> \<not> finished s \<Longrightarrow>
     p = Awaiting q \<or> p = Started False \<Longrightarrow> \<forall>v \<in> set (callbacks vs). \<not> finishes v \<Longrightarrow>
     p' = Awaiting q \<or> p' = Started False"
proof (induction vs arbitrary: p s es)
  case Nil
  then show ?case by simp
next
  case (Cons v vs)
  show ?case
  proof (cases v)
    case (Callback c)
    then obtain s1 es1 es2 where run: "handle c s = Inr (s1, es1)"
      "start_run step handle vs p s1 = Inr (p', s', es2)"
      using Cons.prems(1) by (auto simp: bind_out_Inr_iff)
    have c: "\<not> finishes c" "\<forall>v \<in> set (callbacks vs). \<not> finishes v" using Cons.prems(4) Callback by auto
    show ?thesis using Cons.IH [OF run(2) _ Cons.prems(3) c(2)] unanswered [OF run(1) c(1)] Cons.prems(2) by blast
  next
    case (Thread t)
    then obtain p1 s1 es1 es2 where run: "step t p s = Inr (p1, s1, es1)"
      "start_run step handle vs p1 s1 = Inr (p', s', es2)"
      using Cons.prems(1) by (auto simp: bind_out_Inr_iff)
    have c: "\<forall>v \<in> set (callbacks vs). \<not> finishes v" using Cons.prems(4) Thread by auto
    have "(p1 = Awaiting q \<or> p1 = Started False) \<and> s1 = s"
      using Cons.prems(2,3) run(1) waits [of t q s p1 s1 es1] over [of t False s] by auto
    then show ?thesis using Cons.IH [OF run(2) _ _ c] Cons.prems(2) by blast
  qed
qed

lemma answer_lost:
  assumes "start_run step handle (Thread t # vs) (Asked q) s = Inr (p', s', es)"
    and "\<forall>v \<in> set (callbacks vs). \<not> finishes v"
  shows "(p' = Awaiting q \<or> p' = Started False) \<and> Exchange_ready \<notin> set es"
proof -
  obtain p1 s1 es1 es2 where run: "step t (Asked q) s = Inr (p1, s1, es1)"
    "start_run step handle vs p1 s1 = Inr (p', s', es2)"
    using assms(1) by (auto simp: bind_out_Inr_iff)
  have "p' = Awaiting q \<or> p' = Started False"
    using polls_on [OF run(2) _ _ assms(2)] resets [OF run(1)] by blast
  moreover then have "Exchange_ready \<notin> set es"
    using announced [OF assms(1)] by (auto simp: count_list_0_iff split: if_splits)
  ultimately show ?thesis by blast
qed

end


section \<open>Femas\<close>

fun femas_reports_state :: "femas_event \<Rightarrow> bool" where
  "femas_reports_state (Femas_RspQryOrder r e) = (r \<noteq> None \<and> e \<noteq> None)"
| "femas_reports_state v = False"

fun femas_finishes :: "femas_event \<Rightarrow> bool" where
  "femas_finishes (Femas_RspQryTrade t e l) = (t \<noteq> None \<and> e \<noteq> None \<and> l)"
| "femas_finishes (Femas_RspQryInvestorPosition p e l) = (p \<noteq> None \<and> e \<noteq> None \<and> l)"
| "femas_finishes (Femas_RspQryInstrument i e l) = l"
| "femas_finishes v = False"

lemma femas_requests_quiet:
  "femas_Add Get ord s = Inr (s', es) \<Longrightarrow>
     Exchange_ready \<notin> set es \<and> f_InitQueryNum s' = f_InitQueryNum s \<and> f_startfinish s' = f_startfinish s"
  "femas_Delete Get ord s = Inr (s', es) \<Longrightarrow>
     Exchange_ready \<notin> set es \<and> f_InitQueryNum s' = f_InitQueryNum s \<and> f_startfinish s' = f_startfinish s"
  "femas_Query Get ord s = Inr (s', es) \<Longrightarrow>
     Exchange_ready \<notin> set es \<and> f_InitQueryNum s' = f_InitQueryNum s \<and> f_startfinish s' = f_startfinish s"
  by (cases rule: femas_Add_Inr, assumption) (auto simp: femas_AddOrderId_eq femas_Delete_def
      femas_Query_def Let_def bind_out_Inr_iff femas_send_Inr)

lemma femas_handled:
  assumes "femas_handle Get cast v s = Inr (s', es)"
  shows "Exchange_ready \<notin> set es" "\<not> femas_finishes v \<Longrightarrow> f_startfinish s' = f_startfinish s"
    "f_InitQueryNum s \<le> f_InitQueryNum s' + (if femas_reports_state v then 1 else 0)"
proof -
  have "Exchange_ready \<notin> set es \<and> (\<not> femas_finishes v \<longrightarrow> f_startfinish s' = f_startfinish s) \<and>
    f_InitQueryNum s \<le> f_InitQueryNum s' + (if femas_reports_state v then 1 else 0)"
  proof (cases v)
    case (Femas_Add ord)
    then show ?thesis using assms femas_requests_quiet(1) [of Get ord s s' es] by simp
  next
    case (Femas_Delete ord)
    then show ?thesis using assms femas_requests_quiet(2) [of Get ord s s' es] by simp
  next
    case (Femas_Query ord)
    then show ?thesis using assms femas_requests_quiet(3) [of Get ord s s' es] by simp
  qed (use assms in \<open>auto simp: femas_report_defs femas_Change_def Let_def bind_out_Inr_iff
         split: option.splits if_splits\<close>)
  then show "Exchange_ready \<notin> set es" "\<not> femas_finishes v \<Longrightarrow> f_startfinish s' = f_startfinish s"
    "f_InitQueryNum s \<le> f_InitQueryNum s' + (if femas_reports_state v then 1 else 0)" by blast+
qed

lemma send_then_Inr:
  "send_then p r = Inr (p', s', es) \<longleftrightarrow> p' = p \<and> r = Inr (s', es)"
  by (auto simp: send_then_def bind_out_Inr_iff)

lemma femas_asked:
  "femas_ask Get init_orders q s = Inr (p', s', es) \<Longrightarrow>
     ((\<exists>q'. p' = Asking q' \<or> p' = Asked q')) \<and> Exchange_ready \<notin> set es"
  by (cases "(Get, init_orders, q, s)" rule: femas_ask.cases)
    (auto simp: send_then_Inr femas_ReqQryTrade_of_def femas_ReqQryInvestorPosition_of_def
      femas_ReqQryInstrument_all_def bind_out_Inr_iff femas_send_Inr)

lemma femas_stepped:
  assumes "femas_start_step Get init_orders t p s = Inr (p', s', es)" "\<forall>r. p \<noteq> Started r"
  shows "count_list es Exchange_ready = (if p' = Started True then 1 else 0) \<and>
    (awaited f_InitQueryNum (length init_orders) got p s \<longrightarrow>
     awaited f_InitQueryNum (length init_orders) got p' s')"
proof (cases p)
  case (Querying ords)
  then show ?thesis using assms(1) femas_requests_quiet(3) [of Get _ s s' es]
    by (cases ords) (auto simp: send_then_Inr)
next
  case (Asking q)
  then show ?thesis using assms(1) femas_asked [of Get init_orders q s p' s' es] by auto
qed (use assms in \<open>auto split: if_splits\<close>)

interpretation femas_start: polling_start "femas_start_step Get init_orders" "femas_handle Get cast"
  f_InitQueryNum femas_reports_state "length init_orders" f_startfinish femas_finishes
  for Get init_orders cast
proof unfold_locales
  fix t p s p' s' es got
  show "femas_start_step Get init_orders t p s = Inr (p', s', es) \<Longrightarrow> \<forall>r. p \<noteq> Started r \<Longrightarrow>
      count_list es Exchange_ready = (if p' = Started True then 1 else 0) \<and>
      (awaited f_InitQueryNum (length init_orders) got p s \<longrightarrow>
       awaited f_InitQueryNum (length init_orders) got p' s')"
    by (rule femas_stepped)
qed (auto simp: femas_handled split: if_splits dest: femas_handled)

section \<open>REM\<close>

fun rem_reports_state :: "rem_event \<Rightarrow> bool" where
  "rem_reports_state (Rem_QueryTradeOrder r) = (r \<noteq> None)"
| "rem_reports_state v = False"

fun rem_finishes :: "rem_event \<Rightarrow> bool" where
  "rem_finishes (Rem_QueryTradeOrderExec x l) = (x \<noteq> None \<and> l)"
| "rem_finishes (Rem_QuerySymbol y l) = (y \<noteq> None \<and> l)"
| "rem_finishes v = False"

lemma rem_index_fields [simp]:
  "r_InitQueryNum (rem_AddOrderId i k s) = r_InitQueryNum s"
  "r_startfinish (rem_AddOrderId i k s) = r_startfinish s"
  "r_InitQueryNum (rem_note_token token market s) = r_InitQueryNum s"
  "r_startfinish (rem_note_token token market s) = r_startfinish s"
  by (simp_all add: rem_AddOrderId_def rem_AddOrderToken_def rem_note_token_def)

lemma rem_handled:
  assumes "rem_handle Get cast tt v s = Inr (s', es)"
  shows "Exchange_ready \<notin> set es" "\<not> rem_finishes v \<Longrightarrow> r_startfinish s' = r_startfinish s"
    "r_InitQueryNum s \<le> r_InitQueryNum s' + (if rem_reports_state v then 1 else 0)"
proof -
  have "Exchange_ready \<notin> set es \<and> (\<not> rem_finishes v \<longrightarrow> r_startfinish s' = r_startfinish s) \<and>
    r_InitQueryNum s \<le> r_InitQueryNum s' + (if rem_reports_state v then 1 else 0)"
  proof (cases "\<exists>m ord. v = Rem_Add m ord")
    case True
    then show ?thesis using assms by (auto simp: rem_Add_def bind_out_Inr_iff split: if_splits)
  next
    case False
    then show ?thesis using assms
      by (cases v) (auto simp: rem_report_defs bind_out_Inr_iff Let_def
          split: option.splits if_splits prod.splits)
  qed
  then show "Exchange_ready \<notin> set es" "\<not> rem_finishes v \<Longrightarrow> r_startfinish s' = r_startfinish s"
    "r_InitQueryNum s \<le> r_InitQueryNum s' + (if rem_reports_state v then 1 else 0)" by blast+
qed

lemma rem_asked:
  "rem_ask init_orders q s = Inr (p', s', es) \<Longrightarrow>
     ((\<exists>q'. p' = Asking q' \<or> p' = Asked q')) \<and> Exchange_ready \<notin> set es"
  by (cases "(init_orders, q, s)" rule: rem_ask.cases) (auto simp: bind_out_Inr_iff split: if_splits)

lemma rem_stepped:
  assumes "rem_start_step init_orders t p s = Inr (p', s', es)" "\<forall>r. p \<noteq> Started r"
  shows "count_list es Exchange_ready = (if p' = Started True then 1 else 0) \<and>
    (awaited r_InitQueryNum (length init_orders) got p s \<longrightarrow>
     awaited r_InitQueryNum (length init_orders) got p' s')"
proof (cases p)
  case (Querying ords)
  then show ?thesis using assms(1) by (cases ords) (auto simp: send_then_Inr rem_Query_def)
next
  case (Asking q)
  then show ?thesis using assms(1) rem_asked [of init_orders q s p' s' es] by auto
qed (use assms in \<open>auto split: if_splits\<close>)

interpretation rem_start: polling_start "rem_start_step init_orders" "rem_handle Get cast tt"
  r_InitQueryNum rem_reports_state "length init_orders" r_startfinish rem_finishes
  for init_orders Get cast tt
proof unfold_locales
  fix t p s p' s' es got
  show "rem_start_step init_orders t p s = Inr (p', s', es) \<Longrightarrow> \<forall>r. p \<noteq> Started r \<Longrightarrow>
      count_list es Exchange_ready = (if p' = Started True then 1 else 0) \<and>
      (awaited r_InitQueryNum (length init_orders) got p s \<longrightarrow>
       awaited r_InitQueryNum (length init_orders) got p' s')"
    by (rule rem_stepped)
qed (auto simp: rem_handled split: if_splits dest: rem_handled)


section \<open>CTP\<close>

fun ctp_reports_state :: "ctp_event \<Rightarrow> bool" where
  "ctp_reports_state (Ctp_RspQryOrder r e) = (r \<noteq> None \<and> e \<noteq> None)"
| "ctp_reports_state v = False"

lemma ctp_handle_not_ready:
  assumes "ctp_handle acc cast v s = Inr (s', es)"
  shows "Exchange_ready \<notin> set es"
  using assms
  by (cases v) (auto simp: ctp_report_defs ctp_Add_def ctp_Delete_def ctp_Query_def quiet_Inr
      run_once_def ctp_OnFrontConnected_def ctp_OnRspUserLogin_def ctp_OnRspSettlementInfoConfirm_def
      ctp_OnRspQryOrder_def ctp_OnQryOrder_def bind_out_Inr_iff split: option.splits list.splits if_splits)

lemma ctp_handled:
  assumes "ctp_handle acc cast v s = Inr (s', es)"
  shows "Exchange_ready \<notin> set es \<and>
    c_InitQueryNum s \<le> c_InitQueryNum s' + (if ctp_reports_state v then 1 else 0)"
proof (cases "\<exists>r e. v = Ctp_RspQryOrder r e")
  case True
  then show ?thesis using assms ctp_handle_not_ready [OF assms]
    by (auto simp: ctp_OnRspQryOrder_def dest!: ctp_OnQryOrder_state split: option.splits)
next
  case False
  then show ?thesis using ctp_handle_waits [OF assms] ctp_handle_not_ready [OF assms] by auto
qed

lemma ctp_stepped:
  assumes "ctp_start_step acc init_orders t p s = Inr (p', s', es)" "\<forall>r. p \<noteq> Started r"
  shows "count_list es Exchange_ready = (if p' = Started True then 1 else 0) \<and>
    (awaited c_InitQueryNum (length init_orders) got p s \<longrightarrow>
     awaited c_InitQueryNum (length init_orders) got p' s')"
proof (cases p)
  case (Querying ords)
  then show ?thesis using assms(1)
    by (cases ords) (auto simp: send_then_Inr only_queues_def dest!: ctp_requests_queue(2))
qed (use assms in \<open>auto simp: bind_out_Inr_iff split: if_splits\<close>)

interpretation ctp_start: announcing_start "ctp_start_step acc init_orders" "ctp_handle acc cast"
  c_InitQueryNum ctp_reports_state "length init_orders" for acc init_orders cast
proof unfold_locales
  fix t p s p' s' es got
  show "ctp_start_step acc init_orders t p s = Inr (p', s', es) \<Longrightarrow> \<forall>r. p \<noteq> Started r \<Longrightarrow>
      count_list es Exchange_ready = (if p' = Started True then 1 else 0) \<and>
      (awaited c_InitQueryNum (length init_orders) got p s \<longrightarrow>
       awaited c_InitQueryNum (length init_orders) got p' s')"
    by (rule ctp_stepped)
qed (auto simp: ctp_handled split: if_splits dest: ctp_handled)

text \<open>Without a reference for any order, no query of an order is put on the queue.\<close>

definition asks_nothing :: "ctp_trader \<Rightarrow> ctp_trader \<Rightarrow> bool" where
  "asks_nothing s s' \<longleftrightarrow>
     c_client_orders_index s' = [] \<and>
     (\<forall>q. QueryOrderCommand q \<in> set (c_commandQueue s') \<longrightarrow>
       QueryOrderCommand q \<in> set (c_commandQueue s))"

lemma asks_nothing_trans: "asks_nothing s s1 \<Longrightarrow> asks_nothing s1 s2 \<Longrightarrow> asks_nothing s s2"
  by (simp add: asks_nothing_def)

lemma find_ref_Nil [simp]: "find_ref cl [] = None"
  by (simp add: find_ref_def)

lemma ctp_Query_unknown [simp]:
  "c_client_orders_index s = [] \<Longrightarrow> ctp_Query acc ord s = Inr (s, [])"
  by (simp add: ctp_Query_def reqQryOrder_def quiet_def)

lemma ctp_handle_asks_nothing:
  assumes "ctp_handle acc cast v s = Inr (s', es)" "\<nexists>ord. v = Ctp_Add ord"
    and "c_client_orders_index s = []"
  shows "asks_nothing s s'"
proof (cases "reports_only v")
  case True
  then show ?thesis using reports_only_state [OF assms(1)] assms(3) by (simp add: asks_nothing_def)
next
  case False
  then show ?thesis using assms
    by (cases v) (auto simp: asks_nothing_def ctp_Delete_def reqOrderAction_def quiet_Inr run_once_def
        ctp_OnFrontConnected_def ctp_login_def ctp_OnRspUserLogin_def comfirmSettlement_def
        ctp_OnRspSettlementInfoConfirm_def reqQueryInstrument_def ctp_OnRspQryOrder_def deref_ptr_def
        addCommand_Inr bind_out_Inr_iff dest!: ctp_OnQryOrder_state
        split: option.splits list.splits if_splits)
qed

lemma ctp_queries_ask_nothing:
  "reqQryTrade acc ords s = Inr s' \<Longrightarrow> c_client_orders_index s = [] \<Longrightarrow> s' = s"
  "queryPosition acc ords s = Inr s' \<Longrightarrow> c_client_orders_index s = [] \<Longrightarrow> asks_nothing s s'"
proof -
  show "reqQryTrade acc ords s = Inr s' \<Longrightarrow> c_client_orders_index s = [] \<Longrightarrow> s' = s"
    by (induction ords) simp_all
  show "queryPosition acc ords s = Inr s' \<Longrightarrow> c_client_orders_index s = [] \<Longrightarrow> asks_nothing s s'"
    by (induction ords arbitrary: s)
      (force simp: asks_nothing_def bind_out_Inr_iff addCommand_Inr)+
qed

lemma ctp_step_asks_nothing:
  assumes "ctp_start_step acc init_orders t p s = Inr (p', s', es)" "c_client_orders_index s = []"
  shows "asks_nothing s s'"
proof (cases "\<exists>q. p = Asking q")
  case True
  then obtain s1 where s1: "reqQryTrade acc init_orders s = Inr s1"
    "queryPosition acc init_orders s1 = Inr s'" using assms(1) by (auto simp: bind_out_Inr_iff)
  then show ?thesis using ctp_queries_ask_nothing(1) [OF s1(1) assms(2)]
      ctp_queries_ask_nothing(2) [OF s1(2)] assms(2) by simp
next
  case False
  then show ?thesis using assms
    by (cases "(acc, init_orders, t, p, s)" rule: ctp_start_step.cases)
      (auto simp: asks_nothing_def send_then_Inr split: if_splits)
qed

lemma ctp_run_asks_nothing:
  "start_run (ctp_start_step acc init_orders) (ctp_handle acc cast) vs p s = Inr (p', s', es) \<Longrightarrow>
     c_client_orders_index s = [] \<Longrightarrow> \<nexists>ord. Ctp_Add ord \<in> set (callbacks vs) \<Longrightarrow> asks_nothing s s'"
proof (induction vs arbitrary: p s es)
  case Nil
  then show ?case by (simp add: asks_nothing_def)
next
  case (Cons v vs)
  obtain p1 s1 es1 es2 where one: "asks_nothing s s1"
    "start_run (ctp_start_step acc init_orders) (ctp_handle acc cast) vs p1 s1 = Inr (p', s', es2)"
    using Cons.prems
    by (cases v) (auto simp: bind_out_Inr_iff dest: ctp_step_asks_nothing ctp_handle_asks_nothing)
  moreover have "\<nexists>ord. Ctp_Add ord \<in> set (callbacks vs)" using Cons.prems(3) by (cases v) auto
  ultimately show ?case using Cons.IH [OF one(2)] asks_nothing_trans [OF one(1)]
    by (simp add: asks_nothing_def)
qed


section \<open>The starts of the gateways\<close>


text \<open>
  Claim C16: the flag that says that an answer is complete is reset after the question is sent.
  An answer of Femas or REM that comes in between is lost: whatever happened before the reset,
  the start goes on waiting or fails unless another complete answer comes, and the exchange is
  not announced.  The positions that REM is asked for never complete an answer, as the callback
  for them does nothing, so that no start of the REM gateway with initial orders gets past them.
\<close>

theorem early_answers_are_lost:
  "(start_run (femas_start_step Get init_orders) (femas_handle Get cast) (Thread ft # fvs) (Asked fq) fs =
      Inr (fp, fs', fes) \<and> (\<forall>v \<in> set (callbacks fvs). \<not> femas_finishes v) \<longrightarrow>
    (fp = Awaiting fq \<or> fp = Started False) \<and> Exchange_ready \<notin> set fes) \<and>
   (start_run (rem_start_step init_orders) (rem_handle Get cast tt) (Thread rt # rvs) (Asked rq) rs =
      Inr (rp, rs', res) \<and> (\<forall>v \<in> set (callbacks rvs). \<not> rem_finishes v) \<longrightarrow>
    (rp = Awaiting rq \<or> rp = Started False) \<and> Exchange_ready \<notin> set res)"
  by (intro conjI impI; elim conjE)
    (blast dest: femas_start.answer_lost rem_start.answer_lost)+

text \<open>
  Claim C40: the start of a fresh CTP gateway with initial orders does not succeed.  No order has a
  reference yet, so that none of the queries for the states of the initial orders is put on the
  queue, under every interleaving with the callbacks in which no new order is placed; and
  unless the library reports the state of an order that nobody asked for, the start goes on
  waiting for the states or fails.
\<close>

theorem ctp_start_asks_for_no_order:
  assumes "start_run (ctp_start_step acc init_orders) (ctp_handle acc cast) vs Connecting s =
      Inr (p', s', es)"
    and "init_orders \<noteq> []" "c_client_orders_index s = []"
    and "\<nexists>ord. Ctp_Add ord \<in> set (callbacks vs)"
  shows "(\<forall>q. QueryOrderCommand q \<in> set (c_commandQueue s') \<longrightarrow>
      QueryOrderCommand q \<in> set (c_commandQueue s)) \<and>
    ((\<forall>v \<in> set (callbacks vs). \<not> ctp_reports_state v) \<longrightarrow>
      p' \<noteq> Started True \<and> Exchange_ready \<notin> set es)"
proof -
  have "asks_nothing s s'" by (rule ctp_run_asks_nothing [OF assms(1,3,4)])
  moreover have "p' \<noteq> Started True" if "\<forall>v \<in> set (callbacks vs). \<not> ctp_reports_state v"
    using ctp_start.ready_once(2) [OF assms(1)] that assms(2) by auto
  ultimately show ?thesis using ctp_start.ready_once(1) [OF assms(1)]
    by (auto simp: asks_nothing_def count_list_0_iff)
qed


section \<open>The properties on concrete starts\<close>

definition start_sample_trade :: vendor_trade where
  "start_sample_trade = \<lparr>t_order_ref = ''8'', t_OrderSysID = ''77'', t_OrderUserID = '''',
     t_TradeID = ''1'', t_UserID = ''acc'', t_InstrumentID = ''IF1709'', t_Direction = CHR ''0'',
     t_OffsetFlag = CHR ''0'', t_TradePrice = 5, t_TradeVolume = 1, t_ActionDay = '''', t_TradeTime = ''''\<rparr>"

definition start_sample_position :: vendor_position where
  "start_sample_position = \<lparr>vp_InvestorID = ''1'', vp_InstrumentID = ''IF1709'',
     vp_Direction = CHR ''0'', vp_Position = 1\<rparr>"

definition start_sample_instrument :: vendor_instrument where
  "start_sample_instrument = \<lparr>vi_InstrumentID = ''IF1709'', vi_PriceTick = 1,
     vi_VolumeMultiple = 300, vi_PreSettlementPrice = 5, vi_UpperLimitPrice = 6,
     vi_LowerLimitPrice = 4, vi_InstrumentID_1 = '''', vi_InstrumentID_2 = ''''\<rparr>"

text \<open>A start of Femas with one initial order that succeeds, of a gateway without a strategy.\<close>

definition start_sample_events :: "femas_event start_event list" where
  "start_sample_events =
     [Thread False, Thread False, Thread False,
      Callback (Femas_RspQryOrder (Some femas_sample_report) (Some 0)), Thread False,
      Thread False, Thread False, Callback (Femas_RspQryTrade (Some start_sample_trade) (Some 0) True),
      Thread False, Thread False, Thread False, Thread False,
      Callback (Femas_RspQryInvestorPosition (Some start_sample_position) (Some 0) True),
      Thread False, Thread False, Thread False, Thread False,
      Callback (Femas_RspQryInstrument (Some start_sample_instrument) (Some 0) True), Thread False]"

lemma start_sample_femas:
  "\<exists>s es. start_run (femas_start_step (\<lambda>_. ''1'') [ctp_sample_order]) (femas_handle (\<lambda>_. ''1'') (\<lambda>_. None))
     start_sample_events Connecting (femas_sample_state\<lparr>f_strategy := False\<rparr>) = Inr (Started True, s, es)"
  by (simp add: start_sample_events_def femas_sample_state_def femas_trader_new_def send_then_def
      femas_Query_def femas_ReqQryTrade_of_def femas_ReqQryInvestorPosition_of_def
      femas_ReqQryInstrument_all_def femas_query_fields_def femas_send_def femas_AddOrderId_def
      int_succ_def strcpy_field_def strncpy_field_def strcpy_def c_string_def Let_def
      femas_report_defs ctp_sample_order_def ems_order_default_def)


theorem early_answers_are_lost_witness:
  "\<exists>s es t es'.
     start_run (femas_start_step (\<lambda>_. ''1'') []) (femas_handle (\<lambda>_. ''1'') (\<lambda>_. None))
       [Thread False, Thread False] (Asked F_instruments) (femas_sample_state\<lparr>f_startfinish := True\<rparr>) =
       Inr (Awaiting F_instruments, s, es) \<and> Exchange_ready \<notin> set es \<and>
     start_run (rem_start_step [ctp_sample_order]) (rem_handle (\<lambda>_. ''1'') (\<lambda>_. None) rem_sample_time)
       [Thread False, Callback (Rem_AccountPosition None True), Thread True]
       (Asked (R_positions ''acc'' [])) rem_sample_state =
       Inr (Started False, t, es') \<and> Exchange_ready \<notin> set es'"
proof -
  obtain s es where f: "start_run (femas_start_step (\<lambda>_. ''1'') []) (femas_handle (\<lambda>_. ''1'') (\<lambda>_. None))
       [Thread False, Thread False] (Asked F_instruments) (femas_sample_state\<lparr>f_startfinish := True\<rparr>) =
       Inr (Awaiting F_instruments, s, es)"
    by simp
  obtain t es' where r: "start_run (rem_start_step [ctp_sample_order])
       (rem_handle (\<lambda>_. ''1'') (\<lambda>_. None) rem_sample_time)
       [Thread False, Callback (Rem_AccountPosition None True), Thread True]
       (Asked (R_positions ''acc'' [])) rem_sample_state = Inr (Started False, t, es')"
    by (simp add: rem_OnQueryAccountPosition_def)
  have "Exchange_ready \<notin> set es" "Exchange_ready \<notin> set es'"
    using early_answers_are_lost [THEN conjunct1, rule_format, OF conjI, OF f]
      early_answers_are_lost [THEN conjunct2, rule_format, OF conjI, OF r] by simp_all
  then show ?thesis using f r by blast
qed

theorem ctp_start_asks_for_no_order_witness:
  "\<exists>s' es. start_run (ctp_start_step ctp_sample_account [ctp_sample_order])
       (ctp_handle ctp_sample_account (\<lambda>_. None))
       [Callback (Ctp_RspSettlementInfoConfirm (Some ()) None), Thread False, Thread False, Thread False,
        Callback (Ctp_pass 0), Thread True] Connecting (ctp_trader_new True) =
       Inr (Started False, s', es) \<and> (\<nexists>q. QueryOrderCommand q \<in> set (c_commandQueue s'))"
proof -
  let ?vs = "[Callback (Ctp_RspSettlementInfoConfirm (Some ()) None), Thread False, Thread False,
        Thread False, Callback (Ctp_pass 0), Thread True]"
  have fresh: "c_client_orders_index (ctp_trader_new True) = []" "c_commandQueue (ctp_trader_new True) = []"
    by (simp_all add: ctp_trader_new_def)
  obtain s' es where run: "start_run (ctp_start_step ctp_sample_account [ctp_sample_order])
       (ctp_handle ctp_sample_account (\<lambda>_. None)) ?vs Connecting (ctp_trader_new True) =
       Inr (Started False, s', es)"
    by (simp add: ctp_OnRspSettlementInfoConfirm_def deref_ptr_def no_error_def quiet_def send_then_def
        reqQueryInstrument_def addCommand_def int_succ_def ctp_trader_new_def run_once_def)
  then show ?thesis using ctp_start_asks_for_no_order [OF run _ fresh(1)] fresh(2) by auto
qed

end
